(* ===== verification/Prelude.thy ===== *)
theory Prelude
  imports Main "HOL-Library.List_Lexorder" "HOL-Library.Char_ord" "HOL-Library.Product_Lexorder"
begin

section \<open>Prelude: effectful programs, tables and comparators\<close>

text \<open>
  What the components share. A TypeScript service function that awaits the database and the
  outside world is a \<^emph>\<open>program\<close>: a function from a machine state (database, process memory,
  outside world) to a thrown error or a value and the next machine state. A thrown error keeps
  every write made before it, except inside \<open>transactional\<close>, which restores the database as
  Prisma's \<^verbatim>\<open>$transaction\<close> does. The outside world is a type variable: an external call may
  answer anything, and answer differently each time. The Hoare triples below quantify over every
  memory and every world, so a proved triple holds whatever the outside world answers.
\<close>

named_theorems triple_rules \<open>syntax-directed rules for Hoare triples\<close>
named_theorems returns \<open>what it means that a program returned a value\<close>
named_theorems js_strings \<open>facts on JavaScript strings and their conversions\<close>

subsection \<open>Programs\<close>

record ('d, 'm, 'w) machine =
  db :: 'd
  mem :: 'm
  world :: 'w

type_synonym ('d, 'm, 'w, 'e, 'a) prog =
  "('d, 'm, 'w) machine \<Rightarrow> ('e + 'a) \<times> ('d, 'm, 'w) machine"

definition ret :: "'a \<Rightarrow> ('d, 'm, 'w, 'e, 'a) prog" where
  "ret x = (\<lambda>s. (Inr x, s))"

definition throw :: "'e \<Rightarrow> ('d, 'm, 'w, 'e, 'a) prog" where
  "throw e = (\<lambda>s. (Inl e, s))"

definition bindp ::
  "('d, 'm, 'w, 'e, 'a) prog \<Rightarrow> ('a \<Rightarrow> ('d, 'm, 'w, 'e, 'b) prog) \<Rightarrow> ('d, 'm, 'w, 'e, 'b) prog" where
  "bindp m f = (\<lambda>s. case m s of (Inl e, s') \<Rightarrow> (Inl e, s') | (Inr x, s') \<Rightarrow> f x s')"

definition thenp ::
  "('d, 'm, 'w, 'e, 'a) prog \<Rightarrow> ('d, 'm, 'w, 'e, 'b) prog \<Rightarrow> ('d, 'm, 'w, 'e, 'b) prog" where
  "thenp m n = bindp m (\<lambda>_. n)"

definition catchp ::
  "('d, 'm, 'w, 'e, 'a) prog \<Rightarrow> ('e \<Rightarrow> ('d, 'm, 'w, 'e, 'a) prog) \<Rightarrow> ('d, 'm, 'w, 'e, 'a) prog" where
  "catchp m h = (\<lambda>s. case m s of (Inl e, s') \<Rightarrow> h e s' | (Inr x, s') \<Rightarrow> (Inr x, s'))"

text \<open>A \<^verbatim>\<open>$transaction\<close>: an error restores the database, not the memory or the world.\<close>

definition transactional ::
  "('d, 'm, 'w, 'e, 'a) prog \<Rightarrow> ('d, 'm, 'w, 'e, 'a) prog" where
  "transactional m = (\<lambda>s. case m s of
     (Inl e, s') \<Rightarrow> (Inl e, s'\<lparr>db := db s\<rparr>)
   | (Inr x, s') \<Rightarrow> (Inr x, s'))"

definition db_get :: "('d \<Rightarrow> 'a) \<Rightarrow> ('d, 'm, 'w, 'e, 'a) prog" where
  "db_get f = (\<lambda>s. (Inr (f (db s)), s))"

definition db_mod :: "('d \<Rightarrow> 'd) \<Rightarrow> ('d, 'm, 'w, 'e, unit) prog" where
  "db_mod f = (\<lambda>s. (Inr (), s\<lparr>db := f (db s)\<rparr>))"

definition mem_get :: "('m \<Rightarrow> 'a) \<Rightarrow> ('d, 'm, 'w, 'e, 'a) prog" where
  "mem_get f = (\<lambda>s. (Inr (f (mem s)), s))"

definition mem_mod :: "('m \<Rightarrow> 'm) \<Rightarrow> ('d, 'm, 'w, 'e, unit) prog" where
  "mem_mod f = (\<lambda>s. (Inr (), s\<lparr>mem := f (mem s)\<rparr>))"

text \<open>An awaited external call: it sees and changes the outside world only.\<close>

definition extern :: "('w \<Rightarrow> ('e + 'a) \<times> 'w) \<Rightarrow> ('d, 'm, 'w, 'e, 'a) prog" where
  "extern g = (\<lambda>s. case g (world s) of (r, w) \<Rightarrow> (r, s\<lparr>world := w\<rparr>))"

definition whenp :: "bool \<Rightarrow> ('d, 'm, 'w, 'e, unit) prog \<Rightarrow> ('d, 'm, 'w, 'e, unit) prog" where
  "whenp c m = (if c then m else ret ())"

text \<open>A \<^verbatim>\<open>for ... of\<close> loop that threads an accumulator; and one whose body may break.\<close>

fun foldp :: "('b \<Rightarrow> 'a \<Rightarrow> ('d, 'm, 'w, 'e, 'a) prog) \<Rightarrow> 'b list \<Rightarrow> 'a \<Rightarrow> ('d, 'm, 'w, 'e, 'a) prog" where
  "foldp f [] a = ret a"
| "foldp f (x # xs) a = bindp (f x a) (foldp f xs)"

definition forp :: "('b \<Rightarrow> ('d, 'm, 'w, 'e, unit) prog) \<Rightarrow> 'b list \<Rightarrow> ('d, 'm, 'w, 'e, unit) prog" where
  "forp f xs = foldp (\<lambda>x _. f x) xs ()"

datatype 'a flow = Continue 'a | Break 'a

fun loopp :: "('b \<Rightarrow> 'a \<Rightarrow> ('d, 'm, 'w, 'e, 'a flow) prog) \<Rightarrow> 'b list \<Rightarrow> 'a \<Rightarrow> ('d, 'm, 'w, 'e, 'a) prog" where
  "loopp f [] a = ret a"
| "loopp f (x # xs) a =
     bindp (f x a) (\<lambda>r. case r of Continue b \<Rightarrow> loopp f xs b | Break b \<Rightarrow> ret b)"

lemmas prog_defs = ret_def throw_def bindp_def thenp_def catchp_def transactional_def db_get_def
  db_mod_def mem_get_def mem_mod_def extern_def whenp_def

lemma bindp_assoc: "bindp (bindp m f) g = bindp m (\<lambda>x. bindp (f x) g)"
  by (rule ext) (simp add: bindp_def split: prod.splits sum.splits)

lemma bindp_ret: "bindp (ret x) f = f x"
  by (rule ext) (simp add: bindp_def ret_def)

text \<open>A program that returned: every step of it did.\<close>

lemma bindp_returns [returns]:
  "bindp m f s = (Inr x, s') \<longleftrightarrow> (\<exists>y s1. m s = (Inr y, s1) \<and> f y s1 = (Inr x, s'))"
  by (auto simp: bindp_def split: prod.splits sum.splits)

lemma thenp_returns [returns]:
  "thenp m n s = (Inr x, s') \<longleftrightarrow> (\<exists>y s1. m s = (Inr y, s1) \<and> n s1 = (Inr x, s'))"
  by (simp add: thenp_def bindp_returns)

lemma ret_returns [returns]: "ret y s = (Inr x, s') \<longleftrightarrow> x = y \<and> s' = s"
  by (auto simp: ret_def)

lemma throw_returns [returns]: "throw e s = (Inr x, s') \<longleftrightarrow> False"
  by (simp add: throw_def)

lemma db_get_returns [returns]: "db_get f s = (Inr x, s') \<longleftrightarrow> x = f (db s) \<and> s' = s"
  by (auto simp: db_get_def)

lemma db_mod_returns [returns]: "db_mod f s = (Inr x, s') \<longleftrightarrow> s' = s\<lparr>db := f (db s)\<rparr>"
  by (auto simp: db_mod_def)

lemma mem_get_returns [returns]: "mem_get f s = (Inr x, s') \<longleftrightarrow> x = f (mem s) \<and> s' = s"
  by (auto simp: mem_get_def)

lemma mem_mod_returns [returns]: "mem_mod f s = (Inr x, s') \<longleftrightarrow> s' = s\<lparr>mem := f (mem s)\<rparr>"
  by (auto simp: mem_mod_def)

lemma extern_returns [returns]:
  "extern g s = (Inr x, s') \<longleftrightarrow> (\<exists>w. g (world s) = (Inr x, w) \<and> s' = s\<lparr>world := w\<rparr>)"
  by (auto simp: extern_def split: prod.splits)

subsection \<open>Hoare triples\<close>

text \<open>
  From a database with \<open>P\<close> the program returns a value \<open>x\<close> in a database with \<open>Q x\<close> or throws
  in a database with \<open>E\<close>, for every memory and every outside world.
\<close>

definition triple ::
  "('d \<Rightarrow> bool) \<Rightarrow> ('d, 'm, 'w, 'e, 'a) prog \<Rightarrow> ('a \<Rightarrow> 'd \<Rightarrow> bool) \<Rightarrow> ('d \<Rightarrow> bool) \<Rightarrow> bool" where
  "triple P m Q E \<longleftrightarrow>
     (\<forall>s. P (db s) \<longrightarrow> (case m s of (Inl e, s') \<Rightarrow> E (db s') | (Inr x, s') \<Rightarrow> Q x (db s')))"

text \<open>\<open>keeps I m\<close>: the database invariant \<open>I\<close> survives \<open>m\<close>, whether it returns or throws.\<close>

abbreviation keeps :: "('d \<Rightarrow> bool) \<Rightarrow> ('d, 'm, 'w, 'e, 'a) prog \<Rightarrow> bool" where
  "keeps I m \<equiv> triple I m (\<lambda>_. I) I"

lemma tripleI:
  assumes "\<And>s x s'. P (db s) \<Longrightarrow> m s = (Inr x, s') \<Longrightarrow> Q x (db s')"
    and "\<And>s e s'. P (db s) \<Longrightarrow> m s = (Inl e, s') \<Longrightarrow> E (db s')"
  shows "triple P m Q E"
  unfolding triple_def using assms by (auto split: prod.splits sum.splits)

lemma triple_Inr: "triple P m Q E \<Longrightarrow> P (db s) \<Longrightarrow> m s = (Inr x, s') \<Longrightarrow> Q x (db s')"
  unfolding triple_def by force

lemma triple_Inl: "triple P m Q E \<Longrightarrow> P (db s) \<Longrightarrow> m s = (Inl e, s') \<Longrightarrow> E (db s')"
  unfolding triple_def by force

lemma keepsD: "keeps I m \<Longrightarrow> I (db s) \<Longrightarrow> I (db (snd (m s)))"
  unfolding triple_def by (cases "m s"; cases "fst (m s)") force+

lemma keepsI: "(\<And>s. I (db s) \<Longrightarrow> I (db (snd (m s)))) \<Longrightarrow> keeps I m"
  by (rule tripleI) (metis snd_conv)+

lemma triple_conseq:
  "triple P m Q E \<Longrightarrow> (\<And>d. P' d \<Longrightarrow> P d) \<Longrightarrow> (\<And>x d. Q x d \<Longrightarrow> Q' x d) \<Longrightarrow> (\<And>d. E d \<Longrightarrow> E' d)
   \<Longrightarrow> triple P' m Q' E'"
  unfolding triple_def by (fastforce split: prod.splits sum.splits)

lemma triple_pre: "triple P m Q E \<Longrightarrow> (\<And>d. P' d \<Longrightarrow> P d) \<Longrightarrow> triple P' m Q E"
  by (erule triple_conseq) auto

lemma triple_ret: "(\<And>d. P d \<Longrightarrow> Q x d) \<Longrightarrow> triple P (ret x) Q E"
  by (simp add: triple_def ret_def)

lemma triple_throw: "(\<And>d. P d \<Longrightarrow> E d) \<Longrightarrow> triple P (throw e) Q E"
  by (simp add: triple_def throw_def)

lemma triple_bind:
  "triple P m B E \<Longrightarrow> (\<And>x. triple (B x) (f x) Q E) \<Longrightarrow> triple P (bindp m f) Q E"
  unfolding triple_def bindp_def by (fastforce split: prod.splits sum.splits)

text \<open>A pure fact on the intermediate value, or on the starting database, becomes a fact of the proof.\<close>

lemma triple_bind_val:
  "triple P m (\<lambda>x d. A x \<and> B x d) E \<Longrightarrow> (\<And>x. A x \<Longrightarrow> triple (B x) (f x) Q E) \<Longrightarrow> triple P (bindp m f) Q E"
  unfolding triple_def bindp_def by (fastforce split: prod.splits sum.splits)

lemma triple_given:
  assumes "\<And>d. P d \<Longrightarrow> triple P m Q E"
  shows "triple P m Q E"
  by (rule tripleI) (use assms in \<open>blast intro: triple_Inr triple_Inl\<close>)+

lemma triple_then:
  "triple P m (\<lambda>_. B) E \<Longrightarrow> triple B n Q E \<Longrightarrow> triple P (thenp m n) Q E"
  unfolding thenp_def by (rule triple_bind)

lemma triple_catch:
  "triple P m Q X \<Longrightarrow> (\<And>e. triple X (h e) Q E) \<Longrightarrow> triple P (catchp m h) Q E"
  unfolding triple_def catchp_def by (fastforce split: prod.splits sum.splits)

lemma triple_transactional:
  "triple P m Q (\<lambda>_. True) \<Longrightarrow> (\<And>d. P d \<Longrightarrow> E d) \<Longrightarrow> triple P (transactional m) Q E"
  unfolding triple_def transactional_def by (fastforce split: prod.splits sum.splits)

lemma triple_get: "(\<And>d. P d \<Longrightarrow> Q (f d) d) \<Longrightarrow> triple P (db_get f) Q E"
  by (simp add: triple_def db_get_def)

lemma triple_mod: "(\<And>d. P d \<Longrightarrow> Q () (f d)) \<Longrightarrow> triple P (db_mod f) Q E"
  by (simp add: triple_def db_mod_def)

lemma triple_mem_get: "(\<And>x d. P d \<Longrightarrow> Q x d) \<Longrightarrow> triple P (mem_get f) Q E"
  by (simp add: triple_def mem_get_def)

lemma triple_mem_mod: "(\<And>d. P d \<Longrightarrow> Q () d) \<Longrightarrow> triple P (mem_mod f) Q E"
  by (simp add: triple_def mem_mod_def)

lemma triple_extern: "(\<And>x d. P d \<Longrightarrow> Q x d) \<Longrightarrow> (\<And>d. P d \<Longrightarrow> E d) \<Longrightarrow> triple P (extern g) Q E"
  by (auto simp: triple_def extern_def split: prod.splits sum.splits)

text \<open>An external call whose answers satisfy a documented fact.\<close>

lemma triple_extern_val:
  assumes "\<And>w x w'. g w = (Inr x, w') \<Longrightarrow> A x" and "\<And>x d. A x \<Longrightarrow> P d \<Longrightarrow> Q x d"
    and "\<And>d. P d \<Longrightarrow> E d"
  shows "triple P (extern g) Q E"
  using assms by (fastforce simp: triple_def extern_def split: prod.splits sum.splits)

lemma triple_if:
  "(c \<Longrightarrow> triple P m Q E) \<Longrightarrow> (\<not> c \<Longrightarrow> triple P n Q E) \<Longrightarrow> triple P (if c then m else n) Q E"
  by simp

lemma triple_option:
  "(x = None \<Longrightarrow> triple P m Q E) \<Longrightarrow> (\<And>y. x = Some y \<Longrightarrow> triple P (n y) Q E)
   \<Longrightarrow> triple P (case x of None \<Rightarrow> m | Some y \<Rightarrow> n y) Q E"
  by (cases x) auto

lemma triple_sum:
  "(\<And>e. x = Inl e \<Longrightarrow> triple P (m e) Q E) \<Longrightarrow> (\<And>y. x = Inr y \<Longrightarrow> triple P (n y) Q E)
   \<Longrightarrow> triple P (case x of Inl e \<Rightarrow> m e | Inr y \<Rightarrow> n y) Q E"
  by (cases x) auto

lemma triple_prod:
  "(\<And>a b. x = (a, b) \<Longrightarrow> triple P (m a b) Q E) \<Longrightarrow> triple P (case x of (a, b) \<Rightarrow> m a b) Q E"
  by (cases x) auto

lemma triple_list:
  "(x = [] \<Longrightarrow> triple P m Q E) \<Longrightarrow> (\<And>y ys. x = y # ys \<Longrightarrow> triple P (n y ys) Q E)
   \<Longrightarrow> triple P (case x of [] \<Rightarrow> m | y # ys \<Rightarrow> n y ys) Q E"
  by (cases x) auto

lemma triple_when: "(c \<Longrightarrow> triple P m Q E) \<Longrightarrow> (\<And>d. \<not> c \<Longrightarrow> P d \<Longrightarrow> Q () d) \<Longrightarrow> triple P (whenp c m) Q E"
  by (simp add: whenp_def triple_ret)

lemma triple_foldp:
  assumes "\<And>x a. x \<in> set xs \<Longrightarrow> triple (I a) (f x a) I E"
  shows "triple (I a) (foldp f xs a) I E"
  using assms
proof (induction xs arbitrary: a)
  case Nil
  then show ?case by (simp add: triple_ret)
next
  case (Cons x xs)
  then show ?case by (auto intro!: triple_bind)
qed

lemma triple_forp:
  assumes "\<And>x. x \<in> set xs \<Longrightarrow> triple I (f x) (\<lambda>_. I) E"
  shows "triple I (forp f xs) (\<lambda>_. I) E"
  unfolding forp_def using assms by (rule triple_foldp)

lemma triple_loopp:
  assumes "\<And>x a. x \<in> set xs \<Longrightarrow>
      triple (I a) (f x a) (\<lambda>r. case r of Continue b \<Rightarrow> I b | Break b \<Rightarrow> I b) E"
  shows "triple (I a) (loopp f xs a) I E"
  using assms
proof (induction xs arbitrary: a)
  case Nil
  then show ?case by (simp add: triple_ret)
next
  case (Cons x xs)
  have step: "triple (case r of Continue b \<Rightarrow> I b | Break b \<Rightarrow> I b)
      (case r of Continue b \<Rightarrow> loopp f xs b | Break b \<Rightarrow> ret b) I E" for r
    by (cases r) (auto intro!: Cons triple_ret)
  show ?case
    by (auto intro!: triple_bind [OF Cons.prems] step)
qed

text \<open>Loops whose invariant speaks of the elements still to come.\<close>

lemma triple_foldp_rest:
  assumes "\<And>x rest a. triple (I (x # rest) a) (f x a) (I rest) E"
  shows "triple (I xs a) (foldp f xs a) (I []) E"
proof (induction xs arbitrary: a)
  case Nil
  then show ?case by (simp add: triple_ret)
next
  case (Cons x xs)
  then show ?case using assms by (auto intro!: triple_bind)
qed

lemma triple_loopp_rest:
  assumes "\<And>x rest a. triple (I (x # rest) a) (f x a)
      (\<lambda>r. case r of Continue b \<Rightarrow> I rest b | Break b \<Rightarrow> Q b) E"
    and "\<And>a d. I [] a d \<Longrightarrow> Q a d"
  shows "triple (I xs a) (loopp f xs a) Q E"
proof (induction xs arbitrary: a)
  case Nil
  then show ?case using assms(2) by (simp add: triple_ret)
next
  case (Cons x xs)
  have "triple (case r of Continue b \<Rightarrow> I xs b | Break b \<Rightarrow> Q b)
      (case r of Continue b \<Rightarrow> loopp f xs b | Break b \<Rightarrow> ret b) Q E" for r
    by (cases r) (auto intro!: Cons triple_ret)
  then show ?case by (auto intro!: triple_bind [OF assms(1)])
qed

lemma keeps_here: "keeps I m \<Longrightarrow> triple I m (\<lambda>_. I) (\<lambda>_. True)"
  by (erule triple_conseq) auto

lemma keeps_foldp: "(\<And>x a. x \<in> set xs \<Longrightarrow> keeps I (f x a)) \<Longrightarrow> keeps I (foldp f xs a)"
  by (rule triple_foldp)

lemma keeps_loopp:
  assumes "\<And>x a. x \<in> set xs \<Longrightarrow> keeps I (f x a)"
  shows "keeps I (loopp f xs a)"
proof -
  have const: "(\<lambda>r. case r of Continue b \<Rightarrow> I | Break b \<Rightarrow> I) = (\<lambda>_. I)"
    by (rule ext) (simp split: flow.split)
  show ?thesis
    by (rule triple_loopp [where I = "\<lambda>_. I"]) (simp add: const assms)
qed

lemma keeps_forp: "(\<And>x. x \<in> set xs \<Longrightarrow> keeps I (f x)) \<Longrightarrow> keeps I (forp f xs)"
  by (rule triple_forp)

lemma keeps_bind: "keeps I m \<Longrightarrow> (\<And>x. keeps I (f x)) \<Longrightarrow> keeps I (bindp m f)"
  by (rule triple_bind)

lemma keeps_then: "keeps I m \<Longrightarrow> keeps I n \<Longrightarrow> keeps I (thenp m n)"
  by (rule triple_then)

lemma keeps_catch: "keeps I m \<Longrightarrow> (\<And>e. keeps I (h e)) \<Longrightarrow> keeps I (catchp m h)"
  by (rule triple_catch)

lemma keeps_ret: "keeps I (ret x)"
  by (rule triple_ret)

lemma keeps_throw: "keeps I (throw e)"
  by (rule triple_throw)

lemma keeps_get: "keeps I (db_get f)"
  by (rule triple_get)

lemma keeps_mem_get: "keeps I (mem_get f)"
  by (rule triple_mem_get)

lemma keeps_mem_mod: "keeps I (mem_mod f)"
  by (rule triple_mem_mod)

lemma keeps_extern: "keeps I (extern g)"
  by (rule triple_extern)

lemma keeps_mod: "(\<And>d. I d \<Longrightarrow> I (f d)) \<Longrightarrow> keeps I (db_mod f)"
  by (rule triple_mod)

lemma keeps_when: "(c \<Longrightarrow> keeps I m) \<Longrightarrow> keeps I (whenp c m)"
  by (rule triple_when)

lemma keeps_transactional: "keeps I m \<Longrightarrow> keeps I (transactional m)"
  by (rule triple_transactional) (auto elim: triple_conseq)

lemmas keeps_rules =
  keeps_bind keeps_then keeps_catch keeps_ret keeps_throw keeps_get keeps_mem_get keeps_mem_mod
  keeps_extern keeps_when keeps_transactional keeps_foldp keeps_loopp keeps_forp
  triple_if triple_option triple_sum triple_prod triple_list

subsection \<open>Programs that only read\<close>

text \<open>
  From the database \<open>d\<close> the program leaves \<open>d\<close> as it is, and a value it returns satisfies the
  predicate. The rules are syntax directed: a step's predicate is what the rest of the program needs.
\<close>

definition reading :: "'d \<Rightarrow> ('d, 'm, 'w, 'e, 'a) prog \<Rightarrow> ('a \<Rightarrow> bool) \<Rightarrow> bool" where
  "reading d m \<Phi> \<longleftrightarrow> (\<forall>s r s'. db s = d \<longrightarrow> m s = (r, s') \<longrightarrow> db s' = d \<and> (\<forall>x. r = Inr x \<longrightarrow> \<Phi> x))"

lemma readingD: "reading (db s) m \<Phi> \<Longrightarrow> m s = (Inr x, s') \<Longrightarrow> \<Phi> x \<and> db s' = db s"
  unfolding reading_def by blast

lemma readingI:
  assumes "\<And>s e s'. db s = d \<Longrightarrow> m s = (Inl e, s') \<Longrightarrow> db s' = d"
    and "\<And>s x s'. db s = d \<Longrightarrow> m s = (Inr x, s') \<Longrightarrow> db s' = d \<and> \<Phi> x"
  shows "reading d m \<Phi>"
  unfolding reading_def
proof (intro allI impI)
  fix s r s' assume "db s = d" and "m s = (r, s')"
  then show "db s' = d \<and> (\<forall>x. r = Inr x \<longrightarrow> \<Phi> x)"
    using assms by (cases r) blast+
qed

lemma readingE:
  assumes "reading d m \<Phi>" and "db s = d"
  obtains e s' where "m s = (Inl e, s')" "db s' = d" | x s' where "m s = (Inr x, s')" "db s' = d" "\<Phi> x"
proof -
  obtain r s' where m: "m s = (r, s')" by (cases "m s")
  with assms have "db s' = d \<and> (\<forall>x. r = Inr x \<longrightarrow> \<Phi> x)"
    unfolding reading_def by blast
  with m that show thesis by (cases r) auto
qed

lemma reading_state: "reading (db s) m \<Phi> \<Longrightarrow> db (snd (m s)) = db s"
  by (erule readingE) auto

lemma reading_keeps: "reading (db s) m \<Phi> \<Longrightarrow> m s = (r, s') \<Longrightarrow> db s' = db s"
  unfolding reading_def by blast

lemma reading_mono: "reading d m \<Phi> \<Longrightarrow> (\<And>x. \<Phi> x \<Longrightarrow> \<Psi> x) \<Longrightarrow> reading d m \<Psi>"
  unfolding reading_def by blast

lemma reading_ret: "\<Phi> x \<Longrightarrow> reading d (ret x) \<Phi>"
  by (simp add: reading_def ret_def)

lemma reading_throw: "reading d (throw e) \<Phi>"
  by (simp add: reading_def throw_def)

lemma reading_bind:
  assumes "reading d m (\<lambda>x. reading d (f x) \<Phi>)"
  shows "reading d (bindp m f) \<Phi>"
proof (rule readingI)
  fix s e s' assume s: "db s = d" and run: "bindp m f s = (Inl e, s')"
  from assms s show "db s' = d"
    by (rule readingE) (use run in \<open>auto simp: bindp_def elim: readingE\<close>)
next
  fix s x s' assume s: "db s = d" and run: "bindp m f s = (Inr x, s')"
  from assms s show "db s' = d \<and> \<Phi> x"
    by (rule readingE) (use run in \<open>auto simp: bindp_def elim: readingE\<close>)
qed

lemma reading_then: "reading d m (\<lambda>_. reading d n \<Phi>) \<Longrightarrow> reading d (thenp m n) \<Phi>"
  unfolding thenp_def by (rule reading_bind)

lemma reading_catch:
  assumes "reading d m \<Phi>" and "\<And>e. reading d (h e) \<Phi>"
  shows "reading d (catchp m h) \<Phi>"
proof (rule readingI)
  fix s e s' assume s: "db s = d" and run: "catchp m h s = (Inl e, s')"
  from assms(1) s show "db s' = d"
    by (rule readingE) (use run assms(2) in \<open>auto simp: catchp_def dest: readingD reading_keeps\<close>)
next
  fix s x s' assume s: "db s = d" and run: "catchp m h s = (Inr x, s')"
  from assms(1) s show "db s' = d \<and> \<Phi> x"
    by (rule readingE) (use run assms(2) in \<open>auto simp: catchp_def dest: readingD reading_keeps\<close>)
qed

lemma reading_transactional:
  assumes "reading d m \<Phi>"
  shows "reading d (transactional m) \<Phi>"
proof (rule readingI)
  fix s e s' assume s: "db s = d" and run: "transactional m s = (Inl e, s')"
  from assms s show "db s' = d"
    by (rule readingE) (use run s in \<open>auto simp: transactional_def\<close>)
next
  fix s x s' assume s: "db s = d" and run: "transactional m s = (Inr x, s')"
  from assms s show "db s' = d \<and> \<Phi> x"
    by (rule readingE) (use run in \<open>auto simp: transactional_def\<close>)
qed

lemma reading_get: "\<Phi> (f d) \<Longrightarrow> reading d (db_get f) \<Phi>"
  by (simp add: reading_def db_get_def)

lemma reading_mem_get: "(\<And>x. \<Phi> x) \<Longrightarrow> reading d (mem_get f) \<Phi>"
  by (simp add: reading_def mem_get_def)

lemma reading_mem_mod: "\<Phi> () \<Longrightarrow> reading d (mem_mod f) \<Phi>"
  by (simp add: reading_def mem_mod_def)

lemma reading_extern: "(\<And>w x w'. g w = (Inr x, w') \<Longrightarrow> \<Phi> x) \<Longrightarrow> reading d (extern g) \<Phi>"
  by (rule readingI) (auto simp: extern_def split: prod.splits)

lemma reading_if:
  "(c \<Longrightarrow> reading d m \<Phi>) \<Longrightarrow> (\<not> c \<Longrightarrow> reading d n \<Phi>) \<Longrightarrow> reading d (if c then m else n) \<Phi>"
  by simp

lemma reading_option:
  "(x = None \<Longrightarrow> reading d m \<Phi>) \<Longrightarrow> (\<And>y. x = Some y \<Longrightarrow> reading d (n y) \<Phi>)
   \<Longrightarrow> reading d (case x of None \<Rightarrow> m | Some y \<Rightarrow> n y) \<Phi>"
  by (cases x) auto

lemma reading_sum:
  "(\<And>e. x = Inl e \<Longrightarrow> reading d (m e) \<Phi>) \<Longrightarrow> (\<And>y. x = Inr y \<Longrightarrow> reading d (n y) \<Phi>)
   \<Longrightarrow> reading d (case x of Inl e \<Rightarrow> m e | Inr y \<Rightarrow> n y) \<Phi>"
  by (cases x) auto

lemma reading_prod:
  "(\<And>a b. x = (a, b) \<Longrightarrow> reading d (m a b) \<Phi>) \<Longrightarrow> reading d (case x of (a, b) \<Rightarrow> m a b) \<Phi>"
  by (cases x) auto

lemmas reading_control = reading_ret reading_throw reading_bind reading_then reading_catch
  reading_transactional reading_get reading_mem_get reading_mem_mod reading_if
  reading_option reading_sum reading_prod

lemmas reading_rules = reading_control reading_extern

subsection \<open>Tables\<close>

text \<open>
  A table is the list of its rows in storage order. \<open>update_where\<close> is Prisma's \<^verbatim>\<open>updateMany\<close>
  (and, with a key as the condition, its \<^verbatim>\<open>update\<close>); \<^verbatim>\<open>findMany\<close> is \<open>filter\<close>, with
  \<^verbatim>\<open>orderBy\<close> the stable \<open>sort_key\<close>; \<^verbatim>\<open>findFirst\<close> is \<open>List.find\<close> on the ordered rows.
\<close>

definition update_where :: "('a \<Rightarrow> bool) \<Rightarrow> ('a \<Rightarrow> 'a) \<Rightarrow> 'a list \<Rightarrow> 'a list" where
  "update_where P f rows = map (\<lambda>r. if P r then f r else r) rows"

definition count_where :: "('a \<Rightarrow> bool) \<Rightarrow> 'a list \<Rightarrow> nat" where
  "count_where P rows = length (filter P rows)"

text \<open>The truth value of an optional text: absent and empty are falsy.\<close>

definition truthy :: "string option \<Rightarrow> bool" where
  "truthy x = (case x of None \<Rightarrow> False | Some t \<Rightarrow> t \<noteq> [])"

lemma length_update_where [simp]: "length (update_where P f rows) = length rows"
  by (simp add: update_where_def)

lemma set_update_where:
  "set (update_where P f rows) = {r. r \<in> set rows \<and> \<not> P r} \<union> f ` {r. r \<in> set rows \<and> P r}"
  by (auto simp: update_where_def)

lemma in_update_whereE:
  assumes "r \<in> set (update_where P f rows)"
  obtains "r \<in> set rows" "\<not> P r" | q where "q \<in> set rows" "P q" "r = f q"
  using assms by (auto simp: set_update_where)

lemma map_update_where: "(\<And>r. P r \<Longrightarrow> g (f r) = g r) \<Longrightarrow> map g (update_where P f rows) = map g rows"
  by (simp add: update_where_def)

lemma update_where_nth:
  "i < length rows \<Longrightarrow> update_where P f rows ! i = (if P (rows ! i) then f (rows ! i) else rows ! i)"
  by (simp add: update_where_def)

lemma update_where_cong:
  "(\<And>r. r \<in> set rows \<Longrightarrow> P r = Q r) \<Longrightarrow> (\<And>r. r \<in> set rows \<Longrightarrow> P r \<Longrightarrow> f r = g r)
   \<Longrightarrow> update_where P f rows = update_where Q g rows"
  by (simp add: update_where_def)

lemma filter_update_where:
  "(\<And>r. P r \<Longrightarrow> Q (f r) = Q r) \<Longrightarrow> filter Q (update_where P f rows) = update_where P f (filter Q rows)"
  by (induction rows) (auto simp: update_where_def)

lemma filter_other_rows:
  "(\<And>r. key (f r) = key r) \<Longrightarrow>
   filter (\<lambda>r. key r \<noteq> i) (update_where (\<lambda>r. key r = i) f rows) = filter (\<lambda>r. key r \<noteq> i) rows"
  by (induction rows) (auto simp: update_where_def)

lemma distinct_map_eq:
  "distinct (map g rows) \<Longrightarrow> r \<in> set rows \<Longrightarrow> q \<in> set rows \<Longrightarrow> g r = g q \<Longrightarrow> r = q"
  by (auto simp: distinct_map dest: inj_onD)

subsection \<open>Lower case\<close>

text \<open>
  \<^verbatim>\<open>toLowerCase\<close> on texts whose characters are below 256; addresses and hashes are ASCII.
\<close>

definition lower_char :: "char \<Rightarrow> char" where
  "lower_char c = (let n = (of_char c :: nat) in
     if (65 \<le> n \<and> n \<le> 90) \<or> (192 \<le> n \<and> n \<le> 222 \<and> n \<noteq> 215) then char_of (n + 32) else c)"

definition to_lower :: "string \<Rightarrow> string" where
  "to_lower s = map lower_char s"

lemma lower_char_idem [simp]: "lower_char (lower_char c) = lower_char c"
  by (auto simp: lower_char_def Let_def)

lemma to_lower_idem [simp]: "to_lower (to_lower s) = to_lower s"
  by (simp add: to_lower_def)

lemma to_lower_append: "to_lower (a @ b) = to_lower a @ to_lower b"
  by (simp add: to_lower_def)

lemma length_to_lower [simp]: "length (to_lower s) = length s"
  by (simp add: to_lower_def)

end
