(* ===== verification/Decimal.thy ===== *)
theory Decimal
  imports Prelude
begin

section \<open>Decimal text and JavaScript integers\<close>

text \<open>
  The program moves token amounts through decimal strings: \<^verbatim>\<open>BigInt(text)\<close> reads one and
  \<^verbatim>\<open>value.toString()\<close> prints one. This theory models both (\<open>js_bigint\<close>, \<open>show_int\<close>), the two
  regular expressions the billing code applies to such strings, and proves that printing and
  reading are inverse to each other.
\<close>

subsection \<open>Digits\<close>

definition digit_value :: "char \<Rightarrow> nat option" where
  "digit_value c = (let n = (of_char c :: nat) in
     if 48 \<le> n \<and> n \<le> 57 then Some (n - 48)
     else if 97 \<le> n \<and> n \<le> 122 then Some (n - 87)
     else if 65 \<le> n \<and> n \<le> 90 then Some (n - 55)
     else None)"

definition digit_char :: "nat \<Rightarrow> char" where
  "digit_char d = char_of (48 + d)"

definition is_digit :: "char \<Rightarrow> bool" where
  "is_digit c = (let n = (of_char c :: nat) in 48 \<le> n \<and> n \<le> 57)"

lemma of_char_digit_char: "d < 10 \<Longrightarrow> (of_char (digit_char d) :: nat) = 48 + d"
  by (simp add: digit_char_def)

lemma digit_value_digit_char [simp]: "d < 10 \<Longrightarrow> digit_value (digit_char d) = Some d"
  by (simp add: digit_value_def of_char_digit_char Let_def)

lemma is_digit_digit_char [simp]: "d < 10 \<Longrightarrow> is_digit (digit_char d)"
  by (simp add: is_digit_def of_char_digit_char Let_def)

lemma digit_char_0 [simp]: "digit_char 0 = CHR ''0''"
  by code_simp

lemma is_digit_value: "is_digit c \<Longrightarrow> \<exists>d<10. digit_value c = Some d"
  by (auto simp: is_digit_def digit_value_def Let_def)

lemma digit_char_eq_iff: "d < 10 \<Longrightarrow> e < 10 \<Longrightarrow> digit_char d = digit_char e \<longleftrightarrow> d = e"
  by (metis digit_value_digit_char option.inject)

subsection \<open>Reading and printing naturals\<close>

fun read_radix :: "nat \<Rightarrow> nat \<Rightarrow> string \<Rightarrow> nat option" where
  "read_radix b acc [] = Some acc"
| "read_radix b acc (c # cs) = (case digit_value c of
     None \<Rightarrow> None
   | Some d \<Rightarrow> if d < b then read_radix b (acc * b + d) cs else None)"

fun show_nat :: "nat \<Rightarrow> string" where
  "show_nat n = (if n < 10 then [digit_char n] else show_nat (n div 10) @ [digit_char (n mod 10)])"

declare show_nat.simps [simp del]

lemma read_radix_append:
  "read_radix b acc (xs @ ys) =
     (case read_radix b acc xs of None \<Rightarrow> None | Some v \<Rightarrow> read_radix b v ys)"
  by (induction b acc xs rule: read_radix.induct) (auto split: option.splits)

lemma read_show_nat [js_strings]: "read_radix 10 0 (show_nat n) = Some n"
proof (induction n rule: show_nat.induct)
  case (1 n)
  show ?case
    using 1 by (cases "n < 10")
      (simp_all add: show_nat.simps [of n] read_radix_append)
qed

lemma show_nat_nonempty [simp]: "show_nat n \<noteq> []"
  by (subst show_nat.simps) simp

lemma show_nat_digits: "list_all is_digit (show_nat n)"
proof (induction n rule: show_nat.induct)
  case (1 n)
  then show ?case by (subst show_nat.simps) auto
qed

text \<open>Reading a run of decimal digits always succeeds, and only the first digit can be special.\<close>

lemma read_digits_total: "list_all is_digit xs \<Longrightarrow> \<exists>v. read_radix 10 acc xs = Some v"
proof (induction xs arbitrary: acc)
  case (Cons c cs)
  then obtain d where "d < 10" "digit_value c = Some d"
    using is_digit_value by auto
  with Cons show ?case by auto
qed simp

lemma read_digits_append_value:
  assumes "list_all is_digit ys"
  shows "\<exists>w. read_radix 10 0 ys = Some w \<and> w < 10 ^ length ys \<and>
    read_radix 10 acc ys = Some (acc * 10 ^ length ys + w)"
  using assms
proof (induction ys rule: rev_induct)
  case Nil
  then show ?case by simp
next
  case (snoc c cs)
  have "is_digit c" and "list_all is_digit cs"
    using snoc.prems by simp_all
  with snoc.IH obtain d w where "d < 10" "digit_value c = Some d"
    and "read_radix 10 0 cs = Some w" "w < 10 ^ length cs"
    and "read_radix 10 acc cs = Some (acc * 10 ^ length cs + w)"
    using is_digit_value by blast
  then show ?case
    by (auto simp: read_radix_append algebra_simps)
qed

lemma read_zeros [simp]: "read_radix 10 0 (replicate k (CHR ''0'')) = Some 0"
proof (induction k)
  case (Suc k)
  then show ?case using digit_value_digit_char [of 0] by simp
qed simp

lemma is_digit_0 [simp]: "is_digit (CHR ''0'')"
  using is_digit_digit_char [of 0] by simp

subsection \<open>The regular expressions on amounts\<close>

text \<open>\<^verbatim>\<open>/^[1-9]\d*$/\<close>\<close>

definition positive_decimal :: "string \<Rightarrow> bool" where
  "positive_decimal s = (case s of
     [] \<Rightarrow> False
   | c # cs \<Rightarrow> is_digit c \<and> c \<noteq> CHR ''0'' \<and> list_all is_digit cs)"

text \<open>\<^verbatim>\<open>/^(?:0|[1-9]\d*)$/\<close>\<close>

definition natural_decimal :: "string \<Rightarrow> bool" where
  "natural_decimal s \<longleftrightarrow> s = ''0'' \<or> positive_decimal s"

text \<open>\<^verbatim>\<open>text.split('.')\<close> on a text with at most one point: the whole part and what follows it.\<close>

definition whole_part :: "string \<Rightarrow> string" where
  "whole_part s = takeWhile (\<lambda>c. c \<noteq> CHR ''.'') s"

definition fraction_part :: "string \<Rightarrow> string" where
  "fraction_part s = drop 1 (dropWhile (\<lambda>c. c \<noteq> CHR ''.'') s)"

text \<open>\<^verbatim>\<open>/^(?:0|[1-9]\d*)(?:\.\d{1,18})?$/\<close>\<close>

definition decimal_price :: "string \<Rightarrow> bool" where
  "decimal_price s \<longleftrightarrow> natural_decimal (whole_part s) \<and>
     (dropWhile (\<lambda>c. c \<noteq> CHR ''.'') s = [] \<or>
      (1 \<le> length (fraction_part s) \<and> length (fraction_part s) \<le> 18 \<and>
       list_all is_digit (fraction_part s)))"

definition pad_end :: "nat \<Rightarrow> char \<Rightarrow> string \<Rightarrow> string" where
  "pad_end n c s = s @ replicate (n - length s) c"

lemma digit_not_dot: "is_digit c \<Longrightarrow> c \<noteq> CHR ''.''"
  by (auto simp: is_digit_def Let_def)

lemma positive_decimal_digits: "positive_decimal s \<Longrightarrow> list_all is_digit s \<and> s \<noteq> []"
  by (cases s) (auto simp: positive_decimal_def)

lemma natural_decimal_digits: "natural_decimal s \<Longrightarrow> list_all is_digit s \<and> s \<noteq> []"
  by (auto simp: natural_decimal_def dest: positive_decimal_digits)

lemma show_nat_positive: "0 < n \<Longrightarrow> positive_decimal (show_nat n)"
proof (induction n rule: show_nat.induct)
  case (1 n)
  show ?case
  proof (cases "n < 10")
    case True
    with 1 show ?thesis
      using digit_char_eq_iff [of n 0] by (simp add: show_nat.simps [of n] positive_decimal_def)
  next
    case False
    then have "positive_decimal (show_nat (n div 10))"
      using 1 by simp
    with False show ?thesis
      by (simp add: show_nat.simps [of n] positive_decimal_def split: list.splits)
  qed
qed

lemma show_nat_0 [simp]: "show_nat 0 = ''0''"
  by (simp add: show_nat.simps)

lemma show_nat_natural: "natural_decimal (show_nat n)"
  by (cases "n = 0") (auto simp: natural_decimal_def show_nat_positive)

subsection \<open>BigInt\<close>

text \<open>
  \<^verbatim>\<open>BigInt(text)\<close>: surrounding white space is ignored, the empty text is 0, a sign is allowed
  before decimal digits only, the prefixes \<^verbatim>\<open>0x\<close>, \<^verbatim>\<open>0o\<close>, \<^verbatim>\<open>0b\<close> choose a radix; anything else
  throws (\<open>None\<close>).
\<close>

definition js_space :: "char \<Rightarrow> bool" where
  "js_space c = (let n = (of_char c :: nat) in (9 \<le> n \<and> n \<le> 13) \<or> n = 32 \<or> n = 160)"

definition js_trim :: "string \<Rightarrow> string" where
  "js_trim s = rev (dropWhile js_space (rev (dropWhile js_space s)))"

definition read_nonempty :: "nat \<Rightarrow> string \<Rightarrow> int option" where
  "read_nonempty b s = (if s = [] then None else map_option int (read_radix b 0 s))"

definition js_bigint :: "string \<Rightarrow> int option" where
  "js_bigint s = (let t = js_trim s in
     if t = [] then Some 0
     else if take 2 t \<in> {''0x'', ''0X''} then read_nonempty 16 (drop 2 t)
     else if take 2 t \<in> {''0o'', ''0O''} then read_nonempty 8 (drop 2 t)
     else if take 2 t \<in> {''0b'', ''0B''} then read_nonempty 2 (drop 2 t)
     else if hd t = CHR ''-'' then map_option uminus (read_nonempty 10 (tl t))
     else if hd t = CHR ''+'' then read_nonempty 10 (tl t)
     else read_nonempty 10 t)"

definition show_int :: "int \<Rightarrow> string" where
  "show_int i = (if i < 0 then CHR ''-'' # show_nat (nat (- i)) else show_nat (nat i))"

lemma digit_not_space: "is_digit c \<Longrightarrow> \<not> js_space c"
  by (auto simp: is_digit_def js_space_def Let_def)

lemma digit_not_sign: "is_digit c \<Longrightarrow> c \<noteq> CHR ''-'' \<and> c \<noteq> CHR ''+''"
  by (auto simp: is_digit_def Let_def)

lemma digit_not_radix: "is_digit c \<Longrightarrow> c \<notin> {CHR ''x'', CHR ''X'', CHR ''o'', CHR ''O'', CHR ''b'', CHR ''B''}"
  by (auto simp: is_digit_def Let_def)

lemma dropWhile_none: "list_all (\<lambda>c. \<not> P c) xs \<Longrightarrow> dropWhile P xs = xs"
  by (cases xs) auto

lemma js_trim_none: "list_all (\<lambda>c. \<not> js_space c) s \<Longrightarrow> js_trim s = s"
  by (simp add: js_trim_def dropWhile_none)

lemma js_trim_digits: "list_all is_digit s \<Longrightarrow> js_trim s = s"
  by (rule js_trim_none) (auto simp: list_all_iff digit_not_space)

lemma digits_no_prefix:
  assumes "list_all is_digit s" and "x \<in> {CHR ''x'', CHR ''X'', CHR ''o'', CHR ''O'', CHR ''b'', CHR ''B''}"
  shows "take 2 s \<noteq> [CHR ''0'', x]"
proof
  assume t: "take 2 s = [CHR ''0'', x]"
  have "x \<in> set (take 2 s)" unfolding t by simp
  then have "x \<in> set s" by (rule in_set_takeD)
  with assms digit_not_radix show False by (auto simp: list_all_iff)
qed

lemma js_bigint_digits:
  assumes "list_all is_digit s" and "s \<noteq> []"
  shows "js_bigint s = map_option int (read_radix 10 0 s)"
proof -
  have hd: "hd s \<noteq> CHR ''-''" "hd s \<noteq> CHR ''+''"
    using assms digit_not_sign by (cases s; auto)+
  show ?thesis
    using assms digits_no_prefix [OF assms(1)] hd
    by (simp add: js_bigint_def js_trim_digits Let_def read_nonempty_def)
qed

lemma js_bigint_show_nat [js_strings]: "js_bigint (show_nat n) = Some (int n)"
  by (simp add: js_bigint_digits show_nat_digits read_show_nat)

lemma js_bigint_show_int [js_strings, simp]: "js_bigint (show_int i) = Some i"
proof (cases "i < 0")
  case True
  let ?d = "show_nat (nat (- i))"
  have "list_all (\<lambda>c. \<not> js_space c) (CHR ''-'' # ?d)"
    using show_nat_digits [of "nat (- i)"] digit_not_space
    by (simp add: list_all_iff) (simp add: js_space_def)
  then have "js_trim (CHR ''-'' # ?d) = CHR ''-'' # ?d"
    by (rule js_trim_none)
  with True show ?thesis
    by (simp add: show_int_def js_bigint_def Let_def read_nonempty_def read_show_nat take_Cons')
next
  case False
  then show ?thesis by (simp add: show_int_def js_bigint_show_nat)
qed

lemma show_int_inject [simp]: "show_int i = show_int j \<longleftrightarrow> i = j"
  by (metis js_bigint_show_int option.inject)

lemma show_int_positive [js_strings]: "0 < i \<Longrightarrow> positive_decimal (show_int i)"
  by (simp add: show_int_def show_nat_positive)

lemma show_int_natural [js_strings]: "0 \<le> i \<Longrightarrow> natural_decimal (show_int i)"
  by (simp add: show_int_def show_nat_natural)

lemma positive_decimal_value:
  assumes "positive_decimal s"
  shows "\<exists>n>0. js_bigint s = Some n"
proof -
  obtain c cs where s: "s = c # cs" and c: "is_digit c" "c \<noteq> CHR ''0''" and cs: "list_all is_digit cs"
    using assms by (cases s) (auto simp: positive_decimal_def)
  obtain d where d: "d < 10" "digit_value c = Some d"
    using is_digit_value [OF c(1)] by auto
  have "d \<noteq> 0"
  proof
    assume "d = 0"
    with d(2) c have "(of_char c :: nat) = 48"
      by (auto simp: digit_value_def is_digit_def Let_def split: if_splits)
    then have "(of_char c :: nat) = of_char (CHR ''0'')" by simp
    then have "c = CHR ''0''" by (simp only: of_char_eq_iff)
    with c show False by simp
  qed
  obtain w where "read_radix 10 d cs = Some (d * 10 ^ length cs + w)"
    using read_digits_append_value [OF cs] by blast
  moreover have "0 < int d * 10 ^ length cs + int w"
    using \<open>d \<noteq> 0\<close> by (simp add: add_pos_nonneg)
  ultimately show ?thesis
    using d s c cs by (simp add: js_bigint_digits)
qed

lemma natural_decimal_value: "natural_decimal s \<Longrightarrow> \<exists>n\<ge>0. js_bigint s = Some n"
  using natural_decimal_digits [of s] read_digits_total [of s 0]
  by (force simp: js_bigint_digits)

end
