(* ===== verification/Billing.thy ===== *)
theory Billing
  imports Decimal
begin

section \<open>Billing arithmetic and price quotations\<close>

text \<open>
  The pure functions of \<^verbatim>\<open>packages/shared/src/ad-charges.ts\<close> and
  \<^verbatim>\<open>packages/shared/src/pre-usd-price.ts\<close>: the PRE amount of a click from its USD bid and a
  PRE/USD price text, the wallet refresh interval, and the freshness of a quotation. Prices are
  texts with at most eighteen decimals; no floating point is involved.
\<close>

subsection \<open>The PRE amount of one click\<close>

datatype bill_error = Invalid_USD_bid | Invalid_PRE_USD_price | Not_a_BigInt

text \<open>\<^verbatim>\<open>`${whole}${fraction.padEnd(18, '0')}`\<close>\<close>

definition price_digits :: "string \<Rightarrow> string" where
  "price_digits priceUsd = whole_part priceUsd @ pad_end 18 (CHR ''0'') (fraction_part priceUsd)"

definition billPreRaw :: "string \<Rightarrow> string \<Rightarrow> bill_error + string" where
  "billPreRaw bidUsdRaw priceUsd =
     (if \<not> positive_decimal bidUsdRaw then Inl Invalid_USD_bid
      else if \<not> decimal_price priceUsd then Inl Invalid_PRE_USD_price
      else case js_bigint (price_digits priceUsd) of
        None \<Rightarrow> Inl Not_a_BigInt
      | Some price \<Rightarrow>
          if price \<le> 0 then Inl Invalid_PRE_USD_price
          else (case js_bigint bidUsdRaw of
              None \<Rightarrow> Inl Not_a_BigInt
            | Some bid \<Rightarrow> Inr (show_int ((bid * 10 ^ 30) div price))))"

lemma fraction_digits: "decimal_price p \<Longrightarrow> list_all is_digit (fraction_part p) \<and> length (fraction_part p) \<le> 18"
proof -
  assume "decimal_price p"
  then consider "dropWhile (\<lambda>c. c \<noteq> CHR ''.'') p = []"
    | "list_all is_digit (fraction_part p) \<and> length (fraction_part p) \<le> 18"
    unfolding decimal_price_def by blast
  then show ?thesis
  proof cases
    case 1
    then have "fraction_part p = []" unfolding fraction_part_def by (simp only: drop_Nil)
    then show ?thesis by simp
  qed
qed

lemma price_digits_digits:
  assumes "decimal_price p"
  shows "list_all is_digit (price_digits p) \<and> price_digits p \<noteq> []"
  using fraction_digits [OF assms] natural_decimal_digits [of "whole_part p"] assms
  by (auto simp: price_digits_def pad_end_def decimal_price_def list_all_iff)

text \<open>The price text always denotes a natural number of units of \<open>10 ^ -18\<close> USD.\<close>

lemma price_digits_value: "decimal_price p \<Longrightarrow> \<exists>q\<ge>0. js_bigint (price_digits p) = Some q"
  using price_digits_digits [of p] read_digits_total [of "price_digits p" 0]
  by (force simp: js_bigint_digits)

text \<open>
  viem's \<^verbatim>\<open>formatUnits(value, 18)\<close> is third-party code and a parameter of the models that use it.
  What the billing code relies on is that it prints a decimal price denoting that value.
\<close>

definition units_printer :: "(int \<Rightarrow> string) \<Rightarrow> bool" where
  "units_printer formatUnits \<longleftrightarrow>
     (\<forall>v\<ge>0. decimal_price (formatUnits v) \<and> js_bigint (price_digits (formatUnits v)) = Some v)"

lemma units_printerD:
  "units_printer f \<Longrightarrow> 0 \<le> v \<Longrightarrow> decimal_price (f v) \<and> js_bigint (price_digits (f v)) = Some v"
  by (simp add: units_printer_def)

text \<open>On a positive bid and a positive price the amount is the exact floor, and nothing is thrown.\<close>

lemma billPreRaw_value:
  assumes "0 < bid" and "decimal_price p" and "js_bigint (price_digits p) = Some q" and "0 < q"
  shows "billPreRaw (show_int bid) p = Inr (show_int (bid * 10 ^ 30 div q))"
  using assms by (simp add: billPreRaw_def show_int_positive)

lemma billPreRaw_printed:
  assumes "units_printer f" and "0 < bid" and "0 < v"
  shows "billPreRaw (show_int bid) (f v) = Inr (show_int (bid * 10 ^ 30 div v))"
  using assms units_printerD [of f v] by (intro billPreRaw_value) auto

lemma billPreRaw_Inr:
  assumes "billPreRaw b p = Inr r"
  shows "\<exists>bid q. positive_decimal b \<and> decimal_price p \<and> js_bigint b = Some bid \<and> 0 < bid \<and>
    js_bigint (price_digits p) = Some q \<and> 0 < q \<and> r = show_int (bid * 10 ^ 30 div q)"
  using assms positive_decimal_value [of b]
  by (auto simp: billPreRaw_def split: if_splits option.splits)

lemma billPreRaw_throws_iff:
  "(\<exists>e. billPreRaw b p = Inl e) \<longleftrightarrow>
     \<not> positive_decimal b \<or> \<not> decimal_price p \<or> js_bigint (price_digits p) = Some 0"
proof -
  have "positive_decimal b \<Longrightarrow> decimal_price p \<Longrightarrow>
      (\<exists>e. billPreRaw b p = Inl e) \<longleftrightarrow> js_bigint (price_digits p) = Some 0"
    using positive_decimal_value [of b] price_digits_value [of p]
    by (auto simp: billPreRaw_def split: if_splits)
  then show ?thesis by (auto simp: billPreRaw_def)
qed

subsection \<open>A printer of units\<close>

text \<open>
  A printer with eighteen decimals, which shows that the hypothesis \<open>units_printer\<close> can hold.
\<close>

definition show_fraction18 :: "nat \<Rightarrow> string" where
  "show_fraction18 n = tl (show_nat (10 ^ 18 + n mod 10 ^ 18))"

definition show_units18 :: "int \<Rightarrow> string" where
  "show_units18 v = show_nat (nat v div 10 ^ 18) @ ''.'' @ show_fraction18 (nat v)"

lemma show_leading_one:
  "m < 10 ^ k \<Longrightarrow> \<exists>ds. show_nat (10 ^ k + m) = CHR ''1'' # ds \<and> length ds = k"
proof (induction k arbitrary: m)
  case 0
  have "digit_char 1 = CHR ''1''" by code_simp
  with 0 show ?case by (simp add: show_nat.simps)
next
  case (Suc k)
  have "(10 ^ Suc k + m) div 10 = 10 ^ k + m div 10" by simp
  moreover have "m div 10 < 10 ^ k" using Suc.prems by (simp add: less_mult_imp_div_less mult.commute)
  then obtain ds where "show_nat (10 ^ k + m div 10) = CHR ''1'' # ds" "length ds = k"
    using Suc.IH by blast
  moreover have "\<not> 10 ^ Suc k + m < 10"
  proof -
    have "10 * 1 \<le> 10 * (10 :: nat) ^ k" by (intro mult_le_mono) simp_all
    then have "10 \<le> 10 * 10 ^ k + m" by linarith
    then show ?thesis by simp
  qed
  ultimately show ?case by (subst show_nat.simps) simp
qed

lemma show_fraction18_facts:
  "length (show_fraction18 n) = 18 \<and> list_all is_digit (show_fraction18 n) \<and>
   read_radix 10 0 (show_fraction18 n) = Some (n mod 10 ^ 18)"
proof -
  obtain ds where ds: "show_nat (10 ^ 18 + n mod 10 ^ 18) = CHR ''1'' # ds" "length ds = 18"
    using show_leading_one [of "n mod 10 ^ 18" 18] by auto
  then have digits: "list_all is_digit ds"
    using show_nat_digits [of "10 ^ 18 + n mod 10 ^ 18"] by simp
  obtain w where w: "read_radix 10 0 ds = Some w" "read_radix 10 1 ds = Some (10 ^ 18 + w)"
    using read_digits_append_value [OF digits, of 1] ds(2) by auto
  have "read_radix 10 0 (CHR ''1'' # ds) = Some (10 ^ 18 + n mod 10 ^ 18)"
    using read_show_nat [of "10 ^ 18 + n mod 10 ^ 18"] ds(1) by simp
  moreover have "digit_value (CHR ''1'') = Some 1" by code_simp
  ultimately have "w = n mod 10 ^ 18" using w by simp
  with ds digits w show ?thesis by (simp add: show_fraction18_def)
qed

lemma show_units18_printer: "units_printer show_units18"
  unfolding units_printer_def
proof (intro allI impI)
  fix v :: int
  assume v: "0 \<le> v"
  let ?w = "show_nat (nat v div 10 ^ 18)" and ?f = "show_fraction18 (nat v)"
  have nodot: "\<forall>c\<in>set ?w. c \<noteq> CHR ''.''"
    using show_nat_digits digit_not_dot by (metis list_all_iff)
  have parts: "whole_part (show_units18 v) = ?w" "fraction_part (show_units18 v) = ?f"
    using nodot by (simp_all add: show_units18_def whole_part_def fraction_part_def
        takeWhile_append dropWhile_append)
  have price: "decimal_price (show_units18 v)"
    using parts show_fraction18_facts [of "nat v"] show_nat_natural
    by (simp add: decimal_price_def)
  have pad: "price_digits (show_units18 v) = ?w @ ?f"
    using parts show_fraction18_facts [of "nat v"] by (simp add: price_digits_def pad_end_def)
  have "read_radix 10 0 (?w @ ?f) = Some (nat v div 10 ^ 18 * 10 ^ 18 + nat v mod 10 ^ 18)"
    using read_digits_append_value [of ?f "nat v div 10 ^ 18"] show_fraction18_facts [of "nat v"]
    by (simp add: read_radix_append read_show_nat)
  also have "nat v div 10 ^ 18 * 10 ^ 18 + nat v mod 10 ^ 18 = nat v"
    by (rule div_mult_mod_eq)
  finally have "js_bigint (price_digits (show_units18 v)) = Some v"
    using v price_digits_digits [OF price] pad by (simp add: js_bigint_digits)
  with price show "decimal_price (show_units18 v) \<and>
      js_bigint (price_digits (show_units18 v)) = Some v" ..
qed

subsection \<open>The wallet refresh interval\<close>

definition AD_CHARGE_DEFAULT_INTERVAL :: int where
  "AD_CHARGE_DEFAULT_INTERVAL = 10"

text \<open>The settings are absent or hold the switch and the interval (\<open>None\<close>: not an integer).\<close>

definition adWalletRefreshIntervalMs :: "(bool \<times> int option) option \<Rightarrow> int" where
  "adWalletRefreshIntervalMs settings = (case settings of
     Some (True, Some minutes) \<Rightarrow>
       if 1 \<le> minutes \<and> minutes \<le> 2147483647 then minutes * 60000
       else AD_CHARGE_DEFAULT_INTERVAL * 60000
   | _ \<Rightarrow> AD_CHARGE_DEFAULT_INTERVAL * 60000)"

lemma adWalletRefreshIntervalMs_positive: "60000 \<le> adWalletRefreshIntervalMs settings"
  by (auto simp: adWalletRefreshIntervalMs_def AD_CHARGE_DEFAULT_INTERVAL_def
      split: option.splits prod.splits bool.splits)

subsection \<open>Freshness of a quotation\<close>

text \<open>
  \<open>quote_quotedAt\<close> is the time value of the quotation's date text, \<open>None\<close> where \<^verbatim>\<open>Date.parse\<close>
  gives NaN. All times are milliseconds since the epoch.
\<close>

record quote =
  quote_id :: string
  quote_priceUsd :: string
  quote_quotedAt :: "int option"

datatype quote_status = FRESH | STALE | MISSING

definition PRE_USD_PRICE_MAX_AGE_MS :: int where
  "PRE_USD_PRICE_MAX_AGE_MS = 30 * 60000"

definition preUsdPriceSnapshot :: "quote option \<Rightarrow> int \<Rightarrow> quote_status \<times> quote option" where
  "preUsdPriceSnapshot q now = (case q of
     None \<Rightarrow> (MISSING, None)
   | Some r \<Rightarrow>
       (case quote_quotedAt r of
          None \<Rightarrow> (STALE, Some r)
        | Some t \<Rightarrow>
            (let age = now - t
             in (if - 60000 \<le> age \<and> age \<le> PRE_USD_PRICE_MAX_AGE_MS then FRESH else STALE, Some r))))"

definition usablePreUsdQuote :: "quote_status \<times> quote option \<Rightarrow> quote option" where
  "usablePreUsdQuote snapshot = (if fst snapshot = FRESH then snd snapshot else None)"

lemma usablePreUsdQuote_iff:
  "usablePreUsdQuote (preUsdPriceSnapshot q now) = Some r \<longleftrightarrow>
     q = Some r \<and> (\<exists>t. quote_quotedAt r = Some t \<and> now - 1800000 \<le> t \<and> t \<le> now + 60000)"
  by (auto simp: usablePreUsdQuote_def preUsdPriceSnapshot_def PRE_USD_PRICE_MAX_AGE_MS_def
      Let_def split: option.splits)

subsection \<open>Properties of the billing arithmetic\<close>

text \<open>
  C5: On a positive bid and a decimal price that denotes a positive number, billing returns the
  exact floor of the bid over the price at thirty decimals: the amount never overcharges, and one
  more unit would.
\<close>

theorem billPreRaw_floor:
  assumes "0 < bid" and "decimal_price p" and "js_bigint (price_digits p) = Some q" and "0 < q"
  shows "\<exists>n. billPreRaw (show_int bid) p = Inr (show_int n) \<and> 0 \<le> n \<and>
    n * q \<le> bid * 10 ^ 30 \<and> bid * 10 ^ 30 < (n + 1) * q"
proof (intro exI conjI)
  let ?n = "bid * 10 ^ 30 div q"
  show "billPreRaw (show_int bid) p = Inr (show_int ?n)" using assms by (rule billPreRaw_value)
  show "0 \<le> ?n" using assms by (simp add: pos_imp_zdiv_nonneg_iff)
  have split: "bid * 10 ^ 30 = q * ?n + bid * 10 ^ 30 mod q" by simp
  have "0 \<le> bid * 10 ^ 30 mod q" "bid * 10 ^ 30 mod q < q" using assms(4) by simp_all
  then show "?n * q \<le> bid * 10 ^ 30" "bid * 10 ^ 30 < (?n + 1) * q"
    using split by (simp_all only: mult.commute [of q ?n] distrib_right mult_1)
qed

lemma billPreRaw_floor_witness:
  "\<exists>n. billPreRaw (show_int 250000) ''0.005'' = Inr (show_int n) \<and> 0 \<le> n \<and>
     n * 5000000000000000 \<le> 250000 * 10 ^ 30 \<and> 250000 * 10 ^ 30 < (n + 1) * 5000000000000000"
proof -
  have price: "decimal_price ''0.005''" "price_digits ''0.005'' = ''0005000000000000000''"
    "list_all is_digit ''0005000000000000000''" by code_simp+
  have "js_bigint (price_digits ''0.005'') = Some 5000000000000000"
    unfolding price(2) using js_bigint_digits [OF price(3)] by (simp add: digit_value_def)
  then show ?thesis by (intro billPreRaw_floor price(1)) simp_all
qed

text \<open>
  Billing throws exactly when the bid is not a positive decimal integer, the price is not a
  decimal with at most eighteen fraction digits, or the price denotes zero.
\<close>

theorem billPreRaw_throws:
  "(\<exists>e. billPreRaw b p = Inl e) \<longleftrightarrow>
     \<not> (positive_decimal b \<and> decimal_price p \<and> js_bigint (price_digits p) \<noteq> Some 0)"
  using billPreRaw_throws_iff [of b p] by blast

text \<open>
  A stored quotation is usable exactly when it exists, has a readable time, and that time is
  at most thirty minutes old and at most one minute ahead.
\<close>

theorem usablePreUsdQuote_fresh:
  "usablePreUsdQuote (preUsdPriceSnapshot q now) = Some r \<longleftrightarrow>
     q = Some r \<and> (\<exists>t. quote_quotedAt r = Some t \<and> now - 1800000 \<le> t \<and> t \<le> now + 60000)"
  by (rule usablePreUsdQuote_iff)

end
