(* ===== verification/Ledger.thy ===== *)
theory Ledger
  imports Billing
begin

section \<open>The keyword market tables\<close>

text \<open>
  The rows of \<^verbatim>\<open>packages/database/prisma/schema.prisma\<close> that the keyword market workers share:
  the click billing ledger (\<^verbatim>\<open>AdBillingClick\<close>, \<^verbatim>\<open>AdChargeBatch\<close>, \<^verbatim>\<open>AdChargeRun\<close>,
  \<^verbatim>\<open>AdChargeSettings\<close>), the price journal (\<^verbatim>\<open>AdPricePublication\<close>) with its
  quotations (\<^verbatim>\<open>PreUsdPrice\<close>) and the disposable chain
  projection (\<^verbatim>\<open>AdIndexerState\<close>, \<^verbatim>\<open>AdChainEvent\<close>, \<^verbatim>\<open>AdStakePosition\<close>). Amount columns of
  the billing ledger hold the integers their decimal texts denote: the code writes them with
  \<^verbatim>\<open>toString()\<close> and reads them with \<^verbatim>\<open>BigInt\<close>, which theory Decimal shows to be inverse.
  Columns that hold texts from outside (event payloads, projected positions) stay texts.
  Times are milliseconds since the epoch.
\<close>

subsection \<open>Error codes and thrown values\<close>

datatype error_code =
  AWAITING_CONTRACT | WORKER_UNAVAILABLE | KEYSTORE_MISSING | KEYSTORE_INVALID | OPERATOR_MISMATCH
| INSUFFICIENT_GAS | RPC_UNAVAILABLE | INDEXER_UNAVAILABLE | PRICE_UNAVAILABLE | POSITION_MISSING
| POSITION_VERSION_MISMATCH | INSUFFICIENT_STAKE | WAITING_CONFIRMATION | TRANSACTION_FAILED
| TRANSACTION_UNKNOWN | CHAIN_MISMATCH | CONTRACT_MISMATCH | CAPTURE_FAILED | CAPTURE_INTERRUPTED
| QUEUE_UNAVAILABLE | REORG_DETECTED | NONCE_GAP | CAPTURE_PROOF_ORPHANED
| PRICE_UPDATER_MISMATCH | PRICE_UPDATER_NOT_DEDICATED | NONCE_CONSUMED
| CLIENT_IP_UNAVAILABLE | DUPLICATE_CLIENT_WINDOW

text \<open>\<open>Failure\<close> is every other thrown value: an RPC error, a missing row, a database error.\<close>

datatype exn = ChargeBlocked error_code | PricePublicationBlocked error_code | Failure

subsection \<open>Rows\<close>

datatype click_status =
  C_CAPTURING | C_PENDING | C_PRICE_PENDING | C_RESERVED | C_SETTLED | C_UNCOLLECTABLE
| C_UNBILLED | C_SUPPRESSED

record click =
  click_id :: string
  click_revisionId :: string
  click_chainId :: int
  click_contractAddress :: string
  click_keywordId :: string
  click_keyword :: "nat list"
  click_stakerAddress :: string
  click_positionVersion :: int
  click_status :: click_status
  click_bidUsdRaw :: "int option"
  click_amountPreRaw :: "int option"
  click_priceUsd :: "string option"
  click_priceQuotedAt :: "int option"
  click_bidBlockNumber :: "int option"
  click_bidBlockHash :: "string option"
  click_priceBlockNumber :: "int option"
  click_priceBlockHash :: "string option"
  click_errorCode :: "error_code option"
  click_batchId :: "string option"
  click_clickedAt :: int

datatype batch_status =
  B_PREPARED | B_SIGNED | B_SUBMITTED | B_CONFIRMED | B_PARTIAL | B_FAILED | B_UNCOLLECTABLE
| B_RECONCILING

record batch =
  batch_id :: string
  batch_runId :: string
  batch_chargeId :: string
  batch_chainId :: int
  batch_contractAddress :: string
  batch_keywordId :: string
  batch_keyword :: "nat list"
  batch_stakerAddress :: string
  batch_positionVersion :: int
  batch_clickCount :: nat
  batch_duePreRaw :: int
  batch_requestedPreRaw :: int
  batch_chargedPreRaw :: "int option"
  batch_shortfallPreRaw :: "int option"
  batch_status :: batch_status
  batch_txHash :: "string option"
  batch_settledTxHash :: "string option"
  batch_signedTransaction :: "string option"
  batch_signerAddress :: "string option"
  batch_nonce :: "int option"
  batch_receiptBlockNumber :: "int option"
  batch_receiptBlockHash :: "string option"
  batch_errorCode :: "error_code option"
  batch_attemptCount :: nat
  batch_nextAttemptAt :: "int option"
  batch_createdAt :: int

datatype run_trigger = MANUAL | AUTO

datatype run_status = R_QUEUED | R_RUNNING | R_COMPLETED | R_PARTIAL | R_BLOCKED | R_FAILED

record run =
  run_id :: string
  run_chainId :: int
  run_contractAddress :: string
  run_trigger :: run_trigger
  run_status :: run_status
  run_errorCode :: "error_code option"
  run_startedAt :: "int option"
  run_finishedAt :: "int option"
  run_createdAt :: int

datatype readiness = Rd_WORKER_UNAVAILABLE | Rd_READY | Rd_BLOCKED | Rd_WAITING_CONFIRMATION

record charge_settings =
  set_chainId :: int
  set_contractAddress :: string
  set_automaticEnabled :: bool
  set_intervalMinutes :: int
  set_clickThreshold :: int
  set_workerHeartbeatAt :: "int option"
  set_reconciliationBlockNumber :: "int option"
  set_reconciliationBlockHash :: "string option"
  set_signerAddress :: "string option"
  set_operatorAddress :: "string option"
  set_gasBalanceRaw :: "int option"
  set_readiness :: readiness
  set_errorCode :: "error_code option"

datatype publication_status =
  P_PREPARED | P_SIGNED | P_SUBMITTED | P_RECONCILING | P_CONFIRMED | P_FAILED | P_SUPERSEDED

record publication =
  pub_id :: string
  pub_chainId :: int
  pub_contractAddress :: string
  pub_quoteId :: "string option"
  pub_priceE18Raw :: int
  pub_quotedAt :: int
  pub_status :: publication_status
  pub_signerAddress :: "string option"
  pub_nonce :: "int option"
  pub_txHash :: "string option"
  pub_signedTransaction :: "string option"
  pub_receiptBlockNumber :: "int option"
  pub_receiptBlockHash :: "string option"
  pub_errorCode :: "error_code option"
  pub_attemptCount :: nat
  pub_nextAttemptAt :: "int option"
  pub_createdAt :: int

record indexer_state =
  ix_key :: string
  ix_chainId :: int
  ix_contractAddress :: string
  ix_lastBlockNumber :: int
  ix_lastBlockHash :: string
  ix_minimumStakeRaw :: "string option"
  ix_paused :: "bool option"
  ix_operatorAddress :: "string option"
  ix_priceUpdaterAddress :: "string option"
  ix_preUsdPriceE18Raw :: "string option"
  ix_preUsdPriceQuotedAt :: "int option"
  ix_configBlockNumber :: "int option"
  ix_updatedAt :: int

text \<open>A JSON event payload; a text field is \<open>None\<close> where the JSON value is not a text.\<close>

record charged_payload =
  pay_chargeId :: "string option"
  pay_keywordId :: "string option"
  pay_staker :: "string option"
  pay_requestedPre :: "string option"
  pay_chargedPre :: "string option"
  pay_remainingPre :: "string option"

record position_payload =
  pos_keywordId :: string
  pos_stakerAddress :: string
  pos_stakeRaw :: string
  pos_previousStakeRaw :: string
  pos_bidUsdRaw :: string
  pos_requiredCoveragePreRaw :: string
  pos_eligible :: bool
  pos_withdrawAvailableAt :: string
  pos_positionVersion :: string

datatype event_payload = StakeCharged charged_payload | PositionChanged position_payload

record chain_event =
  ce_chainId :: int
  ce_contractAddress :: string
  ce_txHash :: string
  ce_logIndex :: int
  ce_blockNumber :: int
  ce_blockHash :: string
  ce_payload :: event_payload

record stake_position =
  sp_chainId :: int
  sp_contractAddress :: string
  sp_keywordId :: string
  sp_stakerAddress :: string
  sp_stakeRaw :: string
  sp_bidUsdRaw :: string
  sp_requiredCoveragePreRaw :: string
  sp_eligible :: bool
  sp_withdrawAvailableAt :: int
  sp_positionVersion :: int
  sp_stakeSinceBlock :: int
  sp_stakeSinceLogIndex :: int
  sp_amountSinceBlock :: int
  sp_amountSinceLogIndex :: int
  sp_positionBlock :: int
  sp_positionBlockHash :: string
  sp_positionTxHash :: string
  sp_positionLogIndex :: int
  sp_active :: bool

text \<open>A stored quotation; the decimal column is in units of \<open>10 ^ -18\<close> USD.\<close>

record price_row =
  pr_id :: string
  pr_priceE18 :: int
  pr_quotedAt :: int

record ad_db =
  adBillingClick :: "click list"
  adChargeBatch :: "batch list"
  adChargeRun :: "run list"
  adChargeSettings :: "charge_settings list"
  adPricePublication :: "publication list"
  adIndexerState :: "indexer_state list"
  adChainEvent :: "chain_event list"
  adStakePosition :: "stake_position list"
  preUsdPrice :: "price_row list"

subsection \<open>Writing rows\<close>

type_synonym ('m, 'w, 'a) ad_prog = "(ad_db, 'm, 'w, exn, 'a) prog"

definition update_clicks :: "(click \<Rightarrow> bool) \<Rightarrow> (click \<Rightarrow> click) \<Rightarrow> ('m, 'w, unit) ad_prog" where
  "update_clicks P f = db_mod (adBillingClick_update (update_where P f))"

text \<open>\<^verbatim>\<open>updateMany\<close> with the number of rows it changed.\<close>

definition update_clicks_count :: "(click \<Rightarrow> bool) \<Rightarrow> (click \<Rightarrow> click) \<Rightarrow> ('m, 'w, nat) ad_prog" where
  "update_clicks_count P f =
     bindp (db_get (\<lambda>d. count_where P (adBillingClick d)))
       (\<lambda>n. thenp (update_clicks P f) (ret n))"

definition update_batches :: "(batch \<Rightarrow> bool) \<Rightarrow> (batch \<Rightarrow> batch) \<Rightarrow> ('m, 'w, unit) ad_prog" where
  "update_batches P f = db_mod (adChargeBatch_update (update_where P f))"

text \<open>\<^verbatim>\<open>update\<close> and \<^verbatim>\<open>findUniqueOrThrow\<close> by id throw when there is no such row.\<close>

definition find_batch :: "string \<Rightarrow> ('m, 'w, batch) ad_prog" where
  "find_batch i = bindp (db_get (\<lambda>d. List.find (\<lambda>b. batch_id b = i) (adChargeBatch d)))
     (\<lambda>r. case r of None \<Rightarrow> throw Failure | Some b \<Rightarrow> ret b)"

definition update_batch :: "string \<Rightarrow> (batch \<Rightarrow> batch) \<Rightarrow> ('m, 'w, unit) ad_prog" where
  "update_batch i f = thenp (find_batch i) (update_batches (\<lambda>b. batch_id b = i) f)"

definition find_run :: "string \<Rightarrow> ('m, 'w, run) ad_prog" where
  "find_run i = bindp (db_get (\<lambda>d. List.find (\<lambda>r. run_id r = i) (adChargeRun d)))
     (\<lambda>r. case r of None \<Rightarrow> throw Failure | Some x \<Rightarrow> ret x)"

definition update_run :: "string \<Rightarrow> (run \<Rightarrow> run) \<Rightarrow> ('m, 'w, unit) ad_prog" where
  "update_run i f =
     thenp (find_run i) (db_mod (adChargeRun_update (update_where (\<lambda>r. run_id r = i) f)))"

definition find_publication :: "string \<Rightarrow> ('m, 'w, publication) ad_prog" where
  "find_publication i = bindp (db_get (\<lambda>d. List.find (\<lambda>p. pub_id p = i) (adPricePublication d)))
     (\<lambda>r. case r of None \<Rightarrow> throw Failure | Some x \<Rightarrow> ret x)"

definition update_publication ::
  "string \<Rightarrow> (publication \<Rightarrow> publication) \<Rightarrow> ('m, 'w, unit) ad_prog" where
  "update_publication i f = thenp (find_publication i)
     (db_mod (adPricePublication_update (update_where (\<lambda>p. pub_id p = i) f)))"

lemmas write_defs = update_clicks_def update_clicks_count_def update_batches_def find_batch_def
  update_batch_def find_run_def update_run_def find_publication_def update_publication_def

lemma triple_update_clicks:
  "(\<And>d. P d \<Longrightarrow> Q () (adBillingClick_update (update_where R f) d)) \<Longrightarrow> triple P (update_clicks R f) Q E"
  unfolding update_clicks_def by (rule triple_mod)

lemma triple_find_batch:
  assumes "\<And>b d. P d \<Longrightarrow> b \<in> set (adChargeBatch d) \<Longrightarrow> batch_id b = i \<Longrightarrow> Q b d" and "\<And>d. P d \<Longrightarrow> E d"
  shows "triple P (find_batch i) Q E"
  using assms unfolding triple_def find_batch_def prog_defs
  by (fastforce split: option.splits simp: find_Some_iff)

lemma triple_update_batch:
  assumes "\<And>d. P d \<Longrightarrow> Q () (adChargeBatch_update (update_where (\<lambda>b. batch_id b = i) f) d)"
    and "\<And>d. P d \<Longrightarrow> E d"
  shows "triple P (update_batch i f) Q E"
  unfolding update_batch_def update_batches_def
  by (rule triple_then [where B = P]) (auto intro!: triple_find_batch triple_mod assms)

text \<open>An update keeps an invariant when it does row by row.\<close>

lemma keeps_update_clicks:
  "(\<And>d. I d \<Longrightarrow> I (adBillingClick_update (update_where P f) d)) \<Longrightarrow> keeps I (update_clicks P f)"
  unfolding update_clicks_def by (rule keeps_mod)

lemma keeps_update_clicks_count:
  "(\<And>d. I d \<Longrightarrow> I (adBillingClick_update (update_where P f) d)) \<Longrightarrow> keeps I (update_clicks_count P f)"
  unfolding update_clicks_count_def by (intro keeps_rules keeps_update_clicks)

lemma keeps_update_batches:
  "(\<And>d. I d \<Longrightarrow> I (adChargeBatch_update (update_where P f) d)) \<Longrightarrow> keeps I (update_batches P f)"
  unfolding update_batches_def by (rule keeps_mod)

lemma keeps_find_batch: "keeps I (find_batch i)"
  unfolding find_batch_def by (intro keeps_rules)

lemma keeps_update_batch:
  "(\<And>d. I d \<Longrightarrow> I (adChargeBatch_update (update_where (\<lambda>b. batch_id b = i) f) d))
   \<Longrightarrow> keeps I (update_batch i f)"
  unfolding update_batch_def by (intro keeps_rules keeps_find_batch keeps_update_batches)

lemma keeps_find_run: "keeps I (find_run i)"
  unfolding find_run_def by (intro keeps_rules)

lemma keeps_update_run:
  "(\<And>d. I d \<Longrightarrow> I (adChargeRun_update (update_where (\<lambda>r. run_id r = i) f) d))
   \<Longrightarrow> keeps I (update_run i f)"
  unfolding update_run_def by (intro keeps_rules keeps_find_run keeps_mod)

lemma keeps_find_publication: "keeps I (find_publication i)"
  unfolding find_publication_def by (intro keeps_rules)

lemma keeps_update_publication:
  "(\<And>d. I d \<Longrightarrow> I (adPricePublication_update (update_where (\<lambda>p. pub_id p = i) f) d))
   \<Longrightarrow> keeps I (update_publication i f)"
  unfolding update_publication_def by (intro keeps_rules keeps_find_publication keeps_mod)

lemmas keeps_writes = keeps_find_batch keeps_find_run keeps_find_publication

end
