(* ===== verification/Comparators.thy ===== *)
theory Comparators
  imports Prelude "HOL-Library.Multiset"
begin

section \<open>Sorting with a comparator\<close>

text \<open>
  JavaScript sorts arrays with a comparison function and the sort is stable. \<open>sort_by\<close> is that
  sort; the locale \<open>comparison\<close> is the contract a comparison function must meet for the outcome to
  be defined, and \<open>identifying\<close> adds that only rows with the same key compare equal, which makes
  the outcome independent of the order of the input.
\<close>

fun insert_by :: "('a \<Rightarrow> 'a \<Rightarrow> int) \<Rightarrow> 'a \<Rightarrow> 'a list \<Rightarrow> 'a list" where
  "insert_by cmp x [] = [x]"
| "insert_by cmp x (y # ys) = (if cmp x y \<le> 0 then x # y # ys else y # insert_by cmp x ys)"

fun sort_by :: "('a \<Rightarrow> 'a \<Rightarrow> int) \<Rightarrow> 'a list \<Rightarrow> 'a list" where
  "sort_by cmp [] = []"
| "sort_by cmp (x # xs) = insert_by cmp x (sort_by cmp xs)"

lemma mset_insert_by [simp]: "mset (insert_by cmp x ys) = add_mset x (mset ys)"
  by (induction ys) auto

lemma mset_sort_by [simp]: "mset (sort_by cmp xs) = mset xs"
  by (induction xs) auto

lemma set_insert_by [simp]: "set (insert_by cmp x ys) = insert x (set ys)"
  by (induction ys) auto

lemma set_sort_by [simp]: "set (sort_by cmp xs) = set xs"
  by (induction xs) auto

lemma length_sort_by [simp]: "length (sort_by cmp xs) = length xs"
  by (metis mset_sort_by size_mset)

lemma distinct_sort_by [simp]: "distinct (sort_by cmp xs) = distinct xs"
  by (metis mset_sort_by mset_eq_imp_distinct_iff)

lemma distinct_map_sort_by [simp]: "distinct (map f (sort_by cmp xs)) = distinct (map f xs)"
  by (metis mset_sort_by mset_map mset_eq_imp_distinct_iff)

text \<open>Two comparisons that agree on the distinct rows of a list sort it alike.\<close>

lemma insert_by_cong:
  "(\<And>y. y \<in> set ys \<Longrightarrow> (cmp x y \<le> 0) = (cmp' x y \<le> 0)) \<Longrightarrow> insert_by cmp x ys = insert_by cmp' x ys"
  by (induction ys) auto

lemma sort_by_cong:
  assumes "distinct xs" and "\<And>x y. x \<in> set xs \<Longrightarrow> y \<in> set xs \<Longrightarrow> x \<noteq> y \<Longrightarrow> (cmp x y \<le> 0) = (cmp' x y \<le> 0)"
  shows "sort_by cmp xs = sort_by cmp' xs"
  using assms
proof (induction xs)
  case (Cons x xs)
  then have "sort_by cmp xs = sort_by cmp' xs" by simp
  moreover have "insert_by cmp x ys = insert_by cmp' x ys" if "set ys = set xs" for ys
    using Cons.prems that by (intro insert_by_cong) (metis distinct.simps(2) list.set_intros)
  ultimately show ?case by simp
qed simp

locale comparison =
  fixes cmp :: "'a \<Rightarrow> 'a \<Rightarrow> int"
  assumes flip: "cmp x y < 0 \<longleftrightarrow> 0 < cmp y x"
    and trans: "cmp x y \<le> 0 \<Longrightarrow> cmp y z \<le> 0 \<Longrightarrow> cmp x z \<le> 0"
begin

lemma total: "cmp x y \<le> 0 \<or> cmp y x \<le> 0"
  using flip [of x y] flip [of y x] by linarith

lemma self: "cmp x x = 0"
  using flip [of x x] by linarith

lemma zero_sym: "cmp x y = 0 \<Longrightarrow> cmp y x = 0"
  using flip [of x y] flip [of y x] by linarith

lemma less_le: "cmp x y < 0 \<Longrightarrow> cmp y z \<le> 0 \<Longrightarrow> cmp x z < 0"
  using trans [of x y z] trans [of y z x] zero_sym [of x z] flip [of x y] by (cases "cmp x z = 0") auto

lemma le_less: "cmp x y \<le> 0 \<Longrightarrow> cmp y z < 0 \<Longrightarrow> cmp x z < 0"
  using trans [of x y z] trans [of z x y] zero_sym [of x z] flip [of y z] by (cases "cmp x z = 0") auto

lemma eq_trans: "cmp x y = 0 \<Longrightarrow> cmp y z = 0 \<Longrightarrow> cmp x z = 0"
  using trans [of x y z] trans [of z y x] zero_sym flip [of z x] by fastforce

lemma insert_sorted:
  "sorted_wrt (\<lambda>x y. cmp x y \<le> 0) ys \<Longrightarrow> sorted_wrt (\<lambda>x y. cmp x y \<le> 0) (insert_by cmp x ys)"
proof (induction ys)
  case (Cons y ys)
  show ?case
  proof (cases "cmp x y \<le> 0")
    case True
    with Cons.prems show ?thesis by (auto intro: trans)
  next
    case False
    then have "cmp y x \<le> 0" using total by blast
    with False Cons show ?thesis by auto
  qed
qed simp

lemma sorted: "sorted_wrt (\<lambda>x y. cmp x y \<le> 0) (sort_by cmp xs)"
  by (induction xs) (auto intro: insert_sorted)

lemma first_best:
  assumes "sort_by cmp xs = x # rest" and "y \<in> set xs"
  shows "cmp x y \<le> 0"
proof -
  have "y \<in> set (x # rest)" using assms(2) set_sort_by [of cmp xs] unfolding assms(1) by simp
  then show ?thesis using sorted [of xs] self unfolding assms(1) by auto
qed

text \<open>The first row of the sorted list that satisfies a predicate is a best such row.\<close>

lemma find_best:
  assumes "List.find P (sort_by cmp xs) = Some x" and "y \<in> set xs" and "P y"
  shows "cmp x y \<le> 0"
proof -
  obtain i where i: "i < length (sort_by cmp xs)" "P (sort_by cmp xs ! i)" "x = sort_by cmp xs ! i"
    "\<forall>j<i. \<not> P (sort_by cmp xs ! j)"
    using assms(1) by (auto simp: find_Some_iff)
  have "y \<in> set (sort_by cmp xs)" using assms(2) by simp
  then obtain j where j: "j < length (sort_by cmp xs)" "sort_by cmp xs ! j = y"
    by (metis in_set_conv_nth)
  with i assms(3) have "i \<le> j" by (metis not_le)
  then show ?thesis
    using sorted_wrt_nth_less [OF sorted, of i j xs] i j self by (cases "i = j") auto
qed

end

text \<open>Comparing by an integer key, and by a second comparison where the first is equal.\<close>

definition orelse :: "('a \<Rightarrow> 'a \<Rightarrow> int) \<Rightarrow> ('a \<Rightarrow> 'a \<Rightarrow> int) \<Rightarrow> 'a \<Rightarrow> 'a \<Rightarrow> int" where
  "orelse c1 c2 x y = (if c1 x y \<noteq> 0 then c1 x y else c2 x y)"

lemma comparison_key: "comparison (\<lambda>x y. (f x :: int) - f y)"
  by unfold_locales auto

lemma comparison_linorder:
  "comparison (\<lambda>x y. if f x < (f y :: 'b :: linorder) then -1 else if f y < f x then 1 else 0)"
  by unfold_locales (auto split: if_splits)

lemma comparison_orelse:
  assumes c1: "comparison c1" and c2: "comparison c2"
  shows "comparison (orelse c1 c2)"
proof
  fix x y z
  show "orelse c1 c2 x y < 0 \<longleftrightarrow> 0 < orelse c1 c2 y x"
    using comparison.flip [OF c1, of x y] comparison.flip [OF c2, of x y]
      comparison.zero_sym [OF c1, of x y] comparison.zero_sym [OF c1, of y x]
    by (auto simp: orelse_def)
  assume xy: "orelse c1 c2 x y \<le> 0" and yz: "orelse c1 c2 y z \<le> 0"
  have le: "c1 x y \<le> 0" "c1 y z \<le> 0" using xy yz by (auto simp: orelse_def split: if_splits)
  show "orelse c1 c2 x z \<le> 0"
  proof (cases "c1 x y = 0 \<and> c1 y z = 0")
    case True
    then have "c1 x z = 0" using comparison.eq_trans [OF c1] by blast
    with True xy yz comparison.trans [OF c2, of x y z] show ?thesis by (simp add: orelse_def)
  next
    case False
    then have "c1 x z < 0"
      using le comparison.less_le [OF c1, of x y z] comparison.le_less [OF c1, of x y z] by linarith
    then show ?thesis by (simp add: orelse_def)
  qed
qed

locale identifying = comparison +
  fixes key :: "'a \<Rightarrow> 'k"
  assumes zero_key: "cmp x y = 0 \<longleftrightarrow> key x = key y"
begin

lemma strict:
  assumes "distinct (map key xs)"
  shows "sorted_wrt (\<lambda>x y. cmp x y < 0) (sort_by cmp xs)"
proof -
  let ?ys = "sort_by cmp xs"
  have "distinct (map key ?ys)" using assms by simp
  then have "key (?ys ! i) \<noteq> key (?ys ! j)" if "i < j" "j < length ?ys" for i j
    using that by (auto simp: distinct_conv_nth)
  then show ?thesis
    using sorted [of xs] zero_key by (fastforce simp: sorted_wrt_iff_nth_less order_le_less)
qed

lemma strictly_sorted_unique:
  "sorted_wrt (\<lambda>x y. cmp x y < 0) xs \<Longrightarrow> sorted_wrt (\<lambda>x y. cmp x y < 0) ys \<Longrightarrow> set xs = set ys \<Longrightarrow> xs = ys"
proof (induction xs arbitrary: ys)
  case (Cons x xs)
  then obtain y ys' where ys: "ys = y # ys'" by (cases ys) auto
  have irrefl: "\<not> cmp z z < 0" for z using self [of z] by simp
  have asym: "cmp a b < 0 \<Longrightarrow> \<not> cmp b a < 0" for a b using flip [of a b] by simp
  have "x = y"
  proof (rule ccontr)
    assume "x \<noteq> y"
    moreover have "x \<in> set (y # ys')" "y \<in> set (x # xs)" using Cons.prems(3) unfolding ys by auto
    ultimately have "x \<in> set ys'" "y \<in> set xs" by auto
    then have "cmp y x < 0" "cmp x y < 0" using Cons.prems(1,2) unfolding ys by auto
    then show False using asym by blast
  qed
  moreover have "x \<notin> set xs" "y \<notin> set ys'" using Cons.prems(1,2) irrefl unfolding ys by auto
  ultimately have "set xs = set ys'" using Cons.prems(3) unfolding ys by auto
  with Cons.IH Cons.prems(1,2) \<open>x = y\<close> show ?case unfolding ys by simp
qed simp

text \<open>The outcome depends on the rows only, not on the order they arrive in.\<close>

lemma permuted:
  assumes "distinct (map key xs)" and "mset xs = mset ys"
  shows "sort_by cmp xs = sort_by cmp ys"
proof -
  have "mset (map key xs) = mset (map key ys)" using assms(2) by simp
  then have ys: "distinct (map key ys)" using assms(1) mset_eq_imp_distinct_iff by blast
  show ?thesis
    by (rule strictly_sorted_unique [OF strict [OF assms(1)] strict [OF ys]])
      (simp only: set_sort_by mset_eq_setD [OF assms(2)])
qed

end

end
