(* ===== verification/Keywords.thy ===== *)
theory Keywords
  imports Comparators
begin

section \<open>Keywords and query candidates\<close>

text \<open>
  \<^verbatim>\<open>packages/shared/src/ads.ts\<close>. A text is the list of its code points. The Unicode tables the
  code reaches through the standard library (normalisation, lower case, the letter and number
  classes, collation) are a parameter \<open>unicode\<close>; no fact about them is needed.
\<close>

type_synonym utext = "nat list"

record unicode =
  nfkc :: "utext \<Rightarrow> utext"
  lowercase :: "utext \<Rightarrow> utext"
  word_point :: "nat \<Rightarrow> bool"
  locale_compare :: "utext \<Rightarrow> utext \<Rightarrow> int"

datatype text_error =
  Keyword_empty | Keyword_tokens | Keyword_characters | Query_characters | Query_empty | Query_tokens

definition ADS_MAX_QUERY_CHARACTERS :: nat where "ADS_MAX_QUERY_CHARACTERS = 256"
definition ADS_MAX_QUERY_TOKENS :: nat where "ADS_MAX_QUERY_TOKENS = 32"
definition ADS_MAX_KEYWORD_CHARACTERS :: nat where "ADS_MAX_KEYWORD_CHARACTERS = 64"
definition ADS_MAX_KEYWORD_TOKENS :: nat where "ADS_MAX_KEYWORD_TOKENS = 5"

lemmas ads_limits = ADS_MAX_QUERY_CHARACTERS_def ADS_MAX_QUERY_TOKENS_def
  ADS_MAX_KEYWORD_CHARACTERS_def ADS_MAX_KEYWORD_TOKENS_def

text \<open>The block confirmations the market waits for; \<open>None\<close> is the thrown error.\<close>

definition keywordMarketConfirmations :: "int \<Rightarrow> int option" where
  "keywordMarketConfirmations configured = (if configured < 1 then None else Some (min configured 4))"

subsection \<open>Tokens\<close>

text \<open>The maximal runs of letters and numbers, in order.\<close>

function words_of :: "(nat \<Rightarrow> bool) \<Rightarrow> utext \<Rightarrow> utext list" where
  "words_of p [] = []"
| "words_of p (c # cs) =
     (if p c then (c # takeWhile p cs) # words_of p (dropWhile p cs) else words_of p cs)"
  by pat_completeness auto
termination
  by (relation "measure (\<lambda>(p, cs). length cs)") (auto simp: le_imp_less_Suc length_dropWhile_le)

definition tokenizeAdsText :: "unicode \<Rightarrow> utext \<Rightarrow> utext list" where
  "tokenizeAdsText u value = words_of (word_point u) (lowercase u (nfkc u value))"

fun join_words :: "utext list \<Rightarrow> utext" where
  "join_words [] = []"
| "join_words [t] = t"
| "join_words (t # ts) = t @ 32 # join_words ts"

definition normalizeAdKeyword :: "unicode \<Rightarrow> utext \<Rightarrow> text_error + utext" where
  "normalizeAdKeyword u value =
     (let tokens = tokenizeAdsText u value in
      if tokens = [] then Inl Keyword_empty
      else if length tokens > ADS_MAX_KEYWORD_TOKENS then Inl Keyword_tokens
      else let keyword = join_words tokens in
        if length keyword > ADS_MAX_KEYWORD_CHARACTERS then Inl Keyword_characters else Inr keyword)"

text \<open>\<^verbatim>\<open>keccak256(toBytes(...))\<close> is third-party code and a parameter.\<close>

definition adKeywordId :: "unicode \<Rightarrow> (utext \<Rightarrow> string) \<Rightarrow> utext \<Rightarrow> text_error + string" where
  "adKeywordId u keccak value = (case normalizeAdKeyword u value of
     Inl e \<Rightarrow> Inl e | Inr keyword \<Rightarrow> Inr (keccak keyword))"

subsection \<open>Candidates\<close>

record candidate =
  cand_keyword :: utext
  cand_tokenCount :: nat
  cand_characterCount :: nat
  cand_startToken :: nat

text \<open>The two loops: every start, and every size that fits.\<close>

definition spans :: "nat \<Rightarrow> (nat \<times> nat) list" where
  "spans n = concat (map (\<lambda>start. map (\<lambda>width. (start, width))
     (filter (\<lambda>width. start + width \<le> n) [1..<ADS_MAX_KEYWORD_TOKENS + 1])) [0..<n])"

definition candidate_of :: "utext list \<Rightarrow> nat \<times> nat \<Rightarrow> candidate" where
  "candidate_of tokens p = (case p of (start, width) \<Rightarrow>
     (let keyword = join_words (take width (drop start tokens))
      in \<lparr>cand_keyword = keyword, cand_tokenCount = width, cand_characterCount = length keyword,
          cand_startToken = start\<rparr>))"

text \<open>An insertion-ordered map keyed by the keyword, replaced only by an earlier start.\<close>

fun put_candidate :: "candidate \<Rightarrow> candidate list \<Rightarrow> candidate list" where
  "put_candidate c [] = [c]"
| "put_candidate c (p # ps) =
     (if cand_keyword p = cand_keyword c
      then (if cand_startToken c < cand_startToken p then c else p) # ps
      else p # put_candidate c ps)"

definition candidate_map :: "utext list \<Rightarrow> candidate list" where
  "candidate_map tokens = foldl (\<lambda>m c. put_candidate c m) []
     (filter (\<lambda>c. cand_characterCount c \<le> ADS_MAX_KEYWORD_CHARACTERS)
       (map (candidate_of tokens) (spans (length tokens))))"

definition candidate_compare :: "unicode \<Rightarrow> candidate \<Rightarrow> candidate \<Rightarrow> int" where
  "candidate_compare u =
     orelse (\<lambda>l r. int (cand_tokenCount r) - int (cand_tokenCount l))
    (orelse (\<lambda>l r. int (cand_characterCount r) - int (cand_characterCount l))
    (orelse (\<lambda>l r. int (cand_startToken l) - int (cand_startToken r))
            (\<lambda>l r. locale_compare u (cand_keyword l) (cand_keyword r))))"

definition adsKeywordCandidates :: "unicode \<Rightarrow> utext \<Rightarrow> text_error + candidate list" where
  "adsKeywordCandidates u query =
     (let normalized = nfkc u query in
      if length normalized > ADS_MAX_QUERY_CHARACTERS then Inl Query_characters
      else let tokens = tokenizeAdsText u normalized in
        if tokens = [] then Inl Query_empty
        else if length tokens > ADS_MAX_QUERY_TOKENS then Inl Query_tokens
        else Inr (sort_by (candidate_compare u) (candidate_map tokens)))"

subsection \<open>Tokens hold word characters only and are not empty\<close>

lemma words_of_word: "t \<in> set (words_of p cs) \<Longrightarrow> t \<noteq> [] \<and> (\<forall>c\<in>set t. p c)"
proof (induction p cs rule: words_of.induct)
  case (2 p c cs)
  then show ?case using set_takeWhileD [of _ p cs] by (cases "p c") auto
qed simp

lemma words_of_keep: "\<forall>c\<in>set t. p c \<Longrightarrow> t \<noteq> [] \<Longrightarrow> words_of p t = [t]"
  by (cases t) (simp_all add: takeWhile_eq_all_conv [THEN iffD2] dropWhile_eq_Nil_conv [THEN iffD2])

lemma words_of_append:
  "\<forall>c\<in>set t. p c \<Longrightarrow> t \<noteq> [] \<Longrightarrow> \<not> p s \<Longrightarrow> words_of p (t @ s # cs) = t # words_of p cs"
  by (cases t) (simp_all add: takeWhile_append2 dropWhile_append2)

text \<open>Splitting a joined keyword gives its words back, as long as a space is no word character.\<close>

lemma words_of_join:
  assumes "\<not> p 32" and "\<forall>t\<in>set ts. t \<noteq> [] \<and> (\<forall>c\<in>set t. p c)"
  shows "words_of p (join_words ts) = ts"
  using assms(2)
proof (induction ts rule: join_words.induct)
  case (2 t)
  then show ?case by (simp add: words_of_keep)
next
  case (3 t t' ts)
  then show ?case using assms(1) by (simp add: words_of_append)
qed simp

subsection \<open>The candidate map\<close>

lemma set_spans: "(start, width) \<in> set (spans n) \<longleftrightarrow> 1 \<le> width \<and> width \<le> ADS_MAX_KEYWORD_TOKENS \<and> start + width \<le> n"
proof -
  have "(start, width) \<in> set (spans n) \<longleftrightarrow>
      start < n \<and> 1 \<le> width \<and> width \<le> ADS_MAX_KEYWORD_TOKENS \<and> start + width \<le> n"
    by (auto simp: spans_def image_iff)
  then show ?thesis by auto
qed

lemma sorted_spans: "sorted (map fst (spans n))"
proof -
  have sorted: "sorted (map fst (concat (map (\<lambda>start. map (\<lambda>width. (start, width)) (f start)) [a..<b])))"
    for f :: "nat \<Rightarrow> nat list" and a b :: nat
  proof (induction "b - a" arbitrary: a)
    case (Suc k)
    then have "a < b" by simp
    moreover have "map (fst \<circ> Pair a) xs = replicate (length xs) a" for xs :: "nat list"
      by (simp add: o_def map_replicate_const)
    ultimately show ?case
      using Suc(1) [of "Suc a"] Suc(2) by (auto simp: upt_conv_Cons sorted_append)
  qed simp
  show ?thesis unfolding spans_def by (rule sorted)
qed

lemma put_candidate_keywords:
  "cand_keyword ` set (put_candidate c m) = insert (cand_keyword c) (cand_keyword ` set m)"
  by (induction m) auto

lemma put_candidate_distinct:
  "distinct (map cand_keyword m) \<Longrightarrow> distinct (map cand_keyword (put_candidate c m))"
proof (induction m)
  case (Cons p m)
  have "cand_keyword p \<notin> cand_keyword ` set (put_candidate c m)" if "cand_keyword p \<noteq> cand_keyword c"
    using Cons.prems that by (simp add: put_candidate_keywords)
  with Cons show ?case by auto
qed simp

text \<open>
  Every entry is the first candidate with its keyword: starts come in increasing order, so the
  replacement by an earlier start never happens.
\<close>

lemma put_candidate_old:
  "\<forall>p\<in>set m. cand_startToken p \<le> cand_startToken c \<Longrightarrow>
   put_candidate c m = (if cand_keyword c \<in> cand_keyword ` set m then m else m @ [c])"
  by (induction m) auto

lemma candidate_fold:
  assumes "sorted (map cand_startToken cs)"
  shows "distinct (map cand_keyword (foldl (\<lambda>m c. put_candidate c m) [] cs)) \<and>
    set (foldl (\<lambda>m c. put_candidate c m) [] cs) \<subseteq> set cs \<and>
    cand_keyword ` set (foldl (\<lambda>m c. put_candidate c m) [] cs) = cand_keyword ` set cs \<and>
    (\<forall>p\<in>set (foldl (\<lambda>m c. put_candidate c m) [] cs). \<forall>c\<in>set cs.
       cand_keyword c = cand_keyword p \<longrightarrow> cand_startToken p \<le> cand_startToken c)"
  using assms
proof (induction cs rule: rev_induct)
  case (snoc c cs)
  let ?m = "foldl (\<lambda>m c. put_candidate c m) [] cs"
  have IH: "distinct (map cand_keyword ?m)" "set ?m \<subseteq> set cs" "cand_keyword ` set ?m = cand_keyword ` set cs"
    "\<forall>p\<in>set ?m. \<forall>c\<in>set cs. cand_keyword c = cand_keyword p \<longrightarrow> cand_startToken p \<le> cand_startToken c"
    using snoc by (auto simp: sorted_append)
  have le: "\<forall>p\<in>set cs. cand_startToken p \<le> cand_startToken c"
    using snoc.prems by (auto simp: sorted_append)
  then have "\<forall>p\<in>set ?m. cand_startToken p \<le> cand_startToken c" using IH(2) by blast
  from put_candidate_old [OF this] have put: "put_candidate c ?m =
      (if cand_keyword c \<in> cand_keyword ` set ?m then ?m else ?m @ [c])" .
  show ?case
  proof (cases "cand_keyword c \<in> cand_keyword ` set ?m")
    case True
    with IH le put show ?thesis by auto
  next
    case False
    have "distinct (map cand_keyword (?m @ [c]))" using False IH(1) by auto
    moreover have "\<forall>p\<in>set (?m @ [c]). \<forall>c'\<in>set (cs @ [c]).
        cand_keyword c' = cand_keyword p \<longrightarrow> cand_startToken p \<le> cand_startToken c'"
      using False IH le by (auto simp: image_iff)
    ultimately show ?thesis using False IH(2,3) put by auto
  qed
qed simp

definition fitting :: "utext list \<Rightarrow> candidate list" where
  "fitting tokens = filter (\<lambda>c. cand_characterCount c \<le> ADS_MAX_KEYWORD_CHARACTERS)
     (map (candidate_of tokens) (spans (length tokens)))"

lemma candidate_map_fold: "candidate_map tokens = foldl (\<lambda>m c. put_candidate c m) [] (fitting tokens)"
  by (simp add: candidate_map_def fitting_def)

lemma sorted_fitting: "sorted (map cand_startToken (fitting tokens))"
proof -
  have "map cand_startToken (map (candidate_of tokens) (spans n)) = map fst (spans n)" for n
    by (auto simp: candidate_of_def Let_def)
  then have "sorted (map cand_startToken (map (candidate_of tokens) (spans n)))" for n
    by (simp only: sorted_spans)
  then show ?thesis unfolding fitting_def by (rule sorted_filter)
qed

lemma set_fitting:
  "c \<in> set (fitting tokens) \<longleftrightarrow> (\<exists>start width. c = candidate_of tokens (start, width) \<and>
     1 \<le> width \<and> width \<le> 5 \<and> start + width \<le> length tokens \<and>
     length (join_words (take width (drop start tokens))) \<le> 64)"
proof -
  have "c \<in> set (fitting tokens) \<longleftrightarrow> (\<exists>start width. (start, width) \<in> set (spans (length tokens)) \<and>
      c = candidate_of tokens (start, width) \<and> cand_characterCount c \<le> 64)"
    by (auto simp: fitting_def ads_limits)
  then show ?thesis
    unfolding set_spans by (auto simp: ads_limits candidate_of_def Let_def)
qed

lemmas candidate_map_facts =
  candidate_fold [OF sorted_fitting, folded candidate_map_fold]

text \<open>Two candidates of the map with the same start and size are the same.\<close>

lemma candidate_map_identified:
  assumes "c \<in> set (candidate_map tokens)" and "c' \<in> set (candidate_map tokens)"
    and "cand_tokenCount c = cand_tokenCount c'" and "cand_startToken c = cand_startToken c'"
  shows "c = c'"
proof -
  have "c \<in> set (fitting tokens)" "c' \<in> set (fitting tokens)"
    using assms candidate_map_facts by blast+
  then obtain s z s' z' where "c = candidate_of tokens (s, z)" "c' = candidate_of tokens (s', z')"
    unfolding set_fitting by blast
  with assms(3,4) show ?thesis by (simp add: candidate_of_def Let_def)
qed

subsection \<open>The order of candidates\<close>

text \<open>The comparison without its last part, the collation.\<close>

definition candidate_order :: "candidate \<Rightarrow> candidate \<Rightarrow> int" where
  "candidate_order =
     orelse (\<lambda>l r. int (cand_tokenCount r) - int (cand_tokenCount l))
    (orelse (\<lambda>l r. int (cand_characterCount r) - int (cand_characterCount l))
            (\<lambda>l r. int (cand_startToken l) - int (cand_startToken r)))"

definition candidate_key :: "candidate \<Rightarrow> nat \<times> nat \<times> nat" where
  "candidate_key c = (cand_tokenCount c, cand_characterCount c, cand_startToken c)"

interpretation candidates: identifying candidate_order candidate_key
proof -
  have flip: "comparison (\<lambda>l r. int (f r) - int (f l))" for f :: "candidate \<Rightarrow> nat"
    by unfold_locales auto
  have order: "comparison candidate_order"
    unfolding candidate_order_def
    by (intro comparison_orelse flip comparison_key)
  then show "identifying candidate_order candidate_key"
    by (simp add: identifying_def identifying_axioms_def candidate_order_def candidate_key_def orelse_def)
qed

lemma candidate_map_keys: "distinct (map candidate_key (candidate_map tokens))"
proof -
  have "inj_on candidate_key (set (candidate_map tokens))"
    using candidate_map_identified by (auto simp: inj_on_def candidate_key_def)
  moreover have "distinct (candidate_map tokens)"
    using candidate_map_facts by (auto simp: distinct_map)
  ultimately show ?thesis by (simp add: distinct_map)
qed

lemma candidates_sorted_alike:
  "sort_by (candidate_compare u) (candidate_map tokens) = sort_by candidate_order (candidate_map tokens)"
proof (rule sort_by_cong)
  show "distinct (candidate_map tokens)" using candidate_map_facts by (auto simp: distinct_map)
  fix c c' assume c: "c \<in> set (candidate_map tokens)" "c' \<in> set (candidate_map tokens)" "c \<noteq> c'"
  then have "\<not> (cand_tokenCount c = cand_tokenCount c' \<and> cand_startToken c = cand_startToken c')"
    using candidate_map_identified by blast
  then show "(candidate_compare u c c' \<le> 0) = (candidate_order c c' \<le> 0)"
    by (auto simp: candidate_compare_def candidate_order_def orelse_def)
qed

subsection \<open>Properties of keywords\<close>

lemma ranked_facts:
  assumes "adsKeywordCandidates u query = Inr cs" and tokens: "tokens = tokenizeAdsText u (nfkc u query)"
  shows "distinct (map cand_keyword cs)"
    and "cand_keyword ` set cs = {k. \<exists>start width. k = join_words (take width (drop start tokens)) \<and>
      1 \<le> width \<and> width \<le> 5 \<and> start + width \<le> length tokens \<and> length k \<le> 64}"
    and "\<forall>c\<in>set cs. cand_keyword c = join_words (take (cand_tokenCount c) (drop (cand_startToken c) tokens)) \<and>
      cand_characterCount c = length (cand_keyword c) \<and>
      (\<forall>start width. 1 \<le> width \<and> width \<le> 5 \<and> start + width \<le> length tokens \<and>
         join_words (take width (drop start tokens)) = cand_keyword c \<longrightarrow> cand_startToken c \<le> start)"
    and "sorted_wrt (\<lambda>l r. cand_tokenCount r < cand_tokenCount l \<or> cand_tokenCount r = cand_tokenCount l \<and>
      (cand_characterCount r < cand_characterCount l \<or> cand_characterCount r = cand_characterCount l \<and>
       cand_startToken l < cand_startToken r)) cs"
proof -
  have cs: "cs = sort_by candidate_order (candidate_map tokens)"
    using assms(1) unfolding tokens
    by (auto simp: adsKeywordCandidates_def Let_def candidates_sorted_alike split: if_splits)
  have set_cs: "set cs = set (candidate_map tokens)" by (simp add: cs)
  show "distinct (map cand_keyword cs)" using candidate_map_facts by (simp add: cs)
  have "cand_keyword ` set cs = cand_keyword ` set (fitting tokens)"
    using candidate_map_facts [of tokens] by (simp add: cs)
  also have "\<dots> = {k. \<exists>start width. k = join_words (take width (drop start tokens)) \<and>
      1 \<le> width \<and> width \<le> 5 \<and> start + width \<le> length tokens \<and> length k \<le> 64}"
  proof (rule set_eqI)
    fix k
    have "k \<in> cand_keyword ` set (fitting tokens) \<longleftrightarrow> (\<exists>c. c \<in> set (fitting tokens) \<and> k = cand_keyword c)"
      by blast
    also have "\<dots> \<longleftrightarrow> (\<exists>start width. k = cand_keyword (candidate_of tokens (start, width)) \<and>
        1 \<le> width \<and> width \<le> 5 \<and> start + width \<le> length tokens \<and>
        length (join_words (take width (drop start tokens))) \<le> 64)"
      unfolding set_fitting by blast
    also have "\<dots> \<longleftrightarrow> (\<exists>start width. k = join_words (take width (drop start tokens)) \<and>
        1 \<le> width \<and> width \<le> 5 \<and> start + width \<le> length tokens \<and> length k \<le> 64)"
      by (intro ex_cong1) (auto simp: candidate_of_def Let_def)
    finally show "k \<in> cand_keyword ` set (fitting tokens) \<longleftrightarrow> k \<in> {k. \<exists>start width.
        k = join_words (take width (drop start tokens)) \<and>
        1 \<le> width \<and> width \<le> 5 \<and> start + width \<le> length tokens \<and> length k \<le> 64}"
      by simp
  qed
  finally show "cand_keyword ` set cs = {k. \<exists>start width. k = join_words (take width (drop start tokens)) \<and>
      1 \<le> width \<and> width \<le> 5 \<and> start + width \<le> length tokens \<and> length k \<le> 64}" .
  show "\<forall>c\<in>set cs. cand_keyword c = join_words (take (cand_tokenCount c) (drop (cand_startToken c) tokens)) \<and>
      cand_characterCount c = length (cand_keyword c) \<and>
      (\<forall>start width. 1 \<le> width \<and> width \<le> 5 \<and> start + width \<le> length tokens \<and>
         join_words (take width (drop start tokens)) = cand_keyword c \<longrightarrow> cand_startToken c \<le> start)"
  proof (intro ballI)
    fix c assume "c \<in> set cs"
    then have c: "c \<in> set (candidate_map tokens)" "c \<in> set (fitting tokens)"
      using candidate_map_facts [of tokens] set_cs by auto
    from c(2) obtain s w where "c = candidate_of tokens (s, w)" and short: "length (cand_keyword c) \<le> 64"
      unfolding set_fitting by (auto simp: candidate_of_def Let_def)
    then have shape: "cand_keyword c = join_words (take (cand_tokenCount c) (drop (cand_startToken c) tokens))"
      "cand_characterCount c = length (cand_keyword c)"
      by (simp_all add: candidate_of_def Let_def)
    have "cand_startToken c \<le> start"
      if "1 \<le> width" "width \<le> 5" "start + width \<le> length tokens"
        "join_words (take width (drop start tokens)) = cand_keyword c" for start width
    proof -
      have "candidate_of tokens (start, width) \<in> set (fitting tokens)"
        using that short unfolding set_fitting by (intro exI [of _ start] exI [of _ width]) simp
      moreover have "cand_keyword (candidate_of tokens (start, width)) = cand_keyword c"
        "cand_startToken (candidate_of tokens (start, width)) = start"
        using that(4) by (simp_all add: candidate_of_def Let_def)
      ultimately show ?thesis using candidate_map_facts [of tokens] c(1) by metis
    qed
    with shape show "cand_keyword c = join_words (take (cand_tokenCount c) (drop (cand_startToken c) tokens)) \<and>
      cand_characterCount c = length (cand_keyword c) \<and>
      (\<forall>start width. 1 \<le> width \<and> width \<le> 5 \<and> start + width \<le> length tokens \<and>
         join_words (take width (drop start tokens)) = cand_keyword c \<longrightarrow> cand_startToken c \<le> start)"
      by blast
  qed
  have "sorted_wrt (\<lambda>l r. candidate_order l r < 0) cs"
    unfolding cs by (rule candidates.strict [OF candidate_map_keys])
  then show "sorted_wrt (\<lambda>l r. cand_tokenCount r < cand_tokenCount l \<or> cand_tokenCount r = cand_tokenCount l \<and>
      (cand_characterCount r < cand_characterCount l \<or> cand_characterCount r = cand_characterCount l \<and>
       cand_startToken l < cand_startToken r)) cs"
    by (rule sorted_wrt_mono_rel [rotated]) (auto simp: candidate_order_def orelse_def split: if_splits)
qed

text \<open>
  C12: The candidates of a query are exactly its runs of one to five consecutive tokens that have at
  most 64 characters, each keyword once and at its earliest start, in strictly descending order of
  token count, then of characters, then by start.
\<close>

theorem adsKeywordCandidates_ranked:
  assumes "adsKeywordCandidates u query = Inr cs" and "tokens = tokenizeAdsText u (nfkc u query)"
  shows "distinct (map cand_keyword cs) \<and>
    cand_keyword ` set cs = {k. \<exists>start width. k = join_words (take width (drop start tokens)) \<and>
      1 \<le> width \<and> width \<le> 5 \<and> start + width \<le> length tokens \<and> length k \<le> 64} \<and>
    (\<forall>c\<in>set cs. cand_keyword c = join_words (take (cand_tokenCount c) (drop (cand_startToken c) tokens)) \<and>
      cand_characterCount c = length (cand_keyword c) \<and>
      (\<forall>start width. 1 \<le> width \<and> width \<le> 5 \<and> start + width \<le> length tokens \<and>
         join_words (take width (drop start tokens)) = cand_keyword c \<longrightarrow> cand_startToken c \<le> start)) \<and>
    sorted_wrt (\<lambda>l r. cand_tokenCount r < cand_tokenCount l \<or> cand_tokenCount r = cand_tokenCount l \<and>
      (cand_characterCount r < cand_characterCount l \<or> cand_characterCount r = cand_characterCount l \<and>
       cand_startToken l < cand_startToken r)) cs"
  using ranked_facts [OF assms] by blast

definition ascii :: unicode where
  "ascii = \<lparr>nfkc = id, lowercase = map (\<lambda>c. if 65 \<le> c \<and> c \<le> 90 then c + 32 else c),
     word_point = (\<lambda>c. (48 \<le> c \<and> c \<le> 57) \<or> (97 \<le> c \<and> c \<le> 122)), locale_compare = (\<lambda>a b. 0)\<rparr>"

lemma adsKeywordCandidates_ranked_witness:
  "\<exists>cs. adsKeywordCandidates ascii [65, 97, 32, 98] = Inr cs \<and>
     map cand_keyword cs = [[97, 97, 32, 98], [97, 97], [98]] \<and> distinct (map cand_keyword cs)"
proof -
  let ?cs = "[\<lparr>cand_keyword = [97, 97, 32, 98], cand_tokenCount = 2, cand_characterCount = 4, cand_startToken = 0\<rparr>,
    \<lparr>cand_keyword = [97, 97], cand_tokenCount = 1, cand_characterCount = 2, cand_startToken = 0\<rparr>,
    \<lparr>cand_keyword = [98], cand_tokenCount = 1, cand_characterCount = 1, cand_startToken = 1\<rparr>]"
  have cs: "adsKeywordCandidates ascii [65, 97, 32, 98] = Inr ?cs" by code_simp
  from adsKeywordCandidates_ranked [OF this refl, THEN conjunct1] cs show ?thesis
    by (intro exI [of _ ?cs] conjI) simp_all
qed

text \<open>
  The collation in the last place of the comparison never decides: the candidates of a query
  are the same whatever the collation answers.
\<close>

theorem adsKeywordCandidates_collation:
  "adsKeywordCandidates (u\<lparr>locale_compare := f\<rparr>) query = adsKeywordCandidates u query"
  by (simp add: adsKeywordCandidates_def tokenizeAdsText_def candidates_sorted_alike Let_def)

text \<open>
  Documented behaviour of \<^verbatim>\<open>toLowerCase\<close> and of NFKC. A text is lower case exactly when each of its code
  points is, and lower-casing gives a lower case text. A text of code points whose quick check is \<^verbatim>\<open>Yes\<close> (and which
  do not combine) is in normal form; the space is one of them.
\<close>

definition case_laws :: "unicode \<Rightarrow> bool" where
  "case_laws u \<longleftrightarrow> (\<forall>x. lowercase u (lowercase u x) = lowercase u x) \<and>
     (\<forall>x. lowercase u x = x \<longleftrightarrow> (\<forall>c\<in>set x. lowercase u [c] = [c])) \<and> lowercase u [32] = [32]"

definition quick_check :: "unicode \<Rightarrow> (nat \<Rightarrow> bool) \<Rightarrow> bool" where
  "quick_check u quick \<longleftrightarrow> (\<forall>x. (\<forall>c\<in>set x. quick c) \<longrightarrow> nfkc u x = x)"

lemma words_of_subset: "t \<in> set (words_of p cs) \<Longrightarrow> set t \<subseteq> set cs"
proof (induction p cs rule: words_of.induct)
  case (2 p c cs)
  then show ?case by (auto split: if_splits dest!: set_takeWhileD set_dropWhileD)
qed simp

lemma set_join_words: "set (join_words ts) \<subseteq> insert 32 (\<Union> (set ` set ts))"
  by (induction ts rule: join_words.induct) auto

text \<open>A token is made of lower case word points.\<close>

lemma token_points:
  assumes "case_laws u" and "t \<in> set (tokenizeAdsText u value)"
  shows "t \<noteq> [] \<and> (\<forall>c\<in>set t. word_point u c \<and> lowercase u [c] = [c])"
proof -
  have "\<forall>c\<in>set (lowercase u (nfkc u value)). lowercase u [c] = [c]"
    using assms(1) unfolding case_laws_def by blast
  moreover have "set t \<subseteq> set (lowercase u (nfkc u value))"
    using assms(2) words_of_subset unfolding tokenizeAdsText_def by blast
  ultimately show ?thesis
    using assms(2) words_of_word unfolding tokenizeAdsText_def by blast
qed

text \<open>
  C13: The stored form of a keyword is canonical. It is one to five words of lower case letters and numbers,
  separated by single spaces, of at most 64 characters. Every text that agrees with the entered one up to
  compatibility form and case has the identifier of that stored form. And a stored form whose code points pass
  the quick check of NFKC is its own stored form, so entering it again gives the same identifier.
\<close>

theorem adKeywordId_canonical:
  assumes "case_laws u" and "quick_check u quick" and "quick 32" and "\<not> word_point u 32"
    and "normalizeAdKeyword u value = Inr keyword"
  shows "(\<exists>ts. keyword = join_words ts \<and> 1 \<le> length ts \<and> length ts \<le> 5 \<and> length keyword \<le> 64 \<and>
      (\<forall>t\<in>set ts. t \<noteq> [] \<and> (\<forall>c\<in>set t. word_point u c \<and> lowercase u [c] = [c]))) \<and>
    (\<forall>value'. lowercase u (nfkc u value') = lowercase u (nfkc u value) \<longrightarrow>
      adKeywordId u keccak value' = Inr (keccak keyword)) \<and>
    ((\<forall>c\<in>set keyword. word_point u c \<longrightarrow> quick c) \<longrightarrow>
      normalizeAdKeyword u keyword = Inr keyword \<and> adKeywordId u keccak keyword = adKeywordId u keccak value)"
proof -
  let ?ts = "tokenizeAdsText u value"
  have k: "?ts \<noteq> []" "length ?ts \<le> 5" "keyword = join_words ?ts" "length keyword \<le> 64"
    using assms(5) by (auto simp: normalizeAdKeyword_def Let_def ads_limits split: if_splits)
  note word = token_points [OF assms(1), of _ "value"]
  have space: "lowercase u [c] = [c]" if "c \<in> set keyword" "c \<noteq> 32" for c
    using that set_join_words [of ?ts] word unfolding k(3) by blast
  have same: "normalizeAdKeyword u value' = Inr keyword" if "tokenizeAdsText u value' = ?ts" for value'
    using that assms(5) by (simp add: normalizeAdKeyword_def)
  show ?thesis
  proof (intro conjI allI impI)
    show "\<exists>ts. keyword = join_words ts \<and> 1 \<le> length ts \<and> length ts \<le> 5 \<and> length keyword \<le> 64 \<and>
        (\<forall>t\<in>set ts. t \<noteq> [] \<and> (\<forall>c\<in>set t. word_point u c \<and> lowercase u [c] = [c]))"
      using k word by (intro exI [of _ ?ts]) (simp add: Suc_le_eq)
  next
    fix value' assume "lowercase u (nfkc u value') = lowercase u (nfkc u value)"
    then have "normalizeAdKeyword u value' = Inr keyword" by (intro same) (simp add: tokenizeAdsText_def)
    then show "adKeywordId u keccak value' = Inr (keccak keyword)" by (simp add: adKeywordId_def)
  next
    assume quick: "\<forall>c\<in>set keyword. word_point u c \<longrightarrow> quick c"
    have "quick c" if "c \<in> set keyword" for c
      using that quick assms(3) set_join_words [of ?ts] word unfolding k(3) by blast
    then have "nfkc u keyword = keyword" using assms(2) unfolding quick_check_def by blast
    moreover have "lowercase u keyword = keyword"
      using space assms(1) unfolding case_laws_def by blast
    ultimately have "tokenizeAdsText u keyword = words_of (word_point u) keyword"
      by (simp add: tokenizeAdsText_def)
    also have "\<dots> = ?ts"
      unfolding k(3) by (rule words_of_join [of "word_point u", OF assms(4)]) (use word in blast)
    finally have n: "normalizeAdKeyword u keyword = Inr keyword" by (rule same)
    then show "normalizeAdKeyword u keyword = Inr keyword" .
    from n show "adKeywordId u keccak keyword = adKeywordId u keccak value"
      using assms(5) by (simp add: adKeywordId_def)
  qed
qed

lemma adKeywordId_canonical_witness:
  "normalizeAdKeyword ascii [97, 97, 32, 98] = Inr [97, 97, 32, 98] \<and>
   adKeywordId ascii (map char_of) [97, 65, 45, 45, 66] = Inr ''aa b''"
proof -
  have fixed: "map f x = x \<longleftrightarrow> (\<forall>c\<in>set x. f c = c)" for f :: "nat \<Rightarrow> nat" and x
    by (induction x) auto
  have laws: "case_laws ascii" "quick_check ascii (\<lambda>_. True)" "\<not> word_point ascii 32"
    by (auto simp: case_laws_def quick_check_def ascii_def fixed)
  have n: "normalizeAdKeyword ascii [65, 97, 45, 45, 98] = Inr [97, 97, 32, 98]" by code_simp
  have hash: "map char_of [97 :: nat, 97, 32, 98] = ''aa b''" by code_simp
  note c = adKeywordId_canonical [OF laws(1,2) TrueI laws(3) n, of "map char_of"]
  have "adKeywordId ascii (map char_of) [97, 65, 45, 45, 66] = Inr ''aa b''"
    using c unfolding hash by (simp add: ascii_def)
  moreover have "normalizeAdKeyword ascii [97, 97, 32, 98] = Inr [97, 97, 32, 98]" using c by simp
  ultimately show ?thesis by simp
qed

end
