(* ===== verification/Projection.thy ===== *)
theory Projection
  imports Ledger Keywords
begin

section \<open>The chain projection of the keyword market\<close>

text \<open>
  \<^verbatim>\<open>apps/worker/src/ads-projection.ts\<close>, \<^verbatim>\<open>packages/database/src/ads-projection.ts\<close> and the
  indexing pass of \<^verbatim>\<open>apps/worker/src/ads-chain-source.ts\<close>: position events of the contract are
  claimed once each and projected into rebuildable rows.
\<close>

subsection \<open>Position changes\<close>

record position_change =
  ch_chainId :: int
  ch_contractAddress :: string
  ch_keywordId :: string
  ch_stakerAddress :: string
  ch_stakeRaw :: string
  ch_previousStakeRaw :: string
  ch_bidUsdRaw :: string
  ch_requiredCoveragePreRaw :: string
  ch_eligible :: bool
  ch_withdrawAvailableAt :: int
  ch_positionVersion :: int
  ch_blockNumber :: int
  ch_blockHash :: string
  ch_txHash :: string
  ch_logIndex :: int

datatype apply_result = Applied bool | Stale_or_duplicate | Duplicate_event

definition hex_char :: "char \<Rightarrow> bool" where
  "hex_char c = (let n = (of_char c :: nat) in
     (48 \<le> n \<and> n \<le> 57) \<or> (65 \<le> n \<and> n \<le> 70) \<or> (97 \<le> n \<and> n \<le> 102))"

text \<open>\<^verbatim>\<open>/^0x[a-fA-F0-9]{n}$/\<close>\<close>

definition hex_text :: "nat \<Rightarrow> string \<Rightarrow> bool" where
  "hex_text n t \<longleftrightarrow> length t = n + 2 \<and> take 2 t = ''0x'' \<and> list_all hex_char (drop 2 t)"

definition validAddress :: "string \<Rightarrow> bool" where "validAddress t = hex_text 40 t"
definition validKeywordId :: "string \<Rightarrow> bool" where "validKeywordId t = hex_text 64 t"

definition eventAfter :: "int \<Rightarrow> int \<Rightarrow> int \<Rightarrow> int \<Rightarrow> bool" where
  "eventAfter blockNumber logIndex previousBlock previousLogIndex \<longleftrightarrow>
     blockNumber > previousBlock \<or> (blockNumber = previousBlock \<and> logIndex > previousLogIndex)"

type_synonym position_key = "int \<times> string \<times> string \<times> string"

definition change_key :: "position_change \<Rightarrow> position_key" where
  "change_key c = (ch_chainId c, to_lower (ch_contractAddress c), to_lower (ch_keywordId c),
     to_lower (ch_stakerAddress c))"

definition row_key :: "stake_position \<Rightarrow> position_key" where
  "row_key p = (sp_chainId p, sp_contractAddress p, sp_keywordId p, sp_stakerAddress p)"

definition find_position :: "position_key \<Rightarrow> ad_db \<Rightarrow> stake_position option" where
  "find_position k d = List.find (\<lambda>p. row_key p = k) (adStakePosition d)"

text \<open>The amounts the code parses; \<open>None\<close> is the thrown error.\<close>

definition change_amounts :: "position_change \<Rightarrow> (int \<times> int \<times> int \<times> int) option" where
  "change_amounts c = (case (js_bigint (ch_stakeRaw c), js_bigint (ch_bidUsdRaw c),
      js_bigint (ch_requiredCoveragePreRaw c), js_bigint (ch_previousStakeRaw c)) of
     (Some stake, Some bidUsd, Some coverage, Some previousStake) \<Rightarrow>
       Some (stake, bidUsd, coverage, previousStake)
   | _ \<Rightarrow> None)"

definition positionOpened :: "stake_position option \<Rightarrow> position_change \<Rightarrow> int \<Rightarrow> int \<Rightarrow> bool" where
  "positionOpened current c stake previousStake \<longleftrightarrow> (case current of
     None \<Rightarrow> True
   | Some p \<Rightarrow> (previousStake = 0 \<and> stake > 0) \<or> sp_positionVersion p \<noteq> ch_positionVersion c)"

definition amountChanged :: "stake_position option \<Rightarrow> int \<Rightarrow> bool" where
  "amountChanged current stake \<longleftrightarrow> (case current of
     None \<Rightarrow> True | Some p \<Rightarrow> sp_stakeRaw p \<noteq> show_int stake)"

definition projected ::
  "stake_position option \<Rightarrow> position_change \<Rightarrow> int \<Rightarrow> int \<Rightarrow> int \<Rightarrow> int \<Rightarrow> stake_position" where
  "projected current c stake bidUsd coverage previousStake =
     (let opened = positionOpened current c stake previousStake;
          changed = amountChanged current stake
      in \<lparr>sp_chainId = ch_chainId c, sp_contractAddress = to_lower (ch_contractAddress c),
          sp_keywordId = to_lower (ch_keywordId c), sp_stakerAddress = to_lower (ch_stakerAddress c),
          sp_stakeRaw = show_int stake, sp_bidUsdRaw = show_int bidUsd,
          sp_requiredCoveragePreRaw = show_int coverage, sp_eligible = ch_eligible c,
          sp_withdrawAvailableAt = ch_withdrawAvailableAt c,
          sp_positionVersion = ch_positionVersion c,
          sp_stakeSinceBlock = (if opened then ch_blockNumber c else sp_stakeSinceBlock (the current)),
          sp_stakeSinceLogIndex = (if opened then ch_logIndex c else sp_stakeSinceLogIndex (the current)),
          sp_amountSinceBlock = (if changed then ch_blockNumber c else sp_amountSinceBlock (the current)),
          sp_amountSinceLogIndex = (if changed then ch_logIndex c else sp_amountSinceLogIndex (the current)),
          sp_positionBlock = ch_blockNumber c, sp_positionBlockHash = to_lower (ch_blockHash c),
          sp_positionTxHash = to_lower (ch_txHash c), sp_positionLogIndex = ch_logIndex c,
          sp_active = (stake > 0)\<rparr>)"

definition upsert_position :: "stake_position \<Rightarrow> ad_db \<Rightarrow> ad_db" where
  "upsert_position p = adStakePosition_update (\<lambda>rows.
     if \<exists>q\<in>set rows. row_key q = row_key p then update_where (\<lambda>q. row_key q = row_key p) (\<lambda>_. p) rows
     else rows @ [p])"

definition applyAdPositionChange :: "position_change \<Rightarrow> ('m, 'w, apply_result) ad_prog" where
  "applyAdPositionChange c =
     (if \<not> validAddress (ch_contractAddress c) \<or> \<not> validAddress (ch_stakerAddress c) then throw Failure
      else if \<not> validKeywordId (ch_keywordId c) then throw Failure
      else case change_amounts c of
        None \<Rightarrow> throw Failure
      | Some (stake, bidUsd, coverage, previousStake) \<Rightarrow>
          if stake < 0 \<or> bidUsd < 0 \<or> coverage < 0 \<or> previousStake < 0 \<or>
             ch_withdrawAvailableAt c < 0 \<or> ch_positionVersion c < 0 then throw Failure
          else bindp (db_get (find_position (change_key c))) (\<lambda>current.
            if (case current of None \<Rightarrow> False | Some p \<Rightarrow> \<not> eventAfter (ch_blockNumber c) (ch_logIndex c)
                 (sp_positionBlock p) (sp_positionLogIndex p))
            then ret Stale_or_duplicate
            else thenp (db_mod (upsert_position (projected current c stake bidUsd coverage previousStake)))
              (ret (Applied (amountChanged current stake)))))"

subsection \<open>Claiming a finalized event\<close>

definition change_event :: "position_change \<Rightarrow> chain_event" where
  "change_event c = \<lparr>ce_chainId = ch_chainId c, ce_contractAddress = to_lower (ch_contractAddress c),
     ce_txHash = to_lower (ch_txHash c), ce_logIndex = ch_logIndex c, ce_blockNumber = ch_blockNumber c,
     ce_blockHash = to_lower (ch_blockHash c),
     ce_payload = PositionChanged \<lparr>pos_keywordId = to_lower (ch_keywordId c),
       pos_stakerAddress = to_lower (ch_stakerAddress c), pos_stakeRaw = ch_stakeRaw c,
       pos_previousStakeRaw = ch_previousStakeRaw c, pos_bidUsdRaw = ch_bidUsdRaw c,
       pos_requiredCoveragePreRaw = ch_requiredCoveragePreRaw c, pos_eligible = ch_eligible c,
       pos_withdrawAvailableAt = show_int (ch_withdrawAvailableAt c),
       pos_positionVersion = show_int (ch_positionVersion c)\<rparr>\<rparr>"

definition event_key :: "chain_event \<Rightarrow> int \<times> string \<times> string \<times> int" where
  "event_key e = (ce_chainId e, ce_contractAddress e, ce_txHash e, ce_logIndex e)"

text \<open>\<^verbatim>\<open>createMany\<close> of one row with \<^verbatim>\<open>skipDuplicates\<close>: the number of rows created.\<close>

definition claim_event :: "chain_event \<Rightarrow> ('m, 'w, nat) ad_prog" where
  "claim_event e = bindp (db_get (\<lambda>d. \<exists>x\<in>set (adChainEvent d). event_key x = event_key e)) (\<lambda>known.
     if known then ret 0 else thenp (db_mod (adChainEvent_update (\<lambda>es. es @ [e]))) (ret 1))"

definition applyFinalizedAdPositionChange :: "position_change \<Rightarrow> ('m, 'w, apply_result) ad_prog" where
  "applyFinalizedAdPositionChange c = bindp (claim_event (change_event c)) (\<lambda>count.
     if count \<noteq> 1 then ret Duplicate_event else applyAdPositionChange c)"

definition projectFinalizedAdPositionChange :: "position_change \<Rightarrow> ('m, 'w, apply_result) ad_prog" where
  "projectFinalizedAdPositionChange c = transactional (applyFinalizedAdPositionChange c)"

subsection \<open>The checkpoint\<close>

definition finalizedAdsBlock :: "int \<Rightarrow> int \<Rightarrow> int option" where
  "finalizedAdsBlock headBlock confirmations = (case keywordMarketConfirmations confirmations of
     None \<Rightarrow> None
   | Some n \<Rightarrow> Some (let distance = n - 1 in if headBlock > distance then headBlock - distance else 0))"

definition adsIndexerStateKey :: "int \<times> string \<Rightarrow> string" where
  "adsIndexerStateKey identity = show_int (fst identity) @ '':'' @ to_lower (snd identity)"

record contract_snapshot =
  sn_minimumStakeRaw :: string
  sn_paused :: bool
  sn_operatorAddress :: string
  sn_priceUpdaterAddress :: string
  sn_preUsdPriceE18Raw :: string
  sn_preUsdPriceQuotedAt :: int
  sn_configBlockNumber :: int

definition with_snapshot :: "contract_snapshot option \<Rightarrow> indexer_state \<Rightarrow> indexer_state" where
  "with_snapshot snapshot s = (case snapshot of None \<Rightarrow> s | Some n \<Rightarrow> s\<lparr>
     ix_minimumStakeRaw := Some (sn_minimumStakeRaw n), ix_paused := Some (sn_paused n),
     ix_operatorAddress := Some (sn_operatorAddress n),
     ix_priceUpdaterAddress := Some (sn_priceUpdaterAddress n),
     ix_preUsdPriceE18Raw := Some (sn_preUsdPriceE18Raw n),
     ix_preUsdPriceQuotedAt := Some (sn_preUsdPriceQuotedAt n),
     ix_configBlockNumber := Some (sn_configBlockNumber n)\<rparr>)"

definition find_state :: "string \<Rightarrow> ad_db \<Rightarrow> indexer_state option" where
  "find_state k d = List.find (\<lambda>s. ix_key s = k) (adIndexerState d)"

text \<open>\<open>now\<close> is the time the database stamps on the row (\<^verbatim>\<open>@updatedAt\<close>).\<close>

definition advanced ::
  "int \<times> string \<Rightarrow> int \<Rightarrow> string \<Rightarrow> contract_snapshot option \<Rightarrow> int \<Rightarrow> indexer_state \<Rightarrow> indexer_state" where
  "advanced identity blockNumber blockHash snapshot now s = (with_snapshot snapshot (s\<lparr>
     ix_chainId := fst identity, ix_contractAddress := to_lower (snd identity)\<rparr>))\<lparr>
     ix_lastBlockNumber := blockNumber, ix_lastBlockHash := to_lower blockHash, ix_updatedAt := now\<rparr>"

definition empty_state :: "string \<Rightarrow> indexer_state" where
  "empty_state k = \<lparr>ix_key = k, ix_chainId = 0, ix_contractAddress = [], ix_lastBlockNumber = 0,
     ix_lastBlockHash = [], ix_minimumStakeRaw = None, ix_paused = None, ix_operatorAddress = None,
     ix_priceUpdaterAddress = None, ix_preUsdPriceE18Raw = None, ix_preUsdPriceQuotedAt = None,
     ix_configBlockNumber = None, ix_updatedAt = 0\<rparr>"

definition advanceAdsIndexerState ::
  "int \<times> string \<Rightarrow> int \<Rightarrow> string \<Rightarrow> contract_snapshot option \<Rightarrow> int \<Rightarrow> ('m, 'w, unit) ad_prog" where
  "advanceAdsIndexerState identity blockNumber blockHash snapshot now =
     (let k = adsIndexerStateKey identity in
      bindp (db_get (find_state k)) (\<lambda>current. case current of
        None \<Rightarrow> db_mod (adIndexerState_update (\<lambda>rows.
          rows @ [advanced identity blockNumber blockHash snapshot now (empty_state k)]))
      | Some s \<Rightarrow> if ix_lastBlockNumber s > blockNumber then ret ()
          else db_mod (adIndexerState_update (update_where (\<lambda>s. ix_key s = k)
            (advanced identity blockNumber blockHash snapshot now)))))"

text \<open>\<^verbatim>\<open>resetAdsProjection\<close>: the disposable rows of one contract, nothing else.\<close>

definition resetAdsProjection :: "int \<times> string \<Rightarrow> ('m, 'w, nat \<times> nat \<times> nat) ad_prog" where
  "resetAdsProjection identity =
     (let chain = fst identity; contract = to_lower (snd identity);
          p = (\<lambda>x. sp_chainId x = chain \<and> sp_contractAddress x = contract);
          e = (\<lambda>x. ce_chainId x = chain \<and> ce_contractAddress x = contract);
          i = (\<lambda>x. ix_chainId x = chain \<and> ix_contractAddress x = contract)
      in bindp (db_get (\<lambda>d. (count_where p (adStakePosition d), count_where e (adChainEvent d),
           count_where i (adIndexerState d)))) (\<lambda>counts.
         thenp (db_mod (\<lambda>d. d\<lparr>adStakePosition := filter (\<lambda>x. \<not> p x) (adStakePosition d),
           adChainEvent := filter (\<lambda>x. \<not> e x) (adChainEvent d),
           adIndexerState := filter (\<lambda>x. \<not> i x) (adIndexerState d)\<rparr>)) (ret counts)))"

definition resetAdsProjectionAfterReorg :: "int \<times> string \<Rightarrow> ('m, 'w, nat \<times> nat \<times> nat) ad_prog" where
  "resetAdsProjectionAfterReorg identity = transactional (resetAdsProjection identity)"

subsection \<open>The indexing pass\<close>

record position_args =
  pa_keywordId :: string
  pa_staker :: string
  pa_newStake :: int
  pa_previousStake :: int
  pa_bidUsd :: int
  pa_requiredCoveragePre :: int
  pa_eligible :: bool
  pa_withdrawAvailableAt :: int
  pa_positionVersion :: int

record charge_args =
  ca_chargeId :: string
  ca_keywordId :: string
  ca_staker :: string
  ca_requestedPre :: int
  ca_chargedPre :: int
  ca_remainingPre :: int

datatype log_args = Position position_args | Charge charge_args

record chain_log =
  lg_blockNumber :: int
  lg_blockHash :: string
  lg_transactionHash :: string
  lg_logIndex :: int
  lg_args :: log_args

text \<open>
  The chain as the pass reads it, and the deployment's configuration. \<open>src_contract\<close> answers the
  five values of \<^verbatim>\<open>verify\<close> (chain id, bytecode, PRE token, owner, minimum stake); \<open>src_config\<close>
  the seven of \<^verbatim>\<open>contractSnapshot\<close>; \<open>src_getAddress\<close> is viem's checksum, which throws on a
  malformed address.
\<close>

record 'w ads_source =
  src_head :: "'w \<Rightarrow> (exn + int) \<times> 'w"
  src_block :: "int \<Rightarrow> 'w \<Rightarrow> (exn + string) \<times> 'w"
  src_contract :: "'w \<Rightarrow> (exn + int \<times> string option \<times> string \<times> string \<times> int) \<times> 'w"
  src_config :: "int \<Rightarrow> 'w \<Rightarrow> (exn + string \<times> int \<times> bool \<times> string \<times> string \<times> int \<times> int) \<times> 'w"
  src_events :: "int \<Rightarrow> int \<Rightarrow> 'w \<Rightarrow> (exn + chain_log list \<times> chain_log list) \<times> 'w"
  src_clock :: "'w \<Rightarrow> (exn + int) \<times> 'w"
  src_getAddress :: "string \<Rightarrow> exn + string"

record ads_config =
  cfg_address :: "string option"
  cfg_deploymentBlock :: "int option"
  cfg_chainId :: int
  cfg_preAddress :: string
  cfg_owner :: string
  cfg_confirmations :: int

datatype index_outcome =
  Index_awaiting | Index_syncing | Index_synced nat "int option"

type_synonym ('w, 'a) index_prog = "(string option, 'w, 'a) ad_prog"

definition INDEXER_LOG_BLOCK_RANGE :: int where "INDEXER_LOG_BLOCK_RANGE = 500"

definition of_sum :: "exn + 'a \<Rightarrow> ('m, 'w, 'a) ad_prog" where
  "of_sum r = (case r of Inl e \<Rightarrow> throw e | Inr x \<Rightarrow> ret x)"

text \<open>Two addresses name the same account: \<^verbatim>\<open>getAddress(a) === getAddress(b)\<close>.\<close>

definition same_address :: "'w ads_source \<Rightarrow> string \<Rightarrow> string \<Rightarrow> ('m, 'w, bool) ad_prog" where
  "same_address src a b =
     bindp (of_sum (src_getAddress src a)) (\<lambda>x. bindp (of_sum (src_getAddress src b)) (\<lambda>y. ret (x = y)))"

definition require :: "bool \<Rightarrow> ('m, 'w, unit) ad_prog" where
  "require b = (if b then ret () else throw Failure)"

definition verify_market :: "'w ads_source \<Rightarrow> ads_config \<Rightarrow> string \<Rightarrow> ('w, unit) index_prog" where
  "verify_market src cfg address = bindp (mem_get id) (\<lambda>verified.
     if verified = Some (to_lower address) then ret ()
     else bindp (extern (src_contract src)) (\<lambda>(chainId, bytecode, pre, owner, minimumStake).
       thenp (require (chainId = cfg_chainId cfg))
       (thenp (require (truthy bytecode \<and> bytecode \<noteq> Some ''0x''))
       (bindp (same_address src pre (cfg_preAddress cfg)) (\<lambda>p. thenp (require p)
       (bindp (same_address src owner (cfg_owner cfg)) (\<lambda>o'. thenp (require o')
       (thenp (require (minimumStake > 0))
         (mem_mod (\<lambda>_. Some (to_lower address)))))))))))"

definition contractSnapshot :: "'w ads_source \<Rightarrow> ads_config \<Rightarrow> int \<Rightarrow> ('m, 'w, contract_snapshot) ad_prog" where
  "contractSnapshot src cfg blockNumber =
     bindp (extern (src_config src blockNumber))
       (\<lambda>(pre, minimumStake, paused, operator, priceUpdater, priceE18, priceQuotedAt).
       bindp (same_address src pre (cfg_preAddress cfg)) (\<lambda>p. thenp (require p)
       (thenp (require (minimumStake > 0))
       (bindp (of_sum (src_getAddress src operator)) (\<lambda>op.
        bindp (of_sum (src_getAddress src priceUpdater)) (\<lambda>pu.
        ret \<lparr>sn_minimumStakeRaw = show_int minimumStake, sn_paused = paused,
          sn_operatorAddress = to_lower op, sn_priceUpdaterAddress = to_lower pu,
          sn_preUsdPriceE18Raw = show_int priceE18, sn_preUsdPriceQuotedAt = priceQuotedAt,
          sn_configBlockNumber = blockNumber\<rparr>))))))"

type_synonym checkpoint = "(int \<times> string) option"

definition assertUnchangedCheckpoint :: "string \<Rightarrow> checkpoint \<Rightarrow> ('m, 'w, unit) ad_prog" where
  "assertUnchangedCheckpoint k expected = bindp (db_get (find_state k)) (\<lambda>current.
     require (case (current, expected) of
       (None, None) \<Rightarrow> True
     | (Some s, Some (n, h)) \<Rightarrow> ix_lastBlockNumber s = n \<and> to_lower (ix_lastBlockHash s) = to_lower h
     | _ \<Rightarrow> False))"

definition assertCanonicalCheckpoint :: "'w ads_source \<Rightarrow> checkpoint \<Rightarrow> ('m, 'w, unit) ad_prog" where
  "assertCanonicalCheckpoint src checkpoint = (case checkpoint of
     None \<Rightarrow> ret ()
   | Some (n, h) \<Rightarrow> bindp (extern (src_block src n)) (\<lambda>hash. require (to_lower hash = to_lower h)))"

definition log_compare :: "chain_log \<Rightarrow> chain_log \<Rightarrow> int" where
  "log_compare left right =
     (if lg_blockNumber left = lg_blockNumber right then lg_logIndex left - lg_logIndex right
      else if lg_blockNumber left < lg_blockNumber right then -1 else 1)"

definition charge_log_event :: "int \<times> string \<Rightarrow> chain_log \<Rightarrow> charge_args \<Rightarrow> chain_event" where
  "charge_log_event identity l a = \<lparr>ce_chainId = fst identity, ce_contractAddress = snd identity,
     ce_txHash = to_lower (lg_transactionHash l), ce_logIndex = lg_logIndex l,
     ce_blockNumber = lg_blockNumber l, ce_blockHash = to_lower (lg_blockHash l),
     ce_payload = StakeCharged \<lparr>pay_chargeId = Some (to_lower (ca_chargeId a)),
       pay_keywordId = Some (to_lower (ca_keywordId a)), pay_staker = Some (to_lower (ca_staker a)),
       pay_requestedPre = Some (show_int (ca_requestedPre a)),
       pay_chargedPre = Some (show_int (ca_chargedPre a)),
       pay_remainingPre = Some (show_int (ca_remainingPre a))\<rparr>\<rparr>"

definition log_change :: "int \<times> string \<Rightarrow> chain_log \<Rightarrow> position_args \<Rightarrow> position_change" where
  "log_change identity l a = \<lparr>ch_chainId = fst identity, ch_contractAddress = snd identity,
     ch_keywordId = pa_keywordId a, ch_stakerAddress = pa_staker a,
     ch_stakeRaw = show_int (pa_newStake a), ch_previousStakeRaw = show_int (pa_previousStake a),
     ch_bidUsdRaw = show_int (pa_bidUsd a),
     ch_requiredCoveragePreRaw = show_int (pa_requiredCoveragePre a), ch_eligible = pa_eligible a,
     ch_withdrawAvailableAt = pa_withdrawAvailableAt a, ch_positionVersion = pa_positionVersion a,
     ch_blockNumber = lg_blockNumber l, ch_blockHash = lg_blockHash l,
     ch_txHash = lg_transactionHash l, ch_logIndex = lg_logIndex l\<rparr>"

definition apply_log :: "int \<times> string \<Rightarrow> chain_log \<Rightarrow> nat \<Rightarrow> ('m, 'w, nat) ad_prog" where
  "apply_log identity l n = (case lg_args l of
     Charge a \<Rightarrow> thenp (claim_event (charge_log_event identity l a)) (ret n)
   | Position a \<Rightarrow> bindp (applyFinalizedAdPositionChange (log_change identity l a)) (\<lambda>r.
       ret (case r of Applied _ \<Rightarrow> n + 1 | _ \<Rightarrow> n)))"

text \<open>One chunk of blocks: read, checked against the chain twice, applied in one transaction.\<close>

definition index_chunk ::
  "'w ads_source \<Rightarrow> ads_config \<Rightarrow> int \<times> string \<Rightarrow> int \<Rightarrow> checkpoint \<Rightarrow> int \<Rightarrow> int
   \<Rightarrow> ('w, nat \<times> checkpoint) index_prog" where
  "index_chunk src cfg identity safeHead checkpoint start end' =
     thenp (assertCanonicalCheckpoint src checkpoint)
     (bindp (extern (src_block src end')) (\<lambda>indexedHash.
      bindp (extern (src_events src start end')) (\<lambda>(positions, charges).
      bindp (if end' = safeHead then bindp (contractSnapshot src cfg end') (\<lambda>n. ret (Some n)) else ret None)
        (\<lambda>snapshot.
      bindp (extern (src_block src end')) (\<lambda>canonical.
      thenp (require (to_lower canonical = to_lower indexedHash))
      (thenp (assertCanonicalCheckpoint src checkpoint)
      (bindp (transactional
         (thenp (assertUnchangedCheckpoint (adsIndexerStateKey identity) checkpoint)
         (bindp (foldp (apply_log identity) (sort_by log_compare (positions @ charges)) 0) (\<lambda>count.
          bindp (extern (src_clock src)) (\<lambda>now.
          thenp (advanceAdsIndexerState identity end' indexedHash snapshot now) (ret count))))))
        (\<lambda>applied. ret (applied, Some (end', indexedHash))))))))))"

fun index_chunks ::
  "nat \<Rightarrow> 'w ads_source \<Rightarrow> ads_config \<Rightarrow> int \<times> string \<Rightarrow> int \<Rightarrow> checkpoint \<Rightarrow> int \<Rightarrow> nat
   \<Rightarrow> ('w, nat) index_prog" where
  "index_chunks 0 src cfg identity safeHead checkpoint start processed = throw Failure"
| "index_chunks (Suc fuel) src cfg identity safeHead checkpoint start processed =
     (if start > safeHead then ret processed
      else let end' = (if start + INDEXER_LOG_BLOCK_RANGE - 1 > safeHead then safeHead
                       else start + INDEXER_LOG_BLOCK_RANGE - 1)
        in bindp (index_chunk src cfg identity safeHead checkpoint start end') (\<lambda>(applied, checkpoint').
             index_chunks fuel src cfg identity safeHead checkpoint' (start + INDEXER_LOG_BLOCK_RANGE)
               (processed + applied)))"

text \<open>The fuel is more than the number of chunks.\<close>

definition chunk_fuel :: "int \<Rightarrow> int \<Rightarrow> nat" where
  "chunk_fuel start safeHead = Suc (nat (safeHead - start + 1))"

definition state_checkpoint :: "indexer_state \<Rightarrow> int \<times> string" where
  "state_checkpoint s = (ix_lastBlockNumber s, ix_lastBlockHash s)"

definition refresh_config ::
  "'w ads_source \<Rightarrow> ads_config \<Rightarrow> int \<times> string \<Rightarrow> int \<Rightarrow> indexer_state \<Rightarrow> ('w, unit) index_prog" where
  "refresh_config src cfg identity safeHead s =
     bindp (contractSnapshot src cfg safeHead) (\<lambda>snapshot.
     bindp (extern (src_block src (ix_lastBlockNumber s))) (\<lambda>canonical.
     thenp (require (to_lower canonical = to_lower (ix_lastBlockHash s)))
     (transactional
       (thenp (assertUnchangedCheckpoint (adsIndexerStateKey identity) (Some (state_checkpoint s)))
       (bindp (extern (src_clock src)) (\<lambda>now.
        advanceAdsIndexerState identity (ix_lastBlockNumber s) (ix_lastBlockHash s) (Some snapshot) now))))))"

definition index_from ::
  "'w ads_source \<Rightarrow> ads_config \<Rightarrow> int \<times> string \<Rightarrow> int \<Rightarrow> indexer_state option \<Rightarrow> int
   \<Rightarrow> ('w, index_outcome) index_prog" where
  "index_from src cfg identity safeHead state fromBlock =
     (if (case state of None \<Rightarrow> False | Some s \<Rightarrow> ix_lastBlockNumber s > safeHead) then ret Index_syncing
      else if fromBlock > safeHead then
        thenp (case state of None \<Rightarrow> ret () | Some s \<Rightarrow> refresh_config src cfg identity safeHead s)
          (ret (Index_synced 0 (map_option ix_lastBlockNumber state)))
      else bindp (index_chunks (chunk_fuel fromBlock safeHead) src cfg identity safeHead
          (map_option state_checkpoint state) fromBlock 0)
        (\<lambda>processed. ret (Index_synced processed (Some safeHead))))"

definition indexAds :: "'w ads_source \<Rightarrow> ads_config \<Rightarrow> ('w, index_outcome) index_prog" where
  "indexAds src cfg = (case (cfg_address cfg, cfg_deploymentBlock cfg) of
     (Some a, Some deploymentBlock) \<Rightarrow>
       bindp (of_sum (src_getAddress src a)) (\<lambda>address.
       let identity = (cfg_chainId cfg, to_lower address) in
       thenp (verify_market src cfg address)
       (bindp (extern (src_head src)) (\<lambda>head.
        case finalizedAdsBlock head (cfg_confirmations cfg) of
          None \<Rightarrow> throw Failure
        | Some safeHead \<Rightarrow>
            if safeHead < deploymentBlock then ret Index_syncing
            else bindp (db_get (find_state (adsIndexerStateKey identity))) (\<lambda>state. case state of
              None \<Rightarrow> index_from src cfg identity safeHead None deploymentBlock
            | Some s \<Rightarrow> bindp (extern (src_block src (ix_lastBlockNumber s))) (\<lambda>canonical.
                if to_lower canonical \<noteq> to_lower (ix_lastBlockHash s)
                then thenp (resetAdsProjectionAfterReorg identity)
                  (index_from src cfg identity safeHead None deploymentBlock)
                else index_from src cfg identity safeHead (Some s) (ix_lastBlockNumber s + 1))))))
   | _ \<Rightarrow> ret Index_awaiting)"

end
