(* ===== verification/Market.thy ===== *)
theory Market
  imports Projection
begin

section \<open>The tables of the ads service\<close>

text \<open>
  The rows of \<^verbatim>\<open>packages/database/prisma/schema.prisma\<close> that only the API's ads service writes:
  campaigns, creative revisions, reports and their totals, the audit trail and the billing window.
  The keyword market tables the workers share are the field \<open>ledger\<close>. The wallet address of a
  campaign's user is the joined column \<open>camp_userAddress\<close>. Dates are milliseconds since the epoch;
  texts that no operation looks into are \<open>string\<close>, keywords are lists of code points.
\<close>

datatype creative_status = PENDING_REVIEW | APPROVED | REJECTED | SUSPENDED | SUPERSEDED

record creative =
  cr_headline :: string
  cr_description :: string
  cr_destinationUrl :: string
  cr_displayDomain :: string

record revision =
  rev_id :: string
  rev_campaignId :: string
  rev_version :: nat
  rev_creative :: creative
  rev_status :: creative_status
  rev_moderatedByAddress :: "string option"
  rev_moderationNote :: "string option"
  rev_moderatedAt :: "int option"

record campaign =
  camp_id :: string
  camp_userId :: string
  camp_userAddress :: string
  camp_canonicalKeyword :: utext
  camp_activeRevisionId :: "string option"
  camp_pausedAt :: "int option"

datatype report_status = OPEN | DISMISSED | ACTIONED

record report =
  rep_revisionId :: string
  rep_reason :: string
  rep_comment :: "string option"
  rep_fingerprint :: string
  rep_day :: int
  rep_status :: report_status
  rep_resolvedByAddress :: "string option"
  rep_resolutionNote :: "string option"
  rep_resolvedAt :: "int option"

record report_total =
  tot_revisionId :: string
  tot_reason :: string
  tot_total :: nat

datatype audit_action =
  AD_REVISION_APPROVE | AD_REVISION_REJECT | AD_REVISION_SUSPEND | AD_REVISION_RESTORE
| AD_REPORTS_SUSPEND_AD | AD_REPORTS_DISMISS

record audit_event =
  aud_actor :: string
  aud_entityId :: string
  aud_action :: audit_action

record billing_window =
  win_fingerprint :: string
  win_expiresAt :: int

record click_totals =
  ct_chainId :: int
  ct_contractAddress :: string
  ct_billableClicks :: nat
  ct_suppressedClicks :: nat

record market_db =
  ledger :: ad_db
  adCampaign :: "campaign list"
  adCreativeRevision :: "revision list"
  adReport :: "report list"
  adReportAggregate :: "report_total list"
  auditEvent :: "audit_event list"
  adBillingClickWindow :: "billing_window list"
  adBillingClickTotals :: "click_totals list"
  requireReviewSetting :: "bool option"
  projectConfigured :: bool

datatype api_error = BadRequest | Conflict | NotFound | Unavailable | Other

text \<open>
  The API process remembers resolved ads: a map in insertion order from the hash of a query's
  candidates to an ad or to the fact that there is none.
\<close>

record delivery_claim =
  dl_revisionId :: string
  dl_chainId :: int
  dl_contractAddress :: string
  dl_keywordId :: string
  dl_keyword :: utext
  dl_stakerAddress :: string
  dl_positionVersion :: string

record resolved_ad =
  ad_revisionId :: string
  ad_delivery :: delivery_claim
  ad_creative :: creative

record cache_entry =
  en_ad :: "resolved_ad option"
  en_expiresAt :: int

type_synonym resolver_cache = "(string \<times> cache_entry) list"

type_synonym ('m, 'w, 'a) market_prog = "(market_db, 'm, 'w, api_error, 'a) prog"
type_synonym ('w, 'a) ads_prog = "(resolver_cache, 'w, 'a) market_prog"

record principal =
  pr_userId :: string
  pr_address :: string

text \<open>\<^verbatim>\<open>updateMany\<close> with the number of rows it changed.\<close>

definition update_revisions :: "(revision \<Rightarrow> bool) \<Rightarrow> (revision \<Rightarrow> revision) \<Rightarrow> ('m, 'w, nat) market_prog" where
  "update_revisions P f = bindp (db_get (\<lambda>d. count_where P (adCreativeRevision d)))
     (\<lambda>n. thenp (db_mod (adCreativeRevision_update (update_where P f))) (ret n))"

definition update_campaigns :: "(campaign \<Rightarrow> bool) \<Rightarrow> (campaign \<Rightarrow> campaign) \<Rightarrow> ('m, 'w, nat) market_prog" where
  "update_campaigns P f = bindp (db_get (\<lambda>d. count_where P (adCampaign d)))
     (\<lambda>n. thenp (db_mod (adCampaign_update (update_where P f))) (ret n))"

definition update_reports :: "(report \<Rightarrow> bool) \<Rightarrow> (report \<Rightarrow> report) \<Rightarrow> ('m, 'w, nat) market_prog" where
  "update_reports P f = bindp (db_get (\<lambda>d. count_where P (adReport d)))
     (\<lambda>n. thenp (db_mod (adReport_update (update_where P f))) (ret n))"

definition find_revision :: "string \<Rightarrow> market_db \<Rightarrow> revision option" where
  "find_revision i d = List.find (\<lambda>r. rev_id r = i) (adCreativeRevision d)"

definition find_campaign :: "string \<Rightarrow> market_db \<Rightarrow> campaign option" where
  "find_campaign i d = List.find (\<lambda>c. camp_id c = i) (adCampaign d)"

lemma find_revision_Some: "find_revision i d = Some r \<Longrightarrow> r \<in> set (adCreativeRevision d) \<and> rev_id r = i"
  by (auto simp: find_revision_def find_Some_iff)

lemma find_campaign_Some: "find_campaign i d = Some c \<Longrightarrow> c \<in> set (adCampaign d) \<and> camp_id c = i"
  by (auto simp: find_campaign_def find_Some_iff)

end
