(* ===== verification/Ranking.thy ===== *)
theory Ranking
  imports Market
begin

section \<open>Ranking positions and selecting an ad\<close>

text \<open>
  The pure part of \<^verbatim>\<open>apps/api/src/ads/ads.service.ts\<close>: the order of the positions of a keyword, the
  ad a query is answered with, and the bid an advertiser needs to take the lead.
\<close>

definition rawStake :: "string \<Rightarrow> int" where
  "rawStake v = (case js_bigint v of None \<Rightarrow> 0 | Some n \<Rightarrow> n)"

definition compareAdStakePositions :: "stake_position \<Rightarrow> stake_position \<Rightarrow> int" where
  "compareAdStakePositions left right =
     (if sp_eligible left \<noteq> sp_eligible right then (if sp_eligible left then -1 else 1)
      else let bidDifference = rawStake (sp_bidUsdRaw right) - rawStake (sp_bidUsdRaw left) in
      if bidDifference \<noteq> 0 then (if bidDifference > 0 then 1 else -1)
      else if sp_stakeSinceBlock left \<noteq> sp_stakeSinceBlock right then
        (if sp_stakeSinceBlock left < sp_stakeSinceBlock right then -1 else 1)
      else if sp_stakeSinceLogIndex left \<noteq> sp_stakeSinceLogIndex right then
        sp_stakeSinceLogIndex left - sp_stakeSinceLogIndex right
      else let leftAddress = to_lower (sp_stakerAddress left);
               rightAddress = to_lower (sp_stakerAddress right)
        in if leftAddress < rightAddress then -1 else if leftAddress > rightAddress then 1 else 0)"

definition campaignKey :: "string \<Rightarrow> string \<Rightarrow> string" where
  "campaignKey keywordId address = keywordId @ [CHR 0x00] @ to_lower address"

text \<open>A campaign with its active revision joined.\<close>

record eligible_campaign =
  ec_campaign :: campaign
  ec_activeRevision :: "revision option"

definition servable_campaign :: "eligible_campaign \<Rightarrow> bool" where
  "servable_campaign c \<longleftrightarrow> camp_pausedAt (ec_campaign c) = None \<and>
     (case ec_activeRevision c of None \<Rightarrow> False | Some r \<Rightarrow> rev_status r = APPROVED)"

definition servable_position :: "stake_position \<Rightarrow> bool" where
  "servable_position p \<longleftrightarrow> \<not> (\<not> sp_active p \<or> \<not> sp_eligible p \<or> rawStake (sp_stakeRaw p) \<le> 0)"

text \<open>The keys of the campaigns; a keyword that does not normalise throws.\<close>

fun campaign_entries ::
  "(utext \<Rightarrow> text_error + string) \<Rightarrow> eligible_campaign list \<Rightarrow> text_error + (string \<times> eligible_campaign) list" where
  "campaign_entries kid [] = Inr []"
| "campaign_entries kid (c # cs) = (case kid (camp_canonicalKeyword (ec_campaign c)) of
     Inl e \<Rightarrow> Inl e
   | Inr i \<Rightarrow> (case campaign_entries kid cs of
       Inl e \<Rightarrow> Inl e
     | Inr es \<Rightarrow> Inr ((campaignKey i (camp_userAddress (ec_campaign c)), c) # es)))"

text \<open>\<^verbatim>\<open>new Map(entries)\<close>: a later entry replaces an earlier one with the same key.\<close>

definition campaign_by_position :: "(string \<times> eligible_campaign) list \<Rightarrow> string \<Rightarrow> eligible_campaign option" where
  "campaign_by_position entries = map_of (rev entries)"

definition add_to_group ::
  "(string \<Rightarrow> stake_position list option) \<Rightarrow> stake_position \<Rightarrow> string \<Rightarrow> stake_position list option" where
  "add_to_group groups p = (if \<not> servable_position p then groups
     else groups(sp_keywordId p \<mapsto>
       (case groups (sp_keywordId p) of None \<Rightarrow> [] | Some g \<Rightarrow> g) @ [p]))"

definition positions_by_keyword :: "stake_position list \<Rightarrow> string \<Rightarrow> stake_position list option" where
  "positions_by_keyword positions i =
     map_option (sort_by compareAdStakePositions) (foldl add_to_group Map.empty positions i)"

type_synonym selection = "candidate \<times> stake_position \<times> eligible_campaign"

fun first_served ::
  "(string \<Rightarrow> eligible_campaign option) \<Rightarrow> string \<Rightarrow> candidate \<Rightarrow> stake_position list \<Rightarrow> selection option" where
  "first_served lookup keywordId c [] = None"
| "first_served lookup keywordId c (p # ps) =
     (case lookup (campaignKey keywordId (sp_stakerAddress p)) of
       Some campaign \<Rightarrow> if ec_activeRevision campaign \<noteq> None then Some (c, p, campaign)
         else first_served lookup keywordId c ps
     | None \<Rightarrow> first_served lookup keywordId c ps)"

fun select_candidate ::
  "(utext \<Rightarrow> text_error + string) \<Rightarrow> (string \<Rightarrow> eligible_campaign option)
   \<Rightarrow> (string \<Rightarrow> stake_position list option) \<Rightarrow> candidate list \<Rightarrow> text_error + selection option" where
  "select_candidate kid lookup groups [] = Inr None"
| "select_candidate kid lookup groups (c # cs) = (case kid (cand_keyword c) of
     Inl e \<Rightarrow> Inl e
   | Inr keywordId \<Rightarrow>
       (case first_served lookup keywordId c (case groups keywordId of None \<Rightarrow> [] | Some g \<Rightarrow> g) of
         Some s \<Rightarrow> Inr (Some s)
       | None \<Rightarrow> select_candidate kid lookup groups cs))"

definition selectEligibleAd ::
  "(utext \<Rightarrow> text_error + string) \<Rightarrow> candidate list \<Rightarrow> stake_position list \<Rightarrow> eligible_campaign list
   \<Rightarrow> text_error + selection option" where
  "selectEligibleAd kid candidates positions campaigns =
     (case campaign_entries kid (filter servable_campaign campaigns) of
       Inl e \<Rightarrow> Inl e
     | Inr entries \<Rightarrow>
         select_candidate kid (campaign_by_position entries) (positions_by_keyword positions) candidates)"

subsection \<open>The advertiser's standing\<close>

definition winsEqualBid :: "stake_position option \<Rightarrow> stake_position option \<Rightarrow> bool" where
  "winsEqualBid own leader = (case (own, leader) of
     (Some o', Some l) \<Rightarrow> sp_withdrawAvailableAt o' = 0 \<and>
       compareAdStakePositions (o'\<lparr>sp_eligible := True, sp_bidUsdRaw := sp_bidUsdRaw l\<rparr>) l < 0
   | _ \<Rightarrow> False)"

definition bidNeededToLead :: "stake_position option \<Rightarrow> stake_position option \<Rightarrow> int option" where
  "bidNeededToLead own leader = (case leader of
     None \<Rightarrow> None
   | Some l \<Rightarrow>
       let ownBid = (case own of None \<Rightarrow> 0 | Some o' \<Rightarrow> rawStake (sp_bidUsdRaw o'));
           targetBid = rawStake (sp_bidUsdRaw l) + (if winsEqualBid own leader then 0 else 1)
       in Some (if (case own of None \<Rightarrow> False | Some o' \<Rightarrow> sp_eligible o' \<and> sp_stakerAddress o' = sp_stakerAddress l)
                then 0 else if targetBid > ownBid then targetBid - ownBid else 0))"

record standing =
  st_position :: "(nat \<times> stake_position) option"
  st_leaderBidUsdRaw :: "int option"
  st_bidNeededToLeadUsdRaw :: "int option"

fun find_index :: "('a \<Rightarrow> bool) \<Rightarrow> 'a list \<Rightarrow> nat option" where
  "find_index P [] = None"
| "find_index P (x # xs) = (if P x then Some 0 else map_option Suc (find_index P xs))"

definition campaign_standing :: "stake_position list \<Rightarrow> string \<Rightarrow> standing" where
  "campaign_standing rows address =
     (let ranking = sort_by compareAdStakePositions rows;
          ownIndex = find_index (\<lambda>p. sp_stakerAddress p = to_lower address) ranking;
          own = map_option (nth ranking) ownIndex;
          leader = List.find sp_eligible ranking
      in \<lparr>st_position = map_option (\<lambda>i. (i + 1, ranking ! i)) ownIndex,
          st_leaderBidUsdRaw = map_option (\<lambda>l. rawStake (sp_bidUsdRaw l)) leader,
          st_bidNeededToLeadUsdRaw = bidNeededToLead own leader\<rparr>)"

subsection \<open>The order is lawful\<close>

definition rank_key :: "stake_position \<Rightarrow> bool \<times> int \<times> int \<times> int \<times> string" where
  "rank_key p = (sp_eligible p, rawStake (sp_bidUsdRaw p), sp_stakeSinceBlock p, sp_stakeSinceLogIndex p,
     to_lower (sp_stakerAddress p))"

interpretation ranking: identifying compareAdStakePositions rank_key
  by unfold_locales
    (auto simp: compareAdStakePositions_def rank_key_def Let_def split: if_splits)

subsection \<open>What the selection looks up\<close>

lemma foldl_add_to_group:
  "(case foldl add_to_group groups ps i of None \<Rightarrow> [] | Some g \<Rightarrow> g) =
     (case groups i of None \<Rightarrow> [] | Some g \<Rightarrow> g) @ filter (\<lambda>p. servable_position p \<and> sp_keywordId p = i) ps"
proof (induction ps arbitrary: groups)
  case (Cons p ps)
  have "(case add_to_group groups p i of None \<Rightarrow> [] | Some g \<Rightarrow> g) =
      (case groups i of None \<Rightarrow> [] | Some g \<Rightarrow> g) @ (if servable_position p \<and> sp_keywordId p = i then [p] else [])"
    by (simp add: add_to_group_def split: option.split)
  with Cons show ?case by simp
qed simp

lemma keyword_positions:
  "(case positions_by_keyword ps i of None \<Rightarrow> [] | Some g \<Rightarrow> g) =
     sort_by compareAdStakePositions (filter (\<lambda>p. servable_position p \<and> sp_keywordId p = i) ps)"
  using foldl_add_to_group [of Map.empty ps i] by (auto simp: positions_by_keyword_def split: option.splits)

lemma campaign_entries_set:
  "campaign_entries kid cs = Inr es \<Longrightarrow> (k, c) \<in> set es \<longleftrightarrow>
     c \<in> set cs \<and> (\<exists>i. kid (camp_canonicalKeyword (ec_campaign c)) = Inr i \<and>
       k = campaignKey i (camp_userAddress (ec_campaign c)))"
proof (induction cs arbitrary: es)
  case (Cons x cs)
  then obtain i es' where i: "kid (camp_canonicalKeyword (ec_campaign x)) = Inr i"
    and es': "campaign_entries kid cs = Inr es'" "es = (campaignKey i (camp_userAddress (ec_campaign x)), x) # es'"
    by (auto split: sum.splits)
  show ?case unfolding es'(2) using Cons.IH [OF es'(1)] i by auto
qed simp

lemma campaign_lookup:
  "campaign_by_position es k = Some c \<Longrightarrow> (k, c) \<in> set es"
  by (auto simp: campaign_by_position_def dest: map_of_SomeD)

lemma campaign_lookup_None:
  "campaign_by_position es k = None \<longleftrightarrow> (\<forall>c. (k, c) \<notin> set es)"
  by (force simp: campaign_by_position_def map_of_eq_None_iff)

text \<open>A position that a query may be answered with: its staker has a campaign to show.\<close>

definition served_by ::
  "(utext \<Rightarrow> text_error + string) \<Rightarrow> eligible_campaign list \<Rightarrow> string \<Rightarrow> stake_position \<Rightarrow> eligible_campaign \<Rightarrow> bool" where
  "served_by kid campaigns i p c \<longleftrightarrow> servable_position p \<and> sp_keywordId p = i \<and> c \<in> set campaigns \<and>
     servable_campaign c \<and> (\<exists>j. kid (camp_canonicalKeyword (ec_campaign c)) = Inr j \<and>
       campaignKey i (sp_stakerAddress p) = campaignKey j (camp_userAddress (ec_campaign c)))"

lemma first_served_find:
  assumes "\<And>k x. lookup k = Some x \<Longrightarrow> ec_activeRevision x \<noteq> None"
  shows "first_served lookup i c ps = map_option (\<lambda>p. (c, p, the (lookup (campaignKey i (sp_stakerAddress p)))))
    (List.find (\<lambda>p. lookup (campaignKey i (sp_stakerAddress p)) \<noteq> None) ps)"
  using assms by (induction ps) (auto split: option.splits)

definition served_position ::
  "(string \<times> eligible_campaign) list \<Rightarrow> stake_position list \<Rightarrow> string \<Rightarrow> stake_position option" where
  "served_position es ps i = List.find (\<lambda>p. campaign_by_position es (campaignKey i (sp_stakerAddress p)) \<noteq> None)
     (sort_by compareAdStakePositions (filter (\<lambda>p. servable_position p \<and> sp_keywordId p = i) ps))"

lemma entries_active:
  assumes "campaign_entries kid (filter servable_campaign cs) = Inr es" and "campaign_by_position es k = Some x"
  shows "ec_activeRevision x \<noteq> None"
  using campaign_lookup [OF assms(2)] campaign_entries_set [OF assms(1)]
  by (auto simp: servable_campaign_def split: option.splits)

lemma first_served_position:
  assumes "campaign_entries kid (filter servable_campaign cs) = Inr es"
  shows "first_served (campaign_by_position es) i c
      (case positions_by_keyword ps i of None \<Rightarrow> [] | Some g \<Rightarrow> g) =
    map_option (\<lambda>p. (c, p, the (campaign_by_position es (campaignKey i (sp_stakerAddress p))))) (served_position es ps i)"
  using first_served_find [of "campaign_by_position es"] entries_active [OF assms]
  unfolding served_position_def keyword_positions by blast

lemma find_in_sorted: "List.find P (sort_by cmp xs) = Some x \<Longrightarrow> x \<in> set xs \<and> P x"
  by (metis find_Some_iff nth_mem set_sort_by)

lemma lookup_served:
  assumes "campaign_entries kid (filter servable_campaign cs) = Inr es" and "served_by kid cs i q c"
  shows "campaign_by_position es (campaignKey i (sp_stakerAddress q)) \<noteq> None"
proof
  assume "campaign_by_position es (campaignKey i (sp_stakerAddress q)) = None"
  then have "(campaignKey i (sp_stakerAddress q), c) \<notin> set es"
    by (simp add: campaign_lookup_None)
  then show False using assms(2) campaign_entries_set [OF assms(1)] by (auto simp: served_by_def)
qed

lemma served_position_Some:
  assumes es: "campaign_entries kid (filter servable_campaign cs) = Inr es" and "served_position es ps i = Some p"
  shows "p \<in> set ps \<and> served_by kid cs i p (the (campaign_by_position es (campaignKey i (sp_stakerAddress p)))) \<and>
    (\<forall>q\<in>set ps. \<forall>c. served_by kid cs i q c \<longrightarrow> compareAdStakePositions p q \<le> 0)"
proof -
  let ?look = "\<lambda>q. campaign_by_position es (campaignKey i (sp_stakerAddress q))"
  have p: "p \<in> set ps" "servable_position p" "sp_keywordId p = i" "?look p \<noteq> None"
    using find_in_sorted [OF assms(2) [unfolded served_position_def]] by auto
  then obtain c where c: "?look p = Some c" by blast
  have "served_by kid cs i p c"
    using campaign_lookup [OF c] campaign_entries_set [OF es] p by (auto simp: served_by_def)
  moreover have "compareAdStakePositions p q \<le> 0" if q: "q \<in> set ps" "served_by kid cs i q c'" for q c'
  proof (rule ranking.find_best [OF assms(2) [unfolded served_position_def]])
    show "?look q \<noteq> None" by (rule lookup_served [OF es q(2)])
  qed (use q in \<open>auto simp: served_by_def\<close>)
  ultimately show ?thesis using p c by auto
qed

lemma served_position_None:
  assumes es: "campaign_entries kid (filter servable_campaign cs) = Inr es" and "served_position es ps i = None"
    and "q \<in> set ps"
  shows "\<not> served_by kid cs i q c"
proof
  assume s: "served_by kid cs i q c"
  have "campaign_by_position es (campaignKey i (sp_stakerAddress q)) = None"
    using assms(2,3) s by (auto simp: served_position_def find_None_iff served_by_def)
  then show False using lookup_served [OF es s] by simp
qed

lemma select_candidate_Some:
  assumes "campaign_entries kid (filter servable_campaign cs) = Inr es"
  shows "select_candidate kid (campaign_by_position es) (positions_by_keyword ps) cands = Inr (Some (c, p, x)) \<Longrightarrow>
    \<exists>before after i. cands = before @ c # after \<and> kid (cand_keyword c) = Inr i \<and> served_position es ps i = Some p \<and>
      x = the (campaign_by_position es (campaignKey i (sp_stakerAddress p))) \<and>
      (\<forall>b\<in>set before. \<exists>j. kid (cand_keyword b) = Inr j \<and> served_position es ps j = None)"
proof (induction cands)
  case (Cons a cands)
  obtain j where j: "kid (cand_keyword a) = Inr j" using Cons.prems by (auto split: sum.splits)
  show ?case
  proof (cases "served_position es ps j")
    case None
    then have "select_candidate kid (campaign_by_position es) (positions_by_keyword ps) cands = Inr (Some (c, p, x))"
      using Cons.prems by (simp add: j first_served_position [OF assms])
    then obtain before after i where "cands = before @ c # after" "kid (cand_keyword c) = Inr i"
      "served_position es ps i = Some p" "x = the (campaign_by_position es (campaignKey i (sp_stakerAddress p)))"
      "\<forall>b\<in>set before. \<exists>j. kid (cand_keyword b) = Inr j \<and> served_position es ps j = None"
      using Cons.IH by blast
    with None j show ?thesis by (intro exI [of _ "a # before"] exI [of _ after] exI [of _ i]) auto
  next
    case (Some q)
    then show ?thesis
      using Cons.prems j
      by - (rule exI [of _ "[]"], rule exI [of _ cands], rule exI [of _ j],
        auto simp: j first_served_position [OF assms])
  qed
qed simp

lemma select_candidate_None:
  assumes "campaign_entries kid (filter servable_campaign cs) = Inr es"
    and "select_candidate kid (campaign_by_position es) (positions_by_keyword ps) cands = Inr None" and "b \<in> set cands"
  shows "\<exists>j. kid (cand_keyword b) = Inr j \<and> served_position es ps j = None"
  using assms(2,3)
  by (induction cands) (auto simp: first_served_position [OF assms(1)] split: sum.splits option.splits)

lemma selectEligibleAd_entries:
  "selectEligibleAd kid cands ps cs = Inr r \<Longrightarrow>
   \<exists>es. campaign_entries kid (filter servable_campaign cs) = Inr es \<and>
     select_candidate kid (campaign_by_position es) (positions_by_keyword ps) cands = Inr r"
  by (auto simp: selectEligibleAd_def split: sum.splits)

text \<open>
  C14: The ad a query is answered with belongs to a live campaign of the staker of a servable
  position on the candidate's keyword; no earlier, that is longer, candidate has any position that
  could be served, and no servable position of the same keyword ranks before the chosen one.
\<close>

theorem selectEligibleAd_best:
  assumes "selectEligibleAd kid cands ps campaigns = Inr (Some (c, p, x))"
  shows "\<exists>before after i. cands = before @ c # after \<and> kid (cand_keyword c) = Inr i \<and> p \<in> set ps \<and>
    served_by kid campaigns i p x \<and>
    (\<forall>q\<in>set ps. \<forall>y. served_by kid campaigns i q y \<longrightarrow> compareAdStakePositions p q \<le> 0) \<and>
    (\<forall>b\<in>set before. \<exists>j. kid (cand_keyword b) = Inr j \<and> (\<forall>q\<in>set ps. \<forall>y. \<not> served_by kid campaigns j q y))"
proof -
  obtain es where es: "campaign_entries kid (filter servable_campaign campaigns) = Inr es"
    and sel: "select_candidate kid (campaign_by_position es) (positions_by_keyword ps) cands = Inr (Some (c, p, x))"
    using selectEligibleAd_entries [OF assms] by blast
  obtain before after i where r: "cands = before @ c # after" "kid (cand_keyword c) = Inr i"
    "served_position es ps i = Some p" "x = the (campaign_by_position es (campaignKey i (sp_stakerAddress p)))"
    "\<forall>b\<in>set before. \<exists>j. kid (cand_keyword b) = Inr j \<and> served_position es ps j = None"
    using select_candidate_Some [OF es sel] by blast
  have "\<forall>b\<in>set before. \<exists>j. kid (cand_keyword b) = Inr j \<and> (\<forall>q\<in>set ps. \<forall>y. \<not> served_by kid campaigns j q y)"
    using r(5) served_position_None [OF es] by blast
  with r(1,2) served_position_Some [OF es r(3)] r(4) show ?thesis by blast
qed

text \<open>
  A query that is answered with no ad has none: for every candidate keyword no position
  could be served.
\<close>

theorem selectEligibleAd_none:
  "selectEligibleAd kid cands ps campaigns = Inr None \<Longrightarrow>
   \<forall>b\<in>set cands. \<exists>j. kid (cand_keyword b) = Inr j \<and> (\<forall>q\<in>set ps. \<forall>y. \<not> served_by kid campaigns j q y)"
  using selectEligibleAd_entries select_candidate_None served_position_None by metis

text \<open>
  C15: The choice does not depend on the order in which the database returns the positions, as long
  as a staker has one position per keyword.
\<close>

theorem selectEligibleAd_order_free:
  assumes "distinct (map (\<lambda>p. (sp_keywordId p, to_lower (sp_stakerAddress p))) ps)" and "mset ps' = mset ps"
  shows "selectEligibleAd kid cands ps' campaigns = selectEligibleAd kid cands ps campaigns"
proof -
  let ?f = "\<lambda>i p. servable_position p \<and> sp_keywordId p = i"
  have same: "(case positions_by_keyword ps' i of None \<Rightarrow> [] | Some g \<Rightarrow> g) =
      (case positions_by_keyword ps i of None \<Rightarrow> [] | Some g \<Rightarrow> g)" for i
    unfolding keyword_positions
  proof (rule ranking.permuted [symmetric])
    let ?k = "\<lambda>p. (sp_keywordId p, to_lower (sp_stakerAddress p))"
    have "inj_on ?k (set ps)" "distinct ps" using assms(1) by (simp_all add: distinct_map)
    then have "inj_on rank_key (set (filter (?f i) ps))"
      unfolding inj_on_def rank_key_def by simp
    with \<open>distinct ps\<close> show "distinct (map rank_key (filter (?f i) ps))" by (simp add: distinct_map)
    show "mset (filter (?f i) ps) = mset (filter (?f i) ps')" using assms(2) by simp
  qed
  have "select_candidate kid lookup (positions_by_keyword ps') cands =
      select_candidate kid lookup (positions_by_keyword ps) cands" for lookup
    by (induction cands) (simp_all add: same split: sum.split option.split)
  then show ?thesis by (simp add: selectEligibleAd_def split: sum.split)
qed

subsection \<open>The bid that takes the lead\<close>

definition raised :: "stake_position \<Rightarrow> int \<Rightarrow> stake_position" where
  "raised p n = p\<lparr>sp_eligible := True, sp_bidUsdRaw := show_int (rawStake (sp_bidUsdRaw p) + n)\<rparr>"

lemma rawStake_show_int [simp]: "rawStake (show_int n) = n"
  by (simp add: rawStake_def)

lemma compare_bids:
  assumes "sp_eligible p" "sp_eligible q"
  shows "rawStake (sp_bidUsdRaw p) > rawStake (sp_bidUsdRaw q) \<Longrightarrow> compareAdStakePositions p q < 0"
    and "rawStake (sp_bidUsdRaw p) < rawStake (sp_bidUsdRaw q) \<Longrightarrow> compareAdStakePositions p q > 0"
    and "rawStake (sp_bidUsdRaw p) = rawStake (sp_bidUsdRaw p') \<Longrightarrow> sp_eligible p' \<Longrightarrow>
      sp_stakeSinceBlock p = sp_stakeSinceBlock p' \<Longrightarrow> sp_stakeSinceLogIndex p = sp_stakeSinceLogIndex p' \<Longrightarrow>
      sp_stakerAddress p = sp_stakerAddress p' \<Longrightarrow> compareAdStakePositions p q = compareAdStakePositions p' q"
  using assms by (simp_all add: compareAdStakePositions_def)

lemma raised_fields [simp]:
  "sp_eligible (raised p n)" "rawStake (sp_bidUsdRaw (raised p n)) = rawStake (sp_bidUsdRaw p) + n"
  by (simp_all add: raised_def)

lemma raised_equal_bid:
  assumes "sp_eligible l" and "rawStake (sp_bidUsdRaw p) + n = rawStake (sp_bidUsdRaw l)"
  shows "compareAdStakePositions (raised p n) l =
    compareAdStakePositions (p\<lparr>sp_eligible := True, sp_bidUsdRaw := sp_bidUsdRaw l\<rparr>) l"
  by (rule compare_bids(3)) (use assms in \<open>simp_all add: raised_def\<close>)

text \<open>
  C16: The amount shown as needed to lead is right: raising an eligible bid by it ranks the
  advertiser before the leader, and when no withdrawal is pending no smaller raise does.
\<close>

theorem bidNeededToLead_exact:
  assumes "bidNeededToLead (Some own) (Some leader) = Some n" and "sp_eligible leader"
    and "\<not> (sp_eligible own \<and> sp_stakerAddress own = sp_stakerAddress leader)"
  shows "compareAdStakePositions (raised own n) leader < 0 \<and>
    (sp_withdrawAvailableAt own = 0 \<longrightarrow> (\<forall>m. 0 \<le> m \<and> m < n \<longrightarrow> \<not> compareAdStakePositions (raised own m) leader < 0))"
proof -
  let ?o = "rawStake (sp_bidUsdRaw own)" and ?l = "rawStake (sp_bidUsdRaw leader)"
  let ?even = "compareAdStakePositions (own\<lparr>sp_eligible := True, sp_bidUsdRaw := sp_bidUsdRaw leader\<rparr>) leader"
  have wins: "winsEqualBid (Some own) (Some leader) \<longleftrightarrow> sp_withdrawAvailableAt own = 0 \<and> ?even < 0"
    by (simp add: winsEqualBid_def)
  have n: "n = (let t = ?l + (if winsEqualBid (Some own) (Some leader) then 0 else 1) in if t > ?o then t - ?o else 0)"
    using assms(1,3) by (auto simp: bidNeededToLead_def Let_def)
  have lead: "compareAdStakePositions (raised own n) leader < 0"
  proof (cases "?o + n > ?l")
    case True
    then show ?thesis using compare_bids(1) [of "raised own n" leader] assms(2) by simp
  next
    case False
    then have "?o + n = ?l" "winsEqualBid (Some own) (Some leader)" using n by (auto simp: Let_def split: if_splits)
    then show ?thesis using raised_equal_bid [OF assms(2)] wins by simp
  qed
  moreover have "\<not> compareAdStakePositions (raised own m) leader < 0"
    if "sp_withdrawAvailableAt own = 0" "0 \<le> m" "m < n" for m
  proof (cases "?o + m < ?l")
    case True
    then show ?thesis using compare_bids(2) [of "raised own m" leader] assms(2) by simp
  next
    case False
    then have "?o + m = ?l" "\<not> winsEqualBid (Some own) (Some leader)"
      using n that by (auto simp: Let_def split: if_splits)
    then show ?thesis using raised_equal_bid [OF assms(2)] wins that(1) by simp
  qed
  ultimately show ?thesis by blast
qed

text \<open>
  The leading bid shown with a keyword is the highest bid of its eligible positions, and the
  bid needed to lead is shown exactly when there is a leader.
\<close>

theorem campaign_standing_leader:
  "(st_leaderBidUsdRaw (campaign_standing rows address) = None \<longleftrightarrow> (\<forall>p\<in>set rows. \<not> sp_eligible p)) \<and>
   (st_bidNeededToLeadUsdRaw (campaign_standing rows address) = None \<longleftrightarrow> (\<forall>p\<in>set rows. \<not> sp_eligible p)) \<and>
   (\<forall>b. st_leaderBidUsdRaw (campaign_standing rows address) = Some b \<longrightarrow>
     (\<forall>p\<in>set rows. sp_eligible p \<longrightarrow> rawStake (sp_bidUsdRaw p) \<le> b))"
proof -
  let ?leader = "List.find sp_eligible (sort_by compareAdStakePositions rows)"
  have none: "?leader = None \<longleftrightarrow> (\<forall>p\<in>set rows. \<not> sp_eligible p)"
    by (auto simp: find_None_iff)
  have best: "rawStake (sp_bidUsdRaw p) \<le> rawStake (sp_bidUsdRaw l)"
    if "?leader = Some l" "p \<in> set rows" "sp_eligible p" for l p
  proof -
    have "compareAdStakePositions l p \<le> 0" by (rule ranking.find_best [OF that])
    moreover have "sp_eligible l" using find_in_sorted [OF that(1)] by simp
    ultimately show ?thesis using compare_bids(2) [of l p] that(3) by (metis not_le)
  qed
  show ?thesis
    unfolding campaign_standing_def Let_def
    using none best by (auto simp: bidNeededToLead_def Let_def split: option.splits)
qed

subsection \<open>A sample auction\<close>

definition sample_position :: "string \<Rightarrow> string \<Rightarrow> int \<Rightarrow> stake_position" where
  "sample_position staker bid since = \<lparr>sp_chainId = 7, sp_contractAddress = ''m'', sp_keywordId = ''K'',
     sp_stakerAddress = staker, sp_stakeRaw = ''9'', sp_bidUsdRaw = bid, sp_requiredCoveragePreRaw = ''1'',
     sp_eligible = True, sp_withdrawAvailableAt = 0, sp_positionVersion = 1, sp_stakeSinceBlock = since,
     sp_stakeSinceLogIndex = 0, sp_amountSinceBlock = since, sp_amountSinceLogIndex = 0,
     sp_positionBlock = since, sp_positionBlockHash = ''h'', sp_positionTxHash = ''t'',
     sp_positionLogIndex = 0, sp_active = True\<rparr>"

definition sample_revision :: "string \<Rightarrow> revision" where
  "sample_revision i = \<lparr>rev_id = i, rev_campaignId = ''c'', rev_version = 1,
     rev_creative = \<lparr>cr_headline = ''h'', cr_description = ''d'', cr_destinationUrl = ''u'', cr_displayDomain = ''n''\<rparr>,
     rev_status = APPROVED, rev_moderatedByAddress = None, rev_moderationNote = None, rev_moderatedAt = Some 1\<rparr>"

definition sample_campaign :: "string \<Rightarrow> eligible_campaign" where
  "sample_campaign staker = \<lparr>ec_campaign = \<lparr>camp_id = ''c'', camp_userId = ''u'', camp_userAddress = staker,
     camp_canonicalKeyword = [97], camp_activeRevisionId = Some ''r'', camp_pausedAt = None\<rparr>,
     ec_activeRevision = Some (sample_revision ''r'')\<rparr>"

definition sample_candidate :: "utext \<Rightarrow> candidate" where
  "sample_candidate k = \<lparr>cand_keyword = k, cand_tokenCount = 1, cand_characterCount = length k, cand_startToken = 0\<rparr>"

definition sample_kid :: "utext \<Rightarrow> text_error + string" where
  "sample_kid k = (if k = [97] then Inr ''K'' else Inr ''Q'')"

lemma sample_selection:
  "selectEligibleAd sample_kid [sample_candidate [98], sample_candidate [97]]
     [sample_position ''a'' ''5'' 1, sample_position ''b'' ''5'' 2, sample_position ''c'' ''8'' 3]
     [sample_campaign ''a'', sample_campaign ''b''] =
   Inr (Some (sample_candidate [97], sample_position ''a'' ''5'' 1, sample_campaign ''a''))"
  by code_simp

lemma selectEligibleAd_best_witness:
  "\<exists>before after i. [sample_candidate [98], sample_candidate [97]] = before @ sample_candidate [97] # after \<and>
    sample_kid (cand_keyword (sample_candidate [97])) = Inr i \<and>
    sample_position ''a'' ''5'' 1 \<in> set [sample_position ''a'' ''5'' 1, sample_position ''b'' ''5'' 2, sample_position ''c'' ''8'' 3] \<and>
    served_by sample_kid [sample_campaign ''a'', sample_campaign ''b''] i (sample_position ''a'' ''5'' 1) (sample_campaign ''a'')"
  using selectEligibleAd_best [OF sample_selection] by blast

lemma selectEligibleAd_none_witness:
  "selectEligibleAd sample_kid [sample_candidate [98]] [sample_position ''a'' ''5'' 1] [sample_campaign ''a''] = Inr None \<and>
   \<not> served_by sample_kid [sample_campaign ''a''] ''Q'' (sample_position ''a'' ''5'' 1) (sample_campaign ''a'')"
proof
  show none: "selectEligibleAd sample_kid [sample_candidate [98]] [sample_position ''a'' ''5'' 1] [sample_campaign ''a''] = Inr None"
    by code_simp
  have "sample_kid (cand_keyword (sample_candidate [98])) = Inr ''Q''" by code_simp
  with selectEligibleAd_none [OF none]
  show "\<not> served_by sample_kid [sample_campaign ''a''] ''Q'' (sample_position ''a'' ''5'' 1) (sample_campaign ''a'')"
    by simp
qed

lemma selectEligibleAd_order_free_witness:
  "selectEligibleAd sample_kid [sample_candidate [97]] [sample_position ''b'' ''5'' 2, sample_position ''a'' ''5'' 1] [sample_campaign ''a''] =
   selectEligibleAd sample_kid [sample_candidate [97]] [sample_position ''a'' ''5'' 1, sample_position ''b'' ''5'' 2] [sample_campaign ''a'']"
proof (rule selectEligibleAd_order_free)
  have "to_lower ''a'' \<noteq> to_lower ''b''" by code_simp
  then show "distinct (map (\<lambda>p. (sp_keywordId p, to_lower (sp_stakerAddress p)))
      [sample_position ''a'' ''5'' 1, sample_position ''b'' ''5'' 2])"
    by (simp add: sample_position_def)
qed simp

lemma bidNeededToLead_exact_witness:
  "compareAdStakePositions (raised (sample_position ''b'' ''5'' 2) 4) (sample_position ''c'' ''8'' 1) < 0 \<and>
   \<not> compareAdStakePositions (raised (sample_position ''b'' ''5'' 2) 3) (sample_position ''c'' ''8'' 1) < 0"
proof -
  have n: "bidNeededToLead (Some (sample_position ''b'' ''5'' 2)) (Some (sample_position ''c'' ''8'' 1)) = Some 4"
    by code_simp
  show ?thesis
    using bidNeededToLead_exact [OF n] by (simp add: sample_position_def)
qed

lemma campaign_standing_leader_witness:
  "st_leaderBidUsdRaw (campaign_standing [sample_position ''a'' ''5'' 1, sample_position ''c'' ''8'' 3] ''a'') = Some 8 \<and>
   rawStake (sp_bidUsdRaw (sample_position ''a'' ''5'' 1)) \<le> 8"
proof
  show "st_leaderBidUsdRaw (campaign_standing [sample_position ''a'' ''5'' 1, sample_position ''c'' ''8'' 3] ''a'') = Some 8"
    by code_simp
  then show "rawStake (sp_bidUsdRaw (sample_position ''a'' ''5'' 1)) \<le> 8"
    using campaign_standing_leader [of "[sample_position ''a'' ''5'' 1, sample_position ''c'' ''8'' 3]" "''a''"]
    by (auto simp: sample_position_def)
qed

end
