(* ===== verification/Moderation.thy ===== *)
theory Moderation
  imports Market
begin

section \<open>Campaigns, revisions and their moderation\<close>

text \<open>
  The writing half of \<^verbatim>\<open>apps/api/src/ads/ads.service.ts\<close>: \<^verbatim>\<open>createCampaign\<close>, \<^verbatim>\<open>createRevision\<close>,
  \<^verbatim>\<open>updateCampaign\<close>, \<^verbatim>\<open>report\<close>, \<^verbatim>\<open>moderateRevision\<close> and \<^verbatim>\<open>resolveReports\<close>. A database
  transaction runs as one step. The clock and the identifiers of new rows are answers of the outside
  world; a primary key that is already taken is the database's unique violation.
\<close>

record 'w api_deps =
  now :: "'w \<Rightarrow> (api_error + int) \<times> 'w"
  uuid :: "'w \<Rightarrow> (api_error + string) \<times> 'w"
  reporter :: "int \<Rightarrow> string \<Rightarrow> string"

text \<open>\<^verbatim>\<open>new URL(text)\<close>: the parsed parts, or \<open>None\<close> where the constructor throws.\<close>

record parsed_url =
  url_protocol :: string
  url_username :: string
  url_password :: string
  url_hostname :: string
  url_href :: string

record creative_input =
  in_headline :: string
  in_description :: string
  in_destinationUrl :: string

definition DESTINATION_URL_MAX_CHARACTERS :: nat where "DESTINATION_URL_MAX_CHARACTERS = 2048"

definition validatedCreative :: "(string \<Rightarrow> parsed_url option) \<Rightarrow> creative_input \<Rightarrow> creative option" where
  "validatedCreative parse i = (case parse (in_destinationUrl i) of
     None \<Rightarrow> None
   | Some d \<Rightarrow>
       if url_protocol d \<noteq> ''https:'' \<or> url_username d \<noteq> [] \<or> url_password d \<noteq> [] \<or> url_hostname d = []
       then None
       else if length (url_href d) > DESTINATION_URL_MAX_CHARACTERS then None
       else Some \<lparr>cr_headline = js_trim (in_headline i), cr_description = js_trim (in_description i),
         cr_destinationUrl = url_href d, cr_displayDomain = url_hostname d\<rparr>)"

definition canSuspendRevision :: "revision \<Rightarrow> bool" where
  "canSuspendRevision r \<longleftrightarrow> rev_status r = APPROVED \<or> (rev_status r = SUPERSEDED \<and> rev_moderatedAt r \<noteq> None)"

text \<open>\<^verbatim>\<open>readApplicationFeatures\<close>: without a settings row new revisions need a review.\<close>

definition keywordMarketRequireReview :: "market_db \<Rightarrow> bool" where
  "keywordMarketRequireReview d = (case requireReviewSetting d of None \<Rightarrow> True | Some b \<Rightarrow> b)"

definition assertModerationStateUnchanged :: "nat \<Rightarrow> ('m, 'w, unit) market_prog" where
  "assertModerationStateUnchanged n = (if n \<noteq> 1 then throw Conflict else ret ())"

definition guarded :: "('m, 'w, nat) market_prog \<Rightarrow> ('m, 'w, unit) market_prog" where
  "guarded m = bindp m assertModerationStateUnchanged"

definition clearResolverCache :: "('w, unit) ads_prog" where
  "clearResolverCache = mem_mod (\<lambda>_. [])"

definition audit :: "principal \<Rightarrow> string \<Rightarrow> audit_action \<Rightarrow> ('m, 'w, unit) market_prog" where
  "audit actor entityId action = bindp (db_get projectConfigured) (\<lambda>ok.
     if \<not> ok then throw NotFound
     else db_mod (auditEvent_update (\<lambda>es. es @
       [\<lparr>aud_actor = pr_address actor, aud_entityId = entityId, aud_action = action\<rparr>])))"

subsection \<open>Campaigns\<close>

definition insert_campaign :: "campaign \<Rightarrow> ('m, 'w, unit) market_prog" where
  "insert_campaign c = bindp (db_get adCampaign) (\<lambda>rows.
     if \<exists>x\<in>set rows. camp_id x = camp_id c \<or>
          (camp_userId x = camp_userId c \<and> camp_canonicalKeyword x = camp_canonicalKeyword c)
     then throw Conflict else db_mod (adCampaign_update (\<lambda>rows. rows @ [c])))"

definition insert_revision :: "api_error \<Rightarrow> revision \<Rightarrow> ('m, 'w, unit) market_prog" where
  "insert_revision e r = bindp (db_get adCreativeRevision) (\<lambda>rows.
     if \<exists>x\<in>set rows. rev_id x = rev_id r \<or> (rev_campaignId x = rev_campaignId r \<and> rev_version x = rev_version r)
     then throw e else db_mod (adCreativeRevision_update (\<lambda>rows. rows @ [r])))"

definition new_revision :: "string \<Rightarrow> string \<Rightarrow> nat \<Rightarrow> creative \<Rightarrow> bool \<Rightarrow> int \<Rightarrow> revision" where
  "new_revision i campaignId version c review at = \<lparr>rev_id = i, rev_campaignId = campaignId, rev_version = version,
     rev_creative = c, rev_status = (if review then PENDING_REVIEW else APPROVED),
     rev_moderatedByAddress = None, rev_moderationNote = None,
     rev_moderatedAt = (if review then None else Some at)\<rparr>"

definition createCampaign ::
  "unicode \<Rightarrow> (string \<Rightarrow> parsed_url option) \<Rightarrow> 'w api_deps \<Rightarrow> utext \<Rightarrow> creative_input \<Rightarrow> principal
   \<Rightarrow> ('w, string \<times> string) ads_prog" where
  "createCampaign u parse deps keyword body actor = (case normalizeAdKeyword u keyword of
     Inl _ \<Rightarrow> throw BadRequest
   | Inr canonicalKeyword \<Rightarrow> (case validatedCreative parse body of
       None \<Rightarrow> throw BadRequest
     | Some creative \<Rightarrow>
         bindp (transactional
           (bindp (db_get keywordMarketRequireReview) (\<lambda>review.
            bindp (extern (now deps)) (\<lambda>at.
            bindp (extern (uuid deps)) (\<lambda>campaignId.
            bindp (extern (uuid deps)) (\<lambda>revisionId.
            thenp (insert_campaign \<lparr>camp_id = campaignId, camp_userId = pr_userId actor,
              camp_userAddress = pr_address actor, camp_canonicalKeyword = canonicalKeyword,
              camp_activeRevisionId = None, camp_pausedAt = None\<rparr>)
            (thenp (insert_revision Conflict (new_revision revisionId campaignId 1 creative review at))
            (thenp (if review then ret () else bindp
               (update_campaigns (\<lambda>c. camp_id c = campaignId) (camp_activeRevisionId_update (\<lambda>_. Some revisionId)))
               (\<lambda>_. ret ()))
            (ret (campaignId, revisionId))))))))))
         (\<lambda>ids. thenp clearResolverCache (ret ids))))"

definition latest_version :: "string \<Rightarrow> market_db \<Rightarrow> nat" where
  "latest_version campaignId d =
     fold max (map rev_version (filter (\<lambda>r. rev_campaignId r = campaignId) (adCreativeRevision d))) 0"

definition supersede_active :: "string \<Rightarrow> ('m, 'w, unit) market_prog" where
  "supersede_active i = guarded (update_revisions (\<lambda>r. rev_id r = i \<and> rev_status r = APPROVED)
     (rev_status_update (\<lambda>_. SUPERSEDED)))"

definition activate :: "string \<Rightarrow> string option \<Rightarrow> string option \<Rightarrow> ('m, 'w, unit) market_prog" where
  "activate campaignId expected active = guarded (update_campaigns
     (\<lambda>c. camp_id c = campaignId \<and> camp_activeRevisionId c = expected)
     (camp_activeRevisionId_update (\<lambda>_. active)))"

definition createRevision ::
  "(string \<Rightarrow> parsed_url option) \<Rightarrow> 'w api_deps \<Rightarrow> string \<Rightarrow> creative_input \<Rightarrow> principal
   \<Rightarrow> ('w, string \<times> nat) ads_prog" where
  "createRevision parse deps campaignId body actor = (case validatedCreative parse body of
     None \<Rightarrow> throw BadRequest
   | Some creative \<Rightarrow>
       bindp (transactional
         (bindp (db_get (\<lambda>d. List.find (\<lambda>c. camp_id c = campaignId \<and> camp_userId c = pr_userId actor) (adCampaign d)))
           (\<lambda>found. case found of None \<Rightarrow> throw NotFound | Some campaign \<Rightarrow>
          bindp (db_get (latest_version campaignId)) (\<lambda>latest.
          bindp (db_get keywordMarketRequireReview) (\<lambda>review.
          thenp (case camp_activeRevisionId campaign of
              Some active \<Rightarrow> if \<not> review then supersede_active active else ret ()
            | None \<Rightarrow> ret ())
          (bindp (update_revisions (\<lambda>r. rev_campaignId r = campaignId \<and> rev_status r = PENDING_REVIEW)
             (rev_status_update (\<lambda>_. SUPERSEDED))) (\<lambda>_.
          bindp (extern (now deps)) (\<lambda>at.
          bindp (extern (uuid deps)) (\<lambda>revisionId.
          thenp (insert_revision Other (new_revision revisionId campaignId (latest + 1) creative review at))
          (thenp (if review then ret () else activate campaignId (camp_activeRevisionId campaign) (Some revisionId))
          (ret (revisionId, latest + 1))))))))))))
       (\<lambda>r. thenp clearResolverCache (ret r)))"

definition updateCampaign :: "'w api_deps \<Rightarrow> string \<Rightarrow> bool \<Rightarrow> principal \<Rightarrow> ('w, unit) ads_prog" where
  "updateCampaign deps campaignId paused actor =
     bindp (extern (now deps)) (\<lambda>at.
     bindp (update_campaigns (\<lambda>c. camp_id c = campaignId \<and> camp_userId c = pr_userId actor)
       (camp_pausedAt_update (\<lambda>_. if paused then Some at else None)))
       (\<lambda>n. if n \<noteq> 1 then throw NotFound else clearResolverCache))"

subsection \<open>Reports\<close>

definition bump_total :: "string \<Rightarrow> string \<Rightarrow> report_total list \<Rightarrow> report_total list" where
  "bump_total revisionId reason rows =
     (if \<exists>t\<in>set rows. tot_revisionId t = revisionId \<and> tot_reason t = reason
      then update_where (\<lambda>t. tot_revisionId t = revisionId \<and> tot_reason t = reason) (tot_total_update Suc) rows
      else rows @ [\<lparr>tot_revisionId = revisionId, tot_reason = reason, tot_total = 1\<rparr>])"

definition same_report :: "report \<Rightarrow> report \<Rightarrow> bool" where
  "same_report a b \<longleftrightarrow> rep_revisionId a = rep_revisionId b \<and> rep_fingerprint a = rep_fingerprint b \<and> rep_day a = rep_day b"

text \<open>The reporter's fingerprint is keyed by the day and the address; a day is a whole number of days.\<close>

definition report_ad ::
  "'w api_deps \<Rightarrow> string \<Rightarrow> string \<Rightarrow> string \<Rightarrow> string \<Rightarrow> ('m, 'w, unit) market_prog" where
  "report_ad deps revisionId reason comment ip =
     bindp (extern (now deps)) (\<lambda>at.
     let day = at div 86400000;
         row = \<lparr>rep_revisionId = revisionId, rep_reason = reason,
           rep_comment = (if comment = [] then None else Some comment),
           rep_fingerprint = reporter deps day ip, rep_day = day, rep_status = OPEN,
           rep_resolvedByAddress = None, rep_resolutionNote = None, rep_resolvedAt = None\<rparr>
     in transactional
       (bindp (db_get (find_revision revisionId)) (\<lambda>found. case found of
          None \<Rightarrow> ret ()
        | Some _ \<Rightarrow> bindp (db_get adReport) (\<lambda>rows.
            if \<exists>x\<in>set rows. same_report x row then ret ()
            else thenp (db_mod (adReport_update (\<lambda>rows. rows @ [row])))
              (db_mod (adReportAggregate_update (bump_total revisionId reason)))))))"

subsection \<open>Moderation\<close>

datatype moderation_action = APPROVE | REJECT | SUSPEND | RESTORE
datatype report_resolution = DISMISS | SUSPEND_AD

definition note_value :: "string \<Rightarrow> string option" where
  "note_value note = (if note = [] then None else Some note)"

definition moderated :: "creative_status \<Rightarrow> principal \<Rightarrow> string \<Rightarrow> int \<Rightarrow> revision \<Rightarrow> revision" where
  "moderated status actor note at r = r\<lparr>rev_status := status,
     rev_moderatedByAddress := Some (pr_address actor), rev_moderationNote := note_value note,
     rev_moderatedAt := Some at\<rparr>"

text \<open>\<^verbatim>\<open>include: { campaign: true }\<close>: the foreign key makes the campaign exist.\<close>

definition revision_with_campaign :: "string \<Rightarrow> ('m, 'w, revision \<times> campaign) market_prog" where
  "revision_with_campaign i = bindp (db_get (find_revision i)) (\<lambda>r. case r of
     None \<Rightarrow> throw NotFound
   | Some revision \<Rightarrow> bindp (db_get (find_campaign (rev_campaignId revision))) (\<lambda>c. case c of
       None \<Rightarrow> throw Other | Some campaign \<Rightarrow> ret (revision, campaign)))"

definition suspend_revision :: "revision \<Rightarrow> principal \<Rightarrow> string \<Rightarrow> int \<Rightarrow> ('m, 'w, unit) market_prog" where
  "suspend_revision revision actor note at = guarded (update_revisions
     (\<lambda>r. rev_id r = rev_id revision \<and> rev_status r = rev_status revision \<and>
        (rev_status revision = SUPERSEDED \<longrightarrow> rev_moderatedAt r \<noteq> None))
     (moderated SUSPENDED actor note at))"

definition deactivate_if_active :: "revision \<Rightarrow> campaign \<Rightarrow> ('m, 'w, unit) market_prog" where
  "deactivate_if_active revision campaign = whenp (camp_activeRevisionId campaign = Some (rev_id revision))
     (activate (rev_campaignId revision) (Some (rev_id revision)) None)"

definition set_status ::
  "revision \<Rightarrow> creative_status \<Rightarrow> creative_status \<Rightarrow> principal \<Rightarrow> string \<Rightarrow> int \<Rightarrow> ('m, 'w, unit) market_prog" where
  "set_status revision old new actor note at = guarded (update_revisions
     (\<lambda>r. rev_id r = rev_id revision \<and> rev_status r = old) (moderated new actor note at))"

definition moderation_step ::
  "moderation_action \<Rightarrow> revision \<Rightarrow> campaign \<Rightarrow> principal \<Rightarrow> string \<Rightarrow> int \<Rightarrow> ('m, 'w, unit) market_prog" where
  "moderation_step action revision campaign actor note at = (case action of
     APPROVE \<Rightarrow>
       if rev_status revision \<noteq> PENDING_REVIEW then throw Conflict
       else thenp (case camp_activeRevisionId campaign of
           Some active \<Rightarrow> supersede_active active | None \<Rightarrow> ret ())
         (thenp (set_status revision PENDING_REVIEW APPROVED actor note at)
           (activate (rev_campaignId revision) (camp_activeRevisionId campaign) (Some (rev_id revision))))
   | REJECT \<Rightarrow>
       if rev_status revision \<noteq> PENDING_REVIEW then throw Conflict
       else set_status revision PENDING_REVIEW REJECTED actor note at
   | SUSPEND \<Rightarrow>
       if \<not> canSuspendRevision revision then throw Conflict
       else thenp (suspend_revision revision actor note at) (deactivate_if_active revision campaign)
   | RESTORE \<Rightarrow>
       if rev_status revision \<noteq> SUSPENDED then throw Conflict
       else if camp_activeRevisionId campaign \<noteq> None then throw Conflict
       else thenp (set_status revision SUSPENDED APPROVED actor note at)
         (activate (rev_campaignId revision) None (Some (rev_id revision))))"

definition moderation_audit :: "moderation_action \<Rightarrow> audit_action" where
  "moderation_audit action = (case action of APPROVE \<Rightarrow> AD_REVISION_APPROVE | REJECT \<Rightarrow> AD_REVISION_REJECT
     | SUSPEND \<Rightarrow> AD_REVISION_SUSPEND | RESTORE \<Rightarrow> AD_REVISION_RESTORE)"

definition moderateRevision ::
  "'w api_deps \<Rightarrow> string \<Rightarrow> moderation_action \<Rightarrow> string \<Rightarrow> principal \<Rightarrow> ('w, unit) ads_prog" where
  "moderateRevision deps revisionId action note actor =
     thenp (transactional
       (bindp (revision_with_campaign revisionId) (\<lambda>(revision, campaign).
        bindp (extern (now deps)) (\<lambda>at.
        thenp (moderation_step action revision campaign actor note at)
          (audit actor revisionId (moderation_audit action))))))
     clearResolverCache"

definition resolveReports ::
  "'w api_deps \<Rightarrow> string \<Rightarrow> report_resolution \<Rightarrow> string \<Rightarrow> principal \<Rightarrow> ('w, unit) ads_prog" where
  "resolveReports deps revisionId action note actor =
     thenp (transactional
       (bindp (revision_with_campaign revisionId) (\<lambda>(revision, campaign).
        bindp (db_get (\<lambda>d. count_where (\<lambda>r. rep_revisionId r = revisionId \<and> rep_status r = OPEN) (adReport d)))
          (\<lambda>openReports.
        if openReports = 0 then throw Conflict
        else bindp (extern (now deps)) (\<lambda>at.
        thenp (whenp (action = SUSPEND_AD)
          (thenp (whenp (canSuspendRevision revision) (suspend_revision revision actor note at))
            (deactivate_if_active revision campaign)))
        (bindp (update_reports (\<lambda>r. rep_revisionId r = revisionId \<and> rep_status r = OPEN)
           (\<lambda>r. r\<lparr>rep_status := (if action = DISMISS then DISMISSED else ACTIONED),
             rep_resolvedByAddress := Some (pr_address actor), rep_resolutionNote := note_value note,
             rep_resolvedAt := Some at\<rparr>)) (\<lambda>resolved.
        if resolved = 0 then throw Conflict
        else audit actor revisionId
          (case action of DISMISS \<Rightarrow> AD_REPORTS_DISMISS | SUSPEND_AD \<Rightarrow> AD_REPORTS_SUSPEND_AD))))))))
     clearResolverCache"

end
