(* ===== verification/Moderation_Facts.thy ===== *)
theory Moderation_Facts
  imports Moderation
begin

section \<open>What moderation keeps\<close>

text \<open>
  The invariant of campaigns and revisions, its preservation by every operation of
  \<^verbatim>\<open>ads.service.ts\<close> that writes them, and the life of one revision as a state machine.
\<close>

subsection \<open>The invariant\<close>

definition consistent :: "revision list \<Rightarrow> campaign \<Rightarrow> bool" where
  "consistent R c \<longleftrightarrow>
     (\<forall>r\<in>set R. rev_campaignId r = camp_id c \<longrightarrow>
        (rev_status r = APPROVED \<longleftrightarrow> camp_activeRevisionId c = Some (rev_id r))) \<and>
     (\<forall>i. camp_activeRevisionId c = Some i \<longrightarrow> (\<exists>r\<in>set R. rev_campaignId r = camp_id c \<and> rev_id r = i))"

definition campaigns_ok :: "campaign list \<Rightarrow> revision list \<Rightarrow> bool" where
  "campaigns_ok C R \<longleftrightarrow> distinct (map camp_id C) \<and> distinct (map rev_id R) \<and>
     distinct (map (\<lambda>c. (camp_userId c, camp_canonicalKeyword c)) C) \<and>
     distinct (map (\<lambda>r. (rev_campaignId r, rev_version r)) R) \<and>
     (\<forall>r\<in>set R. \<exists>c\<in>set C. camp_id c = rev_campaignId r) \<and> (\<forall>c\<in>set C. consistent R c) \<and>
     (\<forall>r\<in>set R. \<forall>q\<in>set R. rev_status r = PENDING_REVIEW \<and> rev_status q = PENDING_REVIEW \<and>
        rev_campaignId r = rev_campaignId q \<longrightarrow> r = q)"

definition moderation_inv :: "market_db \<Rightarrow> bool" where
  "moderation_inv d \<longleftrightarrow> campaigns_ok (adCampaign d) (adCreativeRevision d)"

lemma campaigns_ok_revision:
  "campaigns_ok C R \<Longrightarrow> r \<in> set R \<Longrightarrow> q \<in> set R \<Longrightarrow> rev_id r = rev_id q \<Longrightarrow> r = q"
  unfolding campaigns_ok_def by (blast intro: distinct_map_eq)

lemma campaigns_ok_campaign:
  "campaigns_ok C R \<Longrightarrow> c \<in> set C \<Longrightarrow> c' \<in> set C \<Longrightarrow> camp_id c = camp_id c' \<Longrightarrow> c = c'"
  unfolding campaigns_ok_def by (blast intro: distinct_map_eq)

lemma campaigns_ok_approved:
  "campaigns_ok C R \<Longrightarrow> c \<in> set C \<Longrightarrow> r \<in> set R \<Longrightarrow> rev_campaignId r = camp_id c \<Longrightarrow>
   rev_status r = APPROVED \<longleftrightarrow> camp_activeRevisionId c = Some (rev_id r)"
  unfolding campaigns_ok_def consistent_def by blast

lemma campaigns_ok_active:
  "campaigns_ok C R \<Longrightarrow> c \<in> set C \<Longrightarrow> camp_activeRevisionId c = Some i \<Longrightarrow>
   \<exists>r\<in>set R. rev_campaignId r = camp_id c \<and> rev_id r = i"
  unfolding campaigns_ok_def consistent_def by blast

text \<open>Rewriting rows in place: what must hold of the new statuses and active revisions.\<close>

definition keeps_revision_keys :: "(revision \<Rightarrow> revision) \<Rightarrow> bool" where
  "keeps_revision_keys f \<longleftrightarrow> (\<forall>r. rev_id (f r) = rev_id r \<and> rev_campaignId (f r) = rev_campaignId r \<and>
     rev_version (f r) = rev_version r)"

definition keeps_campaign_keys :: "(campaign \<Rightarrow> campaign) \<Rightarrow> bool" where
  "keeps_campaign_keys g \<longleftrightarrow> (\<forall>c. camp_id (g c) = camp_id c \<and> camp_userId (g c) = camp_userId c \<and>
     camp_canonicalKeyword (g c) = camp_canonicalKeyword c)"

lemma campaigns_ok_map:
  assumes ok: "campaigns_ok C R" and f: "keeps_revision_keys f" and g: "keeps_campaign_keys g"
    and status: "\<And>c r. c \<in> set C \<Longrightarrow> r \<in> set R \<Longrightarrow> rev_campaignId r = camp_id c \<Longrightarrow>
      rev_status (f r) = APPROVED \<longleftrightarrow> camp_activeRevisionId (g c) = Some (rev_id r)"
    and active: "\<And>c i. c \<in> set C \<Longrightarrow> camp_activeRevisionId (g c) = Some i \<Longrightarrow>
      camp_activeRevisionId c = Some i \<or> (\<exists>r\<in>set R. rev_campaignId r = camp_id c \<and> rev_id r = i)"
    and pending: "\<And>r. r \<in> set R \<Longrightarrow> rev_status (f r) = PENDING_REVIEW \<Longrightarrow> rev_status r = PENDING_REVIEW"
  shows "campaigns_ok (map g C) (map f R)"
proof -
  have keys: "rev_id (f r) = rev_id r" "rev_campaignId (f r) = rev_campaignId r" "rev_version (f r) = rev_version r"
    "camp_id (g c) = camp_id c" "camp_userId (g c) = camp_userId c" "camp_canonicalKeyword (g c) = camp_canonicalKeyword c" for r c
    using f g by (auto simp: keeps_revision_keys_def keeps_campaign_keys_def)
  have "consistent (map f R) (g c)" if "c \<in> set C" for c
    using status [OF that] active [OF that] campaigns_ok_active [OF ok that]
    by (fastforce simp: consistent_def keys)
  moreover have "f r = f q" if "r \<in> set R" "q \<in> set R" "rev_status (f r) = PENDING_REVIEW"
    "rev_status (f q) = PENDING_REVIEW" "rev_campaignId r = rev_campaignId q" for r q
    using that pending ok unfolding campaigns_ok_def by blast
  ultimately show ?thesis
    using ok by (simp add: campaigns_ok_def o_def keys)
qed

subsection \<open>Programs over the two tables\<close>

definition tables :: "campaign list \<Rightarrow> revision list \<Rightarrow> market_db \<Rightarrow> bool" where
  "tables C R d \<longleftrightarrow> adCampaign d = C \<and> adCreativeRevision d = R"

lemma keeps_by_tables:
  assumes "\<And>C R. campaigns_ok C R \<Longrightarrow> triple (tables C R) m (\<lambda>_. moderation_inv) (\<lambda>_. True)"
  shows "triple moderation_inv m (\<lambda>_. moderation_inv) (\<lambda>_. True)"
proof (rule triple_given)
  fix d assume "moderation_inv d"
  show "triple moderation_inv m (\<lambda>_. moderation_inv) (\<lambda>_. True)"
  proof (rule tripleI)
    fix s :: "(market_db, 'a, 'b) machine" and x s'
    assume "moderation_inv (db s)" and run: "m s = (Inr x, s')"
    then have "triple (tables (adCampaign (db s)) (adCreativeRevision (db s))) m (\<lambda>_. moderation_inv) (\<lambda>_. True)"
      using assms by (simp add: moderation_inv_def)
    from triple_Inr [OF this _ run] show "moderation_inv (db s')" by (simp add: tables_def)
  qed simp
qed

lemma triple_guarded_revisions:
  "triple (tables C R) (guarded (update_revisions P f)) (\<lambda>_. tables C (update_where P f R)) (\<lambda>_. True)"
  by (rule tripleI) (auto simp: guarded_def update_revisions_def assertModerationStateUnchanged_def prog_defs tables_def split: if_splits)

lemma triple_update_revisions:
  "triple (tables C R) (update_revisions P f) (\<lambda>_. tables C (update_where P f R)) (\<lambda>_. True)"
  by (rule tripleI) (auto simp: update_revisions_def prog_defs tables_def)

lemma triple_guarded_campaigns:
  "triple (tables C R) (guarded (update_campaigns P f)) (\<lambda>_. tables (update_where P f C) R) (\<lambda>_. True)"
  by (rule tripleI) (auto simp: guarded_def update_campaigns_def assertModerationStateUnchanged_def prog_defs tables_def split: if_splits)

lemma triple_update_campaigns:
  "triple (tables C R) (update_campaigns P f) (\<lambda>_. tables (update_where P f C) R) (\<lambda>_. True)"
  by (rule tripleI) (auto simp: update_campaigns_def prog_defs tables_def)

lemma triple_audit: "keeps moderation_inv (audit actor i a)"
  unfolding audit_def by (intro keeps_rules keeps_mod) (simp add: moderation_inv_def)

lemma triple_found:
  assumes "campaigns_ok C R"
  shows "triple (tables C R) (revision_with_campaign i)
    (\<lambda>x d. (fst x \<in> set R \<and> snd x \<in> set C \<and> camp_id (snd x) = rev_campaignId (fst x) \<and> rev_id (fst x) = i) \<and> tables C R d)
    (\<lambda>_. True)"
  by (rule tripleI)
    (auto simp: revision_with_campaign_def prog_defs tables_def dest!: find_revision_Some find_campaign_Some
      split: option.splits)

lemmas guarded_rules = triple_guarded_revisions triple_guarded_campaigns triple_update_revisions triple_update_campaigns

lemma tables_inv: "campaigns_ok C R \<Longrightarrow> tables C R d \<Longrightarrow> moderation_inv d"
  by (simp add: tables_def moderation_inv_def)

subsection \<open>The moderation steps\<close>

lemma keys_update:
  "(\<And>r. rev_id (f r) = rev_id r \<and> rev_campaignId (f r) = rev_campaignId r \<and> rev_version (f r) = rev_version r) \<Longrightarrow>
   keeps_revision_keys (\<lambda>r. if P r then f r else r)"
  by (simp add: keeps_revision_keys_def)

lemma moderated_fields [simp]:
  "rev_id (moderated st a n t r) = rev_id r" "rev_campaignId (moderated st a n t r) = rev_campaignId r"
  "rev_version (moderated st a n t r) = rev_version r" "rev_status (moderated st a n t r) = st"
  "rev_creative (moderated st a n t r) = rev_creative r"
  by (simp_all add: moderated_def)

lemma other_campaign:
  "campaigns_ok C R \<Longrightarrow> c \<in> set C \<Longrightarrow> c' \<in> set C \<Longrightarrow> camp_id c' = camp_id c \<longleftrightarrow> c' = c"
  using campaigns_ok_campaign by blast

lemma other_revision:
  "campaigns_ok C R \<Longrightarrow> r \<in> set R \<Longrightarrow> q \<in> set R \<Longrightarrow> rev_id q = rev_id r \<longleftrightarrow> q = r"
  using campaigns_ok_revision by blast

lemma active_elsewhere:
  "campaigns_ok C R \<Longrightarrow> c \<in> set C \<Longrightarrow> c' \<in> set C \<Longrightarrow> q \<in> set R \<Longrightarrow> rev_campaignId q = camp_id c' \<Longrightarrow>
   camp_activeRevisionId c = Some (rev_id q) \<Longrightarrow> c' = c"
  using campaigns_ok_active campaigns_ok_revision campaigns_ok_campaign by metis

text \<open>The four outcomes on the two tables.\<close>

lemma ok_reject:
  assumes ok: "campaigns_ok C R" and r: "r \<in> set R" "rev_status r \<noteq> APPROVED" and new: "st \<noteq> APPROVED" "st \<noteq> PENDING_REVIEW"
  shows "campaigns_ok C (update_where (\<lambda>q. rev_id q = rev_id r \<and> P q) (moderated st a n t) R)"
proof -
  have "campaigns_ok (map id C) (map (\<lambda>q. if rev_id q = rev_id r \<and> P q then moderated st a n t q else q) R)"
  proof (rule campaigns_ok_map [OF ok])
    fix c q assume "c \<in> set C" "q \<in> set R" "rev_campaignId q = camp_id c"
    then show "rev_status (if rev_id q = rev_id r \<and> P q then moderated st a n t q else q) = APPROVED \<longleftrightarrow>
        camp_activeRevisionId (id c) = Some (rev_id q)"
      using campaigns_ok_approved [OF ok] other_revision [OF ok r(1)] r(2) new by auto
  qed (use new in \<open>auto simp: keys_update keeps_campaign_keys_def split: if_splits\<close>)
  then show ?thesis by (simp add: update_where_def)
qed

lemma ok_suspend:
  assumes ok: "campaigns_ok C R" and r: "r \<in> set R" and c: "c \<in> set C" "camp_id c = rev_campaignId r"
    and P: "\<And>q. q \<in> set R \<Longrightarrow> q = r \<Longrightarrow> rev_status r = APPROVED \<Longrightarrow> P q"
    and g: "camp_activeRevisionId c = Some (rev_id r) \<Longrightarrow>
      C' = update_where (\<lambda>k. camp_id k = rev_campaignId r \<and> camp_activeRevisionId k = Some (rev_id r))
        (camp_activeRevisionId_update (\<lambda>_. None)) C"
    and g': "camp_activeRevisionId c \<noteq> Some (rev_id r) \<Longrightarrow> C' = C"
  shows "campaigns_ok C' (update_where (\<lambda>q. rev_id q = rev_id r \<and> P q) (moderated SUSPENDED a n t) R)"
proof (cases "camp_activeRevisionId c = Some (rev_id r)")
  case False
  then have "rev_status r \<noteq> APPROVED" using campaigns_ok_approved [OF ok c(1) r] c(2) by simp
  from ok_reject [OF ok r this] g' False show ?thesis by simp
next
  case active: True
  then have approved: "rev_status r = APPROVED" using campaigns_ok_approved [OF ok c(1) r] c(2) by simp
  let ?g = "\<lambda>k. if camp_id k = rev_campaignId r \<and> camp_activeRevisionId k = Some (rev_id r)
    then camp_activeRevisionId_update (\<lambda>_. None) k else k"
  have "campaigns_ok (map ?g C) (map (\<lambda>q. if rev_id q = rev_id r \<and> P q then moderated SUSPENDED a n t q else q) R)"
  proof (rule campaigns_ok_map [OF ok])
    fix k q assume k: "k \<in> set C" "q \<in> set R" "rev_campaignId q = camp_id k"
    show "rev_status (if rev_id q = rev_id r \<and> P q then moderated SUSPENDED a n t q else q) = APPROVED \<longleftrightarrow>
        camp_activeRevisionId (?g k) = Some (rev_id q)"
    proof (cases "q = r")
      case True
      then have kc: "k = c" using k(3) c(2) other_campaign [OF ok c(1) k(1)] by metis
      show ?thesis unfolding True kc using P [OF r refl approved] approved active c(2) by simp
    next
      case False
      then have "rev_id q \<noteq> rev_id r" using other_revision [OF ok r k(2)] by simp
      then have g: "camp_activeRevisionId (?g k) = Some (rev_id q) \<longleftrightarrow> camp_activeRevisionId k = Some (rev_id q)"
        by simp
      show ?thesis unfolding g using \<open>rev_id q \<noteq> rev_id r\<close> campaigns_ok_approved [OF ok k] by simp
    qed
  qed (auto simp: keys_update keeps_campaign_keys_def split: if_splits)
  then show ?thesis using g [OF active] by (simp add: update_where_def)
qed

lemma ok_publish:
  assumes ok: "campaigns_ok C R" and r: "r \<in> set R" "rev_status r = old" "old \<noteq> APPROVED"
    and c: "c \<in> set C" "camp_id c = rev_campaignId r"
  shows "campaigns_ok
    (update_where (\<lambda>k. camp_id k = rev_campaignId r \<and> camp_activeRevisionId k = camp_activeRevisionId c)
       (camp_activeRevisionId_update (\<lambda>_. Some (rev_id r))) C)
    (update_where (\<lambda>q. rev_id q = rev_id r \<and> rev_status q = old) (moderated APPROVED a n t)
       (update_where (\<lambda>q. Some (rev_id q) = camp_activeRevisionId c \<and> rev_status q = APPROVED)
          (rev_status_update (\<lambda>_. SUPERSEDED)) R))"
proof -
  let ?g = "\<lambda>k. if camp_id k = rev_campaignId r \<and> camp_activeRevisionId k = camp_activeRevisionId c
    then camp_activeRevisionId_update (\<lambda>_. Some (rev_id r)) k else k"
  let ?h = "\<lambda>q. if Some (rev_id q) = camp_activeRevisionId c \<and> rev_status q = APPROVED
    then rev_status_update (\<lambda>_. SUPERSEDED) q else q"
  let ?f = "\<lambda>q. if rev_id (?h q) = rev_id r \<and> rev_status (?h q) = old then moderated APPROVED a n t (?h q) else ?h q"
  have "campaigns_ok (map ?g C) (map ?f R)"
  proof (rule campaigns_ok_map [OF ok])
    fix k q assume k: "k \<in> set C" "q \<in> set R" "rev_campaignId q = camp_id k"
    have h: "rev_id (?h q) = rev_id q" by simp
    show "rev_status (?f q) = APPROVED \<longleftrightarrow> camp_activeRevisionId (?g k) = Some (rev_id q)"
    proof (cases "q = r")
      case True
      then have kc: "k = c" using k(3) c(2) other_campaign [OF ok c(1) k(1)] by metis
      show ?thesis unfolding True kc using r(2,3) c(2) by simp
    next
      case False
      then have f: "?f q = ?h q" using other_revision [OF ok r(1) k(2)] by simp
      have g: "camp_activeRevisionId (?g k) = Some (rev_id q) \<longleftrightarrow> k \<noteq> c \<and> camp_activeRevisionId k = Some (rev_id q)"
        using False other_revision [OF ok r(1) k(2)] other_campaign [OF ok c(1) k(1)] c(2) by fastforce
      have "rev_status (?h q) = APPROVED \<longleftrightarrow> rev_status q = APPROVED \<and> Some (rev_id q) \<noteq> camp_activeRevisionId c"
        by auto
      then show ?thesis
        unfolding f g using campaigns_ok_approved [OF ok k] active_elsewhere [OF ok c(1) k] by metis
    qed
  next
    fix k i assume "k \<in> set C" "camp_activeRevisionId (?g k) = Some i"
    then show "camp_activeRevisionId k = Some i \<or> (\<exists>q\<in>set R. rev_campaignId q = camp_id k \<and> rev_id q = i)"
      using r(1) by (auto split: if_splits)
  qed (auto simp: keeps_revision_keys_def keeps_campaign_keys_def split: if_splits)
  then show ?thesis by (simp add: update_where_def o_def)
qed

subsection \<open>Every operation keeps the invariant\<close>

lemma triple_when_tables:
  "(b \<Longrightarrow> triple (tables C R) m (\<lambda>_. tables C1 R1) (\<lambda>_. True)) \<Longrightarrow>
   triple (tables C R) (whenp b m) (\<lambda>_. tables (if b then C1 else C) (if b then R1 else R)) (\<lambda>_. True)"
  by (rule triple_when) auto

lemma triple_suspend_revision:
  "triple (tables C R) (suspend_revision r actor note at)
    (\<lambda>_. tables C (update_where (\<lambda>q. rev_id q = rev_id r \<and> rev_status q = rev_status r \<and>
        (rev_status r = SUPERSEDED \<longrightarrow> rev_moderatedAt q \<noteq> None)) (moderated SUSPENDED actor note at) R)) (\<lambda>_. True)"
  unfolding suspend_revision_def by (rule triple_guarded_revisions)

lemma suspend_step:
  assumes ok: "campaigns_ok C R" and r: "r \<in> set R" and c: "c \<in> set C" "camp_id c = rev_campaignId r"
  shows "triple (tables C R) (thenp (suspend_revision r actor note at) (deactivate_if_active r c))
    (\<lambda>_. moderation_inv) (\<lambda>_. True)"
  unfolding deactivate_if_active_def activate_def
  by (rule triple_then [OF triple_suspend_revision], rule triple_conseq [OF triple_when_tables [OF triple_guarded_campaigns]])
    (use ok_suspend [OF ok r c] c in \<open>auto simp: tables_def moderation_inv_def\<close>)

lemma tables_refl_active:
  "update_where (\<lambda>q. Some (rev_id q) = None \<and> P q) f R = R"
  by (simp add: update_where_def)

lemma publish_step:
  assumes ok: "campaigns_ok C R" and r: "r \<in> set R" "rev_status r = old" "old \<noteq> APPROVED"
    and c: "c \<in> set C" "camp_id c = rev_campaignId r"
  shows "triple (tables C R) (thenp (case camp_activeRevisionId c of Some active \<Rightarrow> supersede_active active | None \<Rightarrow> ret ())
      (thenp (set_status r old APPROVED actor note at)
        (activate (rev_campaignId r) (camp_activeRevisionId c) (Some (rev_id r)))))
    (\<lambda>_. moderation_inv) (\<lambda>_. True)"
proof -
  let ?R1 = "update_where (\<lambda>q. Some (rev_id q) = camp_activeRevisionId c \<and> rev_status q = APPROVED)
      (rev_status_update (\<lambda>_. SUPERSEDED)) R"
  have first: "triple (tables C R) (case camp_activeRevisionId c of Some active \<Rightarrow> supersede_active active | None \<Rightarrow> ret ())
      (\<lambda>_. tables C ?R1) (\<lambda>_. True)"
    by (cases "camp_activeRevisionId c")
      (auto simp: supersede_active_def update_where_def intro!: triple_ret
        triple_conseq [OF triple_guarded_revisions])
  show ?thesis
    unfolding set_status_def activate_def
    by (rule triple_then [OF first], rule triple_then [OF triple_guarded_revisions],
        rule triple_conseq [OF triple_guarded_campaigns])
      (use ok_publish [OF ok r c] in \<open>auto simp: tables_def moderation_inv_def\<close>)
qed

lemma moderation_step_keeps:
  assumes ok: "campaigns_ok C R" and r: "r \<in> set R" and c: "c \<in> set C" "camp_id c = rev_campaignId r"
  shows "triple (tables C R) (moderation_step action r c actor note at) (\<lambda>_. moderation_inv) (\<lambda>_. True)"
proof (cases action)
  case APPROVE
  show ?thesis unfolding moderation_step_def APPROVE moderation_action.case
    by (intro triple_if publish_step [OF ok r _ _ c] triple_throw) auto
next
  case REJECT
  have "triple (tables C R) (set_status r PENDING_REVIEW REJECTED actor note at) (\<lambda>_. moderation_inv) (\<lambda>_. True)"
    if "rev_status r = PENDING_REVIEW"
    unfolding set_status_def
    by (rule triple_conseq [OF triple_guarded_revisions])
      (use ok_reject [OF ok r, of REJECTED] that in \<open>auto simp: tables_def moderation_inv_def\<close>)
  then show ?thesis unfolding moderation_step_def REJECT moderation_action.case
    by (intro triple_if triple_throw) auto
next
  case SUSPEND
  show ?thesis unfolding moderation_step_def SUSPEND moderation_action.case
    by (intro triple_if suspend_step [OF ok r c] triple_throw) auto
next
  case RESTORE
  have "triple (tables C R) (thenp (set_status r SUSPENDED APPROVED actor note at)
      (activate (rev_campaignId r) None (Some (rev_id r)))) (\<lambda>_. moderation_inv) (\<lambda>_. True)"
    if "rev_status r = SUSPENDED" "camp_activeRevisionId c = None"
    using publish_step [OF ok r that(1) _ c, of actor "note" at] that(2)
    by (simp add: thenp_def bindp_def ret_def)
  then show ?thesis unfolding moderation_step_def RESTORE moderation_action.case
    by (intro triple_if triple_throw) auto
qed

lemma keeps_clear: "keeps I clearResolverCache"
  unfolding clearResolverCache_def by (rule keeps_mem_mod)

lemma triple_tables_extern: "triple (tables C R) (extern g) (\<lambda>_. tables C R) (\<lambda>_. True)"
  by (rule triple_extern) auto

lemma keeps_transactional_of:
  "triple I m (\<lambda>_. I) (\<lambda>_. True) \<Longrightarrow> keeps I (transactional m)"
  by (rule triple_transactional)

lemma weak_audit: "triple moderation_inv (audit actor i a) (\<lambda>_. moderation_inv) (\<lambda>_. True)"
  by (rule triple_conseq [OF triple_audit]) auto

lemma keeps_moderateRevision: "keeps moderation_inv (moderateRevision deps i action note actor)"
  unfolding moderateRevision_def
proof (intro keeps_then keeps_clear keeps_transactional_of keeps_by_tables)
  fix C R assume ok: "campaigns_ok C R"
  show "triple (tables C R) (bindp (revision_with_campaign i) (\<lambda>(revision, campaign).
        bindp (extern (now deps)) (\<lambda>at. thenp (moderation_step action revision campaign actor note at)
          (audit actor i (moderation_audit action))))) (\<lambda>_. moderation_inv) (\<lambda>_. True)"
    by (rule triple_bind_val [OF triple_found [OF ok]])
      (auto intro!: triple_bind [OF triple_tables_extern] triple_then [OF moderation_step_keeps [OF ok]] weak_audit)
qed

lemma keeps_resolveReports: "keeps moderation_inv (resolveReports deps i action note actor)"
  unfolding resolveReports_def
proof (intro keeps_then keeps_clear keeps_transactional_of keeps_by_tables)
  fix C R assume ok: "campaigns_ok C R"
  have suspend: "triple (tables C R) (whenp (action = SUSPEND_AD)
      (thenp (whenp (canSuspendRevision r) (suspend_revision r actor note at)) (deactivate_if_active r c)))
      (\<lambda>_. moderation_inv) (\<lambda>_. True)"
    if r: "r \<in> set R" and c: "c \<in> set C" "camp_id c = rev_campaignId r" for r c at
  proof (cases "canSuspendRevision r")
    case True
    then show ?thesis
      using suspend_step [OF ok r c] ok by (auto simp: whenp_def tables_inv intro!: triple_ret)
  next
    case False
    then have "camp_activeRevisionId c \<noteq> Some (rev_id r)"
      using campaigns_ok_approved [OF ok c(1) r] c(2) by (auto simp: canSuspendRevision_def)
    with False ok show ?thesis
      by (auto simp: whenp_def deactivate_if_active_def thenp_def bindp_ret tables_inv intro!: triple_ret)
  qed
  have reports: "triple moderation_inv (update_reports P f) (\<lambda>_. moderation_inv) (\<lambda>_. True)" for P f
    by (rule tripleI) (auto simp: update_reports_def prog_defs moderation_inv_def)
  have counted: "triple (tables C R) (db_get f) (\<lambda>_. tables C R) (\<lambda>_. True)" for f :: "market_db \<Rightarrow> nat"
    by (rule triple_get)
  show "triple (tables C R) (bindp (revision_with_campaign i) (\<lambda>(revision, campaign).
        bindp (db_get (\<lambda>d. count_where (\<lambda>r. rep_revisionId r = i \<and> rep_status r = OPEN) (adReport d)))
          (\<lambda>openReports.
        if openReports = 0 then throw Conflict
        else bindp (extern (now deps)) (\<lambda>at.
        thenp (whenp (action = SUSPEND_AD)
          (thenp (whenp (canSuspendRevision revision) (suspend_revision revision actor note at))
            (deactivate_if_active revision campaign)))
        (bindp (update_reports (\<lambda>r. rep_revisionId r = i \<and> rep_status r = OPEN)
           (\<lambda>r. r\<lparr>rep_status := (if action = DISMISS then DISMISSED else ACTIONED),
             rep_resolvedByAddress := Some (pr_address actor), rep_resolutionNote := note_value note,
             rep_resolvedAt := Some at\<rparr>)) (\<lambda>resolved.
        if resolved = 0 then throw Conflict
        else audit actor i
          (case action of DISMISS \<Rightarrow> AD_REPORTS_DISMISS | SUSPEND_AD \<Rightarrow> AD_REPORTS_SUSPEND_AD)))))))
      (\<lambda>_. moderation_inv) (\<lambda>_. True)"
    by (rule triple_bind_val [OF triple_found [OF ok]], rule triple_prod,
        intro triple_bind [OF counted] triple_if triple_throw triple_bind [OF triple_tables_extern]
          triple_then [OF suspend] triple_bind [OF reports] weak_audit) simp_all
qed

subsubsection \<open>New rows\<close>

lemma ok_new_campaign:
  assumes "campaigns_ok C R" and "camp_activeRevisionId c = None"
    and "\<forall>k\<in>set C. camp_id k \<noteq> camp_id c \<and>
      \<not> (camp_userId k = camp_userId c \<and> camp_canonicalKeyword k = camp_canonicalKeyword c)"
  shows "campaigns_ok (C @ [c]) R"
proof -
  have "rev_campaignId r \<noteq> camp_id c" if "r \<in> set R" for r
    using assms(1,3) that unfolding campaigns_ok_def by metis
  then have "consistent R c" using assms(2) by (simp add: consistent_def)
  then show ?thesis using assms by (auto simp: campaigns_ok_def)
qed

definition fresh_revision :: "revision list \<Rightarrow> revision \<Rightarrow> bool" where
  "fresh_revision R n \<longleftrightarrow> (\<forall>r\<in>set R. rev_id r \<noteq> rev_id n \<and>
     \<not> (rev_campaignId r = rev_campaignId n \<and> rev_version r = rev_version n))"

lemma ok_new_pending:
  assumes "campaigns_ok C R" and "c \<in> set C" "camp_id c = rev_campaignId n" and "fresh_revision R n"
    and "rev_status n = PENDING_REVIEW"
    and "\<forall>r\<in>set R. rev_campaignId r = rev_campaignId n \<longrightarrow> rev_status r \<noteq> PENDING_REVIEW"
  shows "campaigns_ok C (R @ [n])"
proof -
  have "consistent (R @ [n]) k" if k: "k \<in> set C" for k
  proof -
    have "consistent R k" using assms(1) k by (simp add: campaigns_ok_def)
    moreover have "camp_activeRevisionId k \<noteq> Some (rev_id n)"
      using campaigns_ok_active [OF assms(1) k] assms(4) by (auto simp: fresh_revision_def)
    ultimately show ?thesis using assms(5) by (auto simp: consistent_def)
  qed
  moreover have "\<exists>k\<in>set C. camp_id k = rev_campaignId n" using assms(2,3) by blast
  ultimately show ?thesis
    using assms(1,4-6) unfolding campaigns_ok_def fresh_revision_def by (auto simp: image_iff)
qed

lemma ok_new_approved:
  assumes ok: "campaigns_ok C R" and c: "c \<in> set C" "camp_id c = rev_campaignId n" "camp_activeRevisionId c = None"
    and n: "fresh_revision R n" "rev_status n = APPROVED"
  shows "campaigns_ok (update_where (\<lambda>k. camp_id k = rev_campaignId n) (camp_activeRevisionId_update (\<lambda>_. Some (rev_id n))) C)
    (R @ [n])"
proof -
  let ?g = "\<lambda>k. if camp_id k = rev_campaignId n then camp_activeRevisionId_update (\<lambda>_. Some (rev_id n)) k else k"
  have keys: "camp_id (?g k) = camp_id k" "camp_userId (?g k) = camp_userId k"
    "camp_canonicalKeyword (?g k) = camp_canonicalKeyword k" for k by auto
  have cons: "consistent (R @ [n]) (?g k)" if k: "k \<in> set C" for k
  proof (cases "k = c")
    case True
    then have "\<forall>r\<in>set R. rev_campaignId r = camp_id k \<longrightarrow> rev_status r \<noteq> APPROVED"
      using campaigns_ok_approved [OF ok c(1)] c(3) by simp
    with True c n show ?thesis by (auto simp: consistent_def fresh_revision_def)
  next
    case False
    then have g: "?g k = k" using other_campaign [OF ok c(1) k] c(2) by simp
    have "rev_campaignId n \<noteq> camp_id k" using False other_campaign [OF ok c(1) k] c(2) by metis
    then show ?thesis unfolding g using ok k by (auto simp: campaigns_ok_def consistent_def)
  qed
  have fk: "\<exists>k\<in>set (map ?g C). camp_id k = rev_campaignId r" if "r \<in> set (R @ [n])" for r
  proof -
    have "\<exists>k\<in>set C. camp_id k = rev_campaignId r"
      using that ok c unfolding campaigns_ok_def by (cases "r = n") auto
    then obtain k where "k \<in> set C" "camp_id k = rev_campaignId r" by blast
    then show ?thesis using keys by (intro bexI [of _ "?g k"]) auto
  qed
  have dc: "distinct (map camp_id (map ?g C))"
    "distinct (map (\<lambda>c. (camp_userId c, camp_canonicalKeyword c)) (map ?g C))"
    using ok by (simp_all add: campaigns_ok_def o_def keys)
  have dr: "distinct (map rev_id (R @ [n]))" "distinct (map (\<lambda>r. (rev_campaignId r, rev_version r)) (R @ [n]))"
    using ok n(1) by (auto simp: campaigns_ok_def fresh_revision_def)
  have pend: "r = q" if "r \<in> set (R @ [n])" "q \<in> set (R @ [n])" "rev_status r = PENDING_REVIEW"
    "rev_status q = PENDING_REVIEW" "rev_campaignId r = rev_campaignId q" for r q
    using that n(2) ok unfolding campaigns_ok_def by auto
  have "consistent (R @ [n]) k" if "k \<in> set (map ?g C)" for k
    using that cons by (metis (no_types, lifting) ex_map_conv list.set_map image_iff)
  then show ?thesis unfolding campaigns_ok_def update_where_def
    by (intro conjI dc dr ballI impI fk pend) blast+
qed

lemma triple_insert_campaign:
  "triple (tables C R) (insert_campaign c)
    (\<lambda>_ d. (\<forall>k\<in>set C. camp_id k \<noteq> camp_id c \<and>
      \<not> (camp_userId k = camp_userId c \<and> camp_canonicalKeyword k = camp_canonicalKeyword c)) \<and> tables (C @ [c]) R d) (\<lambda>_. True)"
  by (rule tripleI) (auto simp: insert_campaign_def prog_defs tables_def split: if_splits)

lemma triple_insert_revision:
  "triple (tables C R) (insert_revision e n) (\<lambda>_ d. fresh_revision R n \<and> tables C (R @ [n]) d) (\<lambda>_. True)"
  by (rule tripleI) (auto simp: insert_revision_def prog_defs tables_def fresh_revision_def split: if_splits)

lemma new_revision_fields [simp]:
  "rev_id (new_revision i k v c b t) = i" "rev_campaignId (new_revision i k v c b t) = k"
  "rev_version (new_revision i k v c b t) = v" "rev_creative (new_revision i k v c b t) = c"
  "rev_status (new_revision i k v c b t) = (if b then PENDING_REVIEW else APPROVED)"
  by (simp_all add: new_revision_def)

lemma ok_withdraw_pending:
  assumes ok: "campaigns_ok C R"
  shows "campaigns_ok C (update_where (\<lambda>q. rev_campaignId q = k \<and> rev_status q = PENDING_REVIEW)
    (rev_status_update (\<lambda>_. SUPERSEDED)) R)"
proof -
  have "campaigns_ok (map id C) (map (\<lambda>q. if rev_campaignId q = k \<and> rev_status q = PENDING_REVIEW
      then rev_status_update (\<lambda>_. SUPERSEDED) q else q) R)"
  proof (rule campaigns_ok_map [OF ok])
    fix c q assume "c \<in> set C" "q \<in> set R" "rev_campaignId q = camp_id c"
    from campaigns_ok_approved [OF ok this]
    show "rev_status (if rev_campaignId q = k \<and> rev_status q = PENDING_REVIEW
        then rev_status_update (\<lambda>_. SUPERSEDED) q else q) = APPROVED \<longleftrightarrow> camp_activeRevisionId (id c) = Some (rev_id q)"
      by auto
  qed (auto simp: keeps_revision_keys_def keeps_campaign_keys_def split: if_splits)
  then show ?thesis by (simp add: update_where_def)
qed

lemma ok_retire:
  assumes ok: "campaigns_ok C R" and c: "c \<in> set C"
  shows "campaigns_ok (update_where (\<lambda>k. camp_id k = camp_id c) (camp_activeRevisionId_update (\<lambda>_. None)) C)
    (update_where (\<lambda>q. Some (rev_id q) = camp_activeRevisionId c \<and> rev_status q = APPROVED)
       (rev_status_update (\<lambda>_. SUPERSEDED)) R)"
proof -
  let ?g = "\<lambda>k. if camp_id k = camp_id c then camp_activeRevisionId_update (\<lambda>_. None) k else k"
  let ?f = "\<lambda>q. if Some (rev_id q) = camp_activeRevisionId c \<and> rev_status q = APPROVED
    then rev_status_update (\<lambda>_. SUPERSEDED) q else q"
  have "campaigns_ok (map ?g C) (map ?f R)"
  proof (rule campaigns_ok_map [OF ok])
    fix k q assume k: "k \<in> set C" "q \<in> set R" "rev_campaignId q = camp_id k"
    note approved = campaigns_ok_approved [OF ok k]
    have f: "rev_status (?f q) = APPROVED \<longleftrightarrow> rev_status q = APPROVED \<and> Some (rev_id q) \<noteq> camp_activeRevisionId c"
      by auto
    show "rev_status (?f q) = APPROVED \<longleftrightarrow> camp_activeRevisionId (?g k) = Some (rev_id q)"
    proof (cases "k = c")
      case True
      with approved f show ?thesis by auto
    next
      case False
      then have g: "?g k = k" using other_campaign [OF ok c k(1)] by simp
      show ?thesis unfolding f g using approved active_elsewhere [OF ok c k] False by metis
    qed
  qed (auto simp: keeps_revision_keys_def keeps_campaign_keys_def split: if_splits)
  then show ?thesis by (simp add: update_where_def)
qed

lemma reactivated:
  assumes "campaigns_ok C R" and "c \<in> set C"
  shows "update_where (\<lambda>k. camp_id k = camp_id c) (camp_activeRevisionId_update (\<lambda>_. v))
      (update_where (\<lambda>k. camp_id k = camp_id c) (camp_activeRevisionId_update (\<lambda>_. None)) C) =
    update_where (\<lambda>k. camp_id k = camp_id c \<and> camp_activeRevisionId k = camp_activeRevisionId c)
      (camp_activeRevisionId_update (\<lambda>_. v)) C"
  using other_campaign [OF assms] by (auto simp: update_where_def)

lemma keeps_createCampaign: "keeps moderation_inv (createCampaign u parse deps kw body actor)"
proof -
  have body: "triple moderation_inv
      (bindp (db_get keywordMarketRequireReview) (\<lambda>review.
            bindp (extern (now deps)) (\<lambda>at.
            bindp (extern (uuid deps)) (\<lambda>campaignId.
            bindp (extern (uuid deps)) (\<lambda>revisionId.
            thenp (insert_campaign \<lparr>camp_id = campaignId, camp_userId = pr_userId actor,
              camp_userAddress = pr_address actor, camp_canonicalKeyword = kw',
              camp_activeRevisionId = None, camp_pausedAt = None\<rparr>)
            (thenp (insert_revision Conflict (new_revision revisionId campaignId 1 cr review at))
            (thenp (if review then ret () else bindp
               (update_campaigns (\<lambda>c. camp_id c = campaignId) (camp_activeRevisionId_update (\<lambda>_. Some revisionId)))
               (\<lambda>_. ret ()))
            (ret (campaignId, revisionId)))))))))
      (\<lambda>_. moderation_inv) (\<lambda>_. True)" for kw' cr
  proof (rule keeps_by_tables)
    fix C R assume ok: "campaigns_ok C R"
    have insert: "triple (tables C R)
       (thenp (insert_campaign c) (thenp (insert_revision Conflict (new_revision revisionId (camp_id c) 1 cr review at))
            (thenp (if review then ret () else bindp
               (update_campaigns (\<lambda>k. camp_id k = camp_id c) (camp_activeRevisionId_update (\<lambda>_. Some revisionId)))
               (\<lambda>_. ret ())) (ret x))))
       (\<lambda>_. moderation_inv) (\<lambda>_. True)"
      if c: "camp_activeRevisionId c = None" for c review revisionId at and x :: "string \<times> string"
      unfolding thenp_def
    proof (rule triple_bind_val [OF triple_insert_campaign], rule triple_bind_val [OF triple_insert_revision])
      let ?n = "new_revision revisionId (camp_id c) 1 cr review at"
      assume fresh: "\<forall>k\<in>set C. camp_id k \<noteq> camp_id c \<and>
        \<not> (camp_userId k = camp_userId c \<and> camp_canonicalKeyword k = camp_canonicalKeyword c)"
        and n: "fresh_revision R ?n"
      note ok' = ok_new_campaign [OF ok c fresh]
      have none: "rev_campaignId r \<noteq> camp_id c" if "r \<in> set R" for r
        using ok fresh that unfolding campaigns_ok_def by metis
      show "triple (tables (C @ [c]) (R @ [?n])) (bindp (if review then ret () else bindp
               (update_campaigns (\<lambda>k. camp_id k = camp_id c) (camp_activeRevisionId_update (\<lambda>_. Some revisionId)))
               (\<lambda>_. ret ())) (\<lambda>_. ret x)) (\<lambda>_. moderation_inv) (\<lambda>_. True)"
      proof (cases review)
        case True
        have "campaigns_ok (C @ [c]) (R @ [?n])"
          by (rule ok_new_pending [OF ok', of c]) (use True n none in auto)
        with True show ?thesis by (auto simp: bindp_ret intro!: triple_ret elim: tables_inv)
      next
        case False
        have "campaigns_ok (update_where (\<lambda>k. camp_id k = rev_campaignId ?n)
            (camp_activeRevisionId_update (\<lambda>_. Some (rev_id ?n))) (C @ [c])) (R @ [?n])"
          by (rule ok_new_approved [OF ok', of c]) (use False n c in auto)
        with False show ?thesis
          by (auto simp: bindp_assoc bindp_ret intro!: triple_bind [OF triple_update_campaigns] triple_ret elim: tables_inv)
      qed
    qed
    have insert': "triple (tables C R)
       (thenp (insert_campaign \<lparr>camp_id = i, camp_userId = pr_userId actor, camp_userAddress = pr_address actor,
           camp_canonicalKeyword = kw', camp_activeRevisionId = None, camp_pausedAt = None\<rparr>)
         (thenp (insert_revision Conflict (new_revision revisionId i 1 cr review at))
            (thenp (if review then ret () else bindp
               (update_campaigns (\<lambda>c. camp_id c = i) (camp_activeRevisionId_update (\<lambda>_. Some revisionId)))
               (\<lambda>_. ret ())) (ret x))))
       (\<lambda>_. moderation_inv) (\<lambda>_. True)" for i review revisionId at and x :: "string \<times> string"
      by (rule insert [of "\<lparr>camp_id = i, camp_userId = pr_userId actor, camp_userAddress = pr_address actor,
           camp_canonicalKeyword = kw', camp_activeRevisionId = None, camp_pausedAt = None\<rparr>",
           unfolded campaign.select_convs, OF refl])
    show "triple (tables C R) (bindp (db_get keywordMarketRequireReview) (\<lambda>review.
            bindp (extern (now deps)) (\<lambda>at.
            bindp (extern (uuid deps)) (\<lambda>campaignId.
            bindp (extern (uuid deps)) (\<lambda>revisionId.
            thenp (insert_campaign \<lparr>camp_id = campaignId, camp_userId = pr_userId actor,
              camp_userAddress = pr_address actor, camp_canonicalKeyword = kw',
              camp_activeRevisionId = None, camp_pausedAt = None\<rparr>)
            (thenp (insert_revision Conflict (new_revision revisionId campaignId 1 cr review at))
            (thenp (if review then ret () else bindp
               (update_campaigns (\<lambda>c. camp_id c = campaignId) (camp_activeRevisionId_update (\<lambda>_. Some revisionId)))
               (\<lambda>_. ret ()))
            (ret (campaignId, revisionId)))))))))
      (\<lambda>_. moderation_inv) (\<lambda>_. True)"
      by (intro triple_bind [OF triple_get [where Q = "\<lambda>_. tables C R"]] triple_bind [OF triple_tables_extern] insert') simp
  qed
  show ?thesis
    unfolding createCampaign_def
    by (intro triple_sum triple_option keeps_throw keeps_bind keeps_then keeps_clear keeps_ret
        keeps_transactional_of body)
qed

lemma keeps_createRevision: "keeps moderation_inv (createRevision parse deps k body actor)"
proof -
  have insert: "triple (tables C R1) (bindp (update_revisions (\<lambda>r. rev_campaignId r = k \<and> rev_status r = PENDING_REVIEW)
             (rev_status_update (\<lambda>_. SUPERSEDED))) (\<lambda>_.
          bindp (extern (now deps)) (\<lambda>at.
          bindp (extern (uuid deps)) (\<lambda>i.
          thenp (insert_revision Other (new_revision i k v cr review at))
          (thenp (if review then ret () else activate k (camp_activeRevisionId c) (Some i))
          (ret (i, v))))))) (\<lambda>_. moderation_inv) (\<lambda>_. True)"
    if ok: "campaigns_ok C R" and c: "c \<in> set C" "camp_id c = k"
      and R1: "R1 = (if review then R else update_where (\<lambda>q. Some (rev_id q) = camp_activeRevisionId c \<and>
        rev_status q = APPROVED) (rev_status_update (\<lambda>_. SUPERSEDED)) R)" for C R R1 c v cr review
  proof -
    let ?C0 = "if review then C else update_where (\<lambda>x. camp_id x = camp_id c) (camp_activeRevisionId_update (\<lambda>_. None)) C"
    let ?R2 = "update_where (\<lambda>q. rev_campaignId q = k \<and> rev_status q = PENDING_REVIEW) (rev_status_update (\<lambda>_. SUPERSEDED)) R1"
    let ?n = "\<lambda>i at. new_revision i k v cr review at"
    have "campaigns_ok ?C0 R1" using ok ok_retire [OF ok c(1)] R1 by simp
    then have ok2: "campaigns_ok ?C0 ?R2" by (rule ok_withdraw_pending)
    have none: "rev_status q \<noteq> PENDING_REVIEW" if "q \<in> set ?R2" "rev_campaignId q = k" for q
      using that(1)
    proof (rule in_update_whereE)
      assume "\<not> (rev_campaignId q = k \<and> rev_status q = PENDING_REVIEW)"
      with that(2) show ?thesis by blast
    qed simp
    have final: "triple (tables C (?R2 @ [?n i at])) (bindp (if review then ret () else activate k (camp_activeRevisionId c) (Some i))
        (\<lambda>_. ret (i, v))) (\<lambda>_. moderation_inv) (\<lambda>_. True)" if fresh: "fresh_revision ?R2 (?n i at)" for i at
    proof (cases review)
      case True
      have "campaigns_ok C ?R2" using ok2 unfolding if_P [OF True] .
      then have "campaigns_ok C (?R2 @ [?n i at])"
        by (rule ok_new_pending [OF _ c(1) _ fresh]) (use True c(2) none in simp_all)
      with True show ?thesis by (auto simp: bindp_ret intro!: triple_ret elim: tables_inv)
    next
      case False
      let ?c0 = "camp_activeRevisionId_update (\<lambda>_. None) c"
      have c0: "?c0 \<in> set ?C0" using c(1) False by (auto simp: set_update_where)
      have "campaigns_ok (update_where (\<lambda>x. camp_id x = rev_campaignId (?n i at))
          (camp_activeRevisionId_update (\<lambda>_. Some (rev_id (?n i at)))) ?C0) (?R2 @ [?n i at])"
        by (rule ok_new_approved [OF ok2 c0 _ _ fresh]) (use False c(2) in simp_all)
      then have "campaigns_ok (update_where (\<lambda>x. camp_id x = k \<and> camp_activeRevisionId x = camp_activeRevisionId c)
          (camp_activeRevisionId_update (\<lambda>_. Some i)) C) (?R2 @ [?n i at])"
        using reactivated [OF ok c(1), of "Some i"] False c(2) by simp
      with False show ?thesis
        unfolding activate_def
        by (auto intro!: triple_bind [OF triple_guarded_campaigns] triple_ret elim: tables_inv)
    qed
    show ?thesis
      by (rule triple_bind [OF triple_update_revisions],
          intro triple_bind [OF triple_tables_extern], unfold thenp_def,
          rule triple_bind_val [OF triple_insert_revision], rule final)
  qed
  have first: "triple (tables C R) (case camp_activeRevisionId c of Some active \<Rightarrow>
        if \<not> review then supersede_active active else ret () | None \<Rightarrow> ret ())
      (\<lambda>_. tables C (if review then R else update_where (\<lambda>q. Some (rev_id q) = camp_activeRevisionId c \<and>
        rev_status q = APPROVED) (rev_status_update (\<lambda>_. SUPERSEDED)) R)) (\<lambda>_. True)" for C R c review
    by (cases "camp_activeRevisionId c")
      (auto simp: supersede_active_def update_where_def intro!: triple_ret triple_conseq [OF triple_guarded_revisions])
  have found: "triple (tables C R) (db_get (\<lambda>d. List.find (\<lambda>c. camp_id c = k \<and> camp_userId c = pr_userId actor) (adCampaign d)))
      (\<lambda>x d. (\<forall>c. x = Some c \<longrightarrow> c \<in> set C \<and> camp_id c = k) \<and> tables C R d) (\<lambda>_. True)" for C R
    by (rule triple_get) (auto simp: tables_def find_Some_iff)
  have read: "triple (tables C R) (db_get f) (\<lambda>_. tables C R) (\<lambda>_. True)" for C R and f :: "market_db \<Rightarrow> 'x"
    by (rule triple_get)
  show ?thesis
    unfolding createRevision_def
  proof (intro triple_option keeps_throw keeps_bind keeps_then keeps_clear keeps_ret keeps_transactional_of keeps_by_tables)
    fix cr C R assume ok: "campaigns_ok C R"
    show "triple (tables C R) (bindp (db_get (\<lambda>d. List.find (\<lambda>c. camp_id c = k \<and> camp_userId c = pr_userId actor) (adCampaign d)))
           (\<lambda>found. case found of None \<Rightarrow> throw NotFound | Some campaign \<Rightarrow>
          bindp (db_get (latest_version k)) (\<lambda>latest.
          bindp (db_get keywordMarketRequireReview) (\<lambda>review.
          thenp (case camp_activeRevisionId campaign of
              Some active \<Rightarrow> if \<not> review then supersede_active active else ret ()
            | None \<Rightarrow> ret ())
          (bindp (update_revisions (\<lambda>r. rev_campaignId r = k \<and> rev_status r = PENDING_REVIEW)
             (rev_status_update (\<lambda>_. SUPERSEDED))) (\<lambda>_.
          bindp (extern (now deps)) (\<lambda>at.
          bindp (extern (uuid deps)) (\<lambda>revisionId.
          thenp (insert_revision Other (new_revision revisionId k (latest + 1) cr review at))
          (thenp (if review then ret () else activate k (camp_activeRevisionId campaign) (Some revisionId))
          (ret (revisionId, latest + 1)))))))))))
      (\<lambda>_. moderation_inv) (\<lambda>_. True)"
      by (rule triple_bind_val [OF found], rule triple_option, rule triple_throw, simp,
          rule triple_bind [OF read], rule triple_bind [OF read], rule triple_then [OF first], rule insert [OF ok])
        auto
  qed
qed

lemma keeps_updateCampaign: "keeps moderation_inv (updateCampaign deps i paused actor)"
proof -
  have "moderation_inv (adCampaign_update (update_where P (camp_pausedAt_update (\<lambda>_. v))) d)"
    if "moderation_inv d" for P v d
  proof -
    have "campaigns_ok (map (\<lambda>c. if P c then camp_pausedAt_update (\<lambda>_. v) c else c) (adCampaign d)) (map id (adCreativeRevision d))"
      proof (rule campaigns_ok_map)
      show ok: "campaigns_ok (adCampaign d) (adCreativeRevision d)" using that by (simp add: moderation_inv_def)
      fix c r assume "c \<in> set (adCampaign d)" "r \<in> set (adCreativeRevision d)" "rev_campaignId r = camp_id c"
      from campaigns_ok_approved [OF ok this]
      show "rev_status (id r) = APPROVED \<longleftrightarrow>
          camp_activeRevisionId (if P c then camp_pausedAt_update (\<lambda>_. v) c else c) = Some (rev_id r)" by simp
    qed (auto simp: keeps_revision_keys_def keeps_campaign_keys_def split: if_splits)
    then show ?thesis by (simp add: moderation_inv_def update_where_def)
  qed
  then show ?thesis
    unfolding updateCampaign_def update_campaigns_def
    by (intro keeps_rules keeps_clear keeps_mod)
qed

lemma keeps_report_ad: "keeps moderation_inv (report_ad deps i reason comment ip)"
  unfolding report_ad_def Let_def
  by (intro keeps_rules keeps_mod) (simp_all add: moderation_inv_def)

end
