(* ===== verification/Projection_Facts.thy ===== *)
theory Projection_Facts
  imports Projection
begin

section \<open>The projection is exact, replayable and independent of the order of arrival\<close>

text \<open>
  The projected table as a map from position keys to rows, the pure step a change makes on one
  row, and the refinement between them; then the invariant of the projection and its preservation
  by the indexing pass.
\<close>

subsection \<open>One change as a step on one row\<close>

definition valid_change :: "position_change \<Rightarrow> bool" where
  "valid_change c \<longleftrightarrow> validAddress (ch_contractAddress c) \<and> validAddress (ch_stakerAddress c) \<and>
     validKeywordId (ch_keywordId c) \<and>
     (case change_amounts c of None \<Rightarrow> False | Some (s, b, r, p) \<Rightarrow> 0 \<le> s \<and> 0 \<le> b \<and> 0 \<le> r \<and> 0 \<le> p) \<and>
     0 \<le> ch_withdrawAvailableAt c \<and> 0 \<le> ch_positionVersion c"

definition is_after :: "position_change \<Rightarrow> stake_position \<Rightarrow> bool" where
  "is_after c p \<longleftrightarrow> eventAfter (ch_blockNumber c) (ch_logIndex c) (sp_positionBlock p) (sp_positionLogIndex p)"

definition projection_of :: "position_change \<Rightarrow> stake_position option \<Rightarrow> stake_position" where
  "projection_of c current = (case change_amounts c of
     Some (s, b, r, p) \<Rightarrow> projected current c s b r p | None \<Rightarrow> undefined)"

definition row_step :: "position_change \<Rightarrow> stake_position option \<Rightarrow> stake_position option" where
  "row_step c current = (case current of
     None \<Rightarrow> Some (projection_of c None)
   | Some p \<Rightarrow> if is_after c p then Some (projection_of c current) else current)"

lemma find_position_upsert:
  "find_position k (upsert_position p d) = (if k = row_key p then Some p else find_position k d)"
proof -
  have upd: "List.find (\<lambda>q. row_key q = k) (update_where (\<lambda>q. row_key q = row_key p) (\<lambda>_. p) rows) =
      (if k = row_key p then (if \<exists>q\<in>set rows. row_key q = row_key p then Some p else None)
       else List.find (\<lambda>q. row_key q = k) rows)" for rows
    by (induction rows) (auto simp: update_where_def)
  have app: "List.find P (xs @ [x]) = (case List.find P xs of None \<Rightarrow> if P x then Some x else None | Some y \<Rightarrow> Some y)"
    for P :: "stake_position \<Rightarrow> bool" and xs x
    by (induction xs) auto
  show ?thesis
  proof (cases "\<exists>q\<in>set (adStakePosition d). row_key q = row_key p")
    case True
    then show ?thesis by (simp add: find_position_def upsert_position_def upd)
  next
    case False
    then have "List.find (\<lambda>q. row_key q = row_key p) (adStakePosition d) = None"
      by (auto simp: find_None_iff)
    with False show ?thesis
      by (auto simp: find_position_def upsert_position_def app split: option.splits)
  qed
qed

lemma row_key_projected: "row_key (projected current c s b r p) = change_key c"
  by (simp add: projected_def row_key_def change_key_def Let_def)

lemma row_key_projection: "valid_change c \<Longrightarrow> row_key (projection_of c current) = change_key c"
  by (auto simp: valid_change_def projection_of_def row_key_projected split: option.splits prod.splits)

definition same_tables :: "ad_db \<Rightarrow> ad_db \<Rightarrow> bool" where
  "same_tables d d' \<longleftrightarrow> adStakePosition_update (\<lambda>_. []) d = adStakePosition_update (\<lambda>_. []) d'"

lemma same_tables_upsert: "same_tables d (upsert_position p d)"
  by (simp add: same_tables_def upsert_position_def)

text \<open>A valid change succeeds and steps exactly its own row.\<close>

lemma run_apply:
  assumes v: "valid_change c"
  shows "\<exists>r d'. applyAdPositionChange c st = (Inr r, st\<lparr>db := d'\<rparr>) \<and> same_tables (db st) d' \<and>
    (\<forall>k. find_position k d' = (if k = change_key c then row_step c (find_position k (db st))
       else find_position k (db st))) \<and>
    (r = Stale_or_duplicate \<longleftrightarrow> d' = db st \<and> (\<exists>p. find_position (change_key c) (db st) = Some p \<and> \<not> is_after c p))"
proof -
  let ?cur = "find_position (change_key c) (db st)"
  obtain s b r p where am: "change_amounts c = Some (s, b, r, p)"
    using v by (auto simp: valid_change_def split: option.splits)
  have guards: "validAddress (ch_contractAddress c)" "validAddress (ch_stakerAddress c)"
    "validKeywordId (ch_keywordId c)" "\<not> (s < 0 \<or> b < 0 \<or> r < 0 \<or> p < 0 \<or>
       ch_withdrawAvailableAt c < 0 \<or> ch_positionVersion c < 0)"
    using v am by (auto simp: valid_change_def)
  show ?thesis
  proof (cases "\<exists>q. ?cur = Some q \<and> \<not> is_after c q")
    case True
    then obtain q where q: "?cur = Some q" "\<not> is_after c q" by blast
    then have "applyAdPositionChange c st = (Inr Stale_or_duplicate, st)"
      using guards am by (simp add: applyAdPositionChange_def prog_defs is_after_def)
    with q show ?thesis
      by (intro exI [of _ Stale_or_duplicate] exI [of _ "db st"]) (auto simp: same_tables_def row_step_def)
  next
    case False
    let ?new = "projected ?cur c s b r p"
    have run: "applyAdPositionChange c st =
        (Inr (Applied (amountChanged ?cur s)), st\<lparr>db := upsert_position ?new (db st)\<rparr>)"
      using False guards am by (auto simp: applyAdPositionChange_def prog_defs is_after_def split: option.splits)
    have "row_step c ?cur = Some ?new"
      using False am by (auto simp: row_step_def projection_of_def split: option.splits)
    then show ?thesis
      using False run
      by (intro exI [of _ "Applied (amountChanged ?cur s)"] exI [of _ "upsert_position ?new (db st)"])
        (simp add: same_tables_upsert find_position_upsert row_key_projected)
  qed
qed

subsection \<open>The order of arrival\<close>

text \<open>What the last change of a position determines of its row.\<close>

definition latest_fields :: "stake_position \<Rightarrow> stake_position" where
  "latest_fields p = p\<lparr>sp_stakeSinceBlock := 0, sp_stakeSinceLogIndex := 0,
     sp_amountSinceBlock := 0, sp_amountSinceLogIndex := 0\<rparr>"

lemma latest_projection: "valid_change c \<Longrightarrow> latest_fields (projection_of c x) = latest_fields (projection_of c y)"
  by (auto simp: valid_change_def projection_of_def projected_def latest_fields_def Let_def split: option.splits prod.splits)

lemma projection_place:
  "valid_change c \<Longrightarrow> sp_positionBlock (projection_of c x) = ch_blockNumber c \<and>
     sp_positionLogIndex (projection_of c x) = ch_logIndex c"
  by (auto simp: valid_change_def projection_of_def projected_def Let_def split: option.splits prod.splits)

definition later_than :: "position_change \<Rightarrow> position_change \<Rightarrow> bool" where
  "later_than m c \<longleftrightarrow> eventAfter (ch_blockNumber m) (ch_logIndex m) (ch_blockNumber c) (ch_logIndex c)"

fun row_steps :: "position_change list \<Rightarrow> stake_position option \<Rightarrow> stake_position option" where
  "row_steps [] current = current"
| "row_steps (c # cs) current = row_steps cs (row_step c current)"

lemma row_steps_stale:
  "\<forall>c\<in>set cs. \<not> is_after c p \<Longrightarrow> row_steps cs (Some p) = Some p"
  by (induction cs) (auto simp: row_step_def)

lemma is_after_projection:
  "valid_change m \<Longrightarrow> is_after c (projection_of m x) \<longleftrightarrow> later_than c m"
  by (simp add: is_after_def later_than_def projection_place)

lemma later_asym: "later_than m c \<Longrightarrow> \<not> later_than c m"
  by (auto simp: later_than_def eventAfter_def)

lemma row_steps_latest:
  assumes "m \<in> set cs" and "\<forall>c\<in>set cs. valid_change c" and "\<forall>c\<in>set cs. c \<noteq> m \<longrightarrow> later_than m c"
    and "\<forall>p. current = Some p \<longrightarrow> is_after m p"
  shows "\<exists>p. row_steps cs current = Some p \<and> latest_fields p = latest_fields (projection_of m None)"
  using assms
proof (induction cs arbitrary: current)
  case (Cons c cs)
  have vm: "valid_change m" using Cons.prems(1,2) by blast
  show ?case
  proof (cases "c = m")
    case True
    have "row_step c current = Some (projection_of m current)"
      using True Cons.prems(4) by (cases current) (auto simp: row_step_def)
    moreover have "\<forall>c\<in>set cs. \<not> is_after c (projection_of m current)"
      using Cons.prems(3) later_asym is_after_projection [OF vm]
      by (metis later_asym list.set_intros(2))
    ultimately show ?thesis
      using True row_steps_stale latest_projection [OF vm, of current None] by simp
  next
    case False
    then have later: "later_than m c" using Cons.prems(3) by simp
    have vc: "valid_change c" using Cons.prems(2) by simp
    have "\<forall>p. row_step c current = Some p \<longrightarrow> is_after m p"
      using later Cons.prems(4) is_after_projection [OF vc]
      by (cases current) (auto simp: row_step_def split: if_splits)
    then show ?thesis using Cons False by auto
  qed
qed simp

definition apply_changes :: "position_change list \<Rightarrow> ('m, 'w, unit) ad_prog" where
  "apply_changes cs = forp (\<lambda>c. bindp (applyAdPositionChange c) (\<lambda>_. ret ())) cs"

lemma same_tables_trans: "same_tables a b \<Longrightarrow> same_tables b c \<Longrightarrow> same_tables a c"
  by (simp add: same_tables_def)

lemma run_changes:
  assumes "\<forall>c\<in>set cs. valid_change c"
  shows "\<exists>d'. apply_changes cs st = (Inr (), st\<lparr>db := d'\<rparr>) \<and> same_tables (db st) d' \<and>
    (\<forall>k. find_position k d' =
       row_steps (filter (\<lambda>c. change_key c = k) cs) (find_position k (db st)))"
  using assms
proof (induction cs arbitrary: st)
  case Nil
  then show ?case by (intro exI [of _ "db st"]) (simp add: apply_changes_def forp_def ret_def same_tables_def)
next
  case (Cons c cs)
  obtain r d1 where d1: "applyAdPositionChange c st = (Inr r, st\<lparr>db := d1\<rparr>)" "same_tables (db st) d1"
    "\<forall>k. find_position k d1 = (if k = change_key c then row_step c (find_position k (db st))
       else find_position k (db st))"
    using run_apply [of c st] Cons.prems by (metis list.set_intros(1))
  obtain d2 where d2: "apply_changes cs (st\<lparr>db := d1\<rparr>) = (Inr (), (st\<lparr>db := d1\<rparr>)\<lparr>db := d2\<rparr>)"
    "same_tables d1 d2"
    "\<forall>k. find_position k d2 = row_steps (filter (\<lambda>c. change_key c = k) cs) (find_position k d1)"
    using Cons.IH [of "st\<lparr>db := d1\<rparr>"] Cons.prems by auto
  have "apply_changes (c # cs) st = (Inr (), st\<lparr>db := d2\<rparr>)"
    using d1(1) d2(1) by (simp add: apply_changes_def forp_def bindp_def ret_def)
  moreover have "same_tables (db st) d2" using d1(2) d2(2) by (rule same_tables_trans)
  moreover have "find_position k d2 =
      row_steps (filter (\<lambda>c. change_key c = k) (c # cs)) (find_position k (db st))" for k
    using d1(3) [rule_format, of k] d2(3) [rule_format, of k] by simp
  ultimately show ?case by blast
qed

text \<open>
  C8: The events of a position may be delivered in any order and any number of times: as long as the
  newest of them, by block and log index, is among the delivered ones, every field of the projected
  row apart from the two priority places is the one the newest event determines, the projection does
  not fail, and no other table changes.
\<close>

theorem changes_latest_wins:
  assumes "\<forall>c\<in>set cs. valid_change c" and "m \<in> set cs"
    and "\<forall>c\<in>set cs. change_key c = change_key m \<longrightarrow> c \<noteq> m \<longrightarrow> later_than m c"
    and "\<forall>p. find_position (change_key m) (db st) = Some p \<longrightarrow> is_after m p"
  shows "\<exists>d' p. apply_changes cs st = (Inr (), st\<lparr>db := d'\<rparr>) \<and> same_tables (db st) d' \<and>
    find_position (change_key m) d' = Some p \<and> latest_fields p = latest_fields (projection_of m None)"
proof -
  let ?k = "change_key m"
  obtain d' where d': "apply_changes cs st = (Inr (), st\<lparr>db := d'\<rparr>)" "same_tables (db st) d'"
    "find_position ?k d' = row_steps (filter (\<lambda>c. change_key c = ?k) cs) (find_position ?k (db st))"
    using run_changes [OF assms(1), of st] by blast
  have "\<exists>p. row_steps (filter (\<lambda>c. change_key c = ?k) cs) (find_position ?k (db st)) = Some p \<and>
      latest_fields p = latest_fields (projection_of m None)"
    by (rule row_steps_latest) (use assms in auto)
  with d' show ?thesis by metis
qed

definition sample_change :: "int \<Rightarrow> int \<Rightarrow> string \<Rightarrow> string \<Rightarrow> position_change" where
  "sample_change block index stake previous = \<lparr>ch_chainId = 84532,
     ch_contractAddress = ''0x'' @ replicate 40 (CHR ''A''), ch_keywordId = ''0x'' @ replicate 64 (CHR ''1''),
     ch_stakerAddress = ''0x'' @ replicate 40 (CHR ''b''), ch_stakeRaw = stake, ch_previousStakeRaw = previous,
     ch_bidUsdRaw = ''3'', ch_requiredCoveragePreRaw = ''7'', ch_eligible = True,
     ch_withdrawAvailableAt = 0, ch_positionVersion = 1, ch_blockNumber = block,
     ch_blockHash = ''0xB10C'', ch_txHash = ''0x7E57'', ch_logIndex = index\<rparr>"

definition empty_db :: ad_db where
  "empty_db = \<lparr>adBillingClick = [], adChargeBatch = [], adChargeRun = [], adChargeSettings = [],
     adPricePublication = [], adIndexerState = [], adChainEvent = [], adStakePosition = [], preUsdPrice = []\<rparr>"

definition empty_machine :: "(ad_db, string option, unit) machine" where
  "empty_machine = \<lparr>db = empty_db, mem = None, world = ()\<rparr>"

lemma sample_valid: "valid_change (sample_change 9 2 ''5'' ''0'')" "valid_change (sample_change 9 3 ''8'' ''5'')"
  by code_simp+

lemma sample_later: "later_than (sample_change 9 3 ''8'' ''5'') (sample_change 9 2 ''5'' ''0'')"
  by code_simp

lemma changes_latest_wins_witness:
  "\<exists>d' p. apply_changes [sample_change 9 3 ''8'' ''5'', sample_change 9 2 ''5'' ''0'',
      sample_change 9 3 ''8'' ''5''] empty_machine = (Inr (), empty_machine\<lparr>db := d'\<rparr>) \<and>
    same_tables empty_db d' \<and> find_position (change_key (sample_change 9 3 ''8'' ''5'')) d' = Some p \<and>
    latest_fields p = latest_fields (projection_of (sample_change 9 3 ''8'' ''5'') None)"
  using changes_latest_wins [of "[sample_change 9 3 ''8'' ''5'', sample_change 9 2 ''5'' ''0'',
      sample_change 9 3 ''8'' ''5'']" "sample_change 9 3 ''8'' ''5''" empty_machine]
    sample_valid sample_later
  by (simp add: empty_machine_def empty_db_def find_position_def)

subsection \<open>Replayed events\<close>

lemma applied_keeps_events: "adChainEvent (db (snd (applyAdPositionChange c s))) = adChainEvent (db s)"
  by (auto simp: applyAdPositionChange_def prog_defs upsert_position_def split: if_splits option.splits prod.splits)

text \<open>
  Projecting an event a second time is a no-op: once a projection of the event has returned,
  whatever it answered, projecting it again reports a duplicate and changes nothing.
\<close>

theorem replay_is_duplicate:
  assumes "projectFinalizedAdPositionChange c s = (Inr r, s')"
  shows "projectFinalizedAdPositionChange c s' = (Inr Duplicate_event, s')"
proof -
  have "\<exists>x\<in>set (adChainEvent (db s')). event_key x = event_key (change_event c)"
    using assms applied_keeps_events [of c "s\<lparr>db := adChainEvent_update (\<lambda>es. es @ [change_event c]) (db s)\<rparr>"]
    by (auto simp: projectFinalizedAdPositionChange_def applyFinalizedAdPositionChange_def claim_event_def
        prog_defs split: if_splits sum.splits prod.splits)
  then show ?thesis
    by (simp add: projectFinalizedAdPositionChange_def applyFinalizedAdPositionChange_def claim_event_def prog_defs)
qed

definition sample_row :: stake_position where
  "sample_row = projected None (sample_change 9 2 ''5'' ''0'') 5 3 7 0"

definition projected_once :: "(ad_db, string option, unit) machine" where
  "projected_once = empty_machine\<lparr>db := upsert_position sample_row
     (adChainEvent_update (\<lambda>es. es @ [change_event (sample_change 9 2 ''5'' ''0'')]) empty_db)\<rparr>"

lemma sample_amounts: "change_amounts (sample_change 9 2 ''5'' ''0'') = Some (5, 3, 7, 0)"
  "change_amounts (sample_change 9 3 ''8'' ''5'') = Some (8, 3, 7, 5)"
  by code_simp+

lemma projected_once_run:
  "projectFinalizedAdPositionChange (sample_change 9 2 ''5'' ''0'') empty_machine =
     (Inr (Applied True), projected_once)"
  using sample_valid(1) sample_amounts(1)
  by (simp add: valid_change_def projectFinalizedAdPositionChange_def applyFinalizedAdPositionChange_def
      claim_event_def applyAdPositionChange_def prog_defs empty_machine_def empty_db_def find_position_def
      projected_once_def sample_row_def amountChanged_def sample_change_def)

lemma replay_is_duplicate_witness:
  "projectFinalizedAdPositionChange (sample_change 9 2 ''5'' ''0'') projected_once =
     (Inr Duplicate_event, projected_once)"
  by (rule replay_is_duplicate [OF projected_once_run])

lemma projected_once_row:
  "find_position (change_key (sample_change 9 3 ''8'' ''5'')) (db projected_once) = Some sample_row"
proof -
  have "change_key (sample_change 9 3 ''8'' ''5'') = row_key sample_row"
    by (simp add: sample_row_def row_key_projected) (simp add: change_key_def sample_change_def)
  then show ?thesis by (simp add: projected_once_def find_position_upsert)
qed

text \<open>
  The priority of a position is the place of the event that opened it: a newer event moves it
  only when it starts a new position version or refills an empty stake; topping up, slashing,
  charging and rebidding keep it. The amount's own place moves exactly when the stake changes.
\<close>

theorem priority_is_kept_until_reopened:
  assumes "valid_change c" and "find_position (change_key c) (db s) = Some p" and "is_after c p"
    and "change_amounts c = Some (stake, bid, coverage, previous)"
  shows "\<exists>d' q. applyAdPositionChange c s = (Inr (Applied (sp_stakeRaw p \<noteq> show_int stake)), s\<lparr>db := d'\<rparr>) \<and>
    find_position (change_key c) d' = Some q \<and>
    (sp_stakeSinceBlock q, sp_stakeSinceLogIndex q) =
      (if sp_positionVersion p \<noteq> ch_positionVersion c \<or> (previous = 0 \<and> stake > 0)
       then (ch_blockNumber c, ch_logIndex c) else (sp_stakeSinceBlock p, sp_stakeSinceLogIndex p)) \<and>
    (sp_amountSinceBlock q, sp_amountSinceLogIndex q) =
      (if sp_stakeRaw p \<noteq> show_int stake then (ch_blockNumber c, ch_logIndex c)
       else (sp_amountSinceBlock p, sp_amountSinceLogIndex p))"
proof -
  have guards: "validAddress (ch_contractAddress c)" "validAddress (ch_stakerAddress c)"
    "validKeywordId (ch_keywordId c)" "\<not> (stake < 0 \<or> bid < 0 \<or> coverage < 0 \<or> previous < 0 \<or>
       ch_withdrawAvailableAt c < 0 \<or> ch_positionVersion c < 0)"
    using assms(1,4) by (auto simp: valid_change_def)
  let ?q = "projected (Some p) c stake bid coverage previous"
  have run: "applyAdPositionChange c s = (Inr (Applied (sp_stakeRaw p \<noteq> show_int stake)),
      s\<lparr>db := upsert_position ?q (db s)\<rparr>)"
    using guards assms(2-4) by (auto simp: applyAdPositionChange_def prog_defs is_after_def amountChanged_def)
  have row: "find_position (change_key c) (upsert_position ?q (db s)) = Some ?q"
    by (simp add: find_position_upsert row_key_projected)
  have since: "(sp_stakeSinceBlock ?q, sp_stakeSinceLogIndex ?q) =
      (if sp_positionVersion p \<noteq> ch_positionVersion c \<or> (previous = 0 \<and> stake > 0)
       then (ch_blockNumber c, ch_logIndex c) else (sp_stakeSinceBlock p, sp_stakeSinceLogIndex p))"
    by (auto simp: projected_def positionOpened_def Let_def)
  have amount: "(sp_amountSinceBlock ?q, sp_amountSinceLogIndex ?q) =
      (if sp_stakeRaw p \<noteq> show_int stake then (ch_blockNumber c, ch_logIndex c)
       else (sp_amountSinceBlock p, sp_amountSinceLogIndex p))"
    by (simp add: projected_def amountChanged_def Let_def)
  show ?thesis
    by (rule exI [of _ "upsert_position ?q (db s)"], rule exI [of _ ?q]) (intro conjI run row since amount)
qed

lemma priority_is_kept_until_reopened_witness:
  "\<exists>d' q. applyAdPositionChange (sample_change 9 3 ''8'' ''5'') projected_once =
      (Inr (Applied (''5'' \<noteq> show_int 8)), projected_once\<lparr>db := d'\<rparr>) \<and>
    find_position (change_key (sample_change 9 3 ''8'' ''5'')) d' = Some q \<and>
    (sp_stakeSinceBlock q, sp_stakeSinceLogIndex q) = (9, 2) \<and>
    (sp_amountSinceBlock q, sp_amountSinceLogIndex q) = (9, 3)"
proof -
  let ?c = "sample_change 9 3 ''8'' ''5''"
  have show5: "show_int 5 = ''5''" and show8: "show_int 8 = ''8''" by code_simp+
  have after: "is_after ?c sample_row"
    by (simp add: is_after_def eventAfter_def sample_row_def projected_def Let_def sample_change_def)
  have fields: "sp_stakeRaw sample_row = ''5''" "sp_positionVersion sample_row = 1"
    "sp_stakeSinceBlock sample_row = 9" "sp_stakeSinceLogIndex sample_row = 2"
    "ch_positionVersion ?c = 1" "ch_blockNumber ?c = 9" "ch_logIndex ?c = 3"
    "sp_stakeRaw sample_row \<noteq> show_int 8"
    using show5 show8 by (simp_all add: sample_row_def projected_def Let_def positionOpened_def sample_change_def)
  have kept: "(if sp_positionVersion sample_row \<noteq> ch_positionVersion ?c \<or> ((0::int) \<noteq> 0)
       then (ch_blockNumber ?c, ch_logIndex ?c)
       else (sp_stakeSinceBlock sample_row, sp_stakeSinceLogIndex sample_row)) = (9, 2)"
    "(if ''5'' \<noteq> show_int 8 then (ch_blockNumber ?c, ch_logIndex ?c)
       else (sp_amountSinceBlock sample_row, sp_amountSinceLogIndex sample_row)) = (9, 3)"
    using fields(1,8) by (simp_all add: fields(2-7))
  have not_opened: "((5::int) = 0 \<and> (8::int) > 0) = ((0::int) \<noteq> 0)" by simp
  show ?thesis
    using priority_is_kept_until_reopened [OF sample_valid(2) projected_once_row after sample_amounts(2)]
    unfolding fields(1) not_opened kept .
qed

subsection \<open>The invariant of the projection\<close>

definition place_before :: "int \<Rightarrow> int \<Rightarrow> stake_position \<Rightarrow> bool" where
  "place_before b i p \<longleftrightarrow> \<not> eventAfter b i (sp_positionBlock p) (sp_positionLogIndex p)"

definition position_ok :: "stake_position \<Rightarrow> bool" where
  "position_ok p \<longleftrightarrow>
     (\<exists>stake bid coverage. 0 \<le> stake \<and> 0 \<le> bid \<and> 0 \<le> coverage \<and> sp_stakeRaw p = show_int stake \<and>
        sp_bidUsdRaw p = show_int bid \<and> sp_requiredCoveragePreRaw p = show_int coverage \<and>
        (sp_active p \<longleftrightarrow> 0 < stake)) \<and>
     to_lower (sp_contractAddress p) = sp_contractAddress p \<and> to_lower (sp_keywordId p) = sp_keywordId p \<and>
     to_lower (sp_stakerAddress p) = sp_stakerAddress p \<and>
     place_before (sp_stakeSinceBlock p) (sp_stakeSinceLogIndex p) p \<and>
     place_before (sp_amountSinceBlock p) (sp_amountSinceLogIndex p) p"

definition projection_inv :: "ad_db \<Rightarrow> bool" where
  "projection_inv d \<longleftrightarrow> distinct (map row_key (adStakePosition d)) \<and>
     distinct (map event_key (adChainEvent d)) \<and> distinct (map ix_key (adIndexerState d)) \<and>
     (\<forall>p\<in>set (adStakePosition d). position_ok p)"

lemma place_before_trans:
  "place_before b i p \<Longrightarrow> is_after c p \<Longrightarrow> \<not> eventAfter b i (ch_blockNumber c) (ch_logIndex c)"
  by (auto simp: place_before_def is_after_def eventAfter_def)

lemma position_ok_projected:
  assumes "\<forall>p. current = Some p \<longrightarrow> position_ok p \<and> is_after c p" and "0 \<le> s" "0 \<le> b" "0 \<le> r"
  shows "position_ok (projected current c s b r p)"
proof -
  have "\<not> eventAfter (ch_blockNumber c) (ch_logIndex c) (ch_blockNumber c) (ch_logIndex c)"
    by (simp add: eventAfter_def)
  moreover have "\<not> eventAfter (sp_stakeSinceBlock q) (sp_stakeSinceLogIndex q) (ch_blockNumber c) (ch_logIndex c) \<and>
      \<not> eventAfter (sp_amountSinceBlock q) (sp_amountSinceLogIndex q) (ch_blockNumber c) (ch_logIndex c)"
    if "current = Some q" for q
    using assms(1) that place_before_trans by (auto simp: position_ok_def)
  ultimately show ?thesis
    using assms by (cases current)
      (auto simp: position_ok_def projected_def Let_def place_before_def positionOpened_def amountChanged_def)
qed

lemma update_where_row_keys:
  "map row_key (update_where (\<lambda>q. row_key q = row_key p) (\<lambda>_. p) rows) = map row_key rows"
  by (rule map_update_where) simp

lemma projection_inv_upsert:
  assumes "projection_inv d" and "position_ok p"
  shows "projection_inv (upsert_position p d)"
proof (cases "\<exists>q\<in>set (adStakePosition d). row_key q = row_key p")
  case True
  then show ?thesis using assms
    by (auto simp: projection_inv_def upsert_position_def update_where_row_keys elim!: in_update_whereE)
next
  case False
  then show ?thesis using assms by (auto simp: projection_inv_def upsert_position_def)
qed

lemma find_position_in: "find_position k d = Some p \<Longrightarrow> p \<in> set (adStakePosition d) \<and> row_key p = k"
  by (auto simp: find_position_def find_Some_iff)

lemma keeps_apply: "keeps projection_inv (applyAdPositionChange c)"
proof (rule keepsI)
  fix s :: "(ad_db, 'a, 'b) machine"
  assume inv: "projection_inv (db s)"
  let ?cur = "find_position (change_key c) (db s)"
  show "projection_inv (db (snd (applyAdPositionChange c s)))"
  proof (cases "\<exists>d'. db (snd (applyAdPositionChange c s)) = d' \<and> d' \<noteq> db s")
    case True
    then obtain st b r p where "db (snd (applyAdPositionChange c s)) =
        upsert_position (projected ?cur c st b r p) (db s)" "0 \<le> st" "0 \<le> b" "0 \<le> r"
      "\<forall>q. ?cur = Some q \<longrightarrow> is_after c q"
      by (auto simp: applyAdPositionChange_def prog_defs is_after_def split: if_splits option.splits prod.splits)
    moreover have "\<forall>q. ?cur = Some q \<longrightarrow> position_ok q"
      using inv find_position_in unfolding projection_inv_def by blast
    ultimately show ?thesis
      using inv by (metis projection_inv_upsert position_ok_projected)
  qed (simp add: inv)
qed

lemma keeps_claim: "keeps projection_inv (claim_event e)"
  by (rule keepsI) (auto simp: claim_event_def prog_defs projection_inv_def)

lemma keeps_finalized: "keeps projection_inv (applyFinalizedAdPositionChange c)"
  unfolding applyFinalizedAdPositionChange_def
  by (intro keeps_rules keeps_claim keeps_apply)

lemma ix_key_advanced: "ix_key (advanced i b h n t s) = ix_key s"
  by (simp add: advanced_def with_snapshot_def split: option.splits)

lemma keeps_advance: "keeps projection_inv (advanceAdsIndexerState identity n h snapshot now)"
proof -
  have "projection_inv (d\<lparr>adIndexerState := rows\<rparr>)"
    if "projection_inv d" "distinct (map ix_key rows)" for d rows
    using that by (simp add: projection_inv_def)
  moreover have "distinct (map ix_key (update_where (\<lambda>s. ix_key s = k) (advanced i b h n t) rows))"
    if "distinct (map ix_key rows)" for k i b h n t rows
    using that by (simp add: map_update_where ix_key_advanced)
  ultimately show ?thesis
    by (intro keepsI)
      (auto simp: advanceAdsIndexerState_def prog_defs Let_def find_state_def find_None_iff ix_key_advanced
        empty_state_def projection_inv_def map_update_where split: option.splits)
qed

lemma keeps_reset: "keeps projection_inv (resetAdsProjection identity)"
  by (rule keepsI) (auto simp: resetAdsProjection_def prog_defs Let_def projection_inv_def distinct_map_filter)


lemma keeps_assert_unchanged: "keeps I (assertUnchangedCheckpoint k e)"
  unfolding assertUnchangedCheckpoint_def require_def by (intro keeps_rules)

lemma keeps_assert_canonical: "keeps I (assertCanonicalCheckpoint src e)"
  unfolding assertCanonicalCheckpoint_def require_def by (intro keeps_rules)

lemma keeps_same_address: "keeps I (same_address src a b)"
  unfolding same_address_def of_sum_def by (intro keeps_rules)

lemma keeps_contractSnapshot: "keeps I (contractSnapshot src cfg n)"
  unfolding contractSnapshot_def require_def of_sum_def by (intro keeps_rules keeps_same_address)

lemma keeps_verify_market: "keeps I (verify_market src cfg a)"
  unfolding verify_market_def require_def by (intro keeps_rules keeps_same_address)

lemmas keeps_index_parts = keeps_assert_unchanged keeps_assert_canonical keeps_same_address
  keeps_contractSnapshot keeps_verify_market keeps_claim keeps_finalized keeps_advance keeps_reset

lemma keeps_apply_log: "keeps projection_inv (apply_log identity l n)"
  unfolding apply_log_def by (cases "lg_args l") (auto intro!: keeps_rules keeps_index_parts)

lemma keeps_index_chunk: "keeps projection_inv (index_chunk src cfg identity safeHead checkpoint a b)"
  unfolding index_chunk_def require_def by (intro keeps_rules keeps_index_parts keeps_apply_log)

lemma keeps_index_chunks: "keeps projection_inv (index_chunks fuel src cfg identity safeHead checkpoint a n)"
proof (induction fuel arbitrary: checkpoint a n)
  case (Suc fuel)
  then show ?case by (simp add: Let_def) (intro conjI impI keeps_rules keeps_index_chunk Suc)
qed (simp add: keeps_throw)

lemma keeps_index_from: "keeps projection_inv (index_from src cfg identity safeHead state a)"
  unfolding index_from_def refresh_config_def require_def
  by (intro keeps_rules keeps_index_parts keeps_index_chunks)

lemma keeps_indexAds: "keeps projection_inv (indexAds src cfg)"
  unfolding indexAds_def Let_def of_sum_def resetAdsProjectionAfterReorg_def
  by (intro keeps_rules keeps_index_parts keeps_index_from)

text \<open>
  C9: Whatever the chain answers, and whether the indexing pass returns or fails on the way, the
  projection stays well formed: one row per position, each event claimed once, one checkpoint per
  contract, decimal amounts, a row active exactly when its stake is positive, and no priority place
  later than the row's last event.
\<close>

theorem indexAds_keeps_projection:
  "projection_inv (db s) \<Longrightarrow> projection_inv (db (snd (indexAds src cfg s)))"
  by (rule keepsD [OF keeps_indexAds])

subsection \<open>The order of a chunk\<close>

text \<open>The logs of a chunk are sorted by block and log index; the comparison is lawful.\<close>

interpretation chain_order: comparison log_compare
  by unfold_locales (auto simp: log_compare_def split: if_splits)

lemma chunk_sorted: "sorted_wrt (\<lambda>x y. log_compare x y \<le> 0) (sort_by log_compare (positions @ charges))"
  by (rule chain_order.sorted)

subsection \<open>The pass covers the finalized range\<close>

function block_ranges :: "int \<Rightarrow> int \<Rightarrow> (int \<times> int) list" where
  "block_ranges start safeHead =
     (if start > safeHead then []
      else (start, min (start + INDEXER_LOG_BLOCK_RANGE - 1) safeHead) #
        block_ranges (start + INDEXER_LOG_BLOCK_RANGE) safeHead)"
  by auto
termination
  by (relation "measure (\<lambda>(start, safeHead). nat (safeHead - start + 1))")
    (auto simp: INDEXER_LOG_BLOCK_RANGE_def)

declare block_ranges.simps [simp del]

definition index_range ::
  "'w ads_source \<Rightarrow> ads_config \<Rightarrow> int \<times> string \<Rightarrow> int \<Rightarrow> int \<times> int \<Rightarrow> nat \<times> checkpoint
   \<Rightarrow> ('w, nat \<times> checkpoint) index_prog" where
  "index_range src cfg identity safeHead r acc =
     bindp (index_chunk src cfg identity safeHead (snd acc) (fst r) (snd r))
       (\<lambda>(applied, checkpoint'). ret (fst acc + applied, checkpoint'))"

lemma block_ranges_cover: "concat (map (\<lambda>(a, b). [a..b]) (block_ranges start safeHead)) = [start..safeHead]"
proof (induction start safeHead rule: block_ranges.induct)
  case (1 start safeHead)
  show ?case
  proof (cases "start > safeHead")
    case False
    let ?e = "start + INDEXER_LOG_BLOCK_RANGE"
    have range: "0 < INDEXER_LOG_BLOCK_RANGE" by (simp add: INDEXER_LOG_BLOCK_RANGE_def)
    have split: "[start..safeHead] = [start..min (?e - 1) safeHead] @ [?e..safeHead]"
    proof (cases "?e \<le> safeHead")
      case True
      then show ?thesis using upto_split1 [of start ?e safeHead] range by simp
    next
      case False
      then have "min (?e - 1) safeHead = safeHead" by simp
      with False show ?thesis by simp
    qed
    show ?thesis
      unfolding block_ranges.simps [of start safeHead] using False 1 split by simp
  qed (simp add: block_ranges.simps)
qed

declare bindp_ret [simp]

lemma index_chunks_ranges:
  assumes "chunk_fuel start safeHead \<le> fuel"
  shows "index_chunks fuel src cfg identity safeHead checkpoint start processed =
    bindp (foldp (index_range src cfg identity safeHead) (block_ranges start safeHead) (processed, checkpoint))
      (\<lambda>(n, _). ret n)"
  using assms
proof (induction fuel arbitrary: start checkpoint processed)
  case 0
  then show ?case by (simp add: chunk_fuel_def)
next
  case (Suc fuel)
  show ?case
  proof (cases "start > safeHead")
    case True
    then show ?thesis by (simp add: block_ranges.simps)
  next
    case False
    have fuel: "chunk_fuel (start + INDEXER_LOG_BLOCK_RANGE) safeHead \<le> fuel"
      using Suc.prems False by (auto simp: chunk_fuel_def INDEXER_LOG_BLOCK_RANGE_def)
    have e: "(if start + INDEXER_LOG_BLOCK_RANGE - 1 > safeHead then safeHead
        else start + INDEXER_LOG_BLOCK_RANGE - 1) = min (start + INDEXER_LOG_BLOCK_RANGE - 1) safeHead"
      by (simp add: min_def)
    show ?thesis
      unfolding block_ranges.simps [of start safeHead] index_chunks.simps Let_def e
      using False Suc.IH [OF fuel]
      by (simp add: index_range_def bindp_assoc case_prod_unfold)
  qed
qed

text \<open>
  C11: The chunk loop always has enough fuel: any larger budget gives the same run. That run indexes
  a list of ranges of at most 500 blocks each which together are exactly the blocks from the first
  one to the safe head, each once and in order.
\<close>

theorem index_chunks_cover_the_range:
  "chunk_fuel start safeHead \<le> fuel \<Longrightarrow>
   index_chunks fuel src cfg identity safeHead checkpoint start n =
     bindp (foldp (index_range src cfg identity safeHead) (block_ranges start safeHead) (n, checkpoint))
       (\<lambda>(total, _). ret total) \<and>
   concat (map (\<lambda>(a, b). [a..b]) (block_ranges start safeHead)) = [start..safeHead] \<and>
   list_all (\<lambda>(a, b). b - a < 500) (block_ranges start safeHead)"
proof (intro conjI)
  show "list_all (\<lambda>(a, b). b - a < 500) (block_ranges start safeHead)"
  proof (induction start safeHead rule: block_ranges.induct)
    case (1 start safeHead)
    then show ?case
      by (subst block_ranges.simps) (auto simp: INDEXER_LOG_BLOCK_RANGE_def)
  qed
qed (auto intro: index_chunks_ranges block_ranges_cover)

definition sample_source :: "unit ads_source" where
  "sample_source = \<lparr>src_head = (\<lambda>w. (Inr 12, w)), src_block = (\<lambda>n w. (Inr ''H'', w)),
     src_contract = (\<lambda>w. (Inr (7, Some ''0x60'', ''P'', ''W'', 5), w)),
     src_config = (\<lambda>n w. (Inr (''P'', 5, False, ''Q'', ''U'', 0, 0), w)),
     src_events = (\<lambda>a b w. (Inr ([], []), w)), src_clock = (\<lambda>w. (Inr 1, w)),
     src_getAddress = Inr\<rparr>"

definition sample_config :: ads_config where
  "sample_config = \<lparr>cfg_address = Some ''M'', cfg_deploymentBlock = Some 10, cfg_chainId = 7,
     cfg_preAddress = ''P'', cfg_owner = ''W'', cfg_confirmations = 1\<rparr>"

lemma index_chunks_cover_the_range_witness:
  "index_chunks 7 sample_source sample_config (7, ''m'') 12 None 10 0 =
     bindp (foldp (index_range sample_source sample_config (7, ''m'') 12) (block_ranges 10 12) (0, None))
       (\<lambda>(total, _). ret total) \<and>
   concat (map (\<lambda>(a, b). [a..b]) (block_ranges 10 12)) = [10..12] \<and>
   list_all (\<lambda>(a, b). b - a < 500) (block_ranges 10 12)"
  by (rule index_chunks_cover_the_range) (simp add: chunk_fuel_def)

subsection \<open>The checkpoint after a pass\<close>

definition at_block :: "string \<Rightarrow> int \<Rightarrow> ad_db \<Rightarrow> bool" where
  "at_block k n d \<longleftrightarrow> (\<exists>st. find_state k d = Some st \<and> ix_lastBlockNumber st = n)"

definition before_block :: "string \<Rightarrow> int \<Rightarrow> ad_db \<Rightarrow> bool" where
  "before_block k n d \<longleftrightarrow> (\<forall>st. find_state k d = Some st \<longrightarrow> ix_lastBlockNumber st < n)"

lemma last_block_advanced: "ix_lastBlockNumber (advanced i b h n t s) = b"
  by (simp add: advanced_def)

lemma find_state_advanced:
  "find_state k d = Some st \<Longrightarrow>
   find_state k (adIndexerState_update (update_where (\<lambda>s. ix_key s = k) (advanced i b h n t)) d) =
     Some (advanced i b h n t st)"
proof -
  have "List.find (\<lambda>s. ix_key s = k) rows = Some st \<Longrightarrow>
      List.find (\<lambda>s. ix_key s = k) (update_where (\<lambda>s. ix_key s = k) (advanced i b h n t) rows) =
        Some (advanced i b h n t st)" for rows
    by (induction rows) (auto simp: update_where_def ix_key_advanced split: if_splits)
  then show "find_state k d = Some st \<Longrightarrow> ?thesis" by (simp add: find_state_def)
qed

lemma find_state_append:
  "find_state k d = None \<Longrightarrow> ix_key s = k \<Longrightarrow>
   find_state k (adIndexerState_update (\<lambda>rows. rows @ [s]) d) = Some s"
proof -
  have "List.find (\<lambda>s. ix_key s = k) rows = None \<Longrightarrow> ix_key s = k \<Longrightarrow>
      List.find (\<lambda>s. ix_key s = k) (rows @ [s]) = Some s" for rows
    by (induction rows) (auto split: if_splits)
  then show "find_state k d = None \<Longrightarrow> ix_key s = k \<Longrightarrow> ?thesis" by (simp add: find_state_def)
qed

lemma advance_to_block:
  assumes "\<And>d. P d \<Longrightarrow> \<forall>st. find_state (adsIndexerStateKey identity) d = Some st \<longrightarrow> ix_lastBlockNumber st \<le> n"
  shows "triple P (advanceAdsIndexerState identity n h snapshot now)
    (\<lambda>_. at_block (adsIndexerStateKey identity) n) (\<lambda>_. True)"
  by (rule tripleI)
    (use assms in \<open>force simp: advanceAdsIndexerState_def prog_defs Let_def at_block_def
       find_state_advanced find_state_append ix_key_advanced last_block_advanced empty_state_def
       split: option.splits if_splits\<close>)+

lemma checkpoint_unmoved:
  "adIndexerState (db (snd (apply_log identity l n s))) = adIndexerState (db s)"
  by (auto simp: apply_log_def applyFinalizedAdPositionChange_def claim_event_def applyAdPositionChange_def
      prog_defs upsert_position_def split: log_args.splits if_splits option.splits prod.splits apply_result.splits)

lemma keeps_before_block: "keeps (before_block k n) (apply_log identity l m)"
  by (rule keepsI) (simp add: before_block_def find_state_def checkpoint_unmoved)


lemma unchanged_before:
  "triple (\<lambda>d. checkpoint = None \<or> before_block k start d) (assertUnchangedCheckpoint k checkpoint)
     (\<lambda>_. before_block k start) (\<lambda>_. True)"
  by (rule tripleI) (auto simp: assertUnchangedCheckpoint_def require_def prog_defs before_block_def
      split: option.splits if_splits)

lemma chunk_to_block:
  assumes "k = adsIndexerStateKey identity" and "start \<le> end'"
  shows "triple (\<lambda>d. checkpoint = None \<or> before_block k start d)
    (index_chunk src cfg identity safeHead checkpoint start end') (\<lambda>_. at_block k end') (\<lambda>_. True)"
proof -
  let ?B = "before_block k start" and ?P = "\<lambda>d. checkpoint = None \<or> before_block k start d"
  have fold: "triple ?B (foldp (apply_log identity) xs n) (\<lambda>_. ?B) (\<lambda>_. True)" for xs n
    by (rule keeps_here) (intro keeps_foldp keeps_before_block)
  have advance: "triple ?B (advanceAdsIndexerState identity end' h snapshot now) (\<lambda>_. at_block k end') (\<lambda>_. True)"
    for h snapshot now
    unfolding assms(1) by (rule advance_to_block) (use assms in \<open>auto simp: before_block_def\<close>)
  have run: "triple ?P (transactional
       (thenp (assertUnchangedCheckpoint (adsIndexerStateKey identity) checkpoint)
       (bindp (foldp (apply_log identity) xs 0) (\<lambda>count.
        bindp (extern (src_clock src)) (\<lambda>now.
        thenp (advanceAdsIndexerState identity end' h snapshot now) (ret count))))))
      (\<lambda>_. at_block k end') (\<lambda>_. True)" for xs h snapshot
    unfolding assms(1) [symmetric]
    by (rule triple_transactional)
      (auto intro!: triple_then [OF unchanged_before] triple_bind [OF fold] triple_bind [OF triple_extern [where P = ?B and Q = "\<lambda>_. ?B"]]
        triple_then [OF advance] triple_ret)
  show ?thesis
    unfolding index_chunk_def require_def
    by (intro triple_then [OF keeps_here] triple_bind [OF keeps_here] triple_prod triple_bind [OF run] triple_ret
        keeps_assert_canonical keeps_extern keeps_contractSnapshot keeps_ret keeps_throw keeps_rules)
qed

lemma at_before: "at_block k n d \<Longrightarrow> n < m \<Longrightarrow> before_block k m d"
  by (auto simp: at_block_def before_block_def)

lemma chunks_to_head:
  assumes "k = adsIndexerStateKey identity"
  shows "triple (\<lambda>d. if start \<le> safeHead then checkpoint = None \<or> before_block k start d else at_block k safeHead d)
    (index_chunks fuel src cfg identity safeHead checkpoint start n) (\<lambda>_. at_block k safeHead) (\<lambda>_. True)"
proof (induction fuel arbitrary: checkpoint start n)
  case (Suc fuel)
  let ?e = "if start + INDEXER_LOG_BLOCK_RANGE - 1 > safeHead then safeHead else start + INDEXER_LOG_BLOCK_RANGE - 1"
  have next_pre: "if start + INDEXER_LOG_BLOCK_RANGE \<le> safeHead
      then c = None \<or> before_block k (start + INDEXER_LOG_BLOCK_RANGE) d
      else at_block k safeHead d" if "at_block k ?e d" for d and c :: checkpoint
    using that at_before [of k ?e d] by (cases "start + INDEXER_LOG_BLOCK_RANGE - 1 = safeHead") (auto split: if_splits)
  show ?case
  proof (cases "start > safeHead")
    case False
    then have e: "start \<le> ?e" by (simp add: INDEXER_LOG_BLOCK_RANGE_def)
    show ?thesis
      unfolding index_chunks.simps Let_def if_not_P [OF False]
      by (rule triple_bind, rule triple_pre [OF chunk_to_block [OF assms e]])
        (use False next_pre in \<open>auto intro!: triple_prod triple_pre [OF Suc]\<close>)
  qed (simp add: triple_ret)
qed (simp add: triple_throw)

lemma refresh_at_block:
  assumes "k = adsIndexerStateKey identity"
  shows "triple (\<lambda>d. find_state k d = Some s) (refresh_config src cfg identity safeHead s)
    (\<lambda>_. at_block k (ix_lastBlockNumber s)) (\<lambda>_. True)"
proof -
  let ?S = "\<lambda>d. find_state k d = Some s"
  have advance: "triple ?S (advanceAdsIndexerState identity (ix_lastBlockNumber s) h snapshot now)
      (\<lambda>_. at_block k (ix_lastBlockNumber s)) (\<lambda>_. True)" for h snapshot now
    unfolding assms by (rule advance_to_block) auto
  have run: "triple ?S (transactional
       (thenp (assertUnchangedCheckpoint (adsIndexerStateKey identity) e)
       (bindp (extern (src_clock src)) (\<lambda>now.
        advanceAdsIndexerState identity (ix_lastBlockNumber s) (ix_lastBlockHash s) (Some snapshot) now))))
      (\<lambda>_. at_block k (ix_lastBlockNumber s)) (\<lambda>_. True)" for e snapshot
    by (rule triple_transactional)
      (auto intro!: triple_then [OF keeps_here] triple_bind [OF triple_extern [where P = ?S and Q = "\<lambda>_. ?S"]]
        advance keeps_assert_unchanged)
  show ?thesis
    unfolding refresh_config_def require_def
    by (intro triple_bind [OF keeps_here] triple_then [OF keeps_here] run keeps_contractSnapshot keeps_extern
        keeps_ret keeps_throw keeps_rules)
qed

abbreviation synced_at :: "string \<Rightarrow> index_outcome \<Rightarrow> ad_db \<Rightarrow> bool" where
  "synced_at k r d \<equiv> (case r of Index_synced _ (Some b) \<Rightarrow> at_block k b d | _ \<Rightarrow> True)"

lemma index_from_synced:
  assumes k: "k = adsIndexerStateKey identity" and start: "\<And>s. state = Some s \<Longrightarrow> fromBlock = ix_lastBlockNumber s + 1"
  shows "triple (\<lambda>d. state = None \<or> find_state k d = state)
    (index_from src cfg identity safeHead state fromBlock) (synced_at k) (\<lambda>_. True)"
proof -
  let ?S = "\<lambda>d. state = None \<or> find_state k d = state"
  have chunks: "triple ?S (index_chunks fuel src cfg identity safeHead (map_option state_checkpoint state) fromBlock 0)
      (\<lambda>_. at_block k safeHead) (\<lambda>_. True)" if "\<not> fromBlock > safeHead" for fuel
    by (rule triple_pre [OF chunks_to_head [OF k]]) (use that start in \<open>auto simp: before_block_def\<close>)
  have refresh: "triple ?S (refresh_config src cfg identity safeHead s)
      (\<lambda>_. at_block k (ix_lastBlockNumber s)) (\<lambda>_. True)" if "state = Some s" for s
    by (rule triple_pre [OF refresh_at_block [OF k]]) (use that in auto)
  have refresh': "triple ?S (case state of None \<Rightarrow> ret () | Some s \<Rightarrow> refresh_config src cfg identity safeHead s)
      (\<lambda>_ d. case state of None \<Rightarrow> True | Some s \<Rightarrow> at_block k (ix_lastBlockNumber s) d) (\<lambda>_. True)"
    using refresh by (cases state) (auto intro: triple_ret)
  show ?thesis
    unfolding index_from_def
    by (intro triple_if triple_then [OF refresh'] triple_bind [OF chunks] triple_ret)
      (auto split: option.splits)
qed

lemma keeps_true: "triple P m (\<lambda>_ _. True) (\<lambda>_. True)"
  by (rule tripleI) auto

lemma indexAds_synced:
  assumes "cfg_address cfg = Some a" and "src_getAddress src a = Inr address"
    and k: "k = adsIndexerStateKey (cfg_chainId cfg, to_lower address)"
  shows "triple (\<lambda>_. True) (indexAds src cfg) (synced_at k) (\<lambda>_. True)"
proof -
  let ?i = "(cfg_chainId cfg, to_lower address)"
  have from_none: "triple P (index_from src cfg ?i safeHead None b) (synced_at k) (\<lambda>_. True)" for safeHead b P
    by (rule triple_pre [OF index_from_synced [OF k]]) auto
  have found: "triple (\<lambda>_. True) (db_get (find_state k)) (\<lambda>st d. find_state k d = st) (\<lambda>_. True)"
    by (rule triple_get) simp
  have hash: "triple P (extern g) (\<lambda>_. P) (\<lambda>_. True)" for P and g :: "'a \<Rightarrow> (exn + string) \<times> 'a"
    by (rule triple_extern) auto
  have from_some: "triple (\<lambda>d. find_state k d = Some st)
      (index_from src cfg ?i safeHead (Some st) (ix_lastBlockNumber st + 1)) (synced_at k) (\<lambda>_. True)" for st safeHead
    by (rule triple_pre [OF index_from_synced [OF k]]) auto
  have state: "triple (\<lambda>d. find_state k d = state) (case state of
        None \<Rightarrow> index_from src cfg ?i safeHead None deploymentBlock
      | Some s \<Rightarrow> bindp (extern (src_block src (ix_lastBlockNumber s))) (\<lambda>canonical.
          if to_lower canonical \<noteq> to_lower (ix_lastBlockHash s)
          then thenp (resetAdsProjectionAfterReorg ?i) (index_from src cfg ?i safeHead None deploymentBlock)
          else index_from src cfg ?i safeHead (Some s) (ix_lastBlockNumber s + 1)))
      (synced_at k) (\<lambda>_. True)" for state safeHead deploymentBlock
    by (intro triple_option triple_if triple_then [OF keeps_true] from_none triple_bind [OF hash]
        triple_pre [OF from_some]) auto
  show ?thesis
  proof (cases "cfg_deploymentBlock cfg")
    case None
    then show ?thesis unfolding indexAds_def assms(1) by (simp add: triple_ret)
  next
    case (Some n)
    show ?thesis
      unfolding indexAds_def assms(1,2) of_sum_def Let_def Some prod.case option.case sum.case bindp_ret k [symmetric]
      by (intro triple_then [OF keeps_true] triple_bind [OF keeps_true] triple_bind [OF found] triple_if triple_ret
          triple_throw triple_option [of "finalizedAdsBlock _ _"] state) simp_all
  qed
qed

text \<open>
  C10: When a pass reports the market synced up to a block, the stored checkpoint of the configured
  contract is at exactly that block, whether the pass indexed new blocks, only refreshed the
  configuration or started over after a reorganisation.
\<close>

theorem indexAds_synced_checkpoint:
  assumes "cfg_address cfg = Some a" and "src_getAddress src a = Inr address"
    and "indexAds src cfg s = (Inr (Index_synced n (Some b)), s')"
  shows "\<exists>st. find_state (adsIndexerStateKey (cfg_chainId cfg, address)) (db s') = Some st \<and>
    ix_lastBlockNumber st = b"
proof -
  let ?k = "adsIndexerStateKey (cfg_chainId cfg, address)"
  have k: "?k = adsIndexerStateKey (cfg_chainId cfg, to_lower address)"
    by (simp add: adsIndexerStateKey_def)
  show ?thesis
    using triple_Inr [OF indexAds_synced [OF assms(1,2) k] TrueI assms(3)] by (simp add: at_block_def)
qed


lemma indexAds_keeps_projection_witness:
  "projection_inv empty_db \<and> projection_inv (db (snd (indexAds sample_source sample_config empty_machine)))"
proof -
  have "projection_inv empty_db" by (simp add: projection_inv_def empty_db_def)
  then show ?thesis using indexAds_keeps_projection [of empty_machine] by (simp add: empty_machine_def)
qed

lemma sample_pass:
  "fst (indexAds sample_source sample_config empty_machine) = Inr (Index_synced 0 (Some 12))"
  by code_simp

lemma indexAds_synced_checkpoint_witness:
  "\<exists>st. find_state (adsIndexerStateKey (7, ''M''))
      (db (snd (indexAds sample_source sample_config empty_machine))) = Some st \<and> ix_lastBlockNumber st = 12"
  using indexAds_synced_checkpoint [of sample_config "''M''" sample_source "''M''" empty_machine 0 12
      "snd (indexAds sample_source sample_config empty_machine)"] sample_pass
  by (simp add: sample_config_def sample_source_def prod_eq_iff)

end
