(* ===== verification/Moderation_Runs.thy ===== *)
theory Moderation_Runs
  imports Moderation_Facts Projection_Facts
begin

section \<open>Runs of the ads service\<close>

text \<open>
  The requests of the ads service as a data type, their sequences, and what holds along every
  sequence: the invariant of campaigns and revisions, the life of a revision as a state machine,
  what keeps the report totals exact, and that a failed request leaves the database as it was.
\<close>

datatype market_request =
  Create_campaign utext creative_input principal
| Create_revision string creative_input principal
| Set_paused string bool principal
| Report string string string string
| Moderate string moderation_action string principal
| Resolve string report_resolution string principal

definition serve ::
  "unicode \<Rightarrow> (string \<Rightarrow> parsed_url option) \<Rightarrow> 'w api_deps \<Rightarrow> market_request \<Rightarrow> ('w, unit) ads_prog" where
  "serve u parse deps req = (case req of
     Create_campaign kw body a \<Rightarrow> bindp (createCampaign u parse deps kw body a) (\<lambda>_. ret ())
   | Create_revision i body a \<Rightarrow> bindp (createRevision parse deps i body a) (\<lambda>_. ret ())
   | Set_paused i p a \<Rightarrow> updateCampaign deps i p a
   | Report i reason comment ip \<Rightarrow> report_ad deps i reason comment ip
   | Moderate i act n a \<Rightarrow> moderateRevision deps i act n a
   | Resolve i act n a \<Rightarrow> resolveReports deps i act n a)"

text \<open>The service answers one request after the other, whether they succeed or fail.\<close>

fun serve_all ::
  "unicode \<Rightarrow> (string \<Rightarrow> parsed_url option) \<Rightarrow> 'w api_deps \<Rightarrow> market_request list
   \<Rightarrow> (market_db, resolver_cache, 'w) machine \<Rightarrow> (market_db, resolver_cache, 'w) machine" where
  "serve_all u parse deps [] s = s"
| "serve_all u parse deps (r # rs) s = serve_all u parse deps rs (snd (serve u parse deps r s))"

lemma serve_all_keeps:
  assumes "\<And>r. keeps I (serve u parse deps r)" and "I (db s)"
  shows "I (db (serve_all u parse deps rs s))"
  using assms(2)
proof (induction rs arbitrary: s)
  case (Cons r rs)
  show ?case using Cons.IH keepsD [OF assms(1) Cons.prems] by simp
qed simp

subsection \<open>The invariant along a run\<close>

lemma serve_keeps_inv: "keeps moderation_inv (serve u parse deps r)"
  by (cases r) (auto simp: serve_def intro!: keeps_bind keeps_ret keeps_createCampaign keeps_createRevision
      keeps_updateCampaign keeps_report_ad keeps_moderateRevision keeps_resolveReports)

text \<open>
  C17: After any sequence of requests, some refused and some not, and whatever clock and identifiers
  the outside world supplies: identifiers are unique, a wallet has one campaign per keyword, a
  campaign's active revision is its only approved one, every approved revision is the active one of
  its campaign, and a campaign has at most one revision waiting for review.
\<close>

theorem requests_keep_moderation_inv:
  "moderation_inv (db s) \<Longrightarrow> moderation_inv (db (serve_all u parse deps requests s))"
  by (rule serve_all_keeps [OF serve_keeps_inv])

subsection \<open>The life of a revision\<close>

inductive revision_step :: "creative_status \<Rightarrow> creative_status \<Rightarrow> bool" where
  approve: "revision_step PENDING_REVIEW APPROVED"
| reject: "revision_step PENDING_REVIEW REJECTED"
| withdraw: "revision_step PENDING_REVIEW SUPERSEDED"
| replace: "revision_step APPROVED SUPERSEDED"
| suspend_active: "revision_step APPROVED SUSPENDED"
| suspend_old: "revision_step SUPERSEDED SUSPENDED"
| restore: "revision_step SUSPENDED APPROVED"

inductive_cases revision_step_REJECTED: "revision_step REJECTED x"
inductive_cases revision_step_to_PENDING: "revision_step x PENDING_REVIEW"

abbreviation life :: "creative_status \<Rightarrow> creative_status \<Rightarrow> bool" where
  "life \<equiv> revision_step\<^sup>*\<^sup>*"

lemma life_step: "revision_step a b \<Longrightarrow> life a b"
  by (rule r_into_rtranclp)

lemma life_rejected: "life REJECTED x \<Longrightarrow> x = REJECTED"
  by (induction rule: rtranclp_induct) (auto elim: revision_step_REJECTED)

definition same_content :: "revision \<Rightarrow> revision \<Rightarrow> bool" where
  "same_content r q \<longleftrightarrow> rev_id q = rev_id r \<and> rev_campaignId q = rev_campaignId r \<and>
     rev_version q = rev_version r \<and> rev_creative q = rev_creative r \<and> life (rev_status r) (rev_status q)"

definition evolves :: "revision list \<Rightarrow> revision list \<Rightarrow> bool" where
  "evolves R R' \<longleftrightarrow> (\<exists>f N. R' = map f R @ N \<and> (\<forall>r\<in>set R. same_content r (f r)))"

lemma same_content_refl: "same_content r r"
  by (simp add: same_content_def)

lemma evolves_refl: "evolves R R"
  unfolding evolves_def by (intro exI [of _ id] exI [of _ "[]"]) (simp add: same_content_refl)

lemma evolves_append: "evolves R R' \<Longrightarrow> evolves R (R' @ [n])"
  by (auto simp: evolves_def)

lemma evolves_update:
  assumes "evolves R R'" and "\<And>r. P r \<Longrightarrow> same_content r (f r)"
  shows "evolves R (update_where P f R')"
proof -
  obtain g N where g: "R' = map g R @ N" "\<forall>r\<in>set R. same_content r (g r)" using assms(1) by (auto simp: evolves_def)
  let ?h = "\<lambda>r. if P r then f r else r"
  have "same_content (g r) (?h (g r))" for r using assms(2) same_content_refl by simp
  then have "same_content r (?h (g r))" if "r \<in> set R" for r
    using g(2) that by (fastforce simp: same_content_def intro: rtranclp_trans)
  then show ?thesis
    unfolding evolves_def g(1) update_where_def by (intro exI [of _ "?h \<circ> g"] exI [of _ "map ?h N"]) simp
qed

definition evolved :: "revision list \<Rightarrow> market_db \<Rightarrow> bool" where
  "evolved R d \<longleftrightarrow> evolves R (adCreativeRevision d)"

lemma keeps_evolved_update:
  "(\<And>r. P r \<Longrightarrow> same_content r (f r)) \<Longrightarrow> keeps (evolved R) (update_revisions P f)"
  unfolding update_revisions_def by (intro keeps_rules keeps_mod) (simp add: evolved_def evolves_update)

lemma keeps_evolved_guarded:
  "(\<And>r. P r \<Longrightarrow> same_content r (f r)) \<Longrightarrow> keeps (evolved R) (guarded (update_revisions P f))"
  unfolding guarded_def assertModerationStateUnchanged_def by (intro keeps_rules keeps_evolved_update)

lemma keeps_evolved_campaigns: "keeps (evolved R) (update_campaigns P f)"
  unfolding update_campaigns_def by (intro keeps_rules keeps_mod) (simp add: evolved_def)

lemma keeps_evolved_activate: "keeps (evolved R) (activate k a b)"
  unfolding activate_def guarded_def assertModerationStateUnchanged_def
  by (intro keeps_rules keeps_evolved_campaigns)

lemma keeps_evolved_reports: "keeps (evolved R) (update_reports P f)"
  unfolding update_reports_def by (intro keeps_rules keeps_mod) (simp add: evolved_def)

lemma keeps_evolved_audit: "keeps (evolved R) (audit a i act)"
  unfolding audit_def by (intro keeps_rules keeps_mod) (simp add: evolved_def)

lemma keeps_evolved_inserts: "keeps (evolved R) (insert_revision e n)" "keeps (evolved R) (insert_campaign c)"
  unfolding insert_revision_def insert_campaign_def
  by (intro keeps_rules keeps_mod; simp add: evolved_def evolves_append)+

lemma keeps_found: "keeps I (revision_with_campaign i)"
  unfolding revision_with_campaign_def by (intro keeps_rules)

lemma same_content_moderated:
  "revision_step (rev_status r) st \<Longrightarrow> same_content r (moderated st a n t r)"
  by (simp add: same_content_def life_step)

lemma same_content_superseded:
  "rev_status r = APPROVED \<or> rev_status r = PENDING_REVIEW \<Longrightarrow> same_content r (rev_status_update (\<lambda>_. SUPERSEDED) r)"
  using life_step [OF revision_step.replace] life_step [OF revision_step.withdraw] by (auto simp: same_content_def)

lemma keeps_evolved_supersede: "keeps (evolved R) (supersede_active i)"
  unfolding supersede_active_def by (rule keeps_evolved_guarded) (simp add: same_content_superseded)

lemma keeps_evolved_suspend: "canSuspendRevision r \<Longrightarrow> keeps (evolved R) (suspend_revision r a n t)"
  unfolding suspend_revision_def
  by (rule keeps_evolved_guarded)
    (auto simp: canSuspendRevision_def intro!: same_content_moderated revision_step.intros)

lemma keeps_evolved_deactivate: "keeps (evolved R) (deactivate_if_active r c)"
  unfolding deactivate_if_active_def by (intro keeps_rules keeps_evolved_activate)

lemma keeps_evolved_set:
  "revision_step old new \<Longrightarrow> keeps (evolved R) (set_status r old new a n t)"
  unfolding set_status_def by (rule keeps_evolved_guarded) (auto intro: same_content_moderated)

lemma keeps_evolved_moderation: "keeps (evolved R) (moderation_step act r c a n t)"
  unfolding moderation_step_def
  by (cases act) (auto intro!: keeps_rules keeps_evolved_supersede keeps_evolved_set keeps_evolved_activate
      keeps_evolved_suspend keeps_evolved_deactivate revision_step.intros split: option.split)

lemmas keeps_evolved = keeps_rules keeps_clear keeps_found keeps_evolved_audit keeps_evolved_inserts
  keeps_evolved_reports keeps_evolved_activate keeps_evolved_campaigns keeps_evolved_deactivate
  keeps_evolved_moderation keeps_evolved_supersede keeps_evolved_suspend keeps_evolved_update

lemma serve_evolves: "keeps (evolved R) (serve u parse deps r)"
proof (cases r)
  case (Report i reason comment ip)
  show ?thesis unfolding serve_def Report market_request.case report_ad_def Let_def
    by (intro keeps_evolved keeps_mod) (simp_all add: evolved_def)
next
  case (Create_revision i body a)
  show ?thesis unfolding serve_def Create_revision market_request.case createRevision_def
    by (intro keeps_evolved) (simp add: same_content_superseded)
qed (auto simp: serve_def createCampaign_def updateCampaign_def moderateRevision_def resolveReports_def
      intro!: keeps_evolved)

text \<open>
  C18: Along every sequence of requests a revision is never deleted and its creative, campaign and
  version never change; its status only follows the moderation machine.
\<close>

theorem revisions_follow_the_machine:
  "\<exists>f N. adCreativeRevision (db (serve_all u parse deps requests s)) = map f (adCreativeRevision (db s)) @ N \<and>
    (\<forall>r\<in>set (adCreativeRevision (db s)). same_content r (f r))"
proof -
  have "evolved (adCreativeRevision (db s)) (db (serve_all u parse deps requests s))"
    by (rule serve_all_keeps [OF serve_evolves]) (simp add: evolved_def evolves_refl)
  then show ?thesis by (simp add: evolved_def evolves_def)
qed

text \<open>
  A rejected revision stays rejected: no sequence of requests publishes it.
\<close>

theorem rejected_is_final:
  assumes "r \<in> set (adCreativeRevision (db s))" and "rev_status r = REJECTED"
  shows "\<exists>q\<in>set (adCreativeRevision (db (serve_all u parse deps requests s))).
    rev_id q = rev_id r \<and> rev_status q = REJECTED"
proof -
  have "evolved (adCreativeRevision (db s)) (db (serve_all u parse deps requests s))"
    by (rule serve_all_keeps [OF serve_evolves]) (simp add: evolved_def evolves_refl)
  then show ?thesis
    using assms life_rejected by (fastforce simp: evolved_def evolves_def same_content_def)
qed

subsection \<open>A refused request changes nothing\<close>

definition refuses_cleanly :: "market_db \<Rightarrow> ('m, 'w, 'a) market_prog \<Rightarrow> bool" where
  "refuses_cleanly d m \<longleftrightarrow> triple (\<lambda>x. x = d) m (\<lambda>_ _. True) (\<lambda>x. x = d)"

lemma clean_transactional: "refuses_cleanly d (transactional m)"
  unfolding refuses_cleanly_def by (rule triple_transactional) (auto intro: tripleI)

lemma clean_then:
  "refuses_cleanly d m \<Longrightarrow> (\<And>x. triple (\<lambda>_. True) (f x) (\<lambda>_ _. True) (\<lambda>_. False)) \<Longrightarrow> refuses_cleanly d (bindp m f)"
  unfolding refuses_cleanly_def by (rule triple_bind) (auto intro: triple_conseq)

lemma never_throws_clear: "triple (\<lambda>_. True) (thenp clearResolverCache (ret x)) (\<lambda>_ _. True) (\<lambda>_. False)"
  "triple (\<lambda>_. True) clearResolverCache (\<lambda>_ _. True) (\<lambda>_. False)" "triple (\<lambda>_. True) (ret y) (\<lambda>_ _. True) (\<lambda>_. False)"
  by (auto simp: clearResolverCache_def triple_def prog_defs)

lemma clean_throw: "refuses_cleanly d (throw e)"
  by (simp add: refuses_cleanly_def triple_throw)

lemma one_campaign:
  assumes "moderation_inv d"
  shows "count_where (\<lambda>c. camp_id c = i \<and> P c) (adCampaign d) \<le> 1"
proof -
  have "distinct (map camp_id C) \<Longrightarrow> length (filter (\<lambda>c. camp_id c = i \<and> P c) C) \<le> 1" for C
  proof (induction C)
    case (Cons c C)
    show ?case
    proof (cases "camp_id c = i")
      case True
      have "camp_id c \<notin> camp_id ` set C" using Cons.prems by simp
      then have "\<forall>x\<in>set C. camp_id x \<noteq> i" using True by (metis image_eqI)
      then have "filter (\<lambda>c. camp_id c = i \<and> P c) C = []" by (simp add: filter_empty_conv)
      then show ?thesis by simp
    next
      case False
      then show ?thesis using Cons by simp
    qed
  qed simp
  then show ?thesis using assms by (simp add: moderation_inv_def campaigns_ok_def count_where_def)
qed

lemma no_match_update: "count_where P rows = 0 \<Longrightarrow> update_where P f rows = rows"
  by (auto simp: count_where_def update_where_def filter_empty_conv intro: map_idI)

lemma no_match_campaigns: "count_where P (adCampaign d) = 0 \<Longrightarrow> adCampaign_update (update_where P f) d = d"
  by (cases d) (simp add: no_match_update)

lemma clean_update:
  assumes "moderation_inv d"
  shows "refuses_cleanly d (updateCampaign deps i p a)"
proof -
  let ?P = "\<lambda>c. camp_id c = i \<and> camp_userId c = pr_userId a"
  have count: "count_where ?P (adCampaign d) \<noteq> 1 \<Longrightarrow> count_where ?P (adCampaign d) = 0"
    using one_campaign [OF assms, of i "\<lambda>c. camp_userId c = pr_userId a"] by linarith
  show ?thesis
    unfolding refuses_cleanly_def
    by (rule tripleI)
      (use count no_match_campaigns in \<open>auto simp: updateCampaign_def update_campaigns_def clearResolverCache_def prog_defs
        split: prod.splits sum.splits if_splits\<close>)
qed

lemma clean_extern: "(\<And>x. refuses_cleanly d (f x)) \<Longrightarrow> refuses_cleanly d (bindp (extern g) f)"
  unfolding refuses_cleanly_def by (rule triple_bind [OF triple_extern [where Q = "\<lambda>_ x. x = d"]]) auto

text \<open>
  A request that is refused leaves every table of the database exactly as it was.
\<close>

theorem refused_request_changes_nothing:
  assumes "moderation_inv (db s)" and "serve u parse deps request s = (Inl e, s')"
  shows "db s' = db s"
proof -
  have "refuses_cleanly (db s) (serve u parse deps request)"
  proof (cases request)
    case (Create_campaign kw body a)
    then show ?thesis
      by (auto simp: serve_def createCampaign_def bindp_assoc clean_throw intro!: clean_then [OF clean_transactional]
          triple_conseq [OF never_throws_clear(1)] split: sum.split option.split)
        (auto simp: triple_def prog_defs clearResolverCache_def refuses_cleanly_def)
  next
    case (Create_revision i body a)
    then show ?thesis
      by (auto simp: serve_def createRevision_def bindp_assoc clean_throw intro!: clean_then [OF clean_transactional]
          split: option.split)
        (auto simp: triple_def prog_defs clearResolverCache_def refuses_cleanly_def)
  next
    case (Set_paused i p a)
    then show ?thesis by (simp add: serve_def clean_update [OF assms(1)])
  next
    case (Report i reason comment ip)
    then show ?thesis by (auto simp: serve_def report_ad_def Let_def intro!: clean_extern clean_transactional)
  next
    case (Moderate i act n a)
    then show ?thesis
      by (auto simp: serve_def moderateRevision_def thenp_def intro!: clean_then [OF clean_transactional] never_throws_clear)
  next
    case (Resolve i act n a)
    then show ?thesis
      by (auto simp: serve_def resolveReports_def thenp_def intro!: clean_then [OF clean_transactional] never_throws_clear)
  qed
  then show ?thesis using assms(2) by (auto simp: refuses_cleanly_def triple_def dest!: spec [of _ s])
qed

subsection \<open>Reports are counted once\<close>

definition total_of :: "report_total list \<Rightarrow> string \<Rightarrow> string \<Rightarrow> nat" where
  "total_of T i reason = (case List.find (\<lambda>t. tot_revisionId t = i \<and> tot_reason t = reason) T of
     None \<Rightarrow> 0 | Some t \<Rightarrow> tot_total t)"

text \<open>
  The totals count the stored reports and \<open>K i reason\<close> reports that are no longer stored.
\<close>

definition reports_inv :: "(string \<Rightarrow> string \<Rightarrow> nat) \<Rightarrow> market_db \<Rightarrow> bool" where
  "reports_inv K d \<longleftrightarrow>
     distinct (map (\<lambda>r. (rep_revisionId r, rep_fingerprint r, rep_day r)) (adReport d)) \<and>
     (\<forall>i reason. total_of (adReportAggregate d) i reason =
        count_where (\<lambda>r. rep_revisionId r = i \<and> rep_reason r = reason) (adReport d) + K i reason)"

lemma total_of_bump:
  "total_of (bump_total j why T) i reason = total_of T i reason + (if i = j \<and> reason = why then 1 else 0)"
proof -
  have upd: "total_of (update_where (\<lambda>t. tot_revisionId t = j \<and> tot_reason t = why) (tot_total_update Suc) T) i reason =
      total_of T i reason + (if (i = j \<and> reason = why) \<and> (\<exists>t\<in>set T. tot_revisionId t = j \<and> tot_reason t = why) then 1 else 0)"
    by (induction T) (auto simp: total_of_def update_where_def)
  have app: "List.find P (xs @ [x]) = (case List.find P xs of None \<Rightarrow> if P x then Some x else None | Some y \<Rightarrow> Some y)"
    for P :: "report_total \<Rightarrow> bool" and xs x
    by (induction xs) auto
  show ?thesis
  proof (cases "\<exists>t\<in>set T. tot_revisionId t = j \<and> tot_reason t = why")
    case True
    then show ?thesis by (simp add: bump_total_def upd)
  next
    case False
    then have "List.find (\<lambda>t. tot_revisionId t = j \<and> tot_reason t = why) T = None" by (auto simp: find_None_iff)
    with False show ?thesis by (auto simp: bump_total_def total_of_def app split: option.split)
  qed
qed

lemma count_where_append: "count_where P (xs @ [x]) = count_where P xs + (if P x then 1 else 0)"
  by (simp add: count_where_def)

lemma reports_inv_insert:
  assumes "reports_inv K d" and "\<not> (\<exists>x\<in>set (adReport d). same_report x r)"
  shows "reports_inv K (adReportAggregate_update (bump_total (rep_revisionId r) (rep_reason r))
    (adReport_update (\<lambda>rows. rows @ [r]) d))"
  using assms by (auto simp: reports_inv_def total_of_bump count_where_append same_report_def)

lemma reports_inv_resolved:
  assumes "reports_inv K d"
    and "\<And>r. rep_revisionId (f r) = rep_revisionId r \<and> rep_fingerprint (f r) = rep_fingerprint r \<and>
      rep_day (f r) = rep_day r \<and> rep_reason (f r) = rep_reason r"
  shows "reports_inv K (adReport_update (update_where P f) d)"
proof -
  have "count_where (\<lambda>r. rep_revisionId r = i \<and> rep_reason r = reason) (update_where P f rows) =
      count_where (\<lambda>r. rep_revisionId r = i \<and> rep_reason r = reason) rows" for i reason rows
    by (simp add: count_where_def filter_update_where assms(2))
  moreover have "map (\<lambda>r. (rep_revisionId r, rep_fingerprint r, rep_day r)) (update_where P f rows) =
      map (\<lambda>r. (rep_revisionId r, rep_fingerprint r, rep_day r)) rows" for rows
    by (rule map_update_where) (simp add: assms(2))
  ultimately show ?thesis using assms(1) by (simp add: reports_inv_def)
qed

lemma keeps_reports_untouched:
  "keeps (reports_inv K) (update_revisions P f)" "keeps (reports_inv K) (update_campaigns P' g)"
  "keeps (reports_inv K) (audit a i act)" "keeps (reports_inv K) (insert_revision e n)" "keeps (reports_inv K) (insert_campaign c)"
  unfolding update_revisions_def update_campaigns_def audit_def insert_revision_def insert_campaign_def
  by (intro keeps_rules keeps_mod; simp add: reports_inv_def)+

lemma keeps_reports_resolved:
  "keeps (reports_inv K) (update_reports P (\<lambda>r. r\<lparr>rep_status := st, rep_resolvedByAddress := a,
     rep_resolutionNote := n, rep_resolvedAt := t\<rparr>))"
  unfolding update_reports_def by (intro keeps_rules keeps_mod reports_inv_resolved) simp_all

lemma keeps_reports_filed: "keeps (reports_inv K) (report_ad deps i reason comment ip)"
proof -
  have filed: "keeps (reports_inv K) (bindp (db_get adReport) (\<lambda>rows.
      if \<exists>x\<in>set rows. same_report x row then ret ()
      else thenp (db_mod (adReport_update (\<lambda>rows. rows @ [row])))
        (db_mod (adReportAggregate_update (bump_total j why)))))"
    if "j = rep_revisionId row" "why = rep_reason row" for row j why
    unfolding that by (rule keepsI) (auto simp: prog_defs reports_inv_insert)
  show ?thesis
    unfolding report_ad_def Let_def by (intro keeps_rules filed) simp_all
qed

lemma keeps_reports_steps:
  "keeps (reports_inv K) (activate k x y)" "keeps (reports_inv K) (supersede_active i)"
  "keeps (reports_inv K) (suspend_revision r a n t)" "keeps (reports_inv K) (deactivate_if_active r c)"
  "keeps (reports_inv K) (set_status r old new a n t)"
  unfolding activate_def supersede_active_def suspend_revision_def deactivate_if_active_def set_status_def
    guarded_def assertModerationStateUnchanged_def
  by (intro keeps_rules keeps_reports_untouched)+

lemma keeps_reports_moderation: "keeps (reports_inv K) (moderation_step act r c a n t)"
  unfolding moderation_step_def
  by (cases act) (auto intro!: keeps_rules keeps_reports_steps split: option.split)

lemmas keeps_reports = keeps_rules keeps_clear keeps_found keeps_reports_untouched keeps_reports_steps
  keeps_reports_moderation keeps_reports_filed keeps_reports_resolved

lemma serve_keeps_reports: "keeps (reports_inv K) (serve u parse deps r)"
  by (cases r) (auto simp: serve_def createCampaign_def createRevision_def updateCampaign_def moderateRevision_def
      resolveReports_def intro!: keeps_reports)

subsection \<open>What a decision does\<close>

definition decided :: "string \<Rightarrow> creative_status \<Rightarrow> principal \<Rightarrow> string \<Rightarrow> market_db \<Rightarrow> bool" where
  "decided i st a n d \<longleftrightarrow> (\<exists>r\<in>set (adCreativeRevision d). rev_id r = i \<and> rev_status r = st \<and>
     rev_moderatedByAddress r = Some (pr_address a) \<and> rev_moderationNote r = note_value n)"

definition decision :: "moderation_action \<Rightarrow> creative_status" where
  "decision act = (case act of APPROVE \<Rightarrow> APPROVED | REJECT \<Rightarrow> REJECTED | SUSPEND \<Rightarrow> SUSPENDED | RESTORE \<Rightarrow> APPROVED)"

lemma triple_guarded_hit:
  "triple (\<lambda>_. True) (guarded (update_revisions P f))
    (\<lambda>_ d. \<exists>r. P r \<and> f r \<in> set (adCreativeRevision d)) (\<lambda>_. True)"
proof (rule tripleI)
  fix s s' :: "(market_db, 'a, 'b) machine" and x
  assume "guarded (update_revisions P f) s = (Inr x, s')"
  then have n: "count_where P (adCreativeRevision (db s)) = 1"
    and d: "adCreativeRevision (db s') = update_where P f (adCreativeRevision (db s))"
    by (auto simp: guarded_def update_revisions_def assertModerationStateUnchanged_def prog_defs split: if_splits)
  from n obtain r where "r \<in> set (adCreativeRevision (db s))" "P r"
    unfolding count_where_def by (metis filter_False length_0_conv zero_neq_one)
  then show "\<exists>r. P r \<and> f r \<in> set (adCreativeRevision (db s'))" unfolding d set_update_where by blast
qed simp

lemma triple_decided:
  assumes "\<And>r. P r \<Longrightarrow> rev_id r = i"
  shows "triple (\<lambda>_. True) (guarded (update_revisions P (moderated st a n t))) (\<lambda>_. decided i st a n) (\<lambda>_. True)"
proof (rule triple_conseq [OF triple_guarded_hit])
  fix d :: market_db assume "\<exists>r. P r \<and> moderated st a n t r \<in> set (adCreativeRevision d)"
  then obtain r where "P r" "moderated st a n t r \<in> set (adCreativeRevision d)" by blast
  then show "decided i st a n d"
    unfolding decided_def by (intro bexI [of _ "moderated st a n t r"]) (simp_all add: assms, simp_all add: moderated_def)
qed

lemma keeps_decided: "triple (decided i st a n) (activate k x y) (\<lambda>_. decided i st a n) (\<lambda>_. True)"
  "triple (decided i st a n) (audit b j act) (\<lambda>_. decided i st a n) (\<lambda>_. True)"
  "triple (decided i st a n) (deactivate_if_active r c) (\<lambda>_. decided i st a n) (\<lambda>_. True)"
proof -
  have "keeps (decided i st a n) (activate k x y)" for k x y
    unfolding activate_def guarded_def update_campaigns_def assertModerationStateUnchanged_def
    by (intro keeps_rules keeps_mod) (simp add: decided_def)
  moreover from this have "keeps (decided i st a n) (deactivate_if_active r c)"
    unfolding deactivate_if_active_def by (intro keeps_rules)
  moreover have "keeps (decided i st a n) (audit b j act)"
    unfolding audit_def by (intro keeps_rules keeps_mod) (simp add: decided_def)
  ultimately show "triple (decided i st a n) (activate k x y) (\<lambda>_. decided i st a n) (\<lambda>_. True)"
    "triple (decided i st a n) (audit b j act) (\<lambda>_. decided i st a n) (\<lambda>_. True)"
    "triple (decided i st a n) (deactivate_if_active r c) (\<lambda>_. decided i st a n) (\<lambda>_. True)"
    by (blast intro: keeps_here)+
qed

lemma triple_any: "triple P m (\<lambda>_ _. True) (\<lambda>_. True)"
  by (rule tripleI) auto

lemma step_decides:
  assumes "rev_id r = i"
  shows "triple (\<lambda>_. True) (moderation_step act r c a n t) (\<lambda>_. decided i (decision act) a n) (\<lambda>_. True)"
proof -
  have set: "triple (\<lambda>_. True) (set_status r old new a n t) (\<lambda>_. decided i new a n) (\<lambda>_. True)" for old new
    unfolding set_status_def by (rule triple_decided) (use assms in simp)
  have suspend: "triple (\<lambda>_. True) (suspend_revision r a n t) (\<lambda>_. decided i SUSPENDED a n) (\<lambda>_. True)"
    unfolding suspend_revision_def by (rule triple_decided) (use assms in simp)
  show ?thesis
    unfolding moderation_step_def decision_def
    by (cases act, simp_all only: moderation_action.case)
      (intro triple_if triple_throw triple_then [OF triple_any] triple_then [OF set] triple_then [OF suspend]
        keeps_decided set TrueI)+
qed

text \<open>
  C19: An accepted decision of a moderator takes effect: the revision has the decided status and the
  moderator's note and address, it is the active revision of its campaign exactly when it was
  approved or restored, and the cached ads are dropped.
\<close>

theorem moderation_takes_effect:
  assumes "moderation_inv (db s)" and "moderateRevision deps i act n a s = (Inr (), s')"
  shows "\<exists>r\<in>set (adCreativeRevision (db s')). \<exists>c\<in>set (adCampaign (db s')). rev_id r = i \<and>
    camp_id c = rev_campaignId r \<and> rev_status r = decision act \<and>
    rev_moderatedByAddress r = Some (pr_address a) \<and> rev_moderationNote r = note_value n \<and>
    (camp_activeRevisionId c = Some i \<longleftrightarrow> act = APPROVE \<or> act = RESTORE) \<and> mem s' = []"
proof -
  have inv: "moderation_inv (db s')"
    using triple_Inr [OF keeps_moderateRevision assms] .
  have found: "triple (\<lambda>_. True) (revision_with_campaign i) (\<lambda>x d. rev_id (fst x) = i \<and> True) (\<lambda>_. True)"
    by (rule tripleI) (auto simp: revision_with_campaign_def prog_defs dest!: find_revision_Some split: option.splits)
  have "triple (\<lambda>_. True) (transactional (bindp (revision_with_campaign i) (\<lambda>(revision, campaign).
        bindp (extern (now deps)) (\<lambda>at. thenp (moderation_step act revision campaign a n at)
          (audit a i (moderation_audit act)))))) (\<lambda>_. decided i (decision act) a n) (\<lambda>_. True)"
    by (rule triple_transactional, rule triple_bind_val [OF found], rule triple_prod,
        rule triple_bind [OF triple_any], rule triple_then [OF step_decides], simp, rule keeps_decided(2)) simp
  then have "triple (\<lambda>_. True) (moderateRevision deps i act n a) (\<lambda>_. decided i (decision act) a n) (\<lambda>_. True)"
    unfolding moderateRevision_def
    by (rule triple_then) (simp add: clearResolverCache_def triple_mem_mod)
  then have "decided i (decision act) a n (db s')"
    using assms(2) triple_Inr by fastforce
  then obtain r where r: "r \<in> set (adCreativeRevision (db s'))" "rev_id r = i" "rev_status r = decision act"
    "rev_moderatedByAddress r = Some (pr_address a)" "rev_moderationNote r = note_value n"
    by (auto simp: decided_def)
  obtain c where c: "c \<in> set (adCampaign (db s'))" "camp_id c = rev_campaignId r"
    using inv r(1) unfolding moderation_inv_def campaigns_ok_def by blast
  have "camp_activeRevisionId c = Some i \<longleftrightarrow> decision act = APPROVED"
    using campaigns_ok_approved [OF inv [unfolded moderation_inv_def] c(1) r(1)] c(2) r(2,3) by simp
  moreover have "decision act = APPROVED \<longleftrightarrow> act = APPROVE \<or> act = RESTORE"
    by (cases act) (simp_all add: decision_def)
  moreover have "mem s' = []"
    using assms(2) by (auto simp: moderateRevision_def thenp_def bindp_def clearResolverCache_def mem_mod_def
        split: prod.splits sum.splits)
  ultimately show ?thesis using r c by blast
qed

subsection \<open>A sample market\<close>

definition sample_deps :: "nat api_deps" where
  "sample_deps = \<lparr>now = (\<lambda>w. (Inr 7, w)), uuid = (\<lambda>w. (Inr (replicate w (CHR ''u'')), Suc w)),
     reporter = (\<lambda>day ip. ip)\<rparr>"

definition sample_creative :: creative where
  "sample_creative = \<lparr>cr_headline = ''h'', cr_description = ''d'', cr_destinationUrl = ''u'', cr_displayDomain = ''n''\<rparr>"

definition sample_market :: market_db where
  "sample_market = \<lparr>ledger = empty_db,
     adCampaign = [\<lparr>camp_id = ''k'', camp_userId = ''u'', camp_userAddress = ''a'', camp_canonicalKeyword = [97],
       camp_activeRevisionId = None, camp_pausedAt = None\<rparr>],
     adCreativeRevision = [new_revision ''r'' ''k'' 1 sample_creative True 0,
       (new_revision ''q'' ''k'' 2 sample_creative False 0)\<lparr>rev_status := REJECTED\<rparr>],
     adReport = [], adReportAggregate = [], auditEvent = [], adBillingClickWindow = [], adBillingClickTotals = [],
     requireReviewSetting = None, projectConfigured = True\<rparr>"

definition sample_api :: "(market_db, resolver_cache, nat) machine" where
  "sample_api = \<lparr>db = sample_market, mem = [], world = 3\<rparr>"

definition sample_moderator :: principal where
  "sample_moderator = \<lparr>pr_userId = ''m'', pr_address = ''b''\<rparr>"

definition sample_requests :: "market_request list" where
  "sample_requests = [Moderate ''r'' APPROVE ''ok'' sample_moderator, Report ''r'' ''scam'' [] ''1'',
     Report ''r'' ''scam'' [] ''1'', Resolve ''r'' SUSPEND_AD [] sample_moderator]"

lemma sample_inv: "moderation_inv (db sample_api)" "reports_inv (\<lambda>_ _. 0) (db sample_api)"
  by (simp_all add: sample_api_def sample_market_def moderation_inv_def campaigns_ok_def consistent_def new_revision_def
      reports_inv_def total_of_def count_where_def)

lemma requests_keep_moderation_inv_witness:
  "moderation_inv (db (serve_all ascii (\<lambda>_. None) sample_deps sample_requests sample_api))"
  by (rule requests_keep_moderation_inv [OF sample_inv(1)])

lemma rejected_is_final_witness:
  "\<exists>q\<in>set (adCreativeRevision (db (serve_all ascii (\<lambda>_. None) sample_deps sample_requests sample_api))).
     rev_id q = ''q'' \<and> rev_status q = REJECTED"
  using rejected_is_final [of "(new_revision ''q'' ''k'' 2 sample_creative False 0)\<lparr>rev_status := REJECTED\<rparr>" sample_api
      ascii "\<lambda>_. None" sample_deps sample_requests]
  by (simp add: sample_api_def sample_market_def)

lemma refused_request_changes_nothing_witness:
  "serve ascii (\<lambda>_. None) sample_deps (Moderate ''q'' APPROVE [] sample_moderator) sample_api = (Inl Conflict, sample_api) \<and>
   db sample_api = sample_market"
proof -
  let ?run = "serve ascii (\<lambda>_. None) sample_deps (Moderate ''q'' APPROVE [] sample_moderator) sample_api"
  have "?run = (Inl Conflict, sample_api)"
    by (simp add: serve_def moderateRevision_def revision_with_campaign_def find_revision_def find_campaign_def
        moderation_step_def sample_api_def sample_market_def new_revision_def sample_deps_def prog_defs)
  moreover from refused_request_changes_nothing [OF sample_inv(1) this] have "db sample_api = db sample_api" .
  ultimately show ?thesis by (simp add: sample_api_def)
qed

lemma sample_approval:
  "fst (moderateRevision sample_deps ''r'' APPROVE ''ok'' sample_moderator sample_api) = Inr ()"
  by code_simp

lemma moderation_takes_effect_witness:
  "\<exists>r\<in>set (adCreativeRevision (db (snd (moderateRevision sample_deps ''r'' APPROVE ''ok'' sample_moderator sample_api)))).
     rev_id r = ''r'' \<and> rev_status r = APPROVED"
  using moderation_takes_effect [OF sample_inv(1), of sample_deps "''r''" APPROVE "''ok''" sample_moderator
      "snd (moderateRevision sample_deps ''r'' APPROVE ''ok'' sample_moderator sample_api)"] sample_approval
  by (auto simp: prod_eq_iff decision_def)

lemma revisions_follow_the_machine_witness:
  "\<exists>f N. adCreativeRevision (db (serve_all ascii (\<lambda>_. None) sample_deps sample_requests sample_api)) =
      map f (adCreativeRevision sample_market) @ N \<and>
    same_content (new_revision ''r'' ''k'' 1 sample_creative True 0) (f (new_revision ''r'' ''k'' 1 sample_creative True 0))"
  using revisions_follow_the_machine [of ascii "\<lambda>_. None" sample_deps sample_requests sample_api]
  by (auto simp: sample_api_def sample_market_def)

end
