(* ===== verification/Chain_Adapter.thy ===== *)
theory Chain_Adapter
  imports Market
begin

section \<open>The API's view of the contract\<close>

text \<open>
  \<^verbatim>\<open>apps/api/src/ads/ads-chain.adapter.ts\<close>: the status of the market, a wallet's projected position,
  the position a click is billed at, and the transactions a wallet is asked to sign. The RPC node is
  a record of external calls; a read pinned at a block names that block.
\<close>

type_synonym ('w, 'a) api_call = "'w \<Rightarrow> (api_error + 'a) \<times> 'w"

record stake_details =
  sd_amount :: int
  sd_bidUsd :: int
  sd_withdrawAvailableAt :: int
  sd_positionVersion :: int

text \<open>
  The arguments of a pinned read are the contract (or token) address, for a position the keyword id
  and the wallet, for an allowance the owner and the spender, and the block. \<open>rpc_deadline\<close> fails
  when the two seconds of the billing race are over. \<open>rpc_getAddress\<close> is viem's checksum, which
  throws on a malformed address; \<open>rpc_keccak\<close> and \<open>rpc_formatUnits\<close> are viem's functions.
\<close>

record 'w adapter_deps =
  rpc_clock :: "('w, int) api_call"
  rpc_chainId :: "('w, int) api_call"
  rpc_block :: "('w, int \<times> string) api_call"
  rpc_deadline :: "('w, unit) api_call"
  rpc_stakeDetails :: "string \<Rightarrow> string \<Rightarrow> string \<Rightarrow> int \<Rightarrow> ('w, stake_details) api_call"
  rpc_price :: "string \<Rightarrow> int \<Rightarrow> ('w, int) api_call"
  rpc_quotedAt :: "string \<Rightarrow> int \<Rightarrow> ('w, int) api_call"
  rpc_minimumStake :: "string \<Rightarrow> int \<Rightarrow> ('w, int) api_call"
  rpc_paused :: "string \<Rightarrow> int \<Rightarrow> ('w, bool) api_call"
  rpc_allowance :: "string \<Rightarrow> string \<Rightarrow> string \<Rightarrow> int \<Rightarrow> ('w, int) api_call"
  rpc_getAddress :: "string \<Rightarrow> string option"
  rpc_keccak :: "utext \<Rightarrow> string"
  rpc_unicode :: unicode
  rpc_formatUnits :: "int \<Rightarrow> string"
  rpc_config :: ads_config

definition or_throw :: "'e \<Rightarrow> 'a option \<Rightarrow> ('d, 'm, 'w, 'e, 'a) prog" where
  "or_throw e x = (case x of None \<Rightarrow> throw e | Some y \<Rightarrow> ret y)"

definition reject :: "bool \<Rightarrow> api_error \<Rightarrow> ('m, 'w, unit) market_prog" where
  "reject c e = (if c then throw e else ret ())"

lemma or_throw_returns [returns]: "or_throw e x s = (Inr y, s') \<longleftrightarrow> x = Some y \<and> s' = s"
  by (cases x) (auto simp: or_throw_def throw_def ret_def)

lemma reject_returns [returns]: "reject c e s = (Inr y, s') \<longleftrightarrow> \<not> c \<and> s' = s"
  by (auto simp: reject_def throw_def ret_def)

definition checksum :: "'w adapter_deps \<Rightarrow> string \<Rightarrow> ('m, 'w, string) market_prog" where
  "checksum deps a = or_throw Other (rpc_getAddress deps a)"

definition keyword_id :: "'w adapter_deps \<Rightarrow> utext \<Rightarrow> ('m, 'w, string) market_prog" where
  "keyword_id deps keyword = (case adKeywordId (rpc_unicode deps) (rpc_keccak deps) keyword of
     Inl _ \<Rightarrow> throw Other | Inr i \<Rightarrow> ret i)"

definition MAX_UINT256 :: int where "MAX_UINT256 = 2 ^ 256 - 1"

subsection \<open>The status of the market\<close>

datatype chain_status = AWAITING | SYNCING | SYNCED

text \<open>Fresh by the two readings of the clock, and the configuration read at the checkpoint's block.\<close>

definition synchronized :: "int \<Rightarrow> int \<Rightarrow> indexer_state option \<Rightarrow> bool" where
  "synchronized now now' state \<longleftrightarrow> (case state of None \<Rightarrow> False | Some s \<Rightarrow>
     now - ix_updatedAt s \<ge> 0 \<and> now' - ix_updatedAt s \<le> 60000 \<and>
     ix_configBlockNumber s = Some (ix_lastBlockNumber s) \<and> ix_minimumStakeRaw s \<noteq> None \<and>
     ix_paused s \<noteq> None \<and> ix_operatorAddress s \<noteq> None)"

definition synchronizedState :: "'w adapter_deps \<Rightarrow> indexer_state option \<Rightarrow> ('m, 'w, bool) market_prog" where
  "synchronizedState deps state = bindp (extern (rpc_clock deps)) (\<lambda>now.
     bindp (extern (rpc_clock deps)) (\<lambda>now'. ret (synchronized now now' state)))"

record chain_snapshot =
  snap_status :: chain_status
  snap_chainId :: int
  snap_contractAddress :: "string option"
  snap_deploymentBlock :: "int option"
  snap_transactionsEnabled :: bool
  snap_indexedThroughBlock :: "int option"
  snap_minimumStakeRaw :: "string option"
  snap_preTokenAddress :: string
  snap_paused :: "bool option"

definition chain_snapshot :: "'w adapter_deps \<Rightarrow> ('m, 'w, chain_snapshot) market_prog" where
  "chain_snapshot deps = (let cfg = rpc_config deps in
     bindp (checksum deps (cfg_preAddress cfg)) (\<lambda>preTokenAddress.
     case (cfg_address cfg, cfg_deploymentBlock cfg) of
       (Some a, Some deploymentBlock) \<Rightarrow>
         bindp (checksum deps a) (\<lambda>address. let contractAddress = to_lower address in
         bindp (db_get (\<lambda>d. find_state (show_int (cfg_chainId cfg) @ '':'' @ contractAddress) (ledger d))) (\<lambda>state.
         bindp (synchronizedState deps state) (\<lambda>synced.
         ret \<lparr>snap_status = (if synced then SYNCED else SYNCING), snap_chainId = cfg_chainId cfg,
           snap_contractAddress = Some contractAddress, snap_deploymentBlock = Some deploymentBlock,
           snap_transactionsEnabled = (synced \<and> (case state of None \<Rightarrow> False | Some s \<Rightarrow> ix_paused s = Some False)),
           snap_indexedThroughBlock = map_option ix_lastBlockNumber state,
           snap_minimumStakeRaw = (case state of None \<Rightarrow> None | Some s \<Rightarrow> ix_minimumStakeRaw s),
           snap_preTokenAddress = preTokenAddress,
           snap_paused = (case state of None \<Rightarrow> None | Some s \<Rightarrow> ix_paused s)\<rparr>)))
     | _ \<Rightarrow> ret \<lparr>snap_status = AWAITING, snap_chainId = cfg_chainId cfg, snap_contractAddress = None,
         snap_deploymentBlock = None, snap_transactionsEnabled = False, snap_indexedThroughBlock = None,
         snap_minimumStakeRaw = None, snap_preTokenAddress = preTokenAddress, snap_paused = None\<rparr>))"

definition chain_position ::
  "'w adapter_deps \<Rightarrow> utext \<Rightarrow> string \<Rightarrow> ('m, 'w, stake_position option) market_prog" where
  "chain_position deps canonicalKeyword stakerAddress = (case cfg_address (rpc_config deps) of
     None \<Rightarrow> ret None
   | Some a \<Rightarrow>
       bindp (checksum deps a) (\<lambda>contract.
       bindp (keyword_id deps canonicalKeyword) (\<lambda>keywordId.
       bindp (checksum deps stakerAddress) (\<lambda>staker.
       db_get (\<lambda>d. find_position (cfg_chainId (rpc_config deps), to_lower contract, keywordId, to_lower staker)
         (ledger d))))))"

subsection \<open>The position a click is billed at\<close>

datatype position_source = RPC | PROJECTION

record position_evidence =
  ev_source :: position_source
  ev_blockNumber :: int
  ev_blockHash :: string
  ev_preUsdPriceE18 :: string
  ev_preUsdPriceQuotedAt :: int

datatype billing_position = Unavailable_position error_code | Found_position int position_evidence

definition billingPositionResult ::
  "string \<Rightarrow> int \<times> int \<times> int \<Rightarrow> position_evidence \<Rightarrow> billing_position option" where
  "billingPositionResult queryVersion position evidence = (case position of (amount, bidUsd, positionVersion) \<Rightarrow>
     (case js_bigint queryVersion of
       None \<Rightarrow> None
     | Some v \<Rightarrow> Some (
         if positionVersion \<noteq> v then Unavailable_position POSITION_VERSION_MISMATCH
         else if amount \<le> 0 \<or> bidUsd \<le> 0 then Unavailable_position POSITION_MISSING
         else Found_position bidUsd evidence)))"

text \<open>The live read, and the deadline it races against.\<close>

definition billing_live :: "'w adapter_deps \<Rightarrow> delivery_claim \<Rightarrow> ('m, 'w, billing_position) market_prog" where
  "billing_live deps q =
     bindp (extern (rpc_chainId deps)) (\<lambda>chainId.
     bindp (extern (rpc_block deps)) (\<lambda>(number, hash).
     if chainId \<noteq> dl_chainId q then ret (Unavailable_position CHAIN_MISMATCH)
     else bindp (checksum deps (dl_contractAddress q)) (\<lambda>contract.
       bindp (checksum deps (dl_stakerAddress q)) (\<lambda>staker.
       bindp (extern (rpc_stakeDetails deps contract (dl_keywordId q) staker number)) (\<lambda>sd.
       bindp (or_throw Other (billingPositionResult (dl_positionVersion q)
           (sd_amount sd, sd_bidUsd sd, sd_positionVersion sd)
           \<lparr>ev_source = RPC, ev_blockNumber = number, ev_blockHash = hash,
            ev_preUsdPriceE18 = ''0'', ev_preUsdPriceQuotedAt = 0\<rparr>)) (\<lambda>position. case position of
         Unavailable_position e \<Rightarrow> ret (Unavailable_position e)
       | Found_position bidUsd evidence \<Rightarrow>
           bindp (extern (rpc_price deps contract number)) (\<lambda>price.
           bindp (extern (rpc_quotedAt deps contract number)) (\<lambda>quotedAt.
           ret (Found_position bidUsd (evidence\<lparr>ev_preUsdPriceE18 := show_int price,
             ev_preUsdPriceQuotedAt := quotedAt\<rparr>))))))))))"

definition billing_projected :: "'w adapter_deps \<Rightarrow> delivery_claim \<Rightarrow> ('m, 'w, billing_position) market_prog" where
  "billing_projected deps q = transactional
     (bindp (db_get (\<lambda>d. find_state (show_int (dl_chainId q) @ '':'' @ dl_contractAddress q) (ledger d))) (\<lambda>state.
      bindp (if state = None then ret False else synchronizedState deps state) (\<lambda>synced.
      case state of
        None \<Rightarrow> ret (Unavailable_position CAPTURE_FAILED)
      | Some s \<Rightarrow>
          if \<not> synced then ret (Unavailable_position CAPTURE_FAILED)
          else bindp (db_get (\<lambda>d. find_position (dl_chainId q, dl_contractAddress q, dl_keywordId q,
              dl_stakerAddress q) (ledger d))) (\<lambda>position. case position of
            None \<Rightarrow> ret (Unavailable_position POSITION_MISSING)
          | Some p \<Rightarrow>
              bindp (or_throw Other (js_bigint (sp_stakeRaw p))) (\<lambda>amount.
              bindp (or_throw Other (js_bigint (sp_bidUsdRaw p))) (\<lambda>bidUsd.
              or_throw Other (billingPositionResult (dl_positionVersion q) (amount, bidUsd, sp_positionVersion p)
                \<lparr>ev_source = PROJECTION, ev_blockNumber = ix_lastBlockNumber s, ev_blockHash = ix_lastBlockHash s,
                 ev_preUsdPriceE18 = (case ix_preUsdPriceE18Raw s of None \<Rightarrow> ''0'' | Some t \<Rightarrow> t),
                 ev_preUsdPriceQuotedAt = (case ix_preUsdPriceQuotedAt s of None \<Rightarrow> 0 | Some t \<Rightarrow> t)\<rparr>)))))))"

definition billingPosition :: "'w adapter_deps \<Rightarrow> delivery_claim \<Rightarrow> ('m, 'w, billing_position) market_prog" where
  "billingPosition deps q = (let cfg = rpc_config deps in
     if dl_chainId q \<noteq> cfg_chainId cfg then ret (Unavailable_position CONTRACT_MISMATCH)
     else (case cfg_address cfg of
       None \<Rightarrow> ret (Unavailable_position CONTRACT_MISMATCH)
     | Some a \<Rightarrow> bindp (checksum deps a) (\<lambda>address.
         if dl_contractAddress q \<noteq> to_lower address then ret (Unavailable_position CONTRACT_MISMATCH)
         else catchp
           (bindp (billing_live deps q) (\<lambda>r. thenp (extern (rpc_deadline deps)) (ret r)))
           (\<lambda>_. billing_projected deps q))))"

subsection \<open>The transactions a wallet signs\<close>

datatype stake_operation = STAKE | REQUEST_UNSTAKE | UNSTAKE

text \<open>\<^verbatim>\<open>encodeFunctionData\<close> is third-party code: the call data is the function and its arguments.\<close>

datatype contract_call =
  Call_stake string int int | Call_requestUnstake string | Call_unstake string | Call_approve string int

record prepared_transaction =
  tx_chainId :: int
  tx_to :: string
  tx_data :: contract_call
  tx_valueRaw :: int

record ready_plan =
  plan_operation :: stake_operation
  plan_keywordId :: string
  plan_tokenAddress :: string
  plan_approval :: "prepared_transaction option"
  plan_transaction :: prepared_transaction
  plan_priceWarning :: "int option"

datatype stake_plan = Disabled_plan chain_status stake_operation | Ready_plan ready_plan

definition parseAdsStakeAmount :: "string option \<Rightarrow> string option" where
  "parseAdsStakeAmount v = (case v of None \<Rightarrow> None | Some t \<Rightarrow>
     if \<not> natural_decimal t \<or> the (js_bigint t) > MAX_UINT256 then None else Some t)"

definition parseAdsBidUsd :: "string option \<Rightarrow> string option" where
  "parseAdsBidUsd v = (case v of None \<Rightarrow> None | Some t \<Rightarrow>
     if \<not> positive_decimal t \<or> the (js_bigint t) > MAX_UINT256 then None else Some t)"

text \<open>\<^verbatim>\<open>text ? BigInt(text) : 0n\<close>; \<open>None\<close> where \<^verbatim>\<open>BigInt\<close> throws.\<close>

definition amount_or_zero :: "string option \<Rightarrow> int option" where
  "amount_or_zero v = (if truthy v then js_bigint (the v) else Some 0)"

definition buildAdsStakeTransactionPlan ::
  "stake_operation \<Rightarrow> int \<Rightarrow> string \<Rightarrow> string \<Rightarrow> string \<Rightarrow> string option \<Rightarrow> string option \<Rightarrow> bool \<Rightarrow> ready_plan option" where
  "buildAdsStakeTransactionPlan operation chainId contractAddress tokenAddress keywordId amountRaw bidUsdRaw
     approvalRequired = (case amount_or_zero amountRaw of
     None \<Rightarrow> None
   | Some amount \<Rightarrow> (case (case operation of
         STAKE \<Rightarrow> (case bidUsdRaw of None \<Rightarrow> None | Some b \<Rightarrow>
           (case js_bigint b of None \<Rightarrow> None | Some bid \<Rightarrow> Some (Call_stake keywordId amount bid)))
       | REQUEST_UNSTAKE \<Rightarrow> Some (Call_requestUnstake keywordId)
       | UNSTAKE \<Rightarrow> Some (Call_unstake keywordId)) of
       None \<Rightarrow> None
     | Some data \<Rightarrow> Some \<lparr>plan_operation = operation, plan_keywordId = keywordId,
         plan_tokenAddress = tokenAddress,
         plan_approval = (if amount > 0 \<and> approvalRequired
           then Some \<lparr>tx_chainId = chainId, tx_to = tokenAddress,
             tx_data = Call_approve contractAddress amount, tx_valueRaw = 0\<rparr> else None),
         plan_transaction = \<lparr>tx_chainId = chainId, tx_to = contractAddress, tx_data = data, tx_valueRaw = 0\<rparr>,
         plan_priceWarning = None\<rparr>))"

record stake_input =
  si_canonicalKeyword :: utext
  si_stakerAddress :: string
  si_amountRaw :: "string option"
  si_bidUsdRaw :: "string option"

text \<open>The checks of a stake; the result is the time of a stale price, for the warning.\<close>

definition check_stake ::
  "'w adapter_deps \<Rightarrow> string \<Rightarrow> int \<Rightarrow> stake_details \<Rightarrow> string \<Rightarrow> string \<Rightarrow> ('m, 'w, int option) market_prog" where
  "check_stake deps contract number sd amountRaw bidUsdRaw =
     (let active = sd_amount sd > 0 in
      bindp (extern (rpc_minimumStake deps contract number)) (\<lambda>minimumStake.
      bindp (extern (rpc_paused deps contract number)) (\<lambda>paused.
      bindp (extern (rpc_price deps contract number)) (\<lambda>price.
      bindp (extern (rpc_quotedAt deps contract number)) (\<lambda>quotedAt.
      thenp (reject paused Unavailable)
      (thenp (reject (active \<and> sd_withdrawAvailableAt sd \<noteq> 0) BadRequest)
      (thenp (reject (amountRaw = ''0'' \<and> \<not> active) BadRequest)
      (bindp (or_throw Other (js_bigint amountRaw)) (\<lambda>amount.
      thenp (reject (\<not> active \<and> amount < minimumStake) BadRequest)
      (thenp (reject (price \<le> 0 \<or> quotedAt \<le> 0) Unavailable)
      (bindp (extern (rpc_clock deps)) (\<lambda>now.
      thenp (reject (quotedAt > now div 1000 + 60) Unavailable)
      (case billPreRaw bidUsdRaw (rpc_formatUnits deps price) of
         Inl _ \<Rightarrow> throw Other
       | Inr text \<Rightarrow>
           bindp (or_throw Other (js_bigint text)) (\<lambda>required.
           bindp (extern (rpc_clock deps)) (\<lambda>now'.
           let stale = fst (preUsdPriceSnapshot (Some \<lparr>quote_id = [],
             quote_priceUsd = rpc_formatUnits deps price, quote_quotedAt = Some (quotedAt * 1000)\<rparr>) now') = STALE
           in thenp (reject (sd_amount sd + amount < required) BadRequest)
             (ret (if stale then Some (quotedAt * 1000) else None)))))))))))))))))"

definition check_unstake ::
  "'w adapter_deps \<Rightarrow> stake_operation \<Rightarrow> stake_details \<Rightarrow> ('m, 'w, unit) market_prog" where
  "check_unstake deps operation sd =
     (if \<not> sd_amount sd > 0 then throw BadRequest
      else if operation = REQUEST_UNSTAKE \<and> sd_withdrawAvailableAt sd \<noteq> 0 then throw BadRequest
      else if operation = UNSTAKE then
        thenp (reject (sd_withdrawAvailableAt sd = 0) BadRequest)
        (bindp (extern (rpc_clock deps)) (\<lambda>now.
          reject (sd_withdrawAvailableAt sd > now div 1000) BadRequest))
      else ret ())"

definition prepare_stake ::
  "'w adapter_deps \<Rightarrow> stake_operation \<Rightarrow> stake_input \<Rightarrow> ('m, 'w, stake_plan) market_prog" where
  "prepare_stake deps operation i =
     bindp (chain_snapshot deps) (\<lambda>snapshot. case snap_contractAddress snapshot of
       None \<Rightarrow> ret (Disabled_plan AWAITING operation)
     | Some a \<Rightarrow>
         if operation = STAKE \<and> snap_status snapshot \<noteq> SYNCED then ret (Disabled_plan SYNCING operation)
         else
           bindp (if operation = STAKE
             then bindp (or_throw BadRequest (parseAdsStakeAmount (si_amountRaw i))) (\<lambda>t. ret (Some t))
             else ret None) (\<lambda>amountRaw.
           bindp (if operation = STAKE
             then bindp (or_throw BadRequest (parseAdsBidUsd (si_bidUsdRaw i))) (\<lambda>t. ret (Some t))
             else ret None) (\<lambda>bidUsdRaw.
           bindp (checksum deps a) (\<lambda>contract.
           bindp (checksum deps (cfg_preAddress (rpc_config deps))) (\<lambda>token.
           bindp (keyword_id deps (si_canonicalKeyword i)) (\<lambda>keywordId.
           bindp (extern (rpc_block deps)) (\<lambda>(number, hash).
           bindp (checksum deps (si_stakerAddress i)) (\<lambda>staker.
           bindp (extern (rpc_stakeDetails deps contract keywordId staker number)) (\<lambda>sd.
           bindp (if operation = STAKE then check_stake deps contract number sd (the amountRaw) (the bidUsdRaw)
             else thenp (check_unstake deps operation sd) (ret None)) (\<lambda>warning.
           bindp (if operation = STAKE \<and> the (js_bigint (the amountRaw)) > 0
             then extern (rpc_allowance deps token staker contract number) else ret 0) (\<lambda>allowance.
           bindp (or_throw Other (buildAdsStakeTransactionPlan operation (snap_chainId snapshot) contract token
               keywordId amountRaw bidUsdRaw (operation = STAKE \<and> allowance < the (js_bigint (the amountRaw))))) (\<lambda>plan.
           ret (Ready_plan (plan\<lparr>plan_priceWarning := warning\<rparr>))))))))))))))"

end
