(* ===== verification/Delivery.thy ===== *)
theory Delivery
  imports Chain_Adapter
begin

section \<open>Delivery tokens\<close>

text \<open>
  \<^verbatim>\<open>apps/api/src/ads/ads-delivery.ts\<close> and \<^verbatim>\<open>apps/api/src/ads/ads-click-billing.ts\<close>: the signed token
  an ad's click link carries, and the fingerprint that limits billing to one click per client and
  campaign in five minutes. The coding of a JSON object as base64url text, the HMAC and the decoding of
  a signature are parameters of the model.
\<close>

subsection \<open>The token\<close>

record delivery =
  dv_version :: int
  dv_deliveryId :: string
  dv_issuedAt :: int
  dv_claim :: delivery_claim

text \<open>
  A parsed payload: a field is \<open>None\<close> when it is absent, not a text, or not a safe integer. A text
  outside the keyword is one of characters below 256.
\<close>

record raw_delivery =
  rd_version :: "int option"
  rd_deliveryId :: "string option"
  rd_issuedAt :: "int option"
  rd_revisionId :: "string option"
  rd_chainId :: "int option"
  rd_contractAddress :: "string option"
  rd_keywordId :: "string option"
  rd_keyword :: "utext option"
  rd_stakerAddress :: "string option"
  rd_positionVersion :: "string option"

text \<open>
  \<open>tk_encode\<close> is base64url of the JSON text and \<open>tk_parse\<close> reads it back (\<open>None\<close> where decoding or
  parsing throws or the value is not an object); \<open>tk_hmac\<close> is the digest under the secret, \<open>tk_text\<close>
  and \<open>tk_bytes\<close> its base64url text and back.
\<close>

record token_codec =
  tk_encode :: "delivery \<Rightarrow> string"
  tk_parse :: "string \<Rightarrow> raw_delivery option"
  tk_hmac :: "string \<Rightarrow> string"
  tk_text :: "string \<Rightarrow> string"
  tk_bytes :: "string \<Rightarrow> string"

definition AD_DELIVERY_TTL_MS :: int where "AD_DELIVERY_TTL_MS = 60 * 60000"
definition CLOCK_SKEW_MS :: int where "CLOCK_SKEW_MS = 60000"

definition signAdDelivery :: "token_codec \<Rightarrow> delivery_claim \<Rightarrow> string \<Rightarrow> int \<Rightarrow> string" where
  "signAdDelivery codec context deliveryId issuedAt =
     (let payload = tk_encode codec \<lparr>dv_version = 2, dv_deliveryId = deliveryId, dv_issuedAt = issuedAt,
        dv_claim = context\<rparr>
      in payload @ ''.'' @ tk_text codec (tk_hmac codec payload))"

text \<open>\<^verbatim>\<open>token.split('.')\<close>\<close>

fun split_dots :: "string \<Rightarrow> string list" where
  "split_dots [] = [[]]"
| "split_dots (c # cs) = (if c = CHR ''.'' then [] # split_dots cs
     else (case split_dots cs of p # ps \<Rightarrow> (c # p) # ps | [] \<Rightarrow> [[c]]))"

definition url64_char :: "char \<Rightarrow> bool" where
  "url64_char c = (let n = (of_char c :: nat) in (65 \<le> n \<and> n \<le> 90) \<or> (97 \<le> n \<and> n \<le> 122) \<or>
     (48 \<le> n \<and> n \<le> 57) \<or> n = 95 \<or> n = 45)"

definition lower_hex_char :: "char \<Rightarrow> bool" where
  "lower_hex_char c = (let n = (of_char c :: nat) in (48 \<le> n \<and> n \<le> 57) \<or> (97 \<le> n \<and> n \<le> 102))"

text \<open>\<^verbatim>\<open>/^0x[0-9a-f]{n}$/\<close>, and the pattern of an identifier, which ignores case.\<close>

definition lower_hex_text :: "nat \<Rightarrow> string \<Rightarrow> bool" where
  "lower_hex_text n t \<longleftrightarrow> length t = n + 2 \<and> take 2 t = ''0x'' \<and> list_all lower_hex_char (drop 2 t)"

definition uuid_text :: "string \<Rightarrow> bool" where
  "uuid_text t \<longleftrightarrow> length t = 36 \<and> (\<forall>i<36. if i \<in> {8, 13, 18, 23} then t ! i = CHR ''-'' else hex_char (t ! i))"

text \<open>\<^verbatim>\<open>/^[1-9]\d{0,77}$/\<close>, and below \<open>2 ^ 256\<close>.\<close>

definition version_text :: "string \<Rightarrow> bool" where
  "version_text t \<longleftrightarrow> positive_decimal t \<and> length t \<le> 78 \<and> the (js_bigint t) < 2 ^ 256"

definition keyword_matches :: "unicode \<Rightarrow> (utext \<Rightarrow> string) \<Rightarrow> utext \<Rightarrow> string \<Rightarrow> bool" where
  "keyword_matches u keccak keyword keywordId \<longleftrightarrow>
     normalizeAdKeyword u keyword = Inr keyword \<and> adKeywordId u keccak keyword = Inr keywordId"

definition checked_delivery ::
  "unicode \<Rightarrow> (utext \<Rightarrow> string) \<Rightarrow> int \<Rightarrow> string \<Rightarrow> raw_delivery \<Rightarrow> delivery option" where
  "checked_delivery u keccak now revisionId r =
     Option.bind (rd_version r) (\<lambda>version.
     Option.bind (rd_deliveryId r) (\<lambda>deliveryId.
     Option.bind (rd_issuedAt r) (\<lambda>issuedAt.
     Option.bind (rd_revisionId r) (\<lambda>revision.
     Option.bind (rd_chainId r) (\<lambda>chainId.
     Option.bind (rd_contractAddress r) (\<lambda>contract.
     Option.bind (rd_keywordId r) (\<lambda>keywordId.
     Option.bind (rd_keyword r) (\<lambda>keyword.
     Option.bind (rd_stakerAddress r) (\<lambda>staker.
     Option.bind (rd_positionVersion r) (\<lambda>positionVersion.
       if version \<noteq> 2 \<or> \<not> uuid_text deliveryId \<or> issuedAt \<le> 0 \<or> issuedAt > now + CLOCK_SKEW_MS \<or>
          now - issuedAt \<ge> AD_DELIVERY_TTL_MS \<or> \<not> uuid_text revision \<or> revision \<noteq> revisionId \<or> chainId \<le> 0 \<or>
          \<not> lower_hex_text 40 contract \<or> \<not> lower_hex_text 40 staker \<or> \<not> lower_hex_text 64 keywordId \<or>
          \<not> keyword_matches u keccak keyword keywordId \<or> \<not> version_text positionVersion
       then None
       else Some \<lparr>dv_version = version, dv_deliveryId = deliveryId, dv_issuedAt = issuedAt,
         dv_claim = \<lparr>dl_revisionId = revision, dl_chainId = chainId, dl_contractAddress = contract,
           dl_keywordId = keywordId, dl_keyword = keyword, dl_stakerAddress = staker,
           dl_positionVersion = positionVersion\<rparr>\<rparr>))))))))))"

definition readAdDelivery ::
  "token_codec \<Rightarrow> unicode \<Rightarrow> (utext \<Rightarrow> string) \<Rightarrow> int \<Rightarrow> string option \<Rightarrow> string \<Rightarrow> delivery option" where
  "readAdDelivery codec u keccak now token revisionId = (case token of
     None \<Rightarrow> None
   | Some t \<Rightarrow>
       if length t > 2048 then None
       else (case split_dots t of
         [payload, signature] \<Rightarrow>
           if payload = [] \<or> \<not> list_all url64_char payload \<or> length signature \<noteq> 43 \<or> \<not> list_all url64_char signature
           then None
           else if tk_bytes codec signature \<noteq> tk_hmac codec payload then None
           else (case tk_parse codec payload of None \<Rightarrow> None | Some r \<Rightarrow> checked_delivery u keccak now revisionId r)
       | _ \<Rightarrow> None))"

subsection \<open>The billing fingerprint\<close>

text \<open>
  \<open>ip_family\<close> is node's \<^verbatim>\<open>isIP\<close> and \<open>ip_canonical\<close> the host name the URL parser gives an IPv6 address,
  without its brackets; \<open>ip_hmac\<close> is the keyed digest of the scope.
\<close>

record ip_deps =
  ip_family :: "string \<Rightarrow> nat"
  ip_canonical :: "string \<Rightarrow> string"
  ip_hmac :: "int \<times> string \<times> string \<times> string \<Rightarrow> string"

text \<open>\<^verbatim>\<open>/^::ffff:([\da-f]+):([\da-f]+)$/\<close>: the two groups of an IPv4-mapped address.\<close>

definition mapped_groups :: "string \<Rightarrow> (string \<times> string) option" where
  "mapped_groups t =
     (if take 7 t \<noteq> ''::ffff:'' then None
      else let high = takeWhile (\<lambda>c. c \<noteq> CHR '':'') (drop 7 t);
               rest = dropWhile (\<lambda>c. c \<noteq> CHR '':'') (drop 7 t)
        in if high \<noteq> [] \<and> list_all lower_hex_char high \<and> rest \<noteq> [] \<and> tl rest \<noteq> [] \<and>
             list_all lower_hex_char (tl rest)
           then Some (high, tl rest) else None)"

definition dotted :: "int \<Rightarrow> int \<Rightarrow> string" where
  "dotted high low = show_int (high div 256) @ ''.'' @ show_int (high mod 256) @ ''.'' @
     show_int (low div 256) @ ''.'' @ show_int (low mod 256)"

definition hex_value :: "string \<Rightarrow> int" where
  "hex_value t = int (the (read_radix 16 0 t))"

definition canonicalClickIp :: "ip_deps \<Rightarrow> string option \<Rightarrow> string option" where
  "canonicalClickIp deps ip = (case ip of
     None \<Rightarrow> None
   | Some t \<Rightarrow>
       if t = [] then None
       else if ip_family deps t = 4 then Some t
       else if ip_family deps t \<noteq> 6 \<or> CHR ''%'' \<in> set t then None
       else (case mapped_groups (ip_canonical deps t) of
         None \<Rightarrow> Some (ip_canonical deps t)
       | Some (high, low) \<Rightarrow> Some (dotted (hex_value high) (hex_value low))))"

definition clickBillingFingerprint :: "ip_deps \<Rightarrow> delivery_claim \<Rightarrow> string \<Rightarrow> string option \<Rightarrow> string option" where
  "clickBillingFingerprint deps q campaignId ip = (case canonicalClickIp deps ip of
     None \<Rightarrow> None
   | Some canonicalIp \<Rightarrow> Some (ip_hmac deps (dl_chainId q, to_lower (dl_contractAddress q), campaignId, canonicalIp)))"

subsection \<open>The billing window\<close>

definition BILLING_WINDOW_MS :: int where "BILLING_WINDOW_MS = 5 * 60000"

text \<open>
  The \<^verbatim>\<open>INSERT ... ON CONFLICT DO UPDATE ... WHERE expiresAt <= CURRENT_TIMESTAMP RETURNING\<close> statement:
  whether a row came back, and the table after it.
\<close>

definition clickBillingWindowClaim ::
  "string \<Rightarrow> int \<Rightarrow> billing_window list \<Rightarrow> bool \<times> billing_window list" where
  "clickBillingWindowClaim fingerprint now rows =
     (case List.find (\<lambda>w. win_fingerprint w = fingerprint) rows of
       None \<Rightarrow> (True, rows @ [\<lparr>win_fingerprint = fingerprint, win_expiresAt = now + BILLING_WINDOW_MS\<rparr>])
     | Some w \<Rightarrow>
         if win_expiresAt w \<le> now
         then (True, update_where (\<lambda>w. win_fingerprint w = fingerprint)
           (win_expiresAt_update (\<lambda>_. now + BILLING_WINDOW_MS)) rows)
         else (False, rows))"

definition claimClickBillingWindow :: "string \<Rightarrow> int \<Rightarrow> ('m, 'w, bool) market_prog" where
  "claimClickBillingWindow fingerprint now =
     bindp (db_get (\<lambda>d. fst (clickBillingWindowClaim fingerprint now (adBillingClickWindow d)))) (\<lambda>claimed.
     thenp (db_mod (adBillingClickWindow_update (\<lambda>rows. snd (clickBillingWindowClaim fingerprint now rows))))
       (ret claimed))"

end
