(* ===== verification/Wallet.thy ===== *)
theory Wallet
  imports Ledger
begin

section \<open>The wallet reservation\<close>

text \<open>
  \<^verbatim>\<open>apps/worker/src/keyword-market-wallet.ts\<close>. The charge journal (\<^verbatim>\<open>AdChargeBatch\<close>) and the
  price journal (\<^verbatim>\<open>AdPricePublication\<close>) may sign with the same wallet; before either signs, it
  reads, under the wallet lock, whether another row of the wallet is in flight and the highest
  nonce either journal holds. The locale \<open>nonce_journal\<close> is the contract both workers use.
\<close>

definition batch_in_flight :: "batch_status \<Rightarrow> bool" where
  "batch_in_flight st \<longleftrightarrow> st \<in> {B_SIGNED, B_SUBMITTED, B_RECONCILING}"

definition pub_in_flight :: "publication_status \<Rightarrow> bool" where
  "pub_in_flight st \<longleftrightarrow> st \<in> {P_SIGNED, P_SUBMITTED, P_RECONCILING}"

definition batch_of_wallet :: "int \<Rightarrow> string \<Rightarrow> batch \<Rightarrow> bool" where
  "batch_of_wallet chainId signer b \<longleftrightarrow>
     batch_chainId b = chainId \<and> batch_signerAddress b = Some signer"

definition pub_of_wallet :: "int \<Rightarrow> string \<Rightarrow> publication \<Rightarrow> bool" where
  "pub_of_wallet chainId signer p \<longleftrightarrow>
     pub_chainId p = chainId \<and> pub_signerAddress p = Some signer"

text \<open>\<^verbatim>\<open>findFirst\<close> with \<^verbatim>\<open>nonce: not null\<close>, ordered by the nonce, highest first.\<close>

fun highest :: "int list \<Rightarrow> int option" where
  "highest [] = None"
| "highest (n # ns) = (case highest ns of None \<Rightarrow> Some n | Some m \<Rightarrow> Some (max n m))"

definition charge_nonces :: "ad_db \<Rightarrow> int \<times> string \<Rightarrow> int list" where
  "charge_nonces d w = List.map_filter batch_nonce
     (filter (batch_of_wallet (fst w) (snd w)) (adChargeBatch d))"

definition publication_nonces :: "ad_db \<Rightarrow> int \<times> string \<Rightarrow> int list" where
  "publication_nonces d w = List.map_filter pub_nonce
     (filter (pub_of_wallet (fst w) (snd w)) (adPricePublication d))"

record reservation =
  res_pending :: bool
  res_latestNonce :: "int option"

definition readKeywordMarketWalletReservation ::
  "int \<Rightarrow> string \<Rightarrow> string option \<Rightarrow> string option \<Rightarrow> ad_db \<Rightarrow> reservation" where
  "readKeywordMarketWalletReservation chainId signerAddress ownChargeId ownPublicationId d =
     (let signer = to_lower signerAddress;
          pendingCharge = \<exists>b\<in>set (adChargeBatch d). batch_of_wallet chainId signer b \<and>
            batch_in_flight (batch_status b) \<and>
            (truthy ownChargeId \<longrightarrow> Some (batch_id b) \<noteq> ownChargeId);
          pendingPublication = \<exists>p\<in>set (adPricePublication d). pub_of_wallet chainId signer p \<and>
            pub_in_flight (pub_status p) \<and>
            (truthy ownPublicationId \<longrightarrow> Some (pub_id p) \<noteq> ownPublicationId);
          chargeNonce = highest (charge_nonces d (chainId, signer));
          publicationNonce = highest (publication_nonces d (chainId, signer))
      in \<lparr>res_pending = pendingCharge \<or> pendingPublication,
          res_latestNonce = (case chargeNonce of
             None \<Rightarrow> publicationNonce
           | Some c \<Rightarrow> (case publicationNonce of
               None \<Rightarrow> chargeNonce
             | Some p \<Rightarrow> if c > p then chargeNonce else publicationNonce))\<rparr>)"

subsection \<open>The contract\<close>

text \<open>
  A journal records nonces per wallet and answers the highest one. A client that signs with a
  nonce above the answer never repeats a recorded nonce.
\<close>

locale nonce_journal =
  fixes nonces :: "'d \<Rightarrow> 'w \<Rightarrow> int list"
    and latest :: "'d \<Rightarrow> 'w \<Rightarrow> int option"
  assumes latest_upper: "n \<in> set (nonces d w) \<Longrightarrow> \<exists>m. latest d w = Some m \<and> n \<le> m"
    and latest_member: "latest d w = Some m \<Longrightarrow> m \<in> set (nonces d w)"
begin

definition acceptable :: "'d \<Rightarrow> 'w \<Rightarrow> int \<Rightarrow> bool" where
  "acceptable d w n \<longleftrightarrow> (case latest d w of None \<Rightarrow> True | Some m \<Rightarrow> \<not> n \<le> m)"

lemma acceptable_fresh: "acceptable d w n \<Longrightarrow> m \<in> set (nonces d w) \<Longrightarrow> m < n"
  using latest_upper [of m d w] by (auto simp: acceptable_def)

lemma acceptable_iff: "acceptable d w n \<longleftrightarrow> (\<forall>m\<in>set (nonces d w). m < n)"
  using latest_upper [of _ d w] latest_member [of d w]
  by (cases "latest d w") (force simp: acceptable_def)+

lemma latest_None_iff: "latest d w = None \<longleftrightarrow> nonces d w = []"
  using latest_upper [of "hd (nonces d w)" d w] latest_member [of d w]
  by (cases "nonces d w"; cases "latest d w") auto

end

definition wallet_nonces :: "ad_db \<Rightarrow> int \<times> string \<Rightarrow> int list" where
  "wallet_nonces d w = charge_nonces d w @ publication_nonces d w"

lemma highest_None [simp]: "highest ns = None \<longleftrightarrow> ns = []"
  by (cases ns) (auto split: option.splits)

lemma highest_Some: "highest ns = Some m \<Longrightarrow> m \<in> set ns \<and> (\<forall>n\<in>set ns. n \<le> m)"
  by (induction ns arbitrary: m) (fastforce split: option.splits simp: max_def)+

text \<open>The latest nonce depends on the wallet only, not on whose row is excluded.\<close>

definition merged_highest :: "int list \<Rightarrow> int list \<Rightarrow> int option" where
  "merged_highest cs ps = (case highest cs of None \<Rightarrow> highest ps
     | Some c \<Rightarrow> (case highest ps of None \<Rightarrow> highest cs
         | Some p \<Rightarrow> if c > p then highest cs else highest ps))"

lemma res_latestNonce_eq:
  "res_latestNonce (readKeywordMarketWalletReservation c a oc op d) =
     merged_highest (charge_nonces d (c, to_lower a)) (publication_nonces d (c, to_lower a))"
  by (simp add: readKeywordMarketWalletReservation_def merged_highest_def Let_def)

lemma merged_highest_upper:
  "n \<in> set (cs @ ps) \<Longrightarrow> \<exists>m. merged_highest cs ps = Some m \<and> n \<le> m"
  using highest_Some [of cs] highest_Some [of ps]
  by (cases "highest cs"; cases "highest ps") (fastforce simp: merged_highest_def)+

lemma merged_highest_member: "merged_highest cs ps = Some m \<Longrightarrow> m \<in> set (cs @ ps)"
  using highest_Some [of cs] highest_Some [of ps]
  by (auto simp: merged_highest_def split: option.splits if_splits)

text \<open>The reservation the code reads is a nonce journal over both tables.\<close>

definition reserved_latest :: "ad_db \<Rightarrow> int \<times> string \<Rightarrow> int option" where
  "reserved_latest d w = merged_highest (charge_nonces d w) (publication_nonces d w)"

interpretation wallet: nonce_journal wallet_nonces reserved_latest
proof
  show "\<exists>m. reserved_latest d w = Some m \<and> n \<le> m" if "n \<in> set (wallet_nonces d w)" for n d w
    using that unfolding wallet_nonces_def reserved_latest_def by (rule merged_highest_upper)
  show "m \<in> set (wallet_nonces d w)" if "reserved_latest d w = Some m" for m d w
    using that unfolding wallet_nonces_def reserved_latest_def by (rule merged_highest_member)
qed

lemma reservation_latest:
  "res_latestNonce (readKeywordMarketWalletReservation c a oc op d) = reserved_latest d (c, to_lower a)"
  by (simp add: res_latestNonce_eq reserved_latest_def)

subsection \<open>No nonce is used twice\<close>

text \<open>Over both journals, the nonces of a wallet are pairwise distinct; row ids are keys.\<close>

definition journals_inv :: "ad_db \<Rightarrow> bool" where
  "journals_inv d \<longleftrightarrow> (\<forall>w. distinct (wallet_nonces d w)) \<and>
     distinct (map batch_id (adChargeBatch d)) \<and> distinct (map pub_id (adPricePublication d))"

lemma map_filter_append: "List.map_filter f (xs @ ys) = List.map_filter f xs @ List.map_filter f ys"
  by (simp add: List.map_filter_def)

text \<open>
  Replacing the one row with a given key: the collected values are those of the other rows, with
  the new row's value in place.
\<close>

lemma update_where_key_split:
  assumes "distinct (map key rows)" and "r \<in> set rows" and "key r = i"
  obtains xs ys where "rows = xs @ r # ys"
    and "update_where (\<lambda>x. key x = i) f rows = xs @ f r # ys"
    and "\<forall>x\<in>set xs \<union> set ys. key x \<noteq> i"
proof -
  obtain xs ys where rows: "rows = xs @ r # ys"
    using assms(2) by (auto simp: in_set_conv_decomp)
  have others: "\<forall>x\<in>set xs \<union> set ys. key x \<noteq> i"
    using assms by (auto simp: rows image_iff)
  then have "update_where (\<lambda>x. key x = i) f xs = xs" "update_where (\<lambda>x. key x = i) f ys = ys"
    by (auto simp: update_where_def intro!: map_idI)
  with rows assms(3) others show ?thesis
    by (intro that [of xs ys]) (auto simp: update_where_def)
qed

lemma update_where_absent:
  "(\<And>r. r \<in> set rows \<Longrightarrow> \<not> P r) \<Longrightarrow> update_where P f rows = rows"
  by (simp add: update_where_def map_idI)

text \<open>Collecting with one row changed to a fresh value, or dropped, keeps distinctness.\<close>

lemma distinct_collect_update:
  assumes "distinct (List.map_filter g rows @ zs)" and "distinct (map key rows)"
    and "\<And>r v. r \<in> set rows \<Longrightarrow> key r = i \<Longrightarrow> g (f r) = Some v \<Longrightarrow>
          v \<notin> set (List.map_filter g rows @ zs) \<or> g r = Some v"
  shows "distinct (List.map_filter g (update_where (\<lambda>x. key x = i) f rows) @ zs)"
proof (cases "\<exists>r\<in>set rows. key r = i")
  case True
  then obtain r where r: "r \<in> set rows" "key r = i" by blast
  obtain xs ys where split: "rows = xs @ r # ys"
    "update_where (\<lambda>x. key x = i) f rows = xs @ f r # ys"
    using update_where_key_split [OF assms(2) r] by blast
  show ?thesis
    using assms(1) assms(3) [OF r] unfolding split(2)
    by (cases "g r"; cases "g (f r)") (auto simp: split(1) map_filter_append List.map_filter_simps)
next
  case False
  then show ?thesis using assms(1) by (simp add: update_where_absent)
qed

end
