(* ===== verification/Charges.thy ===== *)
theory Charges
  imports Wallet
begin

section \<open>The charge worker\<close>

text \<open>
  \<^verbatim>\<open>apps/worker/src/keyword-market-charges.ts\<close>, function by function in the file's order, with
  the interface \<^verbatim>\<open>ChargeChain\<close> of \<^verbatim>\<open>keyword-market-charges-chain.ts\<close> as a record of external
  calls on an unknown outside world. The process memory holds the cached wallet balance.
\<close>

subsection \<open>Dependencies\<close>

record charge_event =
  ev_chargeId :: string
  ev_keywordId :: string
  ev_staker :: string
  ev_requestedPre :: int
  ev_chargedPre :: int

record charge_receipt =
  rc_transactionHash :: "string option"
  rc_blockNumber :: int
  rc_blockHash :: string
  rc_reverted :: bool
  rc_event :: "charge_event option"

record wallet_cache =
  cache_address :: string
  cache_balance :: int
  cache_checkedAt :: int

type_synonym ('w, 'a) call = "'w \<Rightarrow> (exn + 'a) \<times> 'w"

text \<open>
  \<open>dep_uuid\<close>, \<open>dep_randomHex\<close> and \<open>dep_clock\<close> are the generated row id, \<^verbatim>\<open>randomBytes(32)\<close> in
  hexadecimal and the creation time of a new row; \<open>dep_formatUnits\<close> is viem's \<^verbatim>\<open>formatUnits\<close>
  at eighteen decimals. The signing account is represented by its address.
\<close>

record 'w charge_deps =
  dep_head :: "('w, int) call"
  dep_blockHash :: "int \<Rightarrow> ('w, string) call"
  dep_verify :: "ad_db \<Rightarrow> ('w, unit) call"
  dep_operator :: "('w, string) call"
  dep_balance :: "string \<Rightarrow> ('w, int) call"
  dep_position :: "batch \<Rightarrow> int option \<Rightarrow> ('w, int \<times> int) call"
  dep_processed :: "string \<Rightarrow> ('w, bool) call"
  dep_receipt :: "string \<Rightarrow> string \<Rightarrow> ('w, charge_receipt option) call"
  dep_pendingNonce :: "string \<Rightarrow> ('w, int) call"
  dep_sign :: "batch \<Rightarrow> string \<Rightarrow> int \<Rightarrow> ('w, string \<times> string) call"
  dep_broadcast :: "string \<Rightarrow> ('w, string) call"
  dep_unlock :: "('w, string) call"
  dep_uuid :: "('w, string) call"
  dep_randomHex :: "('w, string) call"
  dep_clock :: "('w, int) call"
  dep_formatUnits :: "int \<Rightarrow> string"
  dep_now :: int
  dep_chainId :: int
  dep_contractAddress :: string
  dep_confirmations :: int

type_synonym ('w, 'a) charge_prog = "(wallet_cache option, 'w, 'a) ad_prog"

definition batch_terminal :: "batch_status \<Rightarrow> bool" where
  "batch_terminal st \<longleftrightarrow> st \<in> {B_CONFIRMED, B_PARTIAL, B_UNCOLLECTABLE}"

definition run_recoverable :: "run_status \<Rightarrow> bool" where
  "run_recoverable st \<longleftrightarrow> st \<in> {R_QUEUED, R_RUNNING, R_BLOCKED}"

definition maxUint256 :: int where
  "maxUint256 = 2 ^ 256 - 1"

text \<open>\<^verbatim>\<open>code(error)\<close>\<close>

definition charge_code :: "exn \<Rightarrow> error_code" where
  "charge_code e = (case e of ChargeBlocked c \<Rightarrow> c | _ \<Rightarrow> RPC_UNAVAILABLE)"

text \<open>The block below which the worker trusts what it reads.\<close>

definition finalized_block :: "int \<Rightarrow> int \<Rightarrow> int" where
  "finalized_block head confirmations = (if confirmations \<le> head then head - confirmations else 0)"

subsection \<open>Grouping\<close>

definition oldest_click :: "click list \<Rightarrow> int option" where
  "oldest_click clicks = foldl (\<lambda>t c. Some (case t of None \<Rightarrow> click_clickedAt c
     | Some x \<Rightarrow> min x (click_clickedAt c))) None clicks"

definition chargeGroupDue :: "click list \<Rightarrow> charge_settings \<Rightarrow> int \<Rightarrow> bool" where
  "chargeGroupDue clicks settings now \<longleftrightarrow>
     set_clickThreshold settings \<le> int (length clicks) \<or>
     (0 < length clicks \<and> (case oldest_click clicks of None \<Rightarrow> False
       | Some oldest \<Rightarrow> set_intervalMinutes settings * 60000 \<le> now - oldest))"

text \<open>\<^verbatim>\<open>`${keywordId}:${stakerAddress}:${positionVersion}`\<close> and the insertion-ordered map of groups.\<close>

definition group_key :: "click \<Rightarrow> string" where
  "group_key c = click_keywordId c @ '':'' @ click_stakerAddress c @ '':'' @
     show_int (click_positionVersion c)"

fun insert_group :: "string \<Rightarrow> click \<Rightarrow> (string \<times> click list) list \<Rightarrow> (string \<times> click list) list" where
  "insert_group k c [] = [(k, [c])]"
| "insert_group k c ((k', g) # m) = (if k' = k then (k', g @ [c]) # m else (k', g) # insert_group k c m)"

definition click_groups :: "click list \<Rightarrow> click list list" where
  "click_groups clicks = map snd (foldl (\<lambda>m c. insert_group (group_key c) c m) [] clicks)"

subsection \<open>Pending prices\<close>

definition of_identity :: "int \<times> string \<Rightarrow> click \<Rightarrow> bool" where
  "of_identity w c \<longleftrightarrow> click_chainId c = fst w \<and> click_contractAddress c = snd w"

definition batch_of_identity :: "int \<times> string \<Rightarrow> batch \<Rightarrow> bool" where
  "batch_of_identity w b \<longleftrightarrow> batch_chainId b = fst w \<and> batch_contractAddress b = snd w"

definition run_of_identity :: "int \<times> string \<Rightarrow> run \<Rightarrow> bool" where
  "run_of_identity w r \<longleftrightarrow> run_chainId r = fst w \<and> run_contractAddress r = snd w"

text \<open>The stored contract quotation, when the projection that holds it is fresh.\<close>

definition usable_snapshot :: "int \<Rightarrow> indexer_state \<Rightarrow> (int \<times> int) option + exn" where
  "usable_snapshot now s =
     (if ix_configBlockNumber s \<noteq> Some (ix_lastBlockNumber s) \<or>
         now - ix_updatedAt s < 0 \<or> now - ix_updatedAt s > 60000 \<or>
         \<not> truthy (ix_preUsdPriceE18Raw s) then Inl None
      else case js_bigint (the (ix_preUsdPriceE18Raw s)) of
        None \<Rightarrow> Inr Failure
      | Some price \<Rightarrow>
          if price \<le> 0 then Inl None
          else (case ix_preUsdPriceQuotedAt s of
              None \<Rightarrow> Inl None
            | Some q \<Rightarrow> if q \<le> 0 then Inl None else Inl (Some (price, q))))"

definition price_pending :: "int \<times> string \<Rightarrow> click \<Rightarrow> bool" where
  "price_pending w c \<longleftrightarrow> of_identity w c \<and> click_status c = C_PRICE_PENDING \<and> click_amountPreRaw c = None"

definition after_cursor :: "string option \<Rightarrow> click \<Rightarrow> bool" where
  "after_cursor a c \<longleftrightarrow> (case a of None \<Rightarrow> True | Some i \<Rightarrow> i < click_id c)"

text \<open>The amount column, as the integer the printed bill denotes.\<close>

definition bill_amount :: "int \<Rightarrow> string \<Rightarrow> exn + int" where
  "bill_amount bid priceUsd = (case billPreRaw (show_int bid) priceUsd of
     Inl e \<Rightarrow> Inl Failure
   | Inr text \<Rightarrow> (case js_bigint text of None \<Rightarrow> Inl Failure | Some n \<Rightarrow> Inr n))"

definition priced :: "string \<Rightarrow> int \<Rightarrow> indexer_state \<Rightarrow> int \<Rightarrow> click \<Rightarrow> click" where
  "priced priceUsd quotedAt s amount c = c\<lparr>
     click_status := (if amount = 0 then C_SETTLED else C_PENDING),
     click_amountPreRaw := Some amount,
     click_priceUsd := Some priceUsd,
     click_priceQuotedAt := Some (quotedAt * 1000),
     click_priceBlockNumber := Some (ix_lastBlockNumber s),
     click_priceBlockHash := Some (ix_lastBlockHash s),
     click_errorCode := None\<rparr>"

definition convert_click ::
  "string \<Rightarrow> int \<Rightarrow> indexer_state \<Rightarrow> click \<Rightarrow> ('m, 'w, unit) ad_prog" where
  "convert_click priceUsd quotedAt s click = (case click_bidUsdRaw click of
     None \<Rightarrow> ret ()
   | Some bid \<Rightarrow> (case bill_amount bid priceUsd of
       Inl e \<Rightarrow> throw e
     | Inr amount \<Rightarrow> update_clicks
         (\<lambda>c. click_id c = click_id click \<and> click_status c = C_PRICE_PENDING \<and> click_amountPreRaw c = None)
         (priced priceUsd quotedAt s amount)))"

definition price_page :: "int \<times> string \<Rightarrow> string option \<Rightarrow> ad_db \<Rightarrow> click list" where
  "price_page w a d = take 500 (sort_key click_id
     (filter (\<lambda>c. price_pending w c \<and> after_cursor a c) (adBillingClick d)))"

text \<open>
  The \<^verbatim>\<open>while (true)\<close> loop over pages of 500. The fuel is the number of clicks: every page but
  the last advances the cursor past 500 rows.
\<close>

fun convert_pages ::
  "nat \<Rightarrow> string \<Rightarrow> int \<Rightarrow> indexer_state \<Rightarrow> int \<times> string \<Rightarrow> string option \<Rightarrow> ('m, 'w, unit) ad_prog" where
  "convert_pages 0 priceUsd quotedAt s w a = throw Failure"
| "convert_pages (Suc fuel) priceUsd quotedAt s w a =
     bindp (db_get (price_page w a)) (\<lambda>clicks.
     thenp (forp (convert_click priceUsd quotedAt s) clicks)
       (if length clicks < 500 then ret ()
        else convert_pages fuel priceUsd quotedAt s w (Some (click_id (last clicks)))))"

definition interrupted :: "int \<times> string \<Rightarrow> int \<Rightarrow> click \<Rightarrow> bool" where
  "interrupted w now c \<longleftrightarrow> of_identity w c \<and> click_status c = C_CAPTURING \<and>
     click_clickedAt c < now - 5 * 60000"

definition indexer_key :: "int \<times> string \<Rightarrow> string" where
  "indexer_key w = show_int (fst w) @ '':'' @ to_lower (snd w)"

definition convertPendingPrices ::
  "(int \<Rightarrow> string) \<Rightarrow> int \<times> string \<Rightarrow> int \<Rightarrow> ('m, 'w, unit) ad_prog" where
  "convertPendingPrices formatUnits w now =
     thenp (update_clicks (interrupted w now)
       (\<lambda>c. c\<lparr>click_status := C_UNBILLED, click_errorCode := Some CAPTURE_INTERRUPTED\<rparr>))
     (bindp (db_get (\<lambda>d. List.find (\<lambda>s. ix_key s = indexer_key w) (adIndexerState d))) (\<lambda>snapshot.
      case snapshot of
        None \<Rightarrow> ret ()
      | Some s \<Rightarrow> (case usable_snapshot now s of
          Inr e \<Rightarrow> throw e
        | Inl None \<Rightarrow> ret ()
        | Inl (Some (price, quotedAt)) \<Rightarrow>
            bindp (db_get (\<lambda>d. length (adBillingClick d))) (\<lambda>n.
              convert_pages (Suc n) (formatUnits price) quotedAt s w None))))"

subsection \<open>Click evidence\<close>

definition click_unreserved :: "click \<Rightarrow> bool" where
  "click_unreserved c \<longleftrightarrow> click_status c \<in> {C_PENDING, C_PRICE_PENDING} \<and> click_batchId c = None"

text \<open>
  The verdict on one block proof of a click: \<open>Unconfirmed\<close> is the loop's \<^verbatim>\<open>continue\<close>.
\<close>

datatype verdict = Unconfirmed | Proved | Rejected error_code

definition block_verdict ::
  "'w charge_deps \<Rightarrow> int \<Rightarrow> int \<Rightarrow> string option \<Rightarrow> ('m, 'w, verdict) ad_prog" where
  "block_verdict deps finalizedBlock blockNumber blockHash =
     (if \<not> truthy blockHash then ret (Rejected CAPTURE_FAILED)
      else if blockNumber > finalizedBlock then ret Unconfirmed
      else bindp (extern (dep_blockHash deps blockNumber)) (\<lambda>h.
        ret (if h \<noteq> to_lower (the blockHash) then Rejected REORG_DETECTED else Proved)))"

definition click_verdict :: "'w charge_deps \<Rightarrow> int \<Rightarrow> click \<Rightarrow> ('m, 'w, verdict) ad_prog" where
  "click_verdict deps finalizedBlock click =
     bindp (case click_bidBlockNumber click of
         None \<Rightarrow> ret (Rejected CAPTURE_FAILED)
       | Some n \<Rightarrow> block_verdict deps finalizedBlock n (click_bidBlockHash click))
     (\<lambda>v. case (v, click_priceBlockNumber click) of
         (Proved, Some n) \<Rightarrow> block_verdict deps finalizedBlock n (click_priceBlockHash click)
       | _ \<Rightarrow> ret v)"

definition validateClickEvidence :: "'w charge_deps \<Rightarrow> int \<Rightarrow> ('m, 'w, unit) ad_prog" where
  "validateClickEvidence deps finalizedBlock =
     bindp (db_get (\<lambda>d. filter (\<lambda>c. of_identity (dep_chainId deps, dep_contractAddress deps) c \<and>
         click_unreserved c) (adBillingClick d)))
     (forp (\<lambda>click. bindp (click_verdict deps finalizedBlock click) (\<lambda>v. case v of
         Rejected e \<Rightarrow> update_clicks (\<lambda>c. click_id c = click_id click \<and> click_unreserved c)
           (\<lambda>c. c\<lparr>click_status := C_UNBILLED, click_errorCode := Some e\<rparr>)
       | _ \<Rightarrow> ret ())))"

subsection \<open>Settling a receipt\<close>

text \<open>
  The loop of \<^verbatim>\<open>settleChargeReceipt\<close>: clicks in the order they were made, each settled while the
  charged amount lasts. A missing amount makes \<^verbatim>\<open>BigInt(null)\<close> throw.
\<close>

fun allot :: "int \<Rightarrow> click list \<Rightarrow> (string list \<times> string list) option" where
  "allot available [] = Some ([], [])"
| "allot available (click # clicks) = (case click_amountPreRaw click of
     None \<Rightarrow> None
   | Some due \<Rightarrow> (case allot (if due \<le> available then available - due else 0) clicks of
       None \<Rightarrow> None
     | Some (settled, uncollectable) \<Rightarrow>
         Some (if due \<le> available then (click_id click # settled, uncollectable)
               else (settled, click_id click # uncollectable))))"

definition receipt_matches :: "batch \<Rightarrow> charge_event \<Rightarrow> bool" where
  "receipt_matches batch event \<longleftrightarrow>
     to_lower (ev_keywordId event) = batch_keywordId batch \<and>
     to_lower (ev_staker event) = batch_stakerAddress batch \<and>
     to_lower (ev_chargeId event) = batch_chargeId batch \<and>
     ev_requestedPre event = batch_requestedPreRaw batch \<and>
     0 \<le> ev_chargedPre event \<and> ev_chargedPre event \<le> batch_requestedPreRaw batch"

definition batch_clicks :: "string \<Rightarrow> ad_db \<Rightarrow> click list" where
  "batch_clicks i d = sort_key (\<lambda>c. (click_clickedAt c, click_id c))
     (filter (\<lambda>c. click_batchId c = Some i) (adBillingClick d))"

definition settled_batch :: "batch \<Rightarrow> charge_receipt \<Rightarrow> int \<Rightarrow> batch \<Rightarrow> batch" where
  "settled_batch batch receipt charged b = (let shortfall = batch_duePreRaw batch - charged in b\<lparr>
     batch_status := (if 0 < shortfall then B_PARTIAL else B_CONFIRMED),
     batch_chargedPreRaw := Some charged,
     batch_shortfallPreRaw := Some shortfall,
     batch_settledTxHash := (case rc_transactionHash receipt of None \<Rightarrow> batch_txHash batch | Some h \<Rightarrow> Some h),
     batch_receiptBlockNumber := Some (rc_blockNumber receipt),
     batch_receiptBlockHash := Some (rc_blockHash receipt),
     batch_errorCode := (if 0 < shortfall then Some INSUFFICIENT_STAKE else None),
     batch_nextAttemptAt := None\<rparr>)"

definition settleChargeReceipt :: "batch \<Rightarrow> charge_receipt \<Rightarrow> ('m, 'w, unit) ad_prog" where
  "settleChargeReceipt batch receipt = (case rc_event receipt of
     None \<Rightarrow> throw (ChargeBlocked TRANSACTION_UNKNOWN)
   | Some event \<Rightarrow>
       if \<not> receipt_matches batch event then throw (ChargeBlocked TRANSACTION_UNKNOWN)
       else transactional
         (thenp (update_batch (batch_id batch) (settled_batch batch receipt (ev_chargedPre event)))
         (bindp (db_get (batch_clicks (batch_id batch))) (\<lambda>clicks.
           case allot (ev_chargedPre event) clicks of
             None \<Rightarrow> throw Failure
           | Some (settled, uncollectable) \<Rightarrow>
               thenp (whenp (settled \<noteq> []) (update_clicks (\<lambda>c. click_id c \<in> set settled)
                 (\<lambda>c. c\<lparr>click_status := C_SETTLED, click_errorCode := None\<rparr>)))
               (whenp (uncollectable \<noteq> []) (update_clicks (\<lambda>c. click_id c \<in> set uncollectable)
                 (\<lambda>c. c\<lparr>click_status := C_UNCOLLECTABLE,
                   click_errorCode := Some INSUFFICIENT_STAKE\<rparr>)))))))"

definition uncollectable_batch :: "batch \<Rightarrow> error_code \<Rightarrow> int \<Rightarrow> string \<Rightarrow> batch \<Rightarrow> batch" where
  "uncollectable_batch batch errorCode blockNumber blockHash b = b\<lparr>
     batch_status := B_UNCOLLECTABLE,
     batch_chargedPreRaw := Some 0,
     batch_shortfallPreRaw := Some (batch_duePreRaw batch),
     batch_receiptBlockNumber := Some blockNumber,
     batch_receiptBlockHash := Some blockHash,
     batch_errorCode := Some errorCode\<rparr>"

definition uncollectable :: "batch \<Rightarrow> error_code \<Rightarrow> int \<Rightarrow> string \<Rightarrow> ('m, 'w, unit) ad_prog" where
  "uncollectable batch errorCode blockNumber blockHash = transactional
     (thenp (update_batch (batch_id batch) (uncollectable_batch batch errorCode blockNumber blockHash))
       (update_clicks (\<lambda>c. click_batchId c = Some (batch_id batch))
         (\<lambda>c. c\<lparr>click_status := C_UNCOLLECTABLE, click_errorCode := Some errorCode\<rparr>)))"

subsection \<open>The capture proofs of a batch\<close>

definition assert_block :: "'w charge_deps \<Rightarrow> int \<Rightarrow> int \<Rightarrow> string option \<Rightarrow> ('m, 'w, unit) ad_prog" where
  "assert_block deps finalizedBlock blockNumber blockHash =
     (if \<not> truthy blockHash then throw (ChargeBlocked CAPTURE_FAILED)
      else if blockNumber > finalizedBlock then throw (ChargeBlocked WAITING_CONFIRMATION)
      else bindp (extern (dep_blockHash deps blockNumber)) (\<lambda>h.
        if h \<noteq> to_lower (the blockHash) then throw (ChargeBlocked CAPTURE_PROOF_ORPHANED) else ret ()))"

definition assertBatchCapture :: "batch \<Rightarrow> 'w charge_deps \<Rightarrow> int \<Rightarrow> ('m, 'w, unit) ad_prog" where
  "assertBatchCapture batch deps head =
     (let finalizedBlock = finalized_block head (dep_confirmations deps) in
      bindp (db_get (\<lambda>d. filter (\<lambda>c. click_batchId c = Some (batch_id batch)) (adBillingClick d)))
      (forp (\<lambda>click.
        thenp (case click_bidBlockNumber click of
            None \<Rightarrow> throw (ChargeBlocked CAPTURE_FAILED)
          | Some n \<Rightarrow> assert_block deps finalizedBlock n (click_bidBlockHash click))
        (case click_priceBlockNumber click of
            None \<Rightarrow> ret ()
          | Some n \<Rightarrow> assert_block deps finalizedBlock n (click_priceBlockHash click)))))"

subsection \<open>Settling from the indexed event\<close>

text \<open>\<^verbatim>\<open>/^\d+$/\<close>\<close>

definition all_digits :: "string \<Rightarrow> bool" where
  "all_digits t \<longleftrightarrow> t \<noteq> [] \<and> list_all is_digit t"

definition charged_event_of :: "batch \<Rightarrow> chain_event \<Rightarrow> bool" where
  "charged_event_of batch e \<longleftrightarrow> ce_chainId e = batch_chainId batch \<and>
     ce_contractAddress e = batch_contractAddress batch \<and>
     (case ce_payload e of
        StakeCharged p \<Rightarrow> pay_chargeId p = Some (batch_chargeId batch)
      | PositionChanged _ \<Rightarrow> False)"

definition indexed_event :: "batch \<Rightarrow> ad_db \<Rightarrow> chain_event option" where
  "indexed_event batch d = List.find (\<lambda>_. True)
     (sort_key (\<lambda>e. (ce_blockNumber e, ce_logIndex e)) (filter (charged_event_of batch) (adChainEvent d)))"

text \<open>The checks on the untyped payload, and the event it stands for.\<close>

definition payload_event :: "event_payload \<Rightarrow> charge_event option" where
  "payload_event payload = (case payload of
     PositionChanged _ \<Rightarrow> None
   | StakeCharged p \<Rightarrow> (case (pay_chargeId p, pay_keywordId p, pay_staker p, pay_requestedPre p, pay_chargedPre p) of
       (Some chargeId, Some keywordId, Some staker, Some requested, Some charged) \<Rightarrow>
         if all_digits requested \<and> all_digits charged
         then Some \<lparr>ev_chargeId = chargeId, ev_keywordId = keywordId, ev_staker = staker,
           ev_requestedPre = the (js_bigint requested), ev_chargedPre = the (js_bigint charged)\<rparr>
         else None
     | _ \<Rightarrow> None))"

definition settleIndexedCharge :: "batch \<Rightarrow> 'w charge_deps \<Rightarrow> int \<Rightarrow> ('m, 'w, bool) ad_prog" where
  "settleIndexedCharge batch deps head =
     bindp (db_get (indexed_event batch)) (\<lambda>found. case found of
       None \<Rightarrow> ret False
     | Some indexed \<Rightarrow>
         if head < ce_blockNumber indexed + dep_confirmations deps then ret False
         else bindp (extern (dep_blockHash deps (ce_blockNumber indexed))) (\<lambda>h.
           if h \<noteq> to_lower (ce_blockHash indexed) then ret False
           else (case payload_event (ce_payload indexed) of
               None \<Rightarrow> throw (ChargeBlocked TRANSACTION_UNKNOWN)
             | Some event \<Rightarrow> thenp (settleChargeReceipt batch
                 \<lparr>rc_transactionHash = Some (ce_txHash indexed), rc_blockNumber = ce_blockNumber indexed,
                  rc_blockHash = to_lower (ce_blockHash indexed), rc_reverted = False,
                  rc_event = Some event\<rparr>) (ret True))))"

subsection \<open>Reconciling a batch\<close>

definition mark_batch :: "batch \<Rightarrow> batch_status \<Rightarrow> error_code \<Rightarrow> ('m, 'w, unit) ad_prog" where
  "mark_batch batch st e = update_batch (batch_id batch)
     (\<lambda>b. b\<lparr>batch_status := st, batch_errorCode := Some e\<rparr>)"

definition batch_signed :: "batch \<Rightarrow> bool" where
  "batch_signed batch \<longleftrightarrow> truthy (batch_txHash batch) \<and> truthy (batch_signedTransaction batch)"

text \<open>A settled batch whose block left the chain returns to work, its clicks stay reserved.\<close>

definition reopen_batch :: "batch \<Rightarrow> ('m, 'w, unit) ad_prog" where
  "reopen_batch batch = transactional
     (thenp (update_batch (batch_id batch) (\<lambda>b. b\<lparr>
         batch_status := (if batch_signed batch then B_RECONCILING else B_PREPARED),
         batch_chargedPreRaw := None, batch_shortfallPreRaw := None, batch_settledTxHash := None,
         batch_receiptBlockNumber := None, batch_receiptBlockHash := None,
         batch_errorCode := Some REORG_DETECTED\<rparr>))
     (thenp (update_clicks (\<lambda>c. click_batchId c = Some (batch_id batch))
         (\<lambda>c. c\<lparr>click_status := C_RESERVED, click_errorCode := Some REORG_DETECTED\<rparr>))
       (update_run (batch_runId batch) (\<lambda>r. r\<lparr>run_status := R_RUNNING, run_finishedAt := None,
         run_errorCode := Some REORG_DETECTED\<rparr>))))"

text \<open>A receipt was found. The result is the code's return value: does the batch still wait?\<close>

definition reconcile_receipt ::
  "batch \<Rightarrow> charge_receipt \<Rightarrow> 'w charge_deps \<Rightarrow> int \<Rightarrow> ('m, 'w, bool) ad_prog" where
  "reconcile_receipt batch receipt deps head =
     bindp (if head < rc_blockNumber receipt + dep_confirmations deps then ret False
            else bindp (extern (dep_blockHash deps (rc_blockNumber receipt)))
              (\<lambda>h. ret (h = rc_blockHash receipt))) (\<lambda>confirmed.
     if \<not> confirmed then thenp (mark_batch batch B_RECONCILING WAITING_CONFIRMATION) (ret True)
     else if rc_reverted receipt then
       (if batch_status batch = B_FAILED \<and> batch_receiptBlockHash batch = Some (rc_blockHash receipt)
        then ret False
        else thenp (update_batch (batch_id batch) (\<lambda>b. b\<lparr>batch_status := B_FAILED,
            batch_receiptBlockNumber := Some (rc_blockNumber receipt),
            batch_receiptBlockHash := Some (rc_blockHash receipt),
            batch_errorCode := Some TRANSACTION_FAILED,
            batch_nextAttemptAt := Some (dep_now deps + 60000)\<rparr>)) (ret False))
     else if rc_event receipt = None then
       bindp (settleIndexedCharge batch deps head) (\<lambda>applied. if applied then ret False
         else thenp (mark_batch batch B_RECONCILING TRANSACTION_UNKNOWN) (ret True))
     else thenp (settleChargeReceipt batch receipt) (ret False))"

text \<open>
  The wallet's next nonce is below this batch's: an earlier transaction is missing. \<open>None\<close> lets
  the reconciliation go on.
\<close>

definition reconcile_nonce :: "batch \<Rightarrow> 'w charge_deps \<Rightarrow> ('m, 'w, bool option) ad_prog" where
  "reconcile_nonce batch deps = (case (batch_nonce batch, batch_signerAddress batch) of
     (Some nonce, Some signer) \<Rightarrow>
       if signer = [] then ret None else
       bindp (extern (dep_pendingNonce deps signer)) (\<lambda>pendingNonce.
       if pendingNonce < nonce then
         bindp (db_get (\<lambda>d. \<exists>b\<in>set (adChargeBatch d). batch_of_wallet (batch_chainId batch) signer b \<and>
           batch_nonce b = Some pendingNonce \<and> batch_in_flight (batch_status b) \<and>
           batch_id b \<noteq> batch_id batch)) (\<lambda>predecessor.
         thenp (mark_batch batch B_RECONCILING (if predecessor then WAITING_CONFIRMATION else NONCE_GAP))
           (if predecessor then ret (Some True) else throw (ChargeBlocked NONCE_GAP)))
       else ret None)
   | _ \<Rightarrow> ret None)"

text \<open>The signed bytes are sent, or sent again; an unclear answer is never a new charge.\<close>

definition broadcast_batch :: "batch \<Rightarrow> 'w charge_deps \<Rightarrow> ('m, 'w, unit) ad_prog" where
  "broadcast_batch batch deps = catchp
     (bindp (extern (dep_broadcast deps (the (batch_signedTransaction batch)))) (\<lambda>hash.
       if to_lower hash \<noteq> to_lower (the (batch_txHash batch)) then throw (ChargeBlocked TRANSACTION_UNKNOWN)
       else mark_batch batch B_SUBMITTED WAITING_CONFIRMATION))
     (\<lambda>e. thenp (mark_batch batch B_RECONCILING
           (if e = ChargeBlocked INSUFFICIENT_GAS then INSUFFICIENT_GAS else TRANSACTION_UNKNOWN))
         (if e = ChargeBlocked INSUFFICIENT_GAS then throw e else ret ()))"

definition recheck_capture :: "batch \<Rightarrow> 'w charge_deps \<Rightarrow> int \<Rightarrow> ('m, 'w, bool) ad_prog" where
  "recheck_capture batch deps head = catchp
     (thenp (assertBatchCapture batch deps head) (ret False))
     (\<lambda>e. thenp (mark_batch batch B_RECONCILING (charge_code e))
        (if charge_code e = WAITING_CONFIRMATION then ret True else throw e))"

definition reconcile_missing :: "batch \<Rightarrow> 'w charge_deps \<Rightarrow> int \<Rightarrow> ('m, 'w, bool) ad_prog" where
  "reconcile_missing batch deps head =
     bindp (extern (dep_processed deps (batch_chargeId batch))) (\<lambda>processed.
     if processed then
       bindp (settleIndexedCharge batch deps head) (\<lambda>applied. if applied then ret False
         else thenp (mark_batch batch B_RECONCILING TRANSACTION_UNKNOWN) (ret True))
     else
       bindp (reconcile_nonce batch deps) (\<lambda>stop. case stop of
         Some waiting \<Rightarrow> ret waiting
       | None \<Rightarrow> bindp (recheck_capture batch deps head) (\<lambda>waiting.
           if waiting then ret True
           else thenp (broadcast_batch batch deps) (ret True))))"

definition reconcileChargeBatch :: "batch \<Rightarrow> 'w charge_deps \<Rightarrow> int \<Rightarrow> ('m, 'w, bool) ad_prog" where
  "reconcileChargeBatch batch deps head =
     bindp (case (batch_receiptBlockNumber batch, batch_receiptBlockHash batch) of
         (Some n, Some h) \<Rightarrow>
           if batch_terminal (batch_status batch) \<and> h \<noteq> [] then
             bindp (extern (dep_blockHash deps n)) (\<lambda>canonical.
               if canonical = to_lower h then ret True
               else thenp (reopen_batch batch) (ret False))
           else ret False
       | _ \<Rightarrow> ret False) (\<lambda>settled.
     if settled then ret False
     else if \<not> batch_signed batch then ret False
     else bindp (extern (dep_receipt deps (the (batch_txHash batch)) (batch_chargeId batch))) (\<lambda>receipt.
       case receipt of
         Some r \<Rightarrow> reconcile_receipt batch r deps head
       | None \<Rightarrow> reconcile_missing batch deps head))"

subsection \<open>Reserving clicks for a run\<close>

definition new_batch :: "'w charge_deps \<Rightarrow> run \<Rightarrow> click \<Rightarrow> nat \<Rightarrow> int \<Rightarrow> string \<Rightarrow> string \<Rightarrow> int \<Rightarrow> batch" where
  "new_batch deps run first n due i chargeId createdAt =
     \<lparr>batch_id = i, batch_runId = run_id run, batch_chargeId = chargeId,
      batch_chainId = dep_chainId deps, batch_contractAddress = dep_contractAddress deps,
      batch_keywordId = click_keywordId first, batch_keyword = click_keyword first,
      batch_stakerAddress = click_stakerAddress first,
      batch_positionVersion = click_positionVersion first,
      batch_clickCount = n, batch_duePreRaw = due,
      batch_requestedPreRaw = (if due > maxUint256 then maxUint256 else due),
      batch_chargedPreRaw = (if due = 0 then Some 0 else None),
      batch_shortfallPreRaw = (if due = 0 then Some 0 else None),
      batch_status = (if due = 0 then B_CONFIRMED else B_PREPARED),
      batch_txHash = None, batch_settledTxHash = None, batch_signedTransaction = None,
      batch_signerAddress = None, batch_nonce = None,
      batch_receiptBlockNumber = None, batch_receiptBlockHash = None, batch_errorCode = None,
      batch_attemptCount = 0, batch_nextAttemptAt = None, batch_createdAt = createdAt\<rparr>"

text \<open>The sum of the amounts; a missing amount makes \<^verbatim>\<open>BigInt(null)\<close> throw.\<close>

fun total_due :: "click list \<Rightarrow> int option" where
  "total_due [] = Some 0"
| "total_due (c # cs) = (case (click_amountPreRaw c, total_due cs) of
     (Some a, Some t) \<Rightarrow> Some (a + t) | _ \<Rightarrow> None)"

text \<open>The unique ids and charge ids of the schema: creating a second row with one throws.\<close>

definition create_batch :: "batch \<Rightarrow> ('m, 'w, unit) ad_prog" where
  "create_batch b =
     bindp (db_get (\<lambda>d. \<exists>b'\<in>set (adChargeBatch d). batch_id b' = batch_id b \<or>
         (batch_chainId b' = batch_chainId b \<and> batch_contractAddress b' = batch_contractAddress b \<and>
          batch_chargeId b' = batch_chargeId b)))
       (\<lambda>taken. if taken then throw Failure else db_mod (adChargeBatch_update (\<lambda>bs. bs @ [b])))"

definition reserve_group :: "'w charge_deps \<Rightarrow> run \<Rightarrow> click list \<Rightarrow> ('m, 'w, unit) ad_prog" where
  "reserve_group deps run clickGroup = (case (clickGroup, total_due clickGroup) of
     (first # _, Some due) \<Rightarrow>
       bindp (extern (dep_uuid deps)) (\<lambda>i.
       bindp (extern (dep_randomHex deps)) (\<lambda>hex.
       bindp (extern (dep_clock deps)) (\<lambda>createdAt.
       thenp (create_batch (new_batch deps run first (length clickGroup) due i (''0x'' @ hex) createdAt))
       (bindp (update_clicks_count
           (\<lambda>c. click_id c \<in> click_id ` set clickGroup \<and> click_status c = C_PENDING \<and> click_batchId c = None)
           (\<lambda>c. c\<lparr>click_batchId := Some i, click_status := (if due = 0 then C_SETTLED else C_RESERVED)\<rparr>))
         (\<lambda>n. if n \<noteq> length clickGroup then throw (ChargeBlocked TRANSACTION_UNKNOWN) else ret ())))))
   | _ \<Rightarrow> throw Failure)"

definition reservable :: "'w charge_deps \<Rightarrow> int \<Rightarrow> int \<Rightarrow> click \<Rightarrow> bool" where
  "reservable deps cutoff finalizedBlock c \<longleftrightarrow>
     of_identity (dep_chainId deps, dep_contractAddress deps) c \<and> click_status c = C_PENDING \<and>
     click_batchId c = None \<and> click_clickedAt c \<le> cutoff \<and>
     (case click_bidBlockNumber c of None \<Rightarrow> False | Some n \<Rightarrow> n \<le> finalizedBlock)"

definition auto_run_ids :: "'w charge_deps \<Rightarrow> ad_db \<Rightarrow> string list" where
  "auto_run_ids deps d = map run_id (filter (\<lambda>r.
     run_of_identity (dep_chainId deps, dep_contractAddress deps) r \<and> run_trigger r = AUTO \<and>
     run_recoverable (run_status r)) (adChargeRun d))"

text \<open>
  A failure to confirm a run: the status and code \<^verbatim>\<open>refreshRun\<close> writes from the batches of the
  run and the clicks it still waits for.
\<close>

definition run_awaiting :: "run \<Rightarrow> ad_db \<Rightarrow> click list" where
  "run_awaiting run d = (case (run_trigger run, run_startedAt run) of
     (MANUAL, Some startedAt) \<Rightarrow> filter (\<lambda>c. of_identity (run_chainId run, run_contractAddress run) c \<and>
       click_clickedAt c \<le> startedAt \<and> click_unreserved c) (adBillingClick d)
   | _ \<Rightarrow> [])"

definition refreshed_run ::
  "run \<Rightarrow> batch list \<Rightarrow> click list \<Rightarrow> int \<Rightarrow> error_code option \<Rightarrow> run_status \<times> error_code option \<times> int option" where
  "refreshed_run run batches awaiting now failure0 =
     (let failure = (if failure0 = None \<and> (\<exists>c\<in>set awaiting. click_status c = C_PRICE_PENDING)
            then Some PRICE_UNAVAILABLE else failure0);
          pending = (awaiting \<noteq> [] \<or> (\<exists>b\<in>set batches. \<not> batch_terminal (batch_status b)));
          partial = (\<exists>b\<in>set batches. batch_status b \<in> {B_PARTIAL, B_UNCOLLECTABLE});
          errorCode = (case failure of Some f \<Rightarrow> Some f
            | None \<Rightarrow> (case List.find (\<lambda>b. batch_errorCode b \<noteq> None) batches of
                None \<Rightarrow> None | Some b \<Rightarrow> batch_errorCode b))
      in (if pending \<or> failure \<noteq> None
          then (if failure \<noteq> None \<and> failure \<noteq> Some WAITING_CONFIRMATION then R_BLOCKED else R_RUNNING)
          else if partial then R_PARTIAL else R_COMPLETED,
          if pending \<or> failure \<noteq> None then errorCode else if partial then errorCode else None,
          if pending \<or> failure \<noteq> None then None else Some now))"

definition refreshRun :: "string \<Rightarrow> int \<Rightarrow> error_code option \<Rightarrow> ('m, 'w, unit) ad_prog" where
  "refreshRun runId now failure =
     bindp (find_run runId) (\<lambda>run.
     bindp (db_get (\<lambda>d. filter (\<lambda>b. batch_runId b = runId) (adChargeBatch d))) (\<lambda>batches.
     bindp (db_get (run_awaiting run)) (\<lambda>awaiting.
       (case refreshed_run run batches awaiting now failure of
          (st, e, finished) \<Rightarrow> update_run runId
            (\<lambda>r. r\<lparr>run_status := st, run_errorCode := e, run_finishedAt := finished\<rparr>)))))"

definition reserveRun ::
  "run \<Rightarrow> charge_settings \<Rightarrow> 'w charge_deps \<Rightarrow> int \<Rightarrow> ('m, 'w, unit) ad_prog" where
  "reserveRun run settings deps head =
     bindp (transactional
       (bindp (find_run (run_id run)) (\<lambda>current.
       bindp (if run_trigger run = MANUAL then db_get (auto_run_ids deps) else ret []) (\<lambda>autoRuns.
       thenp (whenp (autoRuns \<noteq> []) (update_batches
           (\<lambda>b. batch_runId b \<in> set autoRuns \<and> batch_status b \<in> {B_PREPARED, B_FAILED})
           (\<lambda>b. b\<lparr>batch_runId := run_id run\<rparr>)))
       (let cutoff = (case run_startedAt current of None \<Rightarrow> dep_now deps | Some t \<Rightarrow> t);
            finalizedBlock = finalized_block head (dep_confirmations deps)
        in bindp (db_get (\<lambda>d. sort_key (\<lambda>c. (click_clickedAt c, click_id c))
             (filter (reservable deps cutoff finalizedBlock) (adBillingClick d)))) (\<lambda>clicks.
           thenp (forp (\<lambda>clickGroup.
               if run_trigger run \<noteq> MANUAL \<and> \<not> chargeGroupDue clickGroup settings (dep_now deps) then ret ()
               else reserve_group deps run clickGroup) (click_groups clicks))
           (thenp (update_run (run_id run) (\<lambda>r. r\<lparr>run_status := R_RUNNING,
               run_startedAt := Some cutoff, run_errorCode := None\<rparr>))
             (ret autoRuns))))))))
     (forp (\<lambda>runId. refreshRun runId (dep_now deps) None))"

subsection \<open>Signing a batch\<close>

definition signed_batch :: "string \<Rightarrow> int \<Rightarrow> string \<Rightarrow> string \<Rightarrow> batch \<Rightarrow> batch" where
  "signed_batch signer nonce raw hash b = b\<lparr>
     batch_status := B_SIGNED,
     batch_signerAddress := Some (to_lower signer),
     batch_nonce := Some nonce,
     batch_txHash := Some hash,
     batch_signedTransaction := Some raw,
     batch_errorCode := None,
     batch_attemptCount := batch_attemptCount b + 1,
     batch_nextAttemptAt := None,
     batch_receiptBlockNumber := None,
     batch_receiptBlockHash := None\<rparr>"

definition sign_batch :: "batch \<Rightarrow> 'w charge_deps \<Rightarrow> string \<Rightarrow> ('m, 'w, batch option) ad_prog" where
  "sign_batch batch deps signer = transactional
     (bindp (db_get (readKeywordMarketWalletReservation (dep_chainId deps) signer
         (Some (batch_id batch)) None)) (\<lambda>reservation.
     bindp (find_batch (batch_id batch)) (\<lambda>saved.
     if batch_in_flight (batch_status saved) then ret (Some saved)
     else if batch_terminal (batch_status saved) then ret None
     else if res_pending reservation then throw (ChargeBlocked WAITING_CONFIRMATION)
     else bindp (extern (dep_pendingNonce deps signer)) (\<lambda>pendingNonce.
       if (case res_latestNonce reservation of None \<Rightarrow> False | Some n \<Rightarrow> pendingNonce \<le> n)
       then throw (ChargeBlocked NONCE_GAP)
       else bindp (extern (dep_sign deps saved signer pendingNonce)) (\<lambda>(raw, hash).
         thenp (update_batch (batch_id batch) (signed_batch signer pendingNonce raw hash))
           (bindp (find_batch (batch_id batch)) (\<lambda>b. ret (Some b))))))))"

definition prepareBatch ::
  "batch \<Rightarrow> 'w charge_deps \<Rightarrow> string \<Rightarrow> int \<Rightarrow> ('m, 'w, bool) ad_prog" where
  "prepareBatch batch deps signer head =
     (let finalizedBlock = finalized_block head (dep_confirmations deps) in
      thenp (assertBatchCapture batch deps head)
      (bindp (extern (dep_position deps batch (Some finalizedBlock))) (\<lambda>(amount, positionVersion).
      if positionVersion \<noteq> batch_positionVersion batch then
        bindp (extern (dep_blockHash deps finalizedBlock)) (\<lambda>h.
          thenp (uncollectable batch POSITION_VERSION_MISMATCH finalizedBlock h) (ret False))
      else if amount = 0 then
        bindp (extern (dep_blockHash deps finalizedBlock)) (\<lambda>h.
          thenp (uncollectable batch POSITION_MISSING finalizedBlock h) (ret False))
      else bindp (extern (dep_position deps batch None)) (\<lambda>(currentAmount, currentVersion).
        if currentVersion \<noteq> batch_positionVersion batch \<or> currentAmount = 0
        then throw (ChargeBlocked WAITING_CONFIRMATION)
        else bindp (extern (dep_processed deps (batch_chargeId batch))) (\<lambda>processed.
          if processed then throw (ChargeBlocked TRANSACTION_UNKNOWN)
          else bindp (sign_batch batch deps signer) (\<lambda>signed. case signed of
            None \<Rightarrow> ret False
          | Some b \<Rightarrow> reconcileChargeBatch b deps head))))))"

subsection \<open>The job\<close>

definition default_settings :: "int \<times> string \<Rightarrow> charge_settings" where
  "default_settings w = \<lparr>set_chainId = fst w, set_contractAddress = snd w,
     set_automaticEnabled = False, set_intervalMinutes = 10, set_clickThreshold = 50,
     set_workerHeartbeatAt = None, set_reconciliationBlockNumber = None,
     set_reconciliationBlockHash = None, set_signerAddress = None, set_operatorAddress = None,
     set_gasBalanceRaw = None, set_readiness = Rd_WORKER_UNAVAILABLE, set_errorCode = None\<rparr>"

definition settings_of :: "int \<times> string \<Rightarrow> charge_settings \<Rightarrow> bool" where
  "settings_of w s \<longleftrightarrow> set_chainId s = fst w \<and> set_contractAddress s = snd w"

definition find_settings :: "int \<times> string \<Rightarrow> ('m, 'w, charge_settings) ad_prog" where
  "find_settings w = bindp (db_get (\<lambda>d. List.find (settings_of w) (adChargeSettings d)))
     (\<lambda>r. case r of None \<Rightarrow> throw Failure | Some x \<Rightarrow> ret x)"

text \<open>\<^verbatim>\<open>upsert\<close> with an empty update: the row is created with its defaults when absent.\<close>

definition upsert_settings :: "int \<times> string \<Rightarrow> ('m, 'w, charge_settings) ad_prog" where
  "upsert_settings w = thenp
     (db_mod (\<lambda>d. if \<exists>s\<in>set (adChargeSettings d). settings_of w s then d
        else adChargeSettings_update (\<lambda>rows. rows @ [default_settings w]) d))
     (find_settings w)"

definition update_settings ::
  "int \<times> string \<Rightarrow> (charge_settings \<Rightarrow> charge_settings) \<Rightarrow> ('m, 'w, charge_settings) ad_prog" where
  "update_settings w f = thenp (find_settings w) (thenp
     (db_mod (adChargeSettings_update (update_where (settings_of w) f))) (find_settings w))"

text \<open>
  The first \<^verbatim>\<open>try\<close>: reconcile everything in flight and every settled batch whose receipt may have
  left the chain since the last checkpoint. It yields the head, the checkpoint (when the pass
  completed), whether something waits, the runs to refresh and the code that stopped it.
\<close>

record reconciliation =
  rec_head :: int
  rec_checkpoint :: "(int \<times> string) option"
  rec_waiting :: bool
  rec_runs :: "string list"
  rec_blocked :: "error_code option"

definition to_reconcile :: "int \<times> string \<Rightarrow> int option \<Rightarrow> ad_db \<Rightarrow> batch list" where
  "to_reconcile w canonicalFrom d = sort_key batch_createdAt (filter (\<lambda>b.
     batch_of_identity w b \<and>
     (batch_in_flight (batch_status b) \<or> batch_status b = B_FAILED \<or>
      (batch_terminal (batch_status b) \<and>
       (case canonicalFrom of None \<Rightarrow> True
        | Some n \<Rightarrow> (case batch_receiptBlockNumber b of None \<Rightarrow> True | Some m \<Rightarrow> n < m)))))
     (adChargeBatch d))"

definition previous_canonical ::
  "'w charge_deps \<Rightarrow> charge_settings \<Rightarrow> int \<Rightarrow> ('m, 'w, bool) ad_prog" where
  "previous_canonical deps settings finalizedBlock =
     (case (set_reconciliationBlockNumber settings, set_reconciliationBlockHash settings) of
        (Some n, Some h) \<Rightarrow> if n \<le> finalizedBlock
          then bindp (extern (dep_blockHash deps n)) (\<lambda>x. ret (x = to_lower h)) else ret False
      | _ \<Rightarrow> ret False)"

text \<open>
  An error in the middle of the loop keeps what was already reconciled (the variables live outside
  the \<^verbatim>\<open>try\<close>), so the loop returns its accumulators with the code that stopped it.
\<close>

definition reconcile_loop ::
  "'w charge_deps \<Rightarrow> int \<Rightarrow> batch list \<Rightarrow> ('m, 'w, bool \<times> string list \<times> error_code option) ad_prog" where
  "reconcile_loop deps head batches = loopp (\<lambda>batch (waiting, runs, blocked). catchp
       (bindp (reconcileChargeBatch batch deps head) (\<lambda>waits.
          ret (Continue (waits \<or> waiting, batch_runId batch # runs, blocked))))
       (\<lambda>e. ret (Break (waiting, runs, Some (charge_code e)))))
     batches (False, [], None)"

definition reconcile_pass ::
  "'w charge_deps \<Rightarrow> charge_settings \<Rightarrow> ('m, 'w, reconciliation) ad_prog" where
  "reconcile_pass deps settings = catchp
     (bindp (extern (dep_head deps)) (\<lambda>head. catchp
        (let finalizedBlock = finalized_block head (dep_confirmations deps) in
         bindp (extern (dep_blockHash deps finalizedBlock)) (\<lambda>finalizedHash.
         bindp (previous_canonical deps settings finalizedBlock) (\<lambda>previousCanonical.
         thenp (validateClickEvidence deps finalizedBlock)
         (bindp (db_get (to_reconcile (dep_chainId deps, dep_contractAddress deps)
             (if previousCanonical then set_reconciliationBlockNumber settings else None))) (\<lambda>batches.
         bindp (reconcile_loop deps head batches) (\<lambda>(waiting, runs, blocked).
           ret \<lparr>rec_head = head,
             rec_checkpoint = (if blocked = None then Some (finalizedBlock, finalizedHash) else None),
             rec_waiting = waiting, rec_runs = rev (remdups runs), rec_blocked = blocked\<rparr>))))))
        (\<lambda>e. ret \<lparr>rec_head = head, rec_checkpoint = None, rec_waiting = False, rec_runs = [],
              rec_blocked = Some (charge_code e)\<rparr>)))
     (\<lambda>e. ret \<lparr>rec_head = 0, rec_checkpoint = None, rec_waiting = False, rec_runs = [],
           rec_blocked = Some (charge_code e)\<rparr>)"

text \<open>
  The second \<^verbatim>\<open>try\<close>: the contract is verified, the operator unlocked and funded. It yields the
  signer, the operator and the balance as far as they were read, and the code that stopped it.
\<close>

record operator_check =
  op_signer :: "string option"
  op_operator :: "string option"
  op_balance :: "int option"
  op_blocked :: "error_code option"

definition wallet_balance ::
  "string option \<Rightarrow> 'w charge_deps \<Rightarrow> charge_settings \<Rightarrow> string \<Rightarrow> ('w, int) charge_prog" where
  "wallet_balance jobRunId deps settings signer = bindp (mem_get id) (\<lambda>cached.
     case cached of
       Some c \<Rightarrow>
         (let age = dep_now deps - cache_checkedAt c in
          if \<not> truthy jobRunId \<and> cache_address c = to_lower signer \<and> cache_balance c \<noteq> 0 \<and> 0 \<le> age \<and>
             age < adWalletRefreshIntervalMs (Some (set_automaticEnabled settings,
               Some (set_intervalMinutes settings)))
          then ret (cache_balance c)
          else bindp (extern (dep_balance deps signer)) (\<lambda>balance.
            thenp (mem_mod (\<lambda>_. Some \<lparr>cache_address = to_lower signer, cache_balance = balance,
              cache_checkedAt = dep_now deps\<rparr>)) (ret balance)))
     | None \<Rightarrow> bindp (extern (dep_balance deps signer)) (\<lambda>balance.
         thenp (mem_mod (\<lambda>_. Some \<lparr>cache_address = to_lower signer, cache_balance = balance,
           cache_checkedAt = dep_now deps\<rparr>)) (ret balance)))"

definition check_operator ::
  "string option \<Rightarrow> 'w charge_deps \<Rightarrow> charge_settings \<Rightarrow> ('w, operator_check) charge_prog" where
  "check_operator jobRunId deps settings = catchp
     (bindp (db_get id) (\<lambda>d.
      thenp (extern (dep_verify deps d))
      (bindp (extern (dep_unlock deps)) (\<lambda>signer. catchp
        (bindp (extern (dep_operator deps)) (\<lambda>op. let operator = to_lower op in
          if to_lower signer \<noteq> operator
          then ret \<lparr>op_signer = Some signer, op_operator = Some operator, op_balance = None,
            op_blocked = Some OPERATOR_MISMATCH\<rparr>
          else catchp
            (bindp (wallet_balance jobRunId deps settings signer) (\<lambda>balance.
              ret \<lparr>op_signer = Some signer, op_operator = Some operator, op_balance = Some balance,
                op_blocked = (if balance = 0 then Some INSUFFICIENT_GAS else None)\<rparr>))
            (\<lambda>e. ret \<lparr>op_signer = Some signer, op_operator = Some operator, op_balance = None,
              op_blocked = Some (charge_code e)\<rparr>)))
        (\<lambda>e. ret \<lparr>op_signer = Some signer, op_operator = None, op_balance = None,
          op_blocked = Some (charge_code e)\<rparr>)))))
     (\<lambda>e. ret \<lparr>op_signer = None, op_operator = None, op_balance = None,
       op_blocked = Some (charge_code e)\<rparr>)"

definition settings_after ::
  "'w charge_deps \<Rightarrow> reconciliation \<Rightarrow> operator_check \<Rightarrow> charge_settings \<Rightarrow> charge_settings" where
  "settings_after deps r oper s =
     (let s' = (case rec_checkpoint r of None \<Rightarrow> s
        | Some (n, h) \<Rightarrow> s\<lparr>set_reconciliationBlockNumber := Some n, set_reconciliationBlockHash := Some h\<rparr>)
      in s'\<lparr>set_workerHeartbeatAt := Some (dep_now deps),
        set_signerAddress := map_option to_lower (op_signer oper),
        set_operatorAddress := op_operator oper,
        set_gasBalanceRaw := op_balance oper,
        set_readiness := (if op_blocked oper \<noteq> None then Rd_BLOCKED
          else if rec_waiting r then Rd_WAITING_CONFIRMATION else Rd_READY),
        set_errorCode := (case op_blocked oper of Some e \<Rightarrow> Some e
          | None \<Rightarrow> if rec_waiting r then Some WAITING_CONFIRMATION else None)\<rparr>)"

text \<open>The runs of this pass; a due group of pending clicks starts an automatic one.\<close>

definition open_runs :: "int \<times> string \<Rightarrow> string option \<Rightarrow> ad_db \<Rightarrow> run list" where
  "open_runs w jobRunId d = sort_key run_createdAt (filter (\<lambda>r. run_of_identity w r \<and>
     run_recoverable (run_status r) \<and> (truthy jobRunId \<longrightarrow> Some (run_id r) = jobRunId)) (adChargeRun d))"

definition new_run :: "int \<times> string \<Rightarrow> string \<Rightarrow> int \<Rightarrow> run" where
  "new_run w i createdAt = \<lparr>run_id = i, run_chainId = fst w, run_contractAddress = snd w,
     run_trigger = AUTO, run_status = R_QUEUED, run_errorCode = None, run_startedAt = None,
     run_finishedAt = None, run_createdAt = createdAt\<rparr>"

definition create_run :: "run \<Rightarrow> ('m, 'w, unit) ad_prog" where
  "create_run r = bindp (db_get (\<lambda>d. \<exists>x\<in>set (adChargeRun d). run_id x = run_id r))
     (\<lambda>taken. if taken then throw Failure else db_mod (adChargeRun_update (\<lambda>rs. rs @ [r])))"

definition some_group_due :: "int \<times> string \<Rightarrow> charge_settings \<Rightarrow> int \<Rightarrow> ad_db \<Rightarrow> bool" where
  "some_group_due w settings now d \<longleftrightarrow> (\<exists>g\<in>set (click_groups (sort_key click_clickedAt (filter (\<lambda>c.
     of_identity w c \<and> click_status c = C_PENDING \<and> click_batchId c = None) (adBillingClick d)))).
     chargeGroupDue g settings now)"

definition select_runs ::
  "string option \<Rightarrow> 'w charge_deps \<Rightarrow> charge_settings \<Rightarrow> error_code option \<Rightarrow> ('m, 'w, run list) ad_prog" where
  "select_runs jobRunId deps settings blocked =
     (let w = (dep_chainId deps, dep_contractAddress deps) in
      bindp (db_get (open_runs w jobRunId)) (\<lambda>runs.
      if \<not> truthy jobRunId \<and> set_automaticEnabled settings \<and> blocked = None \<and>
         \<not> (\<exists>r\<in>set runs. run_trigger r = AUTO \<and> run_errorCode r \<noteq> Some CAPTURE_PROOF_ORPHANED)
      then bindp (db_get (some_group_due w settings (dep_now deps))) (\<lambda>due.
        if due then
          bindp (extern (dep_uuid deps)) (\<lambda>i. bindp (extern (dep_clock deps)) (\<lambda>createdAt.
            thenp (create_run (new_run w i createdAt)) (ret (runs @ [new_run w i createdAt]))))
        else ret runs)
      else ret runs))"

definition to_prepare :: "run \<Rightarrow> ad_db \<Rightarrow> batch list" where
  "to_prepare run d = sort_key batch_createdAt (filter (\<lambda>b. batch_runId b = run_id run \<and>
     batch_status b \<in> {B_PREPARED, B_FAILED}) (adChargeBatch d))"

text \<open>One batch of a run: skipped until its retry time, stopped when the switch went off.\<close>

definition charge_batch ::
  "run \<Rightarrow> 'w charge_deps \<Rightarrow> string \<Rightarrow> int \<Rightarrow> batch \<Rightarrow> bool \<times> error_code option
   \<Rightarrow> ('m, 'w, (bool \<times> error_code option) flow) ad_prog" where
  "charge_batch run deps signer head batch acc = (case acc of (waiting, failure) \<Rightarrow>
     if (case batch_nextAttemptAt batch of None \<Rightarrow> False | Some t \<Rightarrow> dep_now deps < t)
     then ret (Continue (waiting, failure))
     else bindp (if run_trigger run = AUTO
         then bindp (find_settings (dep_chainId deps, dep_contractAddress deps))
           (\<lambda>s. ret (\<not> set_automaticEnabled s))
         else ret False) (\<lambda>stop.
       if stop then ret (Break (waiting, failure))
       else catchp
         (bindp (prepareBatch batch deps signer head) (\<lambda>waits.
            ret (if waits \<or> waiting then Break (True, failure) else Continue (False, failure))))
         (\<lambda>e. thenp (update_batch (batch_id batch) (\<lambda>b. b\<lparr>batch_errorCode := Some (charge_code e)\<rparr>))
            (ret (if charge_code e = CAPTURE_PROOF_ORPHANED
               then Continue (waiting, Some (charge_code e))
               else Break (waiting, Some (charge_code e)))))))"

definition charge_run ::
  "'w charge_deps \<Rightarrow> charge_settings \<Rightarrow> string option \<Rightarrow> int \<Rightarrow> run \<Rightarrow> bool \<times> error_code option
   \<Rightarrow> ('m, 'w, bool \<times> error_code option) ad_prog" where
  "charge_run deps settings signer head run acc = (case acc of (waiting, blocked) \<Rightarrow>
     if run_trigger run = AUTO \<and> \<not> set_automaticEnabled settings then ret (waiting, blocked)
     else if blocked \<noteq> None \<or> signer = None then
       thenp (update_run (run_id run) (\<lambda>r. r\<lparr>run_status := R_BLOCKED,
           run_errorCode := Some (case blocked of Some e \<Rightarrow> e | None \<Rightarrow> KEYSTORE_INVALID)\<rparr>))
         (ret (waiting, blocked))
     else
       thenp (reserveRun run settings deps head)
       (bindp (db_get (to_prepare run)) (\<lambda>batches.
        bindp (loopp (charge_batch run deps (the signer) head) batches (waiting, None)) (\<lambda>(waiting', failure).
        thenp (refreshRun (run_id run) (dep_now deps) failure)
          (ret (waiting', if failure \<noteq> None \<and> failure \<noteq> Some WAITING_CONFIRMATION \<and>
             failure \<noteq> Some CAPTURE_PROOF_ORPHANED then failure else blocked))))))"

datatype job_outcome = AwaitingContract | JobBlocked error_code | JobWaiting | JobCompleted

definition run_charge_job ::
  "string option \<Rightarrow> 'w charge_deps \<Rightarrow> ('w, job_outcome) charge_prog" where
  "run_charge_job jobRunId deps =
     (let w = (dep_chainId deps, dep_contractAddress deps) in
      bindp (upsert_settings w) (\<lambda>settings0.
      thenp (convertPendingPrices (dep_formatUnits deps) w (dep_now deps))
      (bindp (reconcile_pass deps settings0) (\<lambda>r.
       bindp (case rec_blocked r of
           None \<Rightarrow> check_operator jobRunId deps settings0
         | Some e \<Rightarrow> ret \<lparr>op_signer = None, op_operator = None, op_balance = None, op_blocked = Some e\<rparr>)
       (\<lambda>oper.
       bindp (update_settings w (settings_after deps r oper)) (\<lambda>settings.
       thenp (forp (\<lambda>runId. refreshRun runId (dep_now deps) None) (rec_runs r))
       (bindp (select_runs jobRunId deps settings (op_blocked oper)) (\<lambda>runs.
        bindp (foldp (charge_run deps settings (op_signer oper) (rec_head r)) runs
          (rec_waiting r, op_blocked oper)) (\<lambda>(waiting, blocked).
        thenp (whenp (waiting \<or> blocked \<noteq> None) (thenp (update_settings w (\<lambda>s. s\<lparr>
            set_readiness := (if blocked \<noteq> None then Rd_BLOCKED else Rd_WAITING_CONFIRMATION),
            set_errorCode := Some (case blocked of Some e \<Rightarrow> e | None \<Rightarrow> WAITING_CONFIRMATION)\<rparr>)) (ret ())))
          (ret (case blocked of Some e \<Rightarrow> JobBlocked e
             | None \<Rightarrow> if waiting then JobWaiting else JobCompleted)))))))))))"

definition processAdChargeJob ::
  "string option \<Rightarrow> 'w charge_deps option \<Rightarrow> ('w, job_outcome) charge_prog" where
  "processAdChargeJob jobRunId dependencies = (case dependencies of
     None \<Rightarrow> ret AwaitingContract
   | Some deps \<Rightarrow> run_charge_job jobRunId
       (deps\<lparr>dep_contractAddress := to_lower (dep_contractAddress deps)\<rparr>))"

end
