(* ===== verification/Capture.thy ===== *)
theory Capture
  imports Delivery Charges
begin

section \<open>Clicks and their billing\<close>

text \<open>
  \<^verbatim>\<open>AdsService.click\<close> and \<^verbatim>\<open>captureBillingClick\<close> of \<^verbatim>\<open>apps/api/src/ads/ads.service.ts\<close>, with
  \<^verbatim>\<open>retainAdsData\<close> of \<^verbatim>\<open>apps/worker/src/ads-maintenance.ts\<close> for the rows a capture writes. A click on a
  delivered ad is claimed by the identifier of its delivery before anything is read from the chain,
  so a repeated link changes nothing. Columns of type \<^verbatim>\<open>uuid\<close> store lower case.
\<close>

text \<open>
  \<open>cp_dbNow\<close> is the database's clock, \<open>cp_count\<close> the counter in Redis, which answers whether it
  counted.
\<close>

record 'w capture_deps =
  cp_chain :: "'w adapter_deps"
  cp_ip :: ip_deps
  cp_codec :: token_codec
  cp_dbNow :: "('w, int) api_call"
  cp_count :: "string \<Rightarrow> ('w, bool) api_call"

subsection \<open>Claiming a click\<close>

text \<open>The database rejects integers that its columns cannot hold.\<close>

definition storable_claim :: "delivery_claim \<Rightarrow> int \<Rightarrow> bool" where
  "storable_claim q version \<longleftrightarrow> dl_chainId q < 2 ^ 31 \<and> version < 2 ^ 63"

definition new_click :: "string \<Rightarrow> delivery_claim \<Rightarrow> int \<Rightarrow> int \<Rightarrow> click" where
  "new_click i q version at = \<lparr>click_id = i, click_revisionId = dl_revisionId q, click_chainId = dl_chainId q,
     click_contractAddress = dl_contractAddress q, click_keywordId = dl_keywordId q, click_keyword = dl_keyword q,
     click_stakerAddress = dl_stakerAddress q, click_positionVersion = version, click_status = C_CAPTURING,
     click_bidUsdRaw = None, click_amountPreRaw = None, click_priceUsd = None, click_priceQuotedAt = None,
     click_bidBlockNumber = None, click_bidBlockHash = None, click_priceBlockNumber = None,
     click_priceBlockHash = None, click_errorCode = None, click_batchId = None, click_clickedAt = at\<rparr>"

text \<open>\<^verbatim>\<open>createMany\<close> with \<^verbatim>\<open>skipDuplicates\<close>: was the row inserted?\<close>

definition claim_click :: "click \<Rightarrow> ('m, 'w, bool) market_prog" where
  "claim_click row =
     bindp (db_get (\<lambda>d. \<exists>c\<in>set (adBillingClick (ledger d)). click_id c = click_id row)) (\<lambda>taken.
     if taken then ret False
     else thenp (db_mod (ledger_update (adBillingClick_update (\<lambda>rows. rows @ [row])))) (ret True))"

text \<open>\<^verbatim>\<open>updateMany\<close> on the row with this id while it is being captured; the number of rows changed.\<close>

definition update_capturing :: "string \<Rightarrow> (click \<Rightarrow> click) \<Rightarrow> ('m, 'w, nat) market_prog" where
  "update_capturing i f =
     bindp (db_get (\<lambda>d. count_where (\<lambda>c. click_id c = i \<and> click_status c = C_CAPTURING) (adBillingClick (ledger d))))
       (\<lambda>n. thenp (db_mod (ledger_update (adBillingClick_update
         (update_where (\<lambda>c. click_id c = i \<and> click_status c = C_CAPTURING) f)))) (ret n))"

definition unbilled :: "error_code \<Rightarrow> click \<Rightarrow> click" where
  "unbilled e c = c\<lparr>click_status := C_UNBILLED, click_errorCode := Some e\<rparr>"

subsection \<open>The price of a click\<close>

record capture =
  ca_status :: click_status
  ca_bidUsdRaw :: int
  ca_amountPreRaw :: "int option"
  ca_priceUsd :: "string option"
  ca_priceQuotedAt :: "int option"
  ca_priceBlockNumber :: "int option"
  ca_priceBlockHash :: "string option"
  ca_bidBlockNumber :: int
  ca_bidBlockHash :: string

text \<open>\<open>None\<close> where \<^verbatim>\<open>BigInt\<close> or \<^verbatim>\<open>billPreRaw\<close> throws.\<close>

definition click_capture :: "(int \<Rightarrow> string) \<Rightarrow> int \<Rightarrow> position_evidence \<Rightarrow> capture option" where
  "click_capture formatUnits bidUsd evidence = (case js_bigint (ev_preUsdPriceE18 evidence) of
     None \<Rightarrow> None
   | Some priceE18 \<Rightarrow>
       (let priceAvailable = priceE18 > 0 \<and> ev_preUsdPriceQuotedAt evidence > 0;
            priceUsd = if priceAvailable then Some (formatUnits priceE18) else None;
            row = (\<lambda>amount. \<lparr>
              ca_status = (if priceAvailable then (if amount = Some 0 then C_SETTLED else C_PENDING)
                else C_PRICE_PENDING),
              ca_bidUsdRaw = bidUsd, ca_amountPreRaw = amount, ca_priceUsd = priceUsd,
              ca_priceQuotedAt = (if priceAvailable then Some (ev_preUsdPriceQuotedAt evidence * 1000) else None),
              ca_priceBlockNumber = (if priceAvailable then Some (ev_blockNumber evidence) else None),
              ca_priceBlockHash = (if priceAvailable then Some (ev_blockHash evidence) else None),
              ca_bidBlockNumber = ev_blockNumber evidence, ca_bidBlockHash = ev_blockHash evidence\<rparr>)
        in if truthy priceUsd
           then (case bill_amount bidUsd (the priceUsd) of Inl _ \<Rightarrow> None | Inr amount \<Rightarrow> Some (row (Some amount)))
           else Some (row None)))"

definition write_capture :: "capture \<Rightarrow> click \<Rightarrow> click" where
  "write_capture k c = c\<lparr>click_status := ca_status k, click_bidUsdRaw := Some (ca_bidUsdRaw k),
     click_amountPreRaw := ca_amountPreRaw k, click_priceUsd := ca_priceUsd k,
     click_priceQuotedAt := ca_priceQuotedAt k, click_priceBlockNumber := ca_priceBlockNumber k,
     click_priceBlockHash := ca_priceBlockHash k, click_bidBlockNumber := Some (ca_bidBlockNumber k),
     click_bidBlockHash := Some (ca_bidBlockHash k)\<rparr>"

text \<open>A time past the last date of JavaScript is an invalid date, which Prisma refuses to write.\<close>

definition MAX_DATE_MS :: int where "MAX_DATE_MS = 8640000000000000"

definition storable_capture :: "capture \<Rightarrow> bool" where
  "storable_capture k \<longleftrightarrow> ca_bidBlockNumber k < 2 ^ 63 \<and>
     (case ca_priceQuotedAt k of None \<Rightarrow> True | Some t \<Rightarrow> t \<le> MAX_DATE_MS)"

definition bump_clicks :: "delivery_claim \<Rightarrow> bool \<Rightarrow> click_totals list \<Rightarrow> click_totals list" where
  "bump_clicks q allowed rows =
     (let here = (\<lambda>t. ct_chainId t = dl_chainId q \<and> ct_contractAddress t = dl_contractAddress q) in
      if \<exists>t\<in>set rows. here t
      then update_where here (\<lambda>t. if allowed then t\<lparr>ct_billableClicks := ct_billableClicks t + 1\<rparr>
        else t\<lparr>ct_suppressedClicks := ct_suppressedClicks t + 1\<rparr>) rows
      else rows @ [\<lparr>ct_chainId = dl_chainId q, ct_contractAddress = dl_contractAddress q,
        ct_billableClicks = (if allowed then 1 else 0), ct_suppressedClicks = (if allowed then 0 else 1)\<rparr>])"

text \<open>The transaction that decides whether the click is billed or suppressed.\<close>

definition record_capture ::
  "'w capture_deps \<Rightarrow> string \<Rightarrow> delivery_claim \<Rightarrow> string \<Rightarrow> capture \<Rightarrow> ('m, 'w, unit) market_prog" where
  "record_capture deps i q fingerprint k = transactional
     (bindp (extern (cp_dbNow deps)) (\<lambda>now.
      bindp (claimClickBillingWindow fingerprint now) (\<lambda>allowed.
      thenp (reject (\<not> storable_capture k) Other)
      (bindp (update_capturing i (\<lambda>c. let c' = write_capture k c in if allowed then c'
         else c'\<lparr>click_status := C_SUPPRESSED, click_errorCode := Some DUPLICATE_CLIENT_WINDOW\<rparr>)) (\<lambda>n.
       thenp (reject (n \<noteq> 1) Other)
         (db_mod (adBillingClickTotals_update (bump_clicks q allowed))))))))"

definition capture_body ::
  "'w capture_deps \<Rightarrow> delivery \<Rightarrow> string \<Rightarrow> string option \<Rightarrow> ('m, 'w, unit) market_prog" where
  "capture_body deps delivery campaignId ip = (let q = dv_claim delivery; i = to_lower (dv_deliveryId delivery) in
     bindp (or_throw Other (js_bigint (dl_positionVersion q))) (\<lambda>version.
     thenp (reject (\<not> storable_claim q version) Other)
     (bindp (extern (cp_dbNow deps)) (\<lambda>at.
      bindp (claim_click (new_click i q version at)) (\<lambda>claimed.
      if \<not> claimed then ret ()
      else (case clickBillingFingerprint (cp_ip deps) q campaignId ip of
        None \<Rightarrow> bindp (update_capturing i (unbilled CLIENT_IP_UNAVAILABLE)) (\<lambda>_. ret ())
      | Some fingerprint \<Rightarrow>
          bindp (billingPosition (cp_chain deps) q) (\<lambda>position. case position of
            Unavailable_position e \<Rightarrow> bindp (update_capturing i (unbilled e)) (\<lambda>_. ret ())
          | Found_position bidUsd evidence \<Rightarrow>
              bindp (or_throw Other (click_capture (rpc_formatUnits (cp_chain deps)) bidUsd evidence)) (\<lambda>k.
              if ca_amountPreRaw k = Some 0 then
                thenp (reject (\<not> storable_capture k) Other)
                  (bindp (update_capturing i (write_capture k)) (\<lambda>_. ret ()))
              else record_capture deps i q fingerprint k))))))))"

definition captureBillingClick ::
  "'w capture_deps \<Rightarrow> delivery \<Rightarrow> string \<Rightarrow> string option \<Rightarrow> ('m, 'w, unit) market_prog" where
  "captureBillingClick deps delivery campaignId ip = catchp (capture_body deps delivery campaignId ip)
     (\<lambda>_. catchp (bindp (update_capturing (to_lower (dv_deliveryId delivery)) (unbilled CAPTURE_FAILED)) (\<lambda>_. ret ()))
       (\<lambda>_. ret ()))"

subsection \<open>The click handler\<close>

definition clickable :: "revision \<Rightarrow> bool" where
  "clickable r \<longleftrightarrow> rev_status r = APPROVED \<or> (rev_status r = SUPERSEDED \<and> rev_moderatedAt r \<noteq> None)"

text \<open>The counter of \<^verbatim>\<open>ads-metrics.service.ts\<close> never throws.\<close>

definition incrementClick :: "'w capture_deps \<Rightarrow> string \<Rightarrow> ('m, 'w, bool) market_prog" where
  "incrementClick deps revisionId = catchp (extern (cp_count deps revisionId)) (\<lambda>_. ret False)"

definition ad_click ::
  "'w capture_deps \<Rightarrow> string \<Rightarrow> bool \<Rightarrow> string option \<Rightarrow> string option \<Rightarrow> ('m, 'w, string) market_prog" where
  "ad_click deps revisionId countMetrics deliveryToken ip =
     bindp (db_get (\<lambda>d. List.find (\<lambda>r. rev_id r = to_lower revisionId \<and> clickable r) (adCreativeRevision d)))
       (\<lambda>found. case found of
       None \<Rightarrow> throw NotFound
     | Some revision \<Rightarrow>
         thenp (if \<not> countMetrics then ret ()
           else thenp (incrementClick deps revisionId)
             (bindp (extern (rpc_clock (cp_chain deps))) (\<lambda>now.
              case readAdDelivery (cp_codec deps) (rpc_unicode (cp_chain deps)) (rpc_keccak (cp_chain deps)) now
                deliveryToken revisionId of
                None \<Rightarrow> ret ()
              | Some delivery \<Rightarrow> captureBillingClick deps delivery (rev_campaignId revision) ip)))
         (ret (cr_destinationUrl (rev_creative revision))))"

subsection \<open>Retention\<close>

text \<open>
  \<^verbatim>\<open>retainAdsData\<close> removes resolved reports after a year, windows that are over, and suppressed
  clicks after two hours. \<open>dbNow\<close> is the database's clock. The daily metrics and flush receipts
  it also removes are in theory Metrics.
\<close>

definition RETENTION_MS :: int where "RETENTION_MS = 365 * 24 * 60 * 60 * 1000"

definition retainAdsData :: "int \<Rightarrow> int \<Rightarrow> market_db \<Rightarrow> market_db" where
  "retainAdsData now dbNow d = d\<lparr>
     adReport := filter (\<lambda>r. \<not> (rep_status r \<noteq> OPEN \<and>
       (case rep_resolvedAt r of None \<Rightarrow> False | Some t \<Rightarrow> t < now - RETENTION_MS))) (adReport d),
     adBillingClickWindow := filter (\<lambda>w. \<not> win_expiresAt w \<le> dbNow) (adBillingClickWindow d),
     ledger := adBillingClick_update (filter (\<lambda>c. \<not> (click_status c = C_SUPPRESSED \<and>
       click_clickedAt c < now - 2 * 60 * 60000))) (ledger d)\<rparr>"

end
