(* ===== verification/Report_Totals.thy ===== *)
theory Report_Totals
  imports Moderation_Runs Capture
begin

section \<open>Report totals\<close>

text \<open>
  The totals of reports per revision and reason, over the requests of the ads service and the daily retention of
  the worker, which removes resolved reports after a year and leaves the totals (theories Moderation_Runs, Capture).
\<close>

datatype report_event = Requested market_request | Retained int int

text \<open>What a retention at the time \<open>at\<close> removes.\<close>

definition retention_removes :: "int \<Rightarrow> int \<Rightarrow> market_db \<Rightarrow> report list" where
  "retention_removes at dbNow d = filter (\<lambda>r. r \<notin> set (adReport (retainAdsData at dbNow d))) (adReport d)"

text \<open>A run of requests and retentions, with the removed reports and the time each was removed at.\<close>

fun report_run ::
  "unicode \<Rightarrow> (string \<Rightarrow> parsed_url option) \<Rightarrow> 'w api_deps \<Rightarrow> report_event list
   \<Rightarrow> (market_db, resolver_cache, 'w) machine \<times> (int \<times> report) list
   \<Rightarrow> (market_db, resolver_cache, 'w) machine \<times> (int \<times> report) list" where
  "report_run u parse deps [] x = x"
| "report_run u parse deps (Requested req # es) (s, R) = report_run u parse deps es (snd (serve u parse deps req s), R)"
| "report_run u parse deps (Retained at dbNow # es) (s, R) = report_run u parse deps es
     (s\<lparr>db := retainAdsData at dbNow (db s)\<rparr>, R @ map (Pair at) (retention_removes at dbNow (db s)))"

definition reported_as :: "string \<Rightarrow> string \<Rightarrow> report \<Rightarrow> bool" where
  "reported_as i reason r \<longleftrightarrow> rep_revisionId r = i \<and> rep_reason r = reason"

definition overdue :: "int \<times> report \<Rightarrow> bool" where
  "overdue x \<longleftrightarrow> rep_status (snd x) \<noteq> OPEN \<and>
     (\<exists>t. rep_resolvedAt (snd x) = Some t \<and> t + 365 * 24 * 60 * 60 * 1000 < fst x)"

lemma kept_and_removed:
  "count_where P (adReport d) =
     count_where P (adReport (retainAdsData at dbNow d)) + count_where P (retention_removes at dbNow d)"
proof -
  let ?Q = "\<lambda>r. \<not> (rep_status r \<noteq> OPEN \<and> (case rep_resolvedAt r of None \<Rightarrow> False | Some t \<Rightarrow> t < at - RETENTION_MS))"
  have kept: "adReport (retainAdsData at dbNow d) = filter ?Q (adReport d)" by (simp add: retainAdsData_def)
  have "retention_removes at dbNow d = filter (\<lambda>r. \<not> ?Q r) (adReport d)"
    unfolding retention_removes_def kept by (rule filter_cong) simp_all
  moreover have "length (filter P xs) = length (filter P (filter ?Q xs)) + length (filter P (filter (\<lambda>r. \<not> ?Q r) xs))" for xs
    by (induction xs) simp_all
  ultimately show ?thesis unfolding kept count_where_def by simp
qed

lemma removed_overdue: "x \<in> set (map (Pair at) (retention_removes at dbNow d)) \<Longrightarrow> overdue x"
  by (auto simp: retention_removes_def retainAdsData_def overdue_def RETENTION_MS_def split: option.splits)

lemma retention_keeps_reports:
  assumes "reports_inv K d"
  shows "reports_inv (\<lambda>i reason. K i reason + count_where (reported_as i reason) (retention_removes at dbNow d))
    (retainAdsData at dbNow d)"
proof -
  have "distinct (map f xs) \<Longrightarrow> distinct (map f (filter Q xs))" for f :: "report \<Rightarrow> string \<times> string \<times> int" and Q xs
    by (rule distinct_map_filter)
  then show ?thesis
    using assms kept_and_removed [of "reported_as _ _" d at dbNow]
    by (simp add: reports_inv_def reported_as_def [abs_def]) (simp add: retainAdsData_def)
qed

lemma run_keeps_totals:
  assumes "report_run u parse deps es (s, R) = (s', R')"
    and "reports_inv (\<lambda>i reason. count_where (reported_as i reason) (map snd R)) (db s)" and "\<forall>x\<in>set R. overdue x"
  shows "reports_inv (\<lambda>i reason. count_where (reported_as i reason) (map snd R')) (db s') \<and> (\<forall>x\<in>set R'. overdue x)"
  using assms
proof (induction es arbitrary: s R)
  case (Cons e es)
  have app: "count_where P (xs @ ys) = count_where P xs + count_where P ys" for P :: "report \<Rightarrow> bool" and xs ys
    by (simp add: count_where_def)
  show ?case
  proof (cases e)
    case (Requested req)
    show ?thesis
      by (rule Cons.IH [OF _ keepsD [OF serve_keeps_reports Cons.prems(2)] Cons.prems(3)])
        (use Cons.prems(1) in \<open>simp add: Requested\<close>)
  next
    case (Retained at dbNow)
    let ?X = "map (Pair at) (retention_removes at dbNow (db s))"
    have "map snd (R @ ?X) = map snd R @ retention_removes at dbNow (db s)" by (simp add: comp_def)
    then have "reports_inv (\<lambda>i reason. count_where (reported_as i reason) (map snd (R @ ?X)))
        (db (s\<lparr>db := retainAdsData at dbNow (db s)\<rparr>))"
      using retention_keeps_reports [OF Cons.prems(2), of at dbNow] by (simp add: app)
    from Cons.IH [OF _ this] show ?thesis
      using Cons.prems(1,3) removed_overdue by (simp add: Retained) blast
  qed
qed simp

text \<open>
  C20: The totals shown to moderators are exact along every sequence of requests and daily retentions: for each
  revision and reason the stored total is the number of its reports, those still stored and those that a retention
  has removed. A removed report had been resolved for more than a year; an open report is never removed.
  Among the stored reports a reporter's fingerprint occurs at most once per revision and day.
\<close>

theorem report_totals_exact:
  assumes "reports_inv (\<lambda>_ _. 0) (db s)" and "report_run u parse deps events (s, []) = (s', removed)"
  shows "(\<forall>i reason. total_of (adReportAggregate (db s')) i reason =
      count_where (\<lambda>r. rep_revisionId r = i \<and> rep_reason r = reason) (adReport (db s')) +
      count_where (\<lambda>r. rep_revisionId r = i \<and> rep_reason r = reason) (map snd removed)) \<and>
    (\<forall>(removedAt, r)\<in>set removed. rep_status r \<noteq> OPEN \<and>
      (\<exists>t. rep_resolvedAt r = Some t \<and> t + 365 * 24 * 60 * 60 * 1000 < removedAt)) \<and>
    distinct (map (\<lambda>r. (rep_revisionId r, rep_fingerprint r, rep_day r)) (adReport (db s')))"
proof -
  have "reports_inv (\<lambda>i reason. count_where (reported_as i reason) (map snd ([] :: (int \<times> report) list))) (db s)"
    using assms(1) by (simp add: count_where_def)
  from run_keeps_totals [OF assms(2) this] show ?thesis
    by (auto simp: reports_inv_def reported_as_def [abs_def] overdue_def)
qed

text \<open>A report, its resolution, a retention more than a year later, and the next report of the same revision.\<close>

definition sample_events :: "report_event list" where
  "sample_events = map Requested sample_requests @ [Retained 40000000000 40000000000]"

lemma report_totals_exact_witness:
  "\<exists>s' r. report_run ascii (\<lambda>_. None) sample_deps sample_events (sample_api, []) = (s', [(40000000000, r)]) \<and>
     adReport (db s') = [] \<and> total_of (adReportAggregate (db s')) ''r'' ''scam'' = 1 \<and> rep_status r = ACTIONED"
proof -
  let ?run = "report_run ascii (\<lambda>_. None) sample_deps sample_events (sample_api, [])"
  have run: "adReport (db (fst ?run)) = []" "map fst (snd ?run) = [40000000000]"
    "map (\<lambda>x. (rep_revisionId (snd x), rep_reason (snd x), rep_status (snd x))) (snd ?run) = [(''r'', ''scam'', ACTIONED)]"
    by code_simp+
  then obtain r where r: "snd ?run = [(40000000000, r)]" "rep_revisionId r = ''r''" "rep_reason r = ''scam''" "rep_status r = ACTIONED"
    by (cases "snd ?run") auto
  obtain s' R where eq: "?run = (s', R)" by fastforce
  have "total_of (adReportAggregate (db s')) ''r'' ''scam'' = 1"
    using report_totals_exact [OF sample_inv(2) eq] run(1) r unfolding eq by (simp add: count_where_def)
  then show ?thesis using eq run(1) r by simp
qed

end
