(* ===== verification/Charge_Settlement.thy ===== *)
theory Charge_Settlement
  imports Charges
begin

section \<open>Grouping, allotment and the billing invariant\<close>

text \<open>
  The pure parts of the charge worker: grouping pending clicks by position, and sharing a charged
  amount out to the clicks of a batch. Then the billing invariant, which ties every batch to its
  clicks, and the fact that settling a receipt keeps it.
\<close>

subsection \<open>Groups\<close>

lemma insert_group_keys:
  "map fst (insert_group k c m) = (if k \<in> fst ` set m then map fst m else map fst m @ [k])"
proof (induction m)
  case (Cons p m)
  then show ?case by (cases p) (auto simp: image_iff)
qed simp

lemma insert_group_entry:
  "distinct (map fst m) \<Longrightarrow> (k', g) \<in> set (insert_group k c m) \<longleftrightarrow>
     (if k' = k then (k \<notin> fst ` set m \<and> g = [c]) \<or> (\<exists>g0. (k, g0) \<in> set m \<and> g = g0 @ [c])
      else (k', g) \<in> set m)"
proof (induction m)
  case (Cons p m)
  obtain k0 g0 where p: "p = (k0, g0)" by (cases p)
  show ?case
  proof (cases "k0 = k")
    case True
    then have "k \<notin> fst ` set m" using Cons.prems p by simp
    then have "\<forall>g. (k, g) \<notin> set m" by (auto simp: rev_image_eqI)
    with True p show ?thesis by auto
  next
    case False
    with Cons p show ?thesis by auto
  qed
qed auto

lemma group_fold:
  "distinct (map fst (foldl (\<lambda>m c. insert_group (group_key c) c m) [] clicks)) \<and>
   fst ` set (foldl (\<lambda>m c. insert_group (group_key c) c m) [] clicks) = group_key ` set clicks \<and>
   (\<forall>k g. (k, g) \<in> set (foldl (\<lambda>m c. insert_group (group_key c) c m) [] clicks) \<longrightarrow>
      g = filter (\<lambda>c. group_key c = k) clicks)"
proof (induction clicks rule: rev_induct)
  case Nil
  then show ?case by simp
next
  case (snoc c cs)
  let ?m = "foldl (\<lambda>m c. insert_group (group_key c) c m) [] cs"
  let ?m' = "insert_group (group_key c) c ?m"
  have dist: "distinct (map fst ?m)" and keys: "fst ` set ?m = group_key ` set cs"
    and ent: "\<And>k g. (k, g) \<in> set ?m \<Longrightarrow> g = filter (\<lambda>c. group_key c = k) cs"
    using snoc.IH by blast+
  have "distinct (map fst ?m')"
    using dist by (simp add: insert_group_keys image_iff)
  moreover have "set (map fst ?m') = set (map fst ?m) \<union> {group_key c}"
    by (auto simp: insert_group_keys)
  then have "fst ` set ?m' = group_key ` set (cs @ [c])"
    using keys by auto
  moreover have "g = filter (\<lambda>c. group_key c = k) (cs @ [c])" if "(k, g) \<in> set ?m'" for k g
  proof (cases "k = group_key c")
    case True
    with that have "(group_key c \<notin> fst ` set ?m \<and> g = [c]) \<or>
        (\<exists>g0. (group_key c, g0) \<in> set ?m \<and> g = g0 @ [c])"
      using insert_group_entry [OF dist] by auto
    then show ?thesis
    proof (elim disjE exE conjE)
      assume "group_key c \<notin> fst ` set ?m" and g: "g = [c]"
      then have "filter (\<lambda>x. group_key x = group_key c) cs = []"
        using keys by (auto simp: filter_empty_conv image_iff)
      with g True show ?thesis by simp
    next
      fix g0
      assume "(group_key c, g0) \<in> set ?m" and g: "g = g0 @ [c]"
      with ent [of "group_key c" g0] True show ?thesis by simp
    qed
  next
    case False
    with that have "(k, g) \<in> set ?m" using insert_group_entry [OF dist] by auto
    with False ent show ?thesis by auto
  qed
  ultimately show ?case by simp
qed

text \<open>Every click is in exactly one group: the group of its key, which holds exactly its peers.\<close>

lemma click_groups_iff:
  "g \<in> set (click_groups clicks) \<longleftrightarrow>
     (\<exists>c\<in>set clicks. g = filter (\<lambda>x. group_key x = group_key c) clicks)"
proof -
  let ?m = "foldl (\<lambda>m c. insert_group (group_key c) c m) [] clicks"
  have keys: "fst ` set ?m = group_key ` set clicks"
    and ent: "\<And>k g. (k, g) \<in> set ?m \<Longrightarrow> g = filter (\<lambda>c. group_key c = k) clicks"
    using group_fold [of clicks] by blast+
  show ?thesis
  proof
    assume "g \<in> set (click_groups clicks)"
    then obtain k where k: "(k, g) \<in> set ?m" by (auto simp: click_groups_def)
    then have "k \<in> group_key ` set clicks" using keys by force
    with ent [OF k] show "\<exists>c\<in>set clicks. g = filter (\<lambda>x. group_key x = group_key c) clicks"
      by auto
  next
    assume "\<exists>c\<in>set clicks. g = filter (\<lambda>x. group_key x = group_key c) clicks"
    then obtain c where c: "c \<in> set clicks" "g = filter (\<lambda>x. group_key x = group_key c) clicks"
      by blast
    then have "group_key c \<in> fst ` set ?m" using keys by simp
    then obtain g' where g': "(group_key c, g') \<in> set ?m" by auto
    then have "g' = g" using ent c by simp
    with g' have "g \<in> snd ` set ?m" by force
    then show "g \<in> set (click_groups clicks)" by (simp add: click_groups_def)
  qed
qed

lemma click_groups_nonempty: "g \<in> set (click_groups clicks) \<Longrightarrow> g \<noteq> []"
  by (auto simp: click_groups_iff filter_empty_conv)

lemma click_groups_cover: "(\<Union>g\<in>set (click_groups clicks). set g) = set clicks"
  by (force simp: Bex_def click_groups_iff)

lemma click_groups_same_key:
  "g \<in> set (click_groups clicks) \<Longrightarrow> c \<in> set g \<Longrightarrow> c' \<in> set g \<Longrightarrow> group_key c = group_key c'"
  by (auto simp: click_groups_iff)

lemma distinct_group_ids:
  "g \<in> set (click_groups clicks) \<Longrightarrow> distinct (map click_id clicks) \<Longrightarrow> distinct (map click_id g)"
  by (auto simp: click_groups_iff distinct_map intro: inj_on_subset)

lemma click_groups_distinct: "distinct (click_groups clicks)"
proof -
  let ?m = "foldl (\<lambda>m c. insert_group (group_key c) c m) [] clicks"
  have dist: "distinct (map fst ?m)" and keys: "fst ` set ?m = group_key ` set clicks"
    and ent: "\<And>k g. (k, g) \<in> set ?m \<Longrightarrow> g = filter (\<lambda>c. group_key c = k) clicks"
    using group_fold [of clicks] by blast+
  have "inj_on snd (set ?m)"
  proof (rule inj_onI)
    fix p q
    assume pq: "p \<in> set ?m" "q \<in> set ?m" "snd p = snd q"
    obtain c where c: "c \<in> set clicks" "group_key c = fst p"
      using pq(1) keys by (metis (no_types, lifting) image_eqI image_iff)
    have "snd p = filter (\<lambda>c. group_key c = fst p) clicks" "snd q = filter (\<lambda>c. group_key c = fst q) clicks"
      using pq(1,2) ent [of "fst p" "snd p"] ent [of "fst q" "snd q"] by simp_all
    with pq(3) have eq: "filter (\<lambda>c. group_key c = fst p) clicks = filter (\<lambda>c. group_key c = fst q) clicks"
      by simp
    have "c \<in> set (filter (\<lambda>c. group_key c = fst p) clicks)" using c by simp
    then have "c \<in> set (filter (\<lambda>c. group_key c = fst q) clicks)" unfolding eq .
    with c have "fst p = fst q" by simp
    with dist pq(1,2) show "p = q" by (rule distinct_map_eq)
  qed
  moreover have "distinct ?m" using dist by (simp add: distinct_map)
  ultimately show ?thesis by (simp add: click_groups_def distinct_map)
qed

lemma click_groups_disjoint:
  "g \<in> set (click_groups clicks) \<Longrightarrow> h \<in> set (click_groups clicks) \<Longrightarrow> c \<in> set g \<Longrightarrow> c \<in> set h \<Longrightarrow> g = h"
  by (auto simp: click_groups_iff)

text \<open>Positions whose identifiers hold no colon are told apart by the key.\<close>

lemma append_separator:
  "x \<notin> set a \<Longrightarrow> x \<notin> set a' \<Longrightarrow> a @ x # b = a' @ x # b' \<longleftrightarrow> a = a' \<and> b = b'"
proof (induction a arbitrary: a')
  case Nil
  then show ?case by (cases a') auto
next
  case (Cons y a)
  then show ?case by (cases a') auto
qed

definition colon_free :: "click \<Rightarrow> bool" where
  "colon_free c \<longleftrightarrow> CHR '':'' \<notin> set (click_keywordId c) \<and> CHR '':'' \<notin> set (click_stakerAddress c)"

lemma group_key_position:
  "colon_free c \<Longrightarrow> colon_free c' \<Longrightarrow> group_key c = group_key c' \<longleftrightarrow>
     click_keywordId c = click_keywordId c' \<and> click_stakerAddress c = click_stakerAddress c' \<and>
     click_positionVersion c = click_positionVersion c'"
  by (auto simp: group_key_def colon_free_def append_separator)

subsection \<open>Due amounts\<close>

definition amt :: "click \<Rightarrow> int" where
  "amt c = (case click_amountPreRaw c of None \<Rightarrow> 0 | Some a \<Rightarrow> a)"

definition priced_click :: "click \<Rightarrow> bool" where
  "priced_click c \<longleftrightarrow> (\<exists>a\<ge>0. click_amountPreRaw c = Some a)"

lemma amt_nonneg: "priced_click c \<Longrightarrow> 0 \<le> amt c"
  by (auto simp: priced_click_def amt_def)

lemma total_due_sum: "\<forall>c\<in>set cs. priced_click c \<Longrightarrow> total_due cs = Some (sum_list (map amt cs))"
  by (induction cs) (auto simp: priced_click_def amt_def)

lemma total_due_Some: "total_due cs = Some t \<Longrightarrow> t = sum_list (map amt cs)"
  by (induction cs arbitrary: t) (auto simp: amt_def split: option.splits)

subsection \<open>Allotment\<close>

lemma allot_total:
  "\<forall>c\<in>set cs. priced_click c \<Longrightarrow> \<exists>s u. allot a cs = Some (s, u)"
proof (induction cs arbitrary: a)
  case (Cons c cs)
  then obtain d where d: "click_amountPreRaw c = Some d" by (auto simp: priced_click_def)
  obtain s u where "allot (if d \<le> a then a - d else 0) cs = Some (s, u)"
    using Cons by fastforce
  with d show ?case by simp
qed simp

lemma allot_ConsE:
  assumes "allot a (c # cs) = Some (s, u)"
  obtains d s' u' where "click_amountPreRaw c = Some d" "amt c = d"
    "allot (if d \<le> a then a - d else 0) cs = Some (s', u')"
    "s = (if d \<le> a then click_id c # s' else s')" "u = (if d \<le> a then u' else click_id c # u')"
  using assms by (auto simp: amt_def split: option.splits if_splits)

lemma allot_members: "allot a cs = Some (s, u) \<Longrightarrow> set s \<union> set u = click_id ` set cs"
proof (induction cs arbitrary: a s u)
  case (Cons c cs)
  from Cons.prems obtain d s' u' where
    rest: "allot (if d \<le> a then a - d else 0) cs = Some (s', u')" and
    su: "s = (if d \<le> a then click_id c # s' else s')" "u = (if d \<le> a then u' else click_id c # u')"
    by (rule allot_ConsE)
  from Cons.IH [OF rest] su show ?case by (cases "d \<le> a") auto
qed simp

lemma allot_disjoint:
  "allot a cs = Some (s, u) \<Longrightarrow> distinct (map click_id cs) \<Longrightarrow> set s \<inter> set u = {}"
proof (induction cs arbitrary: a s u)
  case (Cons c cs)
  from Cons.prems(1) obtain d s' u' where
    rest: "allot (if d \<le> a then a - d else 0) cs = Some (s', u')" and
    su: "s = (if d \<le> a then click_id c # s' else s')" "u = (if d \<le> a then u' else click_id c # u')"
    by (rule allot_ConsE)
  have "set s' \<inter> set u' = {}" using Cons.IH [OF rest] Cons.prems(2) by simp
  moreover have "click_id c \<notin> set s' \<union> set u'"
    unfolding allot_members [OF rest] using Cons.prems(2) by simp
  ultimately show ?case using su by (cases "d \<le> a") auto
qed simp

text \<open>What is settled never exceeds what was charged.\<close>

lemma allot_bound:
  "allot a cs = Some (s, u) \<Longrightarrow> 0 \<le> a \<Longrightarrow> distinct (map click_id cs) \<Longrightarrow>
   sum_list (map amt (filter (\<lambda>c. click_id c \<in> set s) cs)) \<le> a"
proof (induction cs arbitrary: a s u)
  case (Cons c cs)
  from Cons.prems(1) obtain d s' u' where d: "amt c = d" and
    rest: "allot (if d \<le> a then a - d else 0) cs = Some (s', u')" and
    su: "s = (if d \<le> a then click_id c # s' else s')"
    by (rule allot_ConsE)
  have notin: "click_id c \<notin> set s'" "\<forall>x\<in>set cs. click_id x \<noteq> click_id c"
    using allot_members [OF rest] Cons.prems(3) by (auto simp: image_iff)
  have IH: "sum_list (map amt (filter (\<lambda>c. click_id c \<in> set s') cs)) \<le> (if d \<le> a then a - d else 0)"
    using Cons.IH [OF rest] Cons.prems(2,3) by simp
  have "filter (\<lambda>x. click_id x \<in> insert (click_id c) (set s')) cs = filter (\<lambda>x. click_id x \<in> set s') cs"
    using notin(2) by (intro filter_cong) auto
  with IH su notin(1) d Cons.prems(2) show ?case by (cases "d \<le> a") simp_all
qed simp

text \<open>A charge that covers the whole due settles every click; a smaller one leaves some click open.\<close>

lemma allot_full:
  "allot a cs = Some (s, u) \<Longrightarrow> \<forall>c\<in>set cs. priced_click c \<Longrightarrow> sum_list (map amt cs) \<le> a \<Longrightarrow> u = []"
proof (induction cs arbitrary: a s u)
  case (Cons c cs)
  from Cons.prems(1) obtain d s' u' where d: "amt c = d" and
    rest: "allot (if d \<le> a then a - d else 0) cs = Some (s', u')" and
    su: "u = (if d \<le> a then u' else click_id c # u')"
    by (rule allot_ConsE)
  have "0 \<le> sum_list (map amt cs)"
    using Cons.prems(2) amt_nonneg by (intro sum_list_nonneg) auto
  with Cons.prems(3) d have "d \<le> a" "sum_list (map amt cs) \<le> a - d" by simp_all
  with Cons.IH [OF rest] Cons.prems(2) su show ?case by simp
qed simp

lemma allot_short:
  assumes "allot a cs = Some (s, u)" and "0 \<le> a" and "distinct (map click_id cs)"
    and "a < sum_list (map amt cs)"
  shows "u \<noteq> []"
proof
  assume "u = []"
  then have "set s = click_id ` set cs" using allot_members [OF assms(1)] by simp
  then have "filter (\<lambda>c. click_id c \<in> set s) cs = cs" by (auto simp: filter_id_conv)
  with allot_bound [OF assms(1-3)] assms(4) show False by simp
qed

text \<open>Clicks with a positive amount are settled in the order they were made.\<close>

lemma allot_zero: "\<forall>c\<in>set cs. priced_click c \<and> 0 < amt c \<Longrightarrow> allot 0 cs = Some ([], map click_id cs)"
  by (induction cs) (auto simp: priced_click_def amt_def)

lemma allot_prefix:
  "\<forall>c\<in>set cs. priced_click c \<and> 0 < amt c \<Longrightarrow>
   \<exists>k. allot a cs = Some (map click_id (take k cs), map click_id (drop k cs))"
proof (induction cs arbitrary: a)
  case (Cons c cs)
  then obtain d where d: "click_amountPreRaw c = Some d" "0 < d"
    by (auto simp: priced_click_def amt_def)
  show ?case
  proof (cases "d \<le> a")
    case True
    obtain k where "allot (a - d) cs = Some (map click_id (take k cs), map click_id (drop k cs))"
      using Cons by fastforce
    with d True show ?thesis by (intro exI [of _ "Suc k"]) simp
  next
    case False
    with d Cons.prems show ?thesis by (intro exI [of _ 0]) (simp add: allot_zero)
  qed
qed simp

subsection \<open>The billing invariant\<close>

definition clicks_of :: "ad_db \<Rightarrow> string \<Rightarrow> click list" where
  "clicks_of d i = filter (\<lambda>c. click_batchId c = Some i) (adBillingClick d)"

definition all_status :: "click_status \<Rightarrow> click list \<Rightarrow> bool" where
  "all_status st cs \<longleftrightarrow> (\<forall>c\<in>set cs. click_status c = st)"

definition settled_total :: "click list \<Rightarrow> int" where
  "settled_total cs = sum_list (map amt (filter (\<lambda>c. click_status c = C_SETTLED) cs))"

text \<open>
  What a batch status says of its charge and of its clicks: an open batch has charged nothing and
  holds its clicks reserved; a confirmed one charged its due and settled every click; a partial one
  settled clicks up to what it charged; an uncollectable one settled none.
\<close>

definition states_ok :: "batch \<Rightarrow> click list \<Rightarrow> bool" where
  "states_ok b cs = (case batch_status b of
     B_CONFIRMED \<Rightarrow> batch_chargedPreRaw b = Some (batch_duePreRaw b) \<and>
       batch_shortfallPreRaw b = Some 0 \<and> all_status C_SETTLED cs
   | B_PARTIAL \<Rightarrow> (\<exists>charged\<ge>0. charged < batch_duePreRaw b \<and> batch_chargedPreRaw b = Some charged \<and>
       batch_shortfallPreRaw b = Some (batch_duePreRaw b - charged) \<and>
       (\<forall>c\<in>set cs. click_status c \<in> {C_SETTLED, C_UNCOLLECTABLE}) \<and>
       (\<exists>c\<in>set cs. click_status c = C_UNCOLLECTABLE) \<and> settled_total cs \<le> charged)
   | B_UNCOLLECTABLE \<Rightarrow> batch_chargedPreRaw b = Some 0 \<and>
       batch_shortfallPreRaw b = Some (batch_duePreRaw b) \<and> all_status C_UNCOLLECTABLE cs
   | _ \<Rightarrow> batch_chargedPreRaw b = None \<and> batch_shortfallPreRaw b = None \<and> all_status C_RESERVED cs)"

definition proof_ok :: "batch \<Rightarrow> bool" where
  "proof_ok b \<longleftrightarrow> (batch_terminal (batch_status b) \<and> batch_signed b \<longrightarrow>
     truthy (batch_receiptBlockHash b) \<and> batch_receiptBlockNumber b \<noteq> None)"

definition batch_ok :: "batch \<Rightarrow> click list \<Rightarrow> bool" where
  "batch_ok b cs \<longleftrightarrow> batch_duePreRaw b = sum_list (map amt cs) \<and>
     batch_requestedPreRaw b = (if batch_duePreRaw b > maxUint256 then maxUint256 else batch_duePreRaw b) \<and>
     batch_clickCount b = length cs \<and> states_ok b cs \<and> proof_ok b"

definition same_position :: "batch \<Rightarrow> click \<Rightarrow> bool" where
  "same_position b c \<longleftrightarrow> batch_chainId b = click_chainId c \<and>
     batch_contractAddress b = click_contractAddress c \<and> batch_keywordId b = click_keywordId c \<and>
     batch_stakerAddress b = click_stakerAddress c \<and> batch_positionVersion b = click_positionVersion c"

definition click_ok :: "click \<Rightarrow> bool" where
  "click_ok c \<longleftrightarrow> colon_free c \<and> (click_amountPreRaw c = None \<or> priced_click c) \<and>
     (\<forall>bid. click_bidUsdRaw c = Some bid \<longrightarrow> 0 < bid) \<and>
     (click_status c = C_PENDING \<or> click_batchId c \<noteq> None \<longrightarrow> priced_click c)"

definition billing_inv :: "ad_db \<Rightarrow> bool" where
  "billing_inv d \<longleftrightarrow> distinct (map click_id (adBillingClick d)) \<and>
     distinct (map batch_id (adChargeBatch d)) \<and>
     (\<forall>c\<in>set (adBillingClick d). click_ok c \<and>
        (\<forall>i. click_batchId c = Some i \<longrightarrow> (\<exists>b\<in>set (adChargeBatch d). batch_id b = i \<and> same_position b c))) \<and>
     (\<forall>b\<in>set (adChargeBatch d). batch_ok b (clicks_of d (batch_id b)))"

lemma billing_invD:
  assumes "billing_inv d"
  shows "distinct (map click_id (adBillingClick d))" "distinct (map batch_id (adChargeBatch d))"
    "\<And>c. c \<in> set (adBillingClick d) \<Longrightarrow> click_ok c"
    "\<And>c i. c \<in> set (adBillingClick d) \<Longrightarrow> click_batchId c = Some i \<Longrightarrow>
       \<exists>b\<in>set (adChargeBatch d). batch_id b = i \<and> same_position b c"
    "\<And>b. b \<in> set (adChargeBatch d) \<Longrightarrow> batch_ok b (clicks_of d (batch_id b))"
  using assms by (auto simp: billing_inv_def)

lemma clicks_of_priced: "billing_inv d \<Longrightarrow> c \<in> set (clicks_of d i) \<Longrightarrow> priced_click c"
  using billing_invD(3) [of d c] by (auto simp: clicks_of_def click_ok_def)

lemma clicks_of_distinct: "billing_inv d \<Longrightarrow> distinct (map click_id (clicks_of d i))"
  using billing_invD(1) [of d] by (auto simp: clicks_of_def distinct_map intro: inj_on_subset)

lemma due_nonneg: "billing_inv d \<Longrightarrow> b \<in> set (adChargeBatch d) \<Longrightarrow> 0 \<le> batch_duePreRaw b"
  using billing_invD(5) [of d b] clicks_of_priced [of d _ "batch_id b"] amt_nonneg
  by (auto simp: batch_ok_def intro!: sum_list_nonneg)

subsection \<open>Writes that keep the invariant\<close>

text \<open>Writes to clicks of no batch.\<close>

definition batched_status :: "click_status \<Rightarrow> bool" where
  "batched_status st \<longleftrightarrow> st \<in> {C_RESERVED, C_SETTLED, C_UNCOLLECTABLE}"

lemma inv_batched_status:
  assumes "billing_inv d" and "c \<in> set (adBillingClick d)" and "click_batchId c = Some i"
  shows "batched_status (click_status c)"
proof -
  obtain b where b: "b \<in> set (adChargeBatch d)" "batch_id b = i"
    using billing_invD(4) [OF assms] by blast
  have "c \<in> set (clicks_of d i)" using assms(2,3) by (simp add: clicks_of_def)
  with billing_invD(5) [OF assms(1) b(1)] b(2) show ?thesis
    by (cases "batch_status b")
      (auto simp: batch_ok_def states_ok_def all_status_def batched_status_def)
qed

definition unbatched_write :: "(click \<Rightarrow> bool) \<Rightarrow> (click \<Rightarrow> click) \<Rightarrow> bool" where
  "unbatched_write P f \<longleftrightarrow> (\<forall>c. P c \<and> click_ok c \<and>
     (click_batchId c \<noteq> None \<longrightarrow> batched_status (click_status c)) \<longrightarrow> click_batchId c = None \<and> click_batchId (f c) = None \<and>
     click_id (f c) = click_id c \<and> click_ok (f c))"

lemma inv_unbatched:
  assumes inv: "billing_inv d" and w: "unbatched_write P f"
  shows "billing_inv (adBillingClick_update (update_where P f) d)" (is "billing_inv ?d")
proof -
  have c_ok: "click_ok c \<and> (click_batchId c \<noteq> None \<longrightarrow> batched_status (click_status c))"
    if "c \<in> set (adBillingClick d)" for c
    using billing_invD(3) [OF inv that] inv_batched_status [OF inv that] by blast
  have ids: "map click_id (adBillingClick ?d) = map click_id (adBillingClick d)"
    using w c_ok by (auto simp: update_where_def unbatched_write_def)
  have batched: "clicks_of ?d i = clicks_of d i" for i
  proof -
    have "filter (\<lambda>c. click_batchId c = Some i) (update_where P f cs) =
        filter (\<lambda>c. click_batchId c = Some i) cs"
      if "\<forall>c\<in>set cs. click_ok c \<and> (click_batchId c \<noteq> None \<longrightarrow> batched_status (click_status c))" for cs
      using that w by (induction cs) (auto simp: update_where_def unbatched_write_def)
    then show ?thesis using c_ok by (simp add: clicks_of_def)
  qed
  have rows: "click_ok c \<and> (\<forall>i. click_batchId c = Some i \<longrightarrow>
      (\<exists>b\<in>set (adChargeBatch d). batch_id b = i \<and> same_position b c))"
    if "c \<in> set (adBillingClick ?d)" for c
  proof -
    from that have "c \<in> set (update_where P f (adBillingClick d))" by simp
    then show ?thesis
    proof (rule in_update_whereE)
      assume "c \<in> set (adBillingClick d)"
      then show ?thesis using billing_invD(3,4) [OF inv] by blast
    next
      fix q assume "q \<in> set (adBillingClick d)" "P q" "c = f q"
      then show ?thesis using w c_ok by (auto simp: unbatched_write_def)
    qed
  qed
  show ?thesis
    unfolding billing_inv_def
    using inv ids batched rows by (auto simp: billing_inv_def)
qed

text \<open>A write to one batch and to the states of its clicks.\<close>

definition frame_click :: "string \<Rightarrow> (click \<Rightarrow> click) \<Rightarrow> bool" where
  "frame_click i g \<longleftrightarrow> (\<forall>c. (click_batchId c \<noteq> Some i \<longrightarrow> g c = c) \<and>
     click_id (g c) = click_id c \<and> click_batchId (g c) = click_batchId c \<and>
     click_amountPreRaw (g c) = click_amountPreRaw c \<and> click_bidUsdRaw (g c) = click_bidUsdRaw c \<and>
     click_keywordId (g c) = click_keywordId c \<and> click_stakerAddress (g c) = click_stakerAddress c \<and>
     click_positionVersion (g c) = click_positionVersion c \<and> click_chainId (g c) = click_chainId c \<and>
     click_contractAddress (g c) = click_contractAddress c)"

definition frame_batch :: "(batch \<Rightarrow> batch) \<Rightarrow> bool" where
  "frame_batch f \<longleftrightarrow> (\<forall>b. batch_id (f b) = batch_id b \<and> batch_duePreRaw (f b) = batch_duePreRaw b \<and>
     batch_requestedPreRaw (f b) = batch_requestedPreRaw b \<and> batch_clickCount (f b) = batch_clickCount b \<and>
     batch_keywordId (f b) = batch_keywordId b \<and> batch_stakerAddress (f b) = batch_stakerAddress b \<and>
     batch_positionVersion (f b) = batch_positionVersion b \<and> batch_chainId (f b) = batch_chainId b \<and>
     batch_contractAddress (f b) = batch_contractAddress b)"

definition batch_step :: "string \<Rightarrow> (batch \<Rightarrow> batch) \<Rightarrow> (click \<Rightarrow> click) \<Rightarrow> ad_db \<Rightarrow> ad_db" where
  "batch_step i f g d = d\<lparr>adChargeBatch := update_where (\<lambda>b. batch_id b = i) f (adChargeBatch d),
     adBillingClick := map g (adBillingClick d)\<rparr>"

lemma clicks_of_batch_step:
  "frame_click i g \<Longrightarrow> clicks_of (batch_step i f g d) j = (if j = i then map g (clicks_of d i) else clicks_of d j)"
proof -
  assume fr: "frame_click i g"
  have "filter (\<lambda>c. click_batchId c = Some j) (map g cs) =
      (if j = i then map g (filter (\<lambda>c. click_batchId c = Some i) cs)
       else filter (\<lambda>c. click_batchId c = Some j) cs)" for cs
    using fr by (induction cs) (auto simp: frame_click_def)
  then show ?thesis by (simp add: clicks_of_def batch_step_def)
qed

lemma amt_frame: "frame_click i g \<Longrightarrow> amt (g c) = amt c"
  by (simp add: frame_click_def amt_def)

lemma same_position_frame:
  "frame_batch f \<Longrightarrow> frame_click i g \<Longrightarrow> same_position (f b) (g c) = same_position b c"
  "frame_batch f \<Longrightarrow> same_position (f b) c = same_position b c"
  "frame_click i g \<Longrightarrow> same_position b (g c) = same_position b c"
  by (simp_all add: frame_batch_def frame_click_def same_position_def)

lemma click_ok_frame:
  assumes "frame_click i g" and "click_ok c"
  shows "click_ok (g c)"
proof (cases "click_batchId c = Some i")
  case True
  then have "priced_click c" using assms(2) by (simp add: click_ok_def)
  with assms show ?thesis by (simp add: frame_click_def click_ok_def colon_free_def priced_click_def)
next
  case False
  then have "g c = c" using assms(1) by (simp add: frame_click_def)
  with assms(2) show ?thesis by simp
qed

lemma inv_batch_step:
  assumes inv: "billing_inv d" and fc: "frame_click i g" and fb: "frame_batch f"
    and ok: "\<And>b. b \<in> set (adChargeBatch d) \<Longrightarrow> batch_id b = i \<Longrightarrow>
      states_ok (f b) (map g (clicks_of d i)) \<and> proof_ok (f b)"
  shows "billing_inv (batch_step i f g d)"
proof -
  let ?d = "batch_step i f g d"
  have "map click_id (adBillingClick ?d) = map click_id (adBillingClick d)"
    using fc by (simp add: batch_step_def frame_click_def)
  moreover have "map batch_id (adChargeBatch ?d) = map batch_id (adChargeBatch d)"
    using fb by (simp add: batch_step_def frame_batch_def map_update_where)
  moreover have "click_ok c \<and> (\<forall>j. click_batchId c = Some j \<longrightarrow>
      (\<exists>b\<in>set (adChargeBatch ?d). batch_id b = j \<and> same_position b c))"
    if cin: "c \<in> set (adBillingClick ?d)" for c
  proof -
    obtain q where q: "q \<in> set (adBillingClick d)" "c = g q"
      using cin by (auto simp: batch_step_def)
    have "\<exists>b\<in>set (adChargeBatch ?d). batch_id b = j \<and> same_position b c"
      if "click_batchId c = Some j" for j
    proof -
      have "click_batchId q = Some j" using that q fc by (simp add: frame_click_def)
      then obtain b where b: "b \<in> set (adChargeBatch d)" "batch_id b = j" "same_position b q"
        using billing_invD(4) [OF inv q(1)] by blast
      let ?b = "if batch_id b = i then f b else b"
      have "?b \<in> set (adChargeBatch ?d)"
        using b(1) by (auto simp: batch_step_def set_update_where)
      moreover have "batch_id ?b = j" using b(2) fb by (simp add: frame_batch_def)
      moreover have "same_position ?b c"
        using b(3) q(2) same_position_frame(1) [OF fb fc] same_position_frame(3) [OF fc] by simp
      ultimately show ?thesis by blast
    qed
    with click_ok_frame [OF fc billing_invD(3) [OF inv q(1)]] q(2) show ?thesis by blast
  qed
  moreover have "batch_ok b (clicks_of ?d (batch_id b))" if bin: "b \<in> set (adChargeBatch ?d)" for b
  proof -
    from bin have "b \<in> set (update_where (\<lambda>b. batch_id b = i) f (adChargeBatch d))"
      by (simp add: batch_step_def)
    then show ?thesis
    proof (rule in_update_whereE)
      assume "b \<in> set (adChargeBatch d)" "batch_id b \<noteq> i"
      then show ?thesis using billing_invD(5) [OF inv] by (simp add: clicks_of_batch_step [OF fc])
    next
      fix q assume q: "q \<in> set (adChargeBatch d)" "batch_id q = i" "b = f q"
      have "batch_ok q (clicks_of d i)" using billing_invD(5) [OF inv q(1)] q(2) by simp
      moreover have "map amt (map g cs) = map amt cs" for cs
        using amt_frame [OF fc] by simp
      ultimately show ?thesis
        using ok [OF q(1,2)] q fb
        by (simp add: batch_ok_def frame_batch_def clicks_of_batch_step [OF fc] del: map_map)
    qed
  qed
  ultimately show ?thesis
    using inv unfolding billing_inv_def by (simp del: map_map)
qed

text \<open>A write to batches that leaves everything the invariant reads.\<close>

definition harmless :: "(batch \<Rightarrow> batch) \<Rightarrow> bool" where
  "harmless f \<longleftrightarrow> frame_batch f \<and> (\<forall>b. batch_status (f b) = batch_status b \<and>
     batch_chargedPreRaw (f b) = batch_chargedPreRaw b \<and>
     batch_shortfallPreRaw (f b) = batch_shortfallPreRaw b \<and> batch_txHash (f b) = batch_txHash b \<and>
     batch_signedTransaction (f b) = batch_signedTransaction b \<and>
     batch_receiptBlockNumber (f b) = batch_receiptBlockNumber b \<and>
     batch_receiptBlockHash (f b) = batch_receiptBlockHash b)"

lemma harmless_ok: "harmless f \<Longrightarrow> batch_ok (f b) cs = batch_ok b cs"
  unfolding harmless_def frame_batch_def
  by (cases "batch_status b") (simp_all add: batch_ok_def states_ok_def proof_ok_def batch_signed_def)

lemma inv_harmless:
  assumes inv: "billing_inv d" and h: "harmless f"
  shows "billing_inv (adChargeBatch_update (update_where P f) d)" (is "billing_inv ?d")
proof -
  have fb: "frame_batch f" using h by (simp add: harmless_def)
  have ids: "map batch_id (adChargeBatch ?d) = map batch_id (adChargeBatch d)"
    using fb by (simp add: frame_batch_def map_update_where)
  have "\<exists>b\<in>set (adChargeBatch ?d). batch_id b = i \<and> same_position b c"
    if c: "c \<in> set (adBillingClick d)" "click_batchId c = Some i" for c i
  proof -
    obtain b where b: "b \<in> set (adChargeBatch d)" "batch_id b = i" "same_position b c"
      using billing_invD(4) [OF inv c] by blast
    let ?b = "if P b then f b else b"
    have "?b \<in> set (adChargeBatch ?d)" using b(1) by (auto simp: set_update_where)
    moreover have "batch_id ?b = i \<and> same_position ?b c"
      using b fb by (simp add: same_position_frame(2)) (simp add: frame_batch_def)
    ultimately show ?thesis by blast
  qed
  moreover have "batch_ok b (clicks_of ?d (batch_id b))" if "b \<in> set (adChargeBatch ?d)" for b
  proof -
    from that have "b \<in> set (update_where P f (adChargeBatch d))" by simp
    then obtain q where q: "q \<in> set (adChargeBatch d)" "batch_id b = batch_id q" "b = q \<or> b = f q"
      using fb by (auto simp: set_update_where frame_batch_def)
    have "clicks_of ?d (batch_id b) = clicks_of d (batch_id q)" using q(2) by (simp add: clicks_of_def)
    with billing_invD(5) [OF inv q(1)] q(3) harmless_ok [OF h] show ?thesis by auto
  qed
  ultimately show ?thesis
    using inv ids unfolding billing_inv_def by simp
qed

subsection \<open>Properties of grouping and allotment\<close>

text \<open>
  C6: The groups a run charges partition its clicks: every click is in exactly one group, the
  clicks of a group share keyword, staker and position version, and two clicks of one position are
  in the same group.
\<close>

theorem click_groups_partition:
  assumes "\<forall>c\<in>set clicks. colon_free c"
  shows "(\<forall>c\<in>set clicks. \<exists>!g. g \<in> set (click_groups clicks) \<and> c \<in> set g) \<and>
    (\<Union>g\<in>set (click_groups clicks). set g) = set clicks \<and>
    (\<forall>g\<in>set (click_groups clicks). g \<noteq> [] \<and> (\<forall>c\<in>set g. \<forall>c'\<in>set clicks. c' \<in> set g \<longleftrightarrow>
       click_keywordId c = click_keywordId c' \<and> click_stakerAddress c = click_stakerAddress c' \<and>
       click_positionVersion c = click_positionVersion c'))"
proof (intro conjI ballI)
  fix c assume c: "c \<in> set clicks"
  then obtain g where "g \<in> set (click_groups clicks)" "c \<in> set g" using click_groups_cover by blast
  then show "\<exists>!g. g \<in> set (click_groups clicks) \<and> c \<in> set g"
    using click_groups_disjoint by blast
next
  show "(\<Union>g\<in>set (click_groups clicks). set g) = set clicks" by (rule click_groups_cover)
next
  fix g assume "g \<in> set (click_groups clicks)"
  then show "g \<noteq> []" by (rule click_groups_nonempty)
next
  fix g c c' assume g: "g \<in> set (click_groups clicks)" "c \<in> set g" and c': "c' \<in> set clicks"
  then have "c \<in> set clicks" using click_groups_cover by blast
  moreover have "c' \<in> set g \<longleftrightarrow> group_key c = group_key c'"
    using g c' by (auto simp: click_groups_iff)
  ultimately show "c' \<in> set g \<longleftrightarrow>
      click_keywordId c = click_keywordId c' \<and> click_stakerAddress c = click_stakerAddress c' \<and>
      click_positionVersion c = click_positionVersion c'"
    using assms c' group_key_position [of c c'] by simp
qed

text \<open>
  C7: A charged amount is shared out to the clicks of a batch in the order they were made: of
  clicks with positive amounts a prefix is settled and the rest left open; the settled ones are
  worth at most the charge, every click is decided exactly once, and nothing is left open when the
  charge covers the sum.
\<close>

theorem allot_in_order:
  assumes "\<forall>c\<in>set clicks. priced_click c \<and> 0 < amt c" and "0 \<le> charged"
    and "distinct (map click_id clicks)"
  shows "\<exists>k\<le>length clicks. allot charged clicks =
      Some (map click_id (take k clicks), map click_id (drop k clicks)) \<and>
    sum_list (map amt (take k clicks)) \<le> charged \<and>
    (k = length clicks \<longleftrightarrow> sum_list (map amt clicks) \<le> charged)"
proof -
  obtain k0 where k0: "allot charged clicks =
      Some (map click_id (take k0 clicks), map click_id (drop k0 clicks))"
    using allot_prefix [OF assms(1)] by blast
  define k where "k = min k0 (length clicks)"
  have k: "allot charged clicks = Some (map click_id (take k clicks), map click_id (drop k clicks))"
    using k0 by (cases "k0 \<le> length clicks") (simp_all add: k_def)
  have le: "k \<le> length clicks" by (simp add: k_def)
  have "distinct (map click_id (take k clicks @ drop k clicks))" using assms(3) by simp
  then have "\<forall>c\<in>set (drop k clicks). click_id c \<notin> click_id ` set (take k clicks)"
    by (auto simp del: append_take_drop_id)
  then have "filter (\<lambda>c. click_id c \<in> click_id ` set (take k clicks)) (take k clicks @ drop k clicks) =
      take k clicks"
    unfolding filter_append by (simp add: filter_id_conv [THEN iffD2] filter_empty_conv [THEN iffD2])
  then have sum: "sum_list (map amt (take k clicks)) \<le> charged"
    using allot_bound [OF k assms(2,3)] by simp
  have "k = length clicks" if "sum_list (map amt clicks) \<le> charged"
    using allot_full [OF k _ that] assms(1) le by auto
  with sum le k show ?thesis by (intro exI [of _ k]) auto
qed

end
