(* ===== verification/Samples.thy ===== *)
theory Samples
  imports Charge_Settlement
begin

section \<open>Sample rows and a sample chain\<close>

text \<open>
  Concrete rows for the witnesses: a position with two billed clicks, the batch that charges them
  and a chain whose answers are fixed. The world of the sample chain is the number of calls made.
\<close>

definition sample_click :: "string \<Rightarrow> int \<Rightarrow> int \<Rightarrow> click" where
  "sample_click i amount at = \<lparr>click_id = i, click_revisionId = ''r'', click_chainId = 1,
     click_contractAddress = ''0xc'', click_keywordId = ''0xk'', click_keyword = [112, 114, 101],
     click_stakerAddress = ''0xs'', click_positionVersion = 1, click_status = C_RESERVED,
     click_bidUsdRaw = Some 10, click_amountPreRaw = Some amount, click_priceUsd = Some ''0.01'',
     click_priceQuotedAt = Some 0, click_bidBlockNumber = Some 5, click_bidBlockHash = Some ''0xb'',
     click_priceBlockNumber = None, click_priceBlockHash = None, click_errorCode = None,
     click_batchId = Some ''b'', click_clickedAt = at\<rparr>"

definition sample_batch :: batch where
  "sample_batch = \<lparr>batch_id = ''b'', batch_runId = ''run'', batch_chargeId = ''0xf'', batch_chainId = 1,
     batch_contractAddress = ''0xc'', batch_keywordId = ''0xk'', batch_keyword = [112, 114, 101],
     batch_stakerAddress = ''0xs'', batch_positionVersion = 1, batch_clickCount = 2,
     batch_duePreRaw = 110, batch_requestedPreRaw = 110, batch_chargedPreRaw = None,
     batch_shortfallPreRaw = None, batch_status = B_SIGNED, batch_txHash = Some ''0xt'',
     batch_settledTxHash = None, batch_signedTransaction = Some ''0xraw'',
     batch_signerAddress = Some ''0xo'', batch_nonce = Some 7, batch_receiptBlockNumber = None,
     batch_receiptBlockHash = None, batch_errorCode = None, batch_attemptCount = 1,
     batch_nextAttemptAt = None, batch_createdAt = 0\<rparr>"

definition sample_run :: run where
  "sample_run = \<lparr>run_id = ''run'', run_chainId = 1, run_contractAddress = ''0xc'', run_trigger = MANUAL,
     run_status = R_RUNNING, run_errorCode = None, run_startedAt = Some 10, run_finishedAt = None,
     run_createdAt = 0\<rparr>"

definition sample_db :: ad_db where
  "sample_db = \<lparr>adBillingClick = [sample_click ''x'' 60 1, sample_click ''y'' 50 2],
     adChargeBatch = [sample_batch], adChargeRun = [sample_run], adChargeSettings = [],
     adPricePublication = [], adIndexerState = [], adChainEvent = [], adStakePosition = [],
     preUsdPrice = []\<rparr>"

definition sample_event :: charge_event where
  "sample_event = \<lparr>ev_chargeId = ''0xF'', ev_keywordId = ''0xK'', ev_staker = ''0xS'',
     ev_requestedPre = 110, ev_chargedPre = 100\<rparr>"

definition sample_receipt :: charge_receipt where
  "sample_receipt = \<lparr>rc_transactionHash = None, rc_blockNumber = 20, rc_blockHash = ''0xd'',
     rc_reverted = False, rc_event = Some sample_event\<rparr>"

definition answer :: "'a \<Rightarrow> (nat, 'a) call" where
  "answer x w = (Inr x, Suc w)"

definition sample_deps :: "nat charge_deps" where
  "sample_deps = \<lparr>dep_head = answer 100, dep_blockHash = (\<lambda>n. answer (if n = 20 then ''0xd'' else ''0xb'')),
     dep_verify = (\<lambda>d. answer ()), dep_operator = answer ''0xO'', dep_balance = (\<lambda>a. answer 5),
     dep_position = (\<lambda>b n. answer (1000, 1)), dep_processed = (\<lambda>i. answer False),
     dep_receipt = (\<lambda>h i. answer (Some sample_receipt)), dep_pendingNonce = (\<lambda>a. answer 8),
     dep_sign = (\<lambda>b a n. answer (''0xraw'', ''0xt'')), dep_broadcast = (\<lambda>raw. answer ''0xt''),
     dep_unlock = answer ''0xo'', dep_uuid = answer ''new'', dep_randomHex = answer ''ab'',
     dep_clock = answer 50, dep_formatUnits = (\<lambda>v. ''1''), dep_now = 1000, dep_chainId = 1,
     dep_contractAddress = ''0xC'', dep_confirmations = 3\<rparr>"

definition sample_machine :: "(ad_db, wallet_cache option, nat) machine" where
  "sample_machine = \<lparr>db = sample_db, mem = None, world = 0\<rparr>"

lemma sample_billing_inv: "billing_inv sample_db"
  by (simp add: billing_inv_def sample_db_def clicks_of_def batch_ok_def states_ok_def proof_ok_def
      all_status_def amt_def click_ok_def colon_free_def priced_click_def same_position_def
      maxUint256_def batch_terminal_def sample_click_def sample_batch_def)

lemma sample_receipt_matches: "receipt_matches sample_batch sample_event"
  by code_simp

lemma click_groups_partition_witness:
  "\<exists>!g. g \<in> set (click_groups (adBillingClick sample_db)) \<and> sample_click ''x'' 60 1 \<in> set g"
  using click_groups_partition [of "adBillingClick sample_db"]
  by (simp add: sample_db_def sample_click_def colon_free_def)

lemma allot_in_order_witness:
  "\<exists>k\<le>length (adBillingClick sample_db). allot 100 (adBillingClick sample_db) =
     Some (map click_id (take k (adBillingClick sample_db)), map click_id (drop k (adBillingClick sample_db)))"
proof -
  have "\<forall>c\<in>set (adBillingClick sample_db). priced_click c \<and> 0 < amt c"
    and "distinct (map click_id (adBillingClick sample_db))"
    by (simp_all add: sample_db_def sample_click_def priced_click_def amt_def)
  from allot_in_order [OF this(1) _ this(2), of 100] show ?thesis by auto
qed

end
