(* ===== verification/Charge_Invariants.thy ===== *)
theory Charge_Invariants
  imports Samples
begin

section \<open>The charge worker keeps the billing invariant\<close>

text \<open>
  Every function of the charge worker, on every branch, keeps the billing invariant of theory
  Charge_Settlement, whatever the chain answers. The worker holds rows it read earlier in its
  pass: \<open>at_work X batch\<close> says, beside the invariant, that the rows still to be handled are as
  they were read, and that the row being handled kept its amounts.
\<close>

subsection \<open>The row being handled\<close>

definition at_work :: "batch set \<Rightarrow> batch \<Rightarrow> ad_db \<Rightarrow> bool" where
  "at_work X batch d \<longleftrightarrow> billing_inv d \<and>
     (\<forall>b\<in>X. batch_id b \<noteq> batch_id batch \<and> b \<in> set (adChargeBatch d)) \<and>
     (\<forall>b\<in>set (adChargeBatch d). batch_id b = batch_id batch \<longrightarrow>
        batch_duePreRaw b = batch_duePreRaw batch \<and> batch_requestedPreRaw b = batch_requestedPreRaw batch)"

definition opened :: "batch set \<Rightarrow> batch \<Rightarrow> ad_db \<Rightarrow> bool" where
  "opened X batch d \<longleftrightarrow> at_work X batch d \<and>
     (\<forall>b\<in>set (adChargeBatch d). batch_id b = batch_id batch \<longrightarrow> \<not> batch_terminal (batch_status b))"

lemma at_work_inv: "at_work X batch d \<Longrightarrow> billing_inv d"
  by (simp add: at_work_def)

lemma opened_at_work: "opened X batch d \<Longrightarrow> at_work X batch d"
  by (simp add: opened_def)

lemma at_work_row:
  assumes "billing_inv d" and "set (batch # rest) \<subseteq> set (adChargeBatch d)" and "distinct (map batch_id (batch # rest))"
  shows "at_work (set rest) batch d"
proof -
  have "b = batch" if "b \<in> set (adChargeBatch d)" "batch_id b = batch_id batch" for b
    using distinct_map_eq [OF billing_invD(2) [OF assms(1)]] that assms(2) by auto
  with assms show ?thesis by (auto simp: at_work_def rev_image_eqI)
qed

lemma at_work_step:
  assumes aw: "at_work X batch d" and fc: "frame_click (batch_id batch) g" and fb: "frame_batch f"
    and ok: "\<And>b. b \<in> set (adChargeBatch d) \<Longrightarrow> batch_id b = batch_id batch \<Longrightarrow>
      states_ok (f b) (map g (clicks_of d (batch_id batch))) \<and> proof_ok (f b)"
  shows "at_work X batch (batch_step (batch_id batch) f g d)"
proof -
  have rows: "set (adChargeBatch (batch_step (batch_id batch) f g d)) =
      {r. r \<in> set (adChargeBatch d) \<and> batch_id r \<noteq> batch_id batch} \<union>
      f ` {r. r \<in> set (adChargeBatch d) \<and> batch_id r = batch_id batch}"
    by (simp add: batch_step_def set_update_where)
  show ?thesis
    unfolding at_work_def rows
    using aw fb inv_batch_step [OF at_work_inv [OF aw] fc fb ok]
    by (auto simp: at_work_def frame_batch_def)
qed

lemma batch_step_id:
  "batch_step i f (\<lambda>c. c) d = adChargeBatch_update (update_where (\<lambda>b. batch_id b = i) f) d"
  by (simp add: batch_step_def)

lemma batch_step_clicks:
  "adBillingClick_update (update_where (\<lambda>c. click_batchId c = Some i) h)
     (adChargeBatch_update (update_where (\<lambda>b. batch_id b = i) f) d) =
   batch_step i f (\<lambda>c. if click_batchId c = Some i then h c else c) d"
  by (simp add: batch_step_def update_where_def)

lemma frame_click_id [simp]: "frame_click i (\<lambda>c. c)"
  by (simp add: frame_click_def)

text \<open>A batch that is not settled holds reserved clicks and has charged nothing.\<close>

lemma open_states_ok:
  "\<not> batch_terminal (batch_status b) \<Longrightarrow> states_ok b cs \<longleftrightarrow>
     batch_chargedPreRaw b = None \<and> batch_shortfallPreRaw b = None \<and> all_status C_RESERVED cs"
  by (cases "batch_status b") (auto simp: states_ok_def batch_terminal_def)

lemma open_proof_ok: "\<not> batch_terminal (batch_status b) \<Longrightarrow> proof_ok b"
  by (simp add: proof_ok_def)

lemma opened_row:
  assumes "opened X batch d" and "b \<in> set (adChargeBatch d)" and "batch_id b = batch_id batch"
  shows "batch_chargedPreRaw b = None" "batch_shortfallPreRaw b = None"
    "all_status C_RESERVED (clicks_of d (batch_id batch))"
proof -
  have "\<not> batch_terminal (batch_status b)" "batch_ok b (clicks_of d (batch_id batch))"
    using assms billing_invD(5) [OF at_work_inv [OF opened_at_work [OF assms(1)]] assms(2)]
    by (auto simp: opened_def)
  then show "batch_chargedPreRaw b = None" "batch_shortfallPreRaw b = None"
    "all_status C_RESERVED (clicks_of d (batch_id batch))"
    by (simp_all add: batch_ok_def open_states_ok)
qed

text \<open>A write that keeps an open batch open.\<close>

definition keeps_open :: "(batch \<Rightarrow> batch) \<Rightarrow> bool" where
  "keeps_open f \<longleftrightarrow> frame_batch f \<and> (\<forall>b. (\<not> batch_terminal (batch_status b) \<longrightarrow> \<not> batch_terminal (batch_status (f b))) \<and>
     batch_chargedPreRaw (f b) = batch_chargedPreRaw b \<and> batch_shortfallPreRaw (f b) = batch_shortfallPreRaw b)"

lemma opened_update:
  assumes op: "opened X batch d" and f: "keeps_open f"
  shows "opened X batch (adChargeBatch_update (update_where (\<lambda>b. batch_id b = batch_id batch) f) d)"
proof -
  have fb: "frame_batch f" using f by (simp add: keeps_open_def)
  have "states_ok (f b) (map (\<lambda>c. c) (clicks_of d (batch_id batch))) \<and> proof_ok (f b)"
    if "b \<in> set (adChargeBatch d)" "batch_id b = batch_id batch" for b
  proof -
    have "\<not> batch_terminal (batch_status (f b))"
      using op f that by (simp add: opened_def keeps_open_def)
    with opened_row [OF op that] f show ?thesis
      by (simp add: open_states_ok open_proof_ok keeps_open_def)
  qed
  from at_work_step [OF opened_at_work [OF op] frame_click_id fb this]
  have "at_work X batch (adChargeBatch_update (update_where (\<lambda>b. batch_id b = batch_id batch) f) d)"
    by (simp add: batch_step_id)
  moreover have "\<not> batch_terminal (batch_status (f b))"
    if "b \<in> set (adChargeBatch d)" "batch_id b = batch_id batch" for b
    using op f that by (simp add: opened_def keeps_open_def)
  ultimately show ?thesis
    using op by (auto simp: opened_def set_update_where)
qed

lemma triple_update_open:
  "keeps_open f \<Longrightarrow> triple (opened X batch) (update_batch (batch_id batch) f)
     (\<lambda>_. opened X batch) (opened X batch)"
  by (rule triple_update_batch) (auto intro: opened_update)

lemma triple_mark:
  "\<not> batch_terminal st \<Longrightarrow> triple (opened X batch) (mark_batch batch st e) (\<lambda>_. opened X batch) (opened X batch)"
  unfolding mark_batch_def by (rule triple_update_open) (simp add: keeps_open_def frame_batch_def)

text \<open>Rows of other tables do not matter.\<close>

lemma billing_inv_other:
  "billing_inv (adChargeRun_update u d) = billing_inv d"
  "billing_inv (adChargeSettings_update v d) = billing_inv d"
  "at_work X batch (adChargeRun_update u d) = at_work X batch d"
  by (simp_all add: billing_inv_def clicks_of_def at_work_def)

lemma opened_other: "opened X batch (adChargeRun_update u d) = opened X batch d"
  by (simp add: opened_def billing_inv_other)

subsection \<open>Reopening and writing off\<close>

lemma reopened_ok:
  assumes aw: "at_work X batch d" and fb: "frame_batch f"
    and f: "\<And>b. \<not> batch_terminal (batch_status (f b)) \<and> batch_chargedPreRaw (f b) = None \<and> batch_shortfallPreRaw (f b) = None"
    and h: "\<And>c. click_status (h c) = C_RESERVED" and fc: "frame_click (batch_id batch) (\<lambda>c. if click_batchId c = Some (batch_id batch) then h c else c)"
  shows "opened X batch (batch_step (batch_id batch) f (\<lambda>c. if click_batchId c = Some (batch_id batch) then h c else c) d)"
proof -
  have "at_work X batch (batch_step (batch_id batch) f (\<lambda>c. if click_batchId c = Some (batch_id batch) then h c else c) d)"
    by (rule at_work_step [OF aw fc fb])
      (auto simp: open_states_ok f h all_status_def clicks_of_def open_proof_ok)
  moreover have "\<not> batch_terminal (batch_status (f b))" for b using f by simp
  ultimately show ?thesis
    using fb by (auto simp: opened_def batch_step_def set_update_where frame_batch_def)
qed

lemma triple_reopen:
  "triple (at_work X batch) (reopen_batch batch) (\<lambda>_. opened X batch) (at_work X batch)"
proof -
  let ?i = "batch_id batch"
  let ?f = "\<lambda>b. b\<lparr>
         batch_status := (if batch_signed batch then B_RECONCILING else B_PREPARED),
         batch_chargedPreRaw := None, batch_shortfallPreRaw := None, batch_settledTxHash := None,
         batch_receiptBlockNumber := None, batch_receiptBlockHash := None,
         batch_errorCode := Some REORG_DETECTED\<rparr>"
  let ?B = "\<lambda>d. \<exists>d0. at_work X batch d0 \<and> d = adChargeBatch_update (update_where (\<lambda>b. batch_id b = ?i) ?f) d0"
  have reop: "opened X batch (adBillingClick_update (update_where (\<lambda>c. click_batchId c = Some ?i)
      (\<lambda>c. c\<lparr>click_status := C_RESERVED, click_errorCode := Some REORG_DETECTED\<rparr>)) d)" if "?B d" for d
  proof -
    from that obtain d0 where d0: "at_work X batch d0"
      and d: "d = adChargeBatch_update (update_where (\<lambda>b. batch_id b = ?i) ?f) d0" by blast
    show ?thesis unfolding d batch_step_clicks
      by (rule reopened_ok [OF d0]) (simp_all add: frame_batch_def frame_click_def batch_terminal_def)
  qed
  show ?thesis
    unfolding reopen_batch_def
    by (intro triple_transactional triple_then [where B = ?B] triple_then [where B = "opened X batch"]
        triple_update_batch triple_update_clicks)
      (auto intro!: reop triple_conseq [OF keeps_update_run [where I = "opened X batch"]] simp: opened_other)
qed

lemma triple_uncollectable:
  assumes "h \<noteq> []"
  shows "triple (at_work X batch) (uncollectable batch e n h) (\<lambda>_. at_work X batch) (at_work X batch)"
proof -
  let ?i = "batch_id batch"
  let ?f = "uncollectable_batch batch e n h"
  let ?B = "\<lambda>d. \<exists>d0. at_work X batch d0 \<and> d = adChargeBatch_update (update_where (\<lambda>b. batch_id b = ?i) ?f) d0"
  have "at_work X batch (adBillingClick_update (update_where (\<lambda>c. click_batchId c = Some ?i)
      (\<lambda>c. c\<lparr>click_status := C_UNCOLLECTABLE, click_errorCode := Some e\<rparr>)) d)" if "?B d" for d
  proof -
    from that obtain d0 where d0: "at_work X batch d0"
      and d: "d = adChargeBatch_update (update_where (\<lambda>b. batch_id b = ?i) ?f) d0" by blast
    have "batch_duePreRaw b = batch_duePreRaw batch"
      if "b \<in> set (adChargeBatch d0)" "batch_id b = ?i" for b
      using d0 that by (simp add: at_work_def)
    then show ?thesis unfolding d batch_step_clicks
      using assms by (intro at_work_step [OF d0])
        (auto simp: frame_batch_def frame_click_def uncollectable_batch_def states_ok_def
          proof_ok_def truthy_def all_status_def clicks_of_def)
  qed
  then show ?thesis
    unfolding uncollectable_def
    by (intro triple_transactional triple_then [where B = ?B] triple_update_batch triple_update_clicks) auto
qed

subsection \<open>Settling a receipt\<close>

definition settle_click :: "string list \<Rightarrow> string list \<Rightarrow> click \<Rightarrow> click" where
  "settle_click settled short c =
     (if click_id c \<in> set settled then c\<lparr>click_status := C_SETTLED, click_errorCode := None\<rparr>
      else if click_id c \<in> set short
      then c\<lparr>click_status := C_UNCOLLECTABLE, click_errorCode := Some INSUFFICIENT_STAKE\<rparr> else c)"

lemma settle_writes:
  assumes "set s \<inter> set u = {}"
  shows "(if u \<noteq> [] then update_where (\<lambda>c. click_id c \<in> set u)
       (\<lambda>c. c\<lparr>click_status := C_UNCOLLECTABLE, click_errorCode := Some INSUFFICIENT_STAKE\<rparr>) else id)
     ((if s \<noteq> [] then update_where (\<lambda>c. click_id c \<in> set s)
       (\<lambda>c. c\<lparr>click_status := C_SETTLED, click_errorCode := None\<rparr>) else id) cs) = map (settle_click s u) cs"
proof -
  have "map (settle_click [] []) cs = cs" by (simp add: settle_click_def map_idI)
  then show ?thesis using assms by (auto simp: update_where_def settle_click_def disjoint_iff)
qed

lemma amt_settle [simp]: "amt (settle_click s u c) = amt c"
  by (simp add: settle_click_def amt_def)

lemma run_update_batch:
  "update_batch i f st = (if \<exists>b\<in>set (adChargeBatch (db st)). batch_id b = i
     then (Inr (), st\<lparr>db := adChargeBatch_update (update_where (\<lambda>b. batch_id b = i) f) (db st)\<rparr>)
     else (Inl Failure, st))"
  by (auto simp: write_defs prog_defs find_None_iff find_Some_iff split: option.splits)

lemma batch_clicks_set [simp]: "set (batch_clicks i d) = set (clicks_of d i)"
  by (simp add: batch_clicks_def clicks_of_def)

lemma batch_clicks_distinct:
  "billing_inv d \<Longrightarrow> distinct (map click_id (batch_clicks i d))"
  using clicks_of_distinct [of d i] by (simp add: distinct_map batch_clicks_def clicks_of_def)

lemma batch_clicks_sum:
  assumes "billing_inv d"
  shows "sum_list (map amt (filter P (batch_clicks i d))) = sum_list (map amt (filter P (clicks_of d i)))"
proof -
  have "distinct (filter P (batch_clicks i d))" "distinct (filter P (clicks_of d i))"
    using batch_clicks_distinct [OF assms] clicks_of_distinct [OF assms] by (auto simp: distinct_map)
  then show ?thesis by (simp add: sum_list_distinct_conv_sum_set)
qed

text \<open>The whole effect of settling: one batch row and the states of its clicks.\<close>

lemma settle_runs:
  assumes inv: "billing_inv (db st)" and b: "\<exists>b\<in>set (adChargeBatch (db st)). batch_id b = batch_id batch"
    and ev: "rc_event receipt = Some event" and m: "receipt_matches batch event"
  shows "\<exists>s u. allot (ev_chargedPre event) (batch_clicks (batch_id batch) (db st)) = Some (s, u) \<and>
    settleChargeReceipt batch receipt st = (Inr (), st\<lparr>db := batch_step (batch_id batch)
      (settled_batch batch receipt (ev_chargedPre event)) (settle_click s u) (db st)\<rparr>)"
proof -
  let ?cs = "batch_clicks (batch_id batch) (db st)"
  have "\<forall>c\<in>set ?cs. priced_click c" using clicks_of_priced [OF inv] by simp
  then obtain s u where su: "allot (ev_chargedPre event) ?cs = Some (s, u)"
    using allot_total by blast
  have dis: "set s \<inter> set u = {}"
    by (rule allot_disjoint [OF su batch_clicks_distinct [OF inv]])
  have cs: "batch_clicks i (adChargeBatch_update h d) = batch_clicks i d" for i h d
    by (simp add: batch_clicks_def)
  have "settleChargeReceipt batch receipt st = (Inr (), st\<lparr>db := batch_step (batch_id batch)
      (settled_batch batch receipt (ev_chargedPre event)) (settle_click s u) (db st)\<rparr>)"
    using settle_writes [OF dis, of "adBillingClick (db st)"] b
    by (cases "s = []"; cases "u = []")
      (simp_all add: settleChargeReceipt_def ev m transactional_def thenp_def bindp_def
        run_update_batch db_get_def cs su whenp_def update_clicks_def db_mod_def ret_def batch_step_def
        settle_click_def)
  with su show ?thesis by blast
qed

lemma frame_settle:
  assumes inv: "billing_inv d" and su: "allot a (batch_clicks i d) = Some (s, u)"
  shows "frame_click i (\<lambda>c. if click_batchId c = Some i then settle_click s u c else c)"
    and "map (settle_click s u) (adBillingClick d) =
      map (\<lambda>c. if click_batchId c = Some i then settle_click s u c else c) (adBillingClick d)"
proof -
  show "frame_click i (\<lambda>c. if click_batchId c = Some i then settle_click s u c else c)"
    by (simp add: frame_click_def settle_click_def)
  have "click_batchId c = Some i"
    if "c \<in> set (adBillingClick d)" "click_id c \<in> set s \<union> set u" for c
  proof -
    from that(2) obtain q where q: "q \<in> set (clicks_of d i)" "click_id q = click_id c"
      by (auto simp: allot_members [OF su])
    then have "q = c" using distinct_map_eq [OF billing_invD(1) [OF inv]] that(1) by (simp add: clicks_of_def)
    with q(1) show ?thesis by (simp add: clicks_of_def)
  qed
  then show "map (settle_click s u) (adBillingClick d) =
      map (\<lambda>c. if click_batchId c = Some i then settle_click s u c else c) (adBillingClick d)"
    by (auto simp: settle_click_def)
qed

lemma settle_statuses:
  assumes "allot a (batch_clicks i d) = Some (s, u)" and "billing_inv d" and "c \<in> set (clicks_of d i)"
  shows "click_status (settle_click s u c) = (if click_id c \<in> set s then C_SETTLED else C_UNCOLLECTABLE)"
    "click_id c \<notin> set s \<longleftrightarrow> click_id c \<in> set u"
  using allot_members [OF assms(1)] allot_disjoint [OF assms(1) batch_clicks_distinct [OF assms(2)]] assms(3)
  by (auto simp: settle_click_def)

lemma settled_states_ok:
  assumes inv: "billing_inv d" and su: "allot charged (batch_clicks i d) = Some (s, u)"
    and due: "batch_duePreRaw b = sum_list (map amt (clicks_of d i))" "batch_duePreRaw batch = batch_duePreRaw b"
    and charged: "0 \<le> charged" "charged \<le> batch_duePreRaw b"
  shows "states_ok (settled_batch batch receipt charged b) (map (settle_click s u) (clicks_of d i))"
proof -
  let ?cs = "batch_clicks i d"
  have dist: "distinct (map click_id ?cs)" by (rule batch_clicks_distinct [OF inv])
  have total: "sum_list (map amt ?cs) = batch_duePreRaw b"
    using batch_clicks_sum [OF inv, of "\<lambda>_. True"] due(1) by simp
  have "filter (\<lambda>c. click_status (settle_click s u c) = C_SETTLED) (clicks_of d i) =
      filter (\<lambda>c. click_id c \<in> set s) (clicks_of d i)"
    by (intro filter_cong) (auto simp: settle_statuses [OF su inv])
  then have "settled_total (map (settle_click s u) (clicks_of d i)) =
      sum_list (map amt (filter (\<lambda>c. click_id c \<in> set s) ?cs))"
    by (simp add: settled_total_def filter_map o_def batch_clicks_sum [OF inv])
  then have settled: "settled_total (map (settle_click s u) (clicks_of d i)) \<le> charged"
    using allot_bound [OF su charged(1) dist] by simp
  show ?thesis
  proof (cases "charged = batch_duePreRaw b")
    case True
    have "u = []" using allot_full [OF su] clicks_of_priced [OF inv] total True by simp
    with True due(2) show ?thesis
      using settle_statuses [OF su inv] by (auto simp: states_ok_def settled_batch_def all_status_def)
  next
    case False
    then have "u \<noteq> []" using allot_short [OF su charged(1) dist] total charged(2) by simp
    then have "\<exists>c\<in>set (clicks_of d i). click_status (settle_click s u c) = C_UNCOLLECTABLE"
      using allot_members [OF su] settle_statuses [OF su inv]
      by (metis UnI2 batch_clicks_set image_iff last_in_set)
    with False due(2) charged settled show ?thesis
      using settle_statuses [OF su inv] by (auto simp: states_ok_def settled_batch_def)
  qed
qed

lemma triple_settle:
  assumes "rc_blockHash receipt \<noteq> []"
  shows "triple (at_work X batch) (settleChargeReceipt batch receipt) (\<lambda>_. at_work X batch) (at_work X batch)"
proof -
  have "at_work X batch (db (snd (settleChargeReceipt batch receipt st)))"
    if aw: "at_work X batch (db st)" for st :: "(ad_db, 'm, 'w) machine"
  proof (cases "\<exists>event. rc_event receipt = Some event \<and> receipt_matches batch event \<and>
      (\<exists>b\<in>set (adChargeBatch (db st)). batch_id b = batch_id batch)")
    case False
    then have "db (snd (settleChargeReceipt batch receipt st)) = db st"
      by (auto simp: settleChargeReceipt_def throw_def transactional_def thenp_def bindp_def
          run_update_batch split: option.splits)
    with aw show ?thesis by simp
  next
    case True
    then obtain event where ev: "rc_event receipt = Some event" and m: "receipt_matches batch event"
      and b: "\<exists>b\<in>set (adChargeBatch (db st)). batch_id b = batch_id batch" by blast
    let ?i = "batch_id batch"
    note inv = at_work_inv [OF aw]
    obtain s u where su: "allot (ev_chargedPre event) (batch_clicks ?i (db st)) = Some (s, u)"
      and run: "settleChargeReceipt batch receipt st = (Inr (), st\<lparr>db := batch_step ?i
        (settled_batch batch receipt (ev_chargedPre event)) (settle_click s u) (db st)\<rparr>)"
      using settle_runs [OF inv b ev m] by blast
    let ?g = "\<lambda>c. if click_batchId c = Some ?i then settle_click s u c else c"
    have g: "map ?g (clicks_of (db st) ?i) = map (settle_click s u) (clicks_of (db st) ?i)"
      by (simp add: clicks_of_def)
    have "at_work X batch (batch_step ?i (settled_batch batch receipt (ev_chargedPre event)) ?g (db st))"
    proof (rule at_work_step [OF aw frame_settle(1) [OF inv su]])
      show "frame_batch (settled_batch batch receipt (ev_chargedPre event))"
        by (simp add: frame_batch_def settled_batch_def Let_def)
      fix r assume r: "r \<in> set (adChargeBatch (db st))" "batch_id r = ?i"
      have ok: "batch_ok r (clicks_of (db st) ?i)" using billing_invD(5) [OF inv r(1)] r(2) by simp
      have amounts: "batch_duePreRaw batch = batch_duePreRaw r" "batch_requestedPreRaw batch = batch_requestedPreRaw r"
        using aw r by (auto simp: at_work_def)
      have "states_ok (settled_batch batch receipt (ev_chargedPre event) r) (map ?g (clicks_of (db st) ?i))"
        unfolding g by (rule settled_states_ok [OF inv su])
          (use ok amounts m in \<open>auto simp: batch_ok_def receipt_matches_def split: if_splits\<close>)
      moreover have "proof_ok (settled_batch batch receipt (ev_chargedPre event) r)"
        using assms by (simp add: proof_ok_def settled_batch_def truthy_def Let_def)
      ultimately show "states_ok (settled_batch batch receipt (ev_chargedPre event) r)
          (map ?g (clicks_of (db st) ?i)) \<and>
          proof_ok (settled_batch batch receipt (ev_chargedPre event) r)" ..
    qed
    then show ?thesis by (simp add: run batch_step_def frame_settle(2) [OF inv su])
  qed
  then show ?thesis by (rule keepsI)
qed

subsection \<open>Reconciling\<close>

text \<open>Block hashes are texts of 66 characters; the proofs use that they are not empty.\<close>

definition sound_hashes :: "'w charge_deps \<Rightarrow> bool" where
  "sound_hashes deps \<longleftrightarrow> (\<forall>n w h w'. dep_blockHash deps n w = (Inr h, w') \<longrightarrow> h \<noteq> [])"

lemma triple_blockHash:
  assumes "sound_hashes deps" and "\<And>h d. h \<noteq> [] \<Longrightarrow> P d \<Longrightarrow> Q h d" and "\<And>d. P d \<Longrightarrow> E d"
  shows "triple P (extern (dep_blockHash deps n)) Q E"
  using assms by (intro triple_extern_val [where A = "\<lambda>h. h \<noteq> []"]) (auto simp: sound_hashes_def)

lemma triple_bind_hash:
  assumes "sound_hashes deps" and "\<And>h. h \<noteq> [] \<Longrightarrow> triple P (f h) Q E" and "\<And>d. P d \<Longrightarrow> E d"
  shows "triple P (bindp (extern (dep_blockHash deps n)) f) Q E"
  using assms by (intro triple_bind_val [where A = "\<lambda>h. h \<noteq> []" and B = "\<lambda>_. P"] triple_blockHash) auto

lemma triple_settle_opened:
  "rc_blockHash receipt \<noteq> [] \<Longrightarrow> triple (opened X batch) (settleChargeReceipt batch receipt)
     (\<lambda>_. at_work X batch) (at_work X batch)"
  by (rule triple_pre [OF triple_settle]) (auto intro: opened_at_work)

lemma triple_settle_indexed:
  assumes "sound_hashes deps"
  shows "triple (opened X batch) (settleIndexedCharge batch deps head)
    (\<lambda>applied. if applied then at_work X batch else opened X batch) (at_work X batch)"
proof -
  have settle: "triple (opened X batch) (thenp (settleChargeReceipt batch r) (ret True))
      (\<lambda>applied. if applied then at_work X batch else opened X batch) (at_work X batch)"
    if "rc_blockHash r \<noteq> []" for r
    by (rule triple_then [OF triple_settle_opened [OF that]]) (simp add: triple_ret)
  show ?thesis
    unfolding settleIndexedCharge_def
    by (rule triple_bind [where B = "\<lambda>_. opened X batch"])
      (intro triple_bind_hash [OF assms] triple_get triple_option triple_if triple_ret triple_throw settle;
        simp add: opened_at_work)+
qed

lemma keeps_assert_block: "keeps I (assert_block deps f n h)"
  unfolding assert_block_def by (intro keeps_rules)

lemma keeps_assert_capture: "keeps I (assertBatchCapture batch deps head)"
  unfolding assertBatchCapture_def Let_def by (intro keeps_rules keeps_assert_block)

lemma keeps_broadcast: "keeps (opened X batch) (broadcast_batch batch deps)"
  unfolding broadcast_batch_def
  by (intro keeps_rules triple_mark) (simp_all add: batch_terminal_def)

lemma keeps_recheck: "keeps (opened X batch) (recheck_capture batch deps head)"
  unfolding recheck_capture_def
  by (intro keeps_rules triple_mark keeps_assert_capture) (simp_all add: batch_terminal_def)

lemma keeps_nonce: "keeps (opened X batch) (reconcile_nonce batch deps)"
  unfolding reconcile_nonce_def
  by (intro keeps_rules triple_mark) (simp_all add: batch_terminal_def)

text \<open>What an open row gives in the end.\<close>

lemma triple_weaken:
  "triple P m (\<lambda>_. opened X batch) (opened X batch) \<Longrightarrow> triple P m (\<lambda>_. at_work X batch) (at_work X batch)"
  by (erule triple_conseq) (auto intro: opened_at_work)

lemma triple_indexed_or_mark:
  assumes "sound_hashes deps"
  shows "triple (opened X batch)
    (bindp (settleIndexedCharge batch deps head) (\<lambda>applied. if applied then ret False
         else thenp (mark_batch batch B_RECONCILING e) (ret True)))
    (\<lambda>_. at_work X batch) (at_work X batch)"
proof (rule triple_bind [OF triple_settle_indexed [OF assms]])
  fix applied
  show "triple (if applied then at_work X batch else opened X batch)
     (if applied then ret False else thenp (mark_batch batch B_RECONCILING e) (ret True))
     (\<lambda>_. at_work X batch) (at_work X batch)"
    by (cases applied) (auto intro!: triple_ret triple_weaken keeps_then triple_mark keeps_ret
        simp: batch_terminal_def)
qed

lemma triple_receipt:
  assumes "sound_hashes deps"
  shows "triple (opened X batch) (reconcile_receipt batch receipt deps head)
    (\<lambda>_. at_work X batch) (at_work X batch)"
proof -
  let ?A = "\<lambda>confirmed. confirmed \<longrightarrow> rc_blockHash receipt \<noteq> []"
  have confirmed: "triple (opened X batch) (if head < rc_blockNumber receipt + dep_confirmations deps then ret False
      else bindp (extern (dep_blockHash deps (rc_blockNumber receipt)))
        (\<lambda>h. ret (h = rc_blockHash receipt))) (\<lambda>c d. ?A c \<and> opened X batch d) (at_work X batch)"
    by (intro triple_if triple_ret triple_bind_hash [OF assms]) (auto intro: opened_at_work)
  have failed: "keeps_open (\<lambda>b. b\<lparr>batch_status := B_FAILED, batch_receiptBlockNumber := x,
      batch_receiptBlockHash := y, batch_errorCode := z, batch_nextAttemptAt := t\<rparr>)" for x y z t
    by (simp add: keeps_open_def frame_batch_def batch_terminal_def)
  have settle: "triple (opened X batch) (thenp (settleChargeReceipt batch receipt) (ret False))
    (\<lambda>_. at_work X batch) (at_work X batch)" if "rc_blockHash receipt \<noteq> []"
    by (rule triple_then [OF triple_settle_opened [OF that]]) (rule keeps_ret)
  show ?thesis
    unfolding reconcile_receipt_def
    by (rule triple_bind_val [OF confirmed])
      (intro triple_if settle triple_indexed_or_mark [OF assms] triple_weaken keeps_then triple_mark
        keeps_ret triple_update_open [OF failed]; simp add: batch_terminal_def)
qed

lemma triple_missing:
  assumes "sound_hashes deps"
  shows "triple (opened X batch) (reconcile_missing batch deps head)
    (\<lambda>_. at_work X batch) (at_work X batch)"
  unfolding reconcile_missing_def
  by (rule triple_bind [where B = "\<lambda>_. opened X batch"])
    (intro triple_if triple_indexed_or_mark [OF assms] triple_weaken keeps_bind keeps_then keeps_ret
      triple_option keeps_nonce keeps_recheck keeps_broadcast triple_extern; auto intro: opened_at_work)+

lemma inv_row_open:
  assumes "at_work X batch d" and "batch \<in> set (adChargeBatch d)" and "\<not> batch_terminal (batch_status batch)"
  shows "opened X batch d"
  using assms distinct_map_eq [OF billing_invD(2) [OF at_work_inv [OF assms(1)]]]
  by (fastforce simp: opened_def)

lemma inv_row_proof:
  assumes "at_work X batch d" and "batch \<in> set (adChargeBatch d)"
    and "batch_terminal (batch_status batch)" and "batch_signed batch"
  shows "\<exists>n h. batch_receiptBlockNumber batch = Some n \<and> batch_receiptBlockHash batch = Some h \<and> h \<noteq> []"
  using billing_invD(5) [OF at_work_inv [OF assms(1)] assms(2)] assms(3,4)
  by (auto simp: batch_ok_def proof_ok_def truthy_def split: option.splits)

lemma triple_reconcile:
  assumes "sound_hashes deps"
  shows "triple (\<lambda>d. at_work X batch d \<and> batch \<in> set (adChargeBatch d)) (reconcileChargeBatch batch deps head)
    (\<lambda>_. at_work X batch) (at_work X batch)"
proof -
  let ?P = "\<lambda>d. at_work X batch d \<and> batch \<in> set (adChargeBatch d)"
  define B where "B = (\<lambda>settled d. if settled \<or> \<not> batch_signed batch then at_work X batch d else opened X batch d)"
  have kept: "triple ?P (ret True) B (at_work X batch)"
    by (rule triple_ret) (simp add: B_def)
  have skip: "triple ?P (ret False) B (at_work X batch)"
    if "\<not> (batch_terminal (batch_status batch) \<and> batch_signed batch)"
    using that inv_row_open by (intro triple_ret) (auto simp: B_def)
  have reop: "triple ?P (thenp (reopen_batch batch) (ret False)) B (at_work X batch)"
    by (rule triple_then [OF triple_pre [OF triple_reopen]])
      (auto intro!: triple_ret opened_at_work simp: B_def)
  have first: "triple ?P (case (batch_receiptBlockNumber batch, batch_receiptBlockHash batch) of
         (Some n, Some h) \<Rightarrow>
           if batch_terminal (batch_status batch) \<and> h \<noteq> [] then
             bindp (extern (dep_blockHash deps n)) (\<lambda>canonical.
               if canonical = to_lower h then ret True
               else thenp (reopen_batch batch) (ret False))
           else ret False
       | _ \<Rightarrow> ret False) B (at_work X batch)"
  proof (rule triple_given)
    fix d assume d: "?P d"
    show "triple ?P (case (batch_receiptBlockNumber batch, batch_receiptBlockHash batch) of
         (Some n, Some h) \<Rightarrow>
           if batch_terminal (batch_status batch) \<and> h \<noteq> [] then
             bindp (extern (dep_blockHash deps n)) (\<lambda>canonical.
               if canonical = to_lower h then ret True
               else thenp (reopen_batch batch) (ret False))
           else ret False
       | _ \<Rightarrow> ret False) B (at_work X batch)"
      using inv_row_proof [of X batch d] d
      by (auto split: option.splits intro!: skip reop kept triple_if triple_bind_hash [OF assms])
  qed
  have rest: "triple (B settled)
     (if settled then ret False
      else if \<not> batch_signed batch then ret False
      else bindp (extern (dep_receipt deps (the (batch_txHash batch)) (batch_chargeId batch))) (\<lambda>receipt.
        case receipt of Some r \<Rightarrow> reconcile_receipt batch r deps head
        | None \<Rightarrow> reconcile_missing batch deps head)) (\<lambda>_. at_work X batch) (at_work X batch)" for settled
    by (cases "settled \<or> \<not> batch_signed batch")
      (auto simp: B_def intro!: triple_ret triple_bind [where B = "\<lambda>_. opened X batch"] triple_extern triple_option
        triple_receipt [OF assms] triple_missing [OF assms] intro: opened_at_work)
  show ?thesis
    unfolding reconcileChargeBatch_def by (rule triple_bind [OF first rest])
qed

end
