(* ===== verification/Charge_Job.thy ===== *)
theory Charge_Job
  imports Charge_Invariants
begin

section \<open>The charge job keeps the billing invariant\<close>

text \<open>
  The passes of the job over rows read at their start, the reservation of clicks for a run, the
  price conversion and the evidence check, and then the whole job.
\<close>

subsection \<open>Signing and preparing\<close>

lemma at_work_same:
  assumes "at_work X batch d" and "b \<in> set (adChargeBatch d)" and "batch_id b = batch_id batch"
  shows "at_work X b = at_work X batch"
proof -
  have "batch_duePreRaw b = batch_duePreRaw batch" "batch_requestedPreRaw b = batch_requestedPreRaw batch"
    using assms by (auto simp: at_work_def)
  with assms(3) show ?thesis by (auto simp: at_work_def fun_eq_iff)
qed

definition row_of :: "batch \<Rightarrow> batch \<Rightarrow> ad_db \<Rightarrow> bool" where
  "row_of batch b d \<longleftrightarrow> b \<in> set (adChargeBatch d) \<and> batch_id b = batch_id batch"

lemma inv_row_opened:
  assumes aw: "at_work X batch d" and b: "row_of batch b d" "\<not> batch_terminal (batch_status b)"
  shows "opened X batch d"
proof -
  have "at_work X b d" using aw b at_work_same [OF aw] by (simp add: row_of_def)
  then have "opened X b d" using inv_row_open b by (simp add: row_of_def)
  with b aw show ?thesis by (simp add: opened_def row_of_def)
qed

lemma keeps_open_signed: "keeps_open (signed_batch signer nonce raw hash)"
  by (simp add: keeps_open_def frame_batch_def signed_batch_def batch_terminal_def)

lemma triple_sign:
  "triple (at_work X batch) (sign_batch batch deps signer)
     (\<lambda>r d. at_work X batch d \<and> (case r of None \<Rightarrow> True | Some b \<Rightarrow> row_of batch b d)) (at_work X batch)"
proof -
  let ?Q = "\<lambda>r d. at_work X batch d \<and> (case r of None \<Rightarrow> True | Some b \<Rightarrow> row_of batch b d)"
  have found: "triple (at_work X batch) (find_batch (batch_id batch))
      (\<lambda>b d. at_work X batch d \<and> row_of batch b d) (\<lambda>_. True)"
    by (rule triple_find_batch) (auto simp: row_of_def)
  have sign: "triple (opened X batch)
      (bindp (extern (dep_pendingNonce deps signer)) (\<lambda>pendingNonce.
       if (case latest of None \<Rightarrow> False | Some n \<Rightarrow> pendingNonce \<le> n)
       then throw (ChargeBlocked NONCE_GAP)
       else bindp (extern (dep_sign deps saved signer pendingNonce)) (\<lambda>(raw, hash).
         thenp (update_batch (batch_id batch) (signed_batch signer pendingNonce raw hash))
           (bindp (find_batch (batch_id batch)) (\<lambda>b. ret (Some b)))))) ?Q (\<lambda>_. True)" for latest saved
    by (intro triple_bind [where B = "\<lambda>_. opened X batch"] triple_extern triple_if triple_throw triple_prod
        triple_then [where B = "opened X batch"] triple_bind [OF triple_pre [OF found]] triple_ret
        triple_conseq [OF triple_update_open [OF keeps_open_signed]]) (auto simp: opened_at_work)
  have saved: "triple (\<lambda>d. at_work X batch d \<and> row_of batch saved d)
     (if batch_in_flight (batch_status saved) then ret (Some saved)
      else if batch_terminal (batch_status saved) then ret None
      else if res_pending r then throw (ChargeBlocked WAITING_CONFIRMATION)
      else bindp (extern (dep_pendingNonce deps signer)) (\<lambda>pendingNonce.
       if (case res_latestNonce r of None \<Rightarrow> False | Some n \<Rightarrow> pendingNonce \<le> n)
       then throw (ChargeBlocked NONCE_GAP)
       else bindp (extern (dep_sign deps saved signer pendingNonce)) (\<lambda>(raw, hash).
         thenp (update_batch (batch_id batch) (signed_batch signer pendingNonce raw hash))
           (bindp (find_batch (batch_id batch)) (\<lambda>b. ret (Some b)))))) ?Q (\<lambda>_. True)" for saved r
    by (intro triple_if triple_ret triple_throw triple_pre [OF sign]) (auto intro: inv_row_opened)
  show ?thesis
    unfolding sign_batch_def
    by (intro triple_transactional triple_bind [where B = "\<lambda>_. at_work X batch"] triple_get
        triple_bind [OF found saved]) auto
qed

lemma keeps_position: "keeps I (extern (dep_position deps batch n))"
  by (rule keeps_extern)

lemma triple_write_off:
  assumes "sound_hashes deps"
  shows "triple (at_work X batch) (bindp (extern (dep_blockHash deps n)) (\<lambda>h.
     thenp (uncollectable batch e n h) (ret False))) (\<lambda>_. at_work X batch) (at_work X batch)"
  by (rule triple_bind_hash [OF assms]) (auto intro!: keeps_then keeps_ret triple_uncollectable)

lemma triple_prepare:
  assumes "sound_hashes deps"
  shows "triple (at_work X batch) (prepareBatch batch deps signer head)
    (\<lambda>_. at_work X batch) (at_work X batch)"
proof -
  have "triple (\<lambda>d. at_work X batch d \<and> (case r of None \<Rightarrow> True | Some b \<Rightarrow> row_of batch b d))
      (case r of None \<Rightarrow> ret False | Some b \<Rightarrow> reconcileChargeBatch b deps head)
      (\<lambda>_. at_work X batch) (at_work X batch)" for r
  proof (cases r)
    case None
    then show ?thesis by (simp add: triple_ret)
  next
    case (Some b)
    have "triple (\<lambda>d. at_work X batch d \<and> row_of batch b d) (reconcileChargeBatch b deps head)
      (\<lambda>_. at_work X batch) (at_work X batch)"
    proof (rule triple_given, elim conjE)
      fix d assume "at_work X batch d" "row_of batch b d"
      then have "at_work X batch = at_work X b" using at_work_same by (simp add: row_of_def)
      then show ?thesis
        using triple_reconcile [OF assms, of X b head] by (auto elim!: triple_pre simp: row_of_def)
    qed
    with Some show ?thesis by simp
  qed
  note signed = triple_bind [OF triple_sign this]
  show ?thesis
    unfolding prepareBatch_def Let_def
    by (intro keeps_then keeps_assert_capture triple_prod triple_if triple_write_off [OF assms]
        signed keeps_throw keeps_bind keeps_extern)
qed

subsection \<open>The passes over rows read at their start\<close>

definition held :: "batch list \<Rightarrow> ad_db \<Rightarrow> bool" where
  "held bs d \<longleftrightarrow> billing_inv d \<and> set bs \<subseteq> set (adChargeBatch d) \<and> distinct (map batch_id bs)"

lemma held_inv: "held bs d \<Longrightarrow> billing_inv d"
  by (simp add: held_def)

lemma held_row: "held (b # bs) d \<Longrightarrow> at_work (set bs) b d \<and> b \<in> set (adChargeBatch d)"
  using at_work_row [of d b bs] by (simp add: held_def)

lemma held_rest: "held (b # bs) d0 \<Longrightarrow> at_work (set bs) b d \<Longrightarrow> held bs d"
  by (auto simp: held_def at_work_def)

lemma held_filter_sort: "billing_inv d \<Longrightarrow> held (sort_key k (filter P (adChargeBatch d))) d"
  using billing_invD(2) [of d] by (auto simp: held_def distinct_map intro: inj_on_subset)

lemma triple_row:
  assumes "triple (\<lambda>d. at_work (set bs) b d \<and> b \<in> set (adChargeBatch d)) m (\<lambda>_. at_work (set bs) b) (at_work (set bs) b)"
  shows "triple (held (b # bs)) m (\<lambda>_. held bs) (held bs)"
proof (rule triple_given)
  fix d assume "held (b # bs) d"
  then show "triple (held (b # bs)) m (\<lambda>_. held bs) (held bs)"
    by (intro triple_conseq [OF assms]) (auto dest: held_row intro: held_rest)
qed

lemma keeps_reconcile_loop:
  assumes "sound_hashes deps"
  shows "triple (held batches) (reconcile_loop deps head batches) (\<lambda>_. billing_inv) billing_inv"
  unfolding reconcile_loop_def
proof (rule triple_loopp_rest [where I = "\<lambda>bs _. held bs"])
  fix batch rest and a :: "bool \<times> string list \<times> error_code option"
  have step: "triple (held (batch # rest)) (reconcileChargeBatch batch deps head) (\<lambda>_. held rest) (held rest)"
    by (rule triple_row) (rule triple_reconcile [OF assms])
  show "triple (held (batch # rest)) (case a of (waiting, runs, blocked) \<Rightarrow> catchp
       (bindp (reconcileChargeBatch batch deps head) (\<lambda>waits.
          ret (Continue (waits \<or> waiting, batch_runId batch # runs, blocked))))
       (\<lambda>e. ret (Break (waiting, runs, Some (charge_code e)))))
     (\<lambda>r. case r of Continue _ \<Rightarrow> held rest | Break _ \<Rightarrow> billing_inv) billing_inv"
    by (intro triple_prod triple_catch [where X = "held rest"] triple_bind [OF step] triple_ret)
      (auto intro: held_inv)
qed (simp add: held_inv)

lemma at_work_harmless:
  assumes aw: "at_work X batch d" and h: "harmless f"
  shows "at_work X batch (adChargeBatch_update (update_where (\<lambda>b. batch_id b = batch_id batch) f) d)"
  using aw h inv_harmless [OF at_work_inv [OF aw] h]
  by (auto simp: at_work_def set_update_where harmless_def frame_batch_def)

lemma keeps_update_harmless:
  "harmless f \<Longrightarrow> keeps (at_work X batch) (update_batch (batch_id batch) f)"
  by (rule keeps_update_batch) (rule at_work_harmless)

lemma keeps_find_settings: "keeps I (find_settings w)"
  unfolding find_settings_def by (intro keeps_rules)

lemma keeps_charge_batches:
  assumes "sound_hashes deps"
  shows "triple (held batches) (loopp (charge_batch run deps signer head) batches acc)
    (\<lambda>_. billing_inv) billing_inv"
proof (rule triple_loopp_rest [where I = "\<lambda>bs _. held bs"])
  fix batch rest and acc :: "bool \<times> error_code option"
  let ?R = "\<lambda>r. case r of Continue _ \<Rightarrow> held rest | Break _ \<Rightarrow> billing_inv"
  have rest: "held rest d" if "held (batch # rest) d" for d using that by (simp add: held_def)
  have code: "harmless (\<lambda>b. b\<lparr>batch_errorCode := e\<rparr>)" for e
    by (simp add: harmless_def frame_batch_def)
  have prepare: "triple (held (batch # rest))
     (catchp
         (bindp (prepareBatch batch deps signer head) (\<lambda>waits.
            ret (if waits \<or> waiting then Break (True, failure) else Continue (False, failure))))
         (\<lambda>e. thenp (update_batch (batch_id batch) (\<lambda>b. b\<lparr>batch_errorCode := Some (charge_code e)\<rparr>))
            (ret (if charge_code e = CAPTURE_PROOF_ORPHANED
               then Continue (waiting, Some (charge_code e))
               else Break (waiting, Some (charge_code e)))))) (\<lambda>_. held rest) (held rest)" for waiting failure
  proof (rule triple_row, rule triple_catch [where X = "at_work (set rest) batch"])
    show "triple (\<lambda>d. at_work (set rest) batch d \<and> batch \<in> set (adChargeBatch d))
      (bindp (prepareBatch batch deps signer head) (\<lambda>waits.
          ret (if waits \<or> waiting then Break (True, failure) else Continue (False, failure))))
      (\<lambda>_. at_work (set rest) batch) (at_work (set rest) batch)"
      by (rule triple_bind, rule triple_pre, rule triple_prepare [OF assms], erule conjE, assumption, rule keeps_ret)
  qed (intro keeps_then keeps_update_harmless code keeps_ret)
  have broad: "triple P m ?R billing_inv" if "triple P m (\<lambda>_. held rest) (held rest)"
    for P and m :: "(ad_db, 'm, 'w, exn, (bool \<times> error_code option) flow) prog"
    by (rule triple_conseq [OF that]) (auto split: flow.split intro: held_inv)
  show "triple (held (batch # rest)) (charge_batch run deps signer head batch acc) ?R billing_inv"
    unfolding charge_batch_def
    by (intro broad triple_prod triple_if triple_ret
        triple_bind [where B = "\<lambda>_. held (batch # rest)"] prepare
        triple_conseq [OF keeps_find_settings [where I = "held (batch # rest)"]])
      (auto intro: rest)
qed (simp add: held_inv)

subsection \<open>Reserving the clicks of a run\<close>

definition group_ok :: "int \<times> string \<Rightarrow> click list \<Rightarrow> bool" where
  "group_ok w g \<longleftrightarrow> g \<noteq> [] \<and>
     (\<forall>c\<in>set g. click_status c = C_PENDING \<and> click_batchId c = None \<and> of_identity w c) \<and>
     (\<forall>c\<in>set g. \<forall>c'\<in>set g. group_key c = group_key c')"

definition groups_held :: "int \<times> string \<Rightarrow> click list list \<Rightarrow> ad_db \<Rightarrow> bool" where
  "groups_held w gs d \<longleftrightarrow> billing_inv d \<and> distinct (map click_id (concat gs)) \<and>
     set (concat gs) \<subseteq> set (adBillingClick d) \<and> (\<forall>g\<in>set gs. group_ok w g)"

definition reserve_click :: "string \<Rightarrow> int \<Rightarrow> click \<Rightarrow> click" where
  "reserve_click i due c = c\<lparr>click_batchId := Some i, click_status := (if due = 0 then C_SETTLED else C_RESERVED)\<rparr>"

definition reserve_step :: "batch \<Rightarrow> click list \<Rightarrow> ad_db \<Rightarrow> ad_db" where
  "reserve_step b g d = d\<lparr>adChargeBatch := adChargeBatch d @ [b],
     adBillingClick := update_where (\<lambda>c. c \<in> set g) (reserve_click (batch_id b) (batch_duePreRaw b)) (adBillingClick d)\<rparr>"

lemma clicks_of_reserve:
  assumes inv: "billing_inv d" and g: "group_ok w g" and fresh: "\<forall>b\<in>set (adChargeBatch d). batch_id b \<noteq> batch_id nb"
  shows "clicks_of (reserve_step nb g d) j = (if j = batch_id nb
    then map (reserve_click j (batch_duePreRaw nb)) (filter (\<lambda>c. c \<in> set g) (adBillingClick d))
    else clicks_of d j)"
proof -
  have none: "click_batchId c \<noteq> Some (batch_id nb)" if "c \<in> set (adBillingClick d)" for c
    using billing_invD(4) [OF inv that] fresh by blast
  let ?h = "\<lambda>c. if c \<in> set g then reserve_click (batch_id nb) (batch_duePreRaw nb) c else c"
  let ?cs = "adBillingClick d"
  have split: "clicks_of (reserve_step nb g d) j = map ?h (filter (\<lambda>c. click_batchId (?h c) = Some j) ?cs)"
    unfolding clicks_of_def reserve_step_def update_where_def by (simp add: filter_map o_def)
  have batched: "click_batchId (?h c) = (if c \<in> set g then Some (batch_id nb) else click_batchId c)" for c
    by (simp add: reserve_click_def)
  have unbatched: "click_batchId c = None" if "c \<in> set g" for c using g that by (simp add: group_ok_def)
  show ?thesis
  proof (cases "j = batch_id nb")
    case True
    then have "filter (\<lambda>c. click_batchId (?h c) = Some j) ?cs = filter (\<lambda>c. c \<in> set g) ?cs"
      unfolding batched using none by (intro filter_cong) auto
    with True show ?thesis unfolding split by simp
  next
    case False
    then have "filter (\<lambda>c. click_batchId (?h c) = Some j) ?cs = filter (\<lambda>c. click_batchId c = Some j) ?cs"
      unfolding batched using unbatched by (intro filter_cong) auto
    moreover have "map ?h (filter (\<lambda>c. click_batchId c = Some j) ?cs) = filter (\<lambda>c. click_batchId c = Some j) ?cs"
      using unbatched by (intro map_idI) auto
    ultimately show ?thesis using False unfolding split by (simp add: clicks_of_def)
  qed
qed

lemma group_members:
  assumes "billing_inv d" and "distinct (map click_id g)" and "set g \<subseteq> set (adBillingClick d)"
  shows "length (filter (\<lambda>c. c \<in> set g) (adBillingClick d)) = length g"
    "sum_list (map amt (filter (\<lambda>c. c \<in> set g) (adBillingClick d))) = sum_list (map amt g)"
proof -
  have d: "distinct (filter (\<lambda>c. c \<in> set g) (adBillingClick d))" "distinct g"
    using billing_invD(1) [OF assms(1)] assms(2) by (auto simp: distinct_map)
  have s: "set (filter (\<lambda>c. c \<in> set g) (adBillingClick d)) = set g" using assms(3) by auto
  show "length (filter (\<lambda>c. c \<in> set g) (adBillingClick d)) = length g"
    using distinct_card [OF d(1)] distinct_card [OF d(2)] s by simp
  show "sum_list (map amt (filter (\<lambda>c. c \<in> set g) (adBillingClick d))) = sum_list (map amt g)"
    using d s by (simp add: sum_list_distinct_conv_sum_set)
qed

lemma reserved_batch_ok:
  assumes inv: "billing_inv d" and g: "group_ok w g" "distinct (map click_id g)" "set g \<subseteq> set (adBillingClick d)"
    and fresh: "\<forall>b\<in>set (adChargeBatch d). batch_id b \<noteq> i"
    and nb: "nb = new_batch deps run first (length g) (sum_list (map amt g)) i h t"
  shows "batch_ok nb (clicks_of (reserve_step nb g d) i)"
proof -
  have i: "batch_id nb = i" and due: "batch_duePreRaw nb = sum_list (map amt g)"
    by (simp_all add: nb new_batch_def)
  let ?cs = "map (reserve_click i (sum_list (map amt g))) (filter (\<lambda>c. c \<in> set g) (adBillingClick d))"
  have cs: "clicks_of (reserve_step nb g d) i = ?cs"
    using clicks_of_reserve [OF inv g(1), of nb i] fresh i due by simp
  have am: "map amt ?cs = map amt (filter (\<lambda>c. c \<in> set g) (adBillingClick d))"
    by (simp add: reserve_click_def amt_def)
  have st: "all_status (if sum_list (map amt g) = 0 then C_SETTLED else C_RESERVED) ?cs"
    by (auto simp: all_status_def reserve_click_def)
  show ?thesis
    unfolding cs batch_ok_def am group_members [OF inv g(2,3)]
    using st group_members [OF inv g(2,3)]
    by (cases "sum_list (map amt g) = 0")
      (simp_all add: nb new_batch_def states_ok_def proof_ok_def batch_signed_def truthy_def)
qed

lemma reserve_click_fields [simp]:
  "click_id (reserve_click i due c) = click_id c"
  "click_batchId (reserve_click i due c) = Some i"
  "click_amountPreRaw (reserve_click i due c) = click_amountPreRaw c"
  "click_bidUsdRaw (reserve_click i due c) = click_bidUsdRaw c"
  "click_keywordId (reserve_click i due c) = click_keywordId c"
  "click_stakerAddress (reserve_click i due c) = click_stakerAddress c"
  "click_positionVersion (reserve_click i due c) = click_positionVersion c"
  "click_chainId (reserve_click i due c) = click_chainId c"
  "click_contractAddress (reserve_click i due c) = click_contractAddress c"
  by (simp_all add: reserve_click_def)

lemma new_batch_position:
  assumes "colon_free c" "colon_free first" "group_key c = group_key first"
    "of_identity (dep_chainId deps, dep_contractAddress deps) c"
  shows "same_position (new_batch deps run first n due i h t) (reserve_click i due' c)"
proof -
  have "click_keywordId c = click_keywordId first" "click_stakerAddress c = click_stakerAddress first"
    "click_positionVersion c = click_positionVersion first"
    using group_key_position [OF assms(1,2)] assms(3) by blast+
  with assms(4) show ?thesis
    unfolding same_position_def of_identity_def by (simp add: new_batch_def)
qed

lemma reserve_click_ok:
  assumes "click_ok c" and "click_status c = C_PENDING"
  shows "click_ok (reserve_click i due c)"
proof -
  have "priced_click c" using assms by (simp add: click_ok_def)
  with assms(1) show ?thesis by (simp add: click_ok_def colon_free_def priced_click_def)
qed

lemma inv_reserve:
  assumes inv: "billing_inv d" and g: "group_ok w g" "distinct (map click_id g)" "set g \<subseteq> set (adBillingClick d)"
    and w: "w = (dep_chainId deps, dep_contractAddress deps)" and first: "first \<in> set g"
    and fresh: "\<forall>b\<in>set (adChargeBatch d). batch_id b \<noteq> i"
    and nb: "nb = new_batch deps run first (length g) (sum_list (map amt g)) i h t"
  shows "billing_inv (reserve_step nb g d)"
proof -
  let ?d = "reserve_step nb g d"
  have i: "batch_id nb = i" by (simp add: nb new_batch_def)
  have "map click_id (adBillingClick ?d) = map click_id (adBillingClick d)"
    by (simp add: reserve_step_def map_update_where reserve_click_def)
  moreover have "distinct (map batch_id (adChargeBatch ?d))"
    using billing_invD(2) [OF inv] fresh i by (auto simp: reserve_step_def)
  moreover have "click_ok c \<and> (\<forall>j. click_batchId c = Some j \<longrightarrow>
      (\<exists>b\<in>set (adChargeBatch ?d). batch_id b = j \<and> same_position b c))"
    if "c \<in> set (adBillingClick ?d)" for c
  proof -
    from that have "c \<in> set (update_where (\<lambda>c. c \<in> set g) (reserve_click i (batch_duePreRaw nb)) (adBillingClick d))"
      by (simp add: reserve_step_def i)
    then show ?thesis
    proof (rule in_update_whereE)
      assume "c \<in> set (adBillingClick d)"
      then show ?thesis using billing_invD(3,4) [OF inv] by (fastforce simp: reserve_step_def)
    next
      fix q assume q: "q \<in> set (adBillingClick d)" "q \<in> set g" "c = reserve_click i (batch_duePreRaw nb) q"
      have ok: "click_ok q" "click_ok first" using billing_invD(3) [OF inv] q(1) first g(3) by auto
      have "group_key q = group_key first" "click_status q = C_PENDING" "of_identity w q"
        using g(1) q(2) first unfolding group_ok_def by blast+
      then have "same_position nb c"
        unfolding q(3) nb using ok by (intro new_batch_position) (auto simp: click_ok_def w)
      moreover have "click_ok c"
        unfolding q(3) using ok(1) \<open>click_status q = C_PENDING\<close> by (rule reserve_click_ok)
      moreover have "click_batchId c = Some i" by (simp add: q(3))
      moreover have "nb \<in> set (adChargeBatch ?d)" by (simp add: reserve_step_def)
      ultimately show ?thesis using i by (metis option.inject)
    qed
  qed
  moreover have "batch_ok b (clicks_of ?d (batch_id b))" if "b \<in> set (adChargeBatch ?d)" for b
  proof (cases "b = nb")
    case True
    with reserved_batch_ok [OF inv g fresh nb] i show ?thesis by simp
  next
    case False
    then have b: "b \<in> set (adChargeBatch d)" using that by (simp add: reserve_step_def)
    then show ?thesis
      using billing_invD(5) [OF inv b] fresh i clicks_of_reserve [OF inv g(1), of nb "batch_id b"] by simp
  qed
  ultimately show ?thesis using inv unfolding billing_inv_def by simp
qed

text \<open>The write the code makes is the reservation step: exactly the group's clicks match.\<close>

lemma group_write:
  assumes "groups_held w (g # gs) d"
  shows "update_where (\<lambda>c. click_id c \<in> click_id ` set g \<and> click_status c = C_PENDING \<and> click_batchId c = None)
      f (adBillingClick d) = update_where (\<lambda>c. c \<in> set g) f (adBillingClick d)"
proof (rule update_where_cong)
  fix c assume c: "c \<in> set (adBillingClick d)"
  have ids: "distinct (map click_id (adBillingClick d))" and sub: "set g \<subseteq> set (adBillingClick d)"
    and ok: "group_ok w g"
    using assms billing_invD(1) by (auto simp: groups_held_def)
  show "(click_id c \<in> click_id ` set g \<and> click_status c = C_PENDING \<and> click_batchId c = None) = (c \<in> set g)"
    using distinct_map_eq [OF ids _ c] sub ok by (auto simp: group_ok_def)
qed simp

lemma reserve_step_write:
  assumes "groups_held w (g # gs) d" and "batch_id nb = i" and "batch_duePreRaw nb = due"
  shows "adBillingClick_update (update_where
      (\<lambda>c. click_id c \<in> click_id ` set g \<and> click_status c = C_PENDING \<and> click_batchId c = None)
      (\<lambda>c. c\<lparr>click_batchId := Some i, click_status := (if due = 0 then C_SETTLED else C_RESERVED)\<rparr>))
    (adChargeBatch_update (\<lambda>bs. bs @ [nb]) d) = reserve_step nb g d"
  using group_write [OF assms(1)] assms(2,3) by (simp add: reserve_step_def reserve_click_def [abs_def])

lemma groups_held_step:
  assumes held: "groups_held w (g # gs) d" and w: "w = (dep_chainId deps, dep_contractAddress deps)"
    and first: "first \<in> set g" and fresh: "\<forall>b\<in>set (adChargeBatch d). batch_id b \<noteq> i"
    and nb: "nb = new_batch deps run first (length g) (sum_list (map amt g)) i h t"
  shows "groups_held w gs (reserve_step nb g d)"
proof -
  have "billing_inv (reserve_step nb g d)"
    using held by (intro inv_reserve [OF _ _ _ _ w first fresh nb]) (auto simp: groups_held_def)
  moreover have "c \<in> set (adBillingClick (reserve_step nb g d))" if "c \<in> set (concat gs)" for c
  proof -
    have "c \<in> set (adBillingClick d)" using held that by (auto simp: groups_held_def)
    moreover have "c \<notin> set g" using held that by (auto simp: groups_held_def image_iff disjoint_iff)
    ultimately show ?thesis by (auto simp: reserve_step_def set_update_where)
  qed
  ultimately show ?thesis using held by (auto simp: groups_held_def)
qed

lemma triple_create_batch:
  assumes "\<And>d. P d \<Longrightarrow> \<forall>x\<in>set (adChargeBatch d). batch_id x \<noteq> batch_id b \<Longrightarrow>
      Q () (adChargeBatch_update (\<lambda>bs. bs @ [b]) d)" and "\<And>d. P d \<Longrightarrow> E d"
  shows "triple P (create_batch b) Q E"
  using assms unfolding triple_def create_batch_def prog_defs by auto

lemma triple_reserve_group:
  assumes w: "w = (dep_chainId deps, dep_contractAddress deps)"
  shows "triple (groups_held w (g # gs)) (reserve_group deps run g) (\<lambda>_. groups_held w gs) (\<lambda>_. True)"
proof (rule triple_given)
  fix d0 assume d0: "groups_held w (g # gs) d0"
  then have "g \<noteq> []" by (simp add: groups_held_def group_ok_def)
  then obtain first rest where g: "g = first # rest" by (cases g) auto
  let ?due = "sum_list (map amt g)"
  have "priced_click c" if "c \<in> set g" for c
  proof -
    have "c \<in> set (adBillingClick d0)" "click_status c = C_PENDING"
      using d0 that by (auto simp: groups_held_def group_ok_def)
    then show ?thesis using d0 billing_invD(3) by (auto simp: groups_held_def click_ok_def)
  qed
  then have due: "total_due g = Some ?due" by (intro total_due_sum) blast
  let ?nb = "\<lambda>i h t. new_batch deps run first (length g) ?due i (''0x'' @ h) t"
  let ?B = "\<lambda>i h t d. \<exists>d0. groups_held w (g # gs) d0 \<and> (\<forall>x\<in>set (adChargeBatch d0). batch_id x \<noteq> i) \<and>
      d = adChargeBatch_update (\<lambda>bs. bs @ [?nb i h t]) d0"
  have create: "triple (groups_held w (g # gs)) (create_batch (?nb i h t)) (\<lambda>_. ?B i h t) (\<lambda>_. True)" for i h t
    by (rule triple_create_batch) (auto simp: new_batch_def)
  have assign: "triple (?B i h t) (bindp (update_clicks_count
         (\<lambda>c. click_id c \<in> click_id ` set g \<and> click_status c = C_PENDING \<and> click_batchId c = None)
         (\<lambda>c. c\<lparr>click_batchId := Some i, click_status := (if ?due = 0 then C_SETTLED else C_RESERVED)\<rparr>))
       (\<lambda>n. if n \<noteq> length g then throw (ChargeBlocked TRANSACTION_UNKNOWN) else ret ()))
     (\<lambda>_. groups_held w gs) (\<lambda>_. True)" for i h t
  proof -
    have step: "groups_held w gs (adBillingClick_update (update_where
        (\<lambda>c. click_id c \<in> click_id ` set g \<and> click_status c = C_PENDING \<and> click_batchId c = None)
        (\<lambda>c. c\<lparr>click_batchId := Some i, click_status := (if ?due = 0 then C_SETTLED else C_RESERVED)\<rparr>)) d)"
      if "?B i h t d" for d
    proof -
      from that obtain d1 where d1: "groups_held w (g # gs) d1" "\<forall>x\<in>set (adChargeBatch d1). batch_id x \<noteq> i"
        and d: "d = adChargeBatch_update (\<lambda>bs. bs @ [?nb i h t]) d1" by blast
      have "groups_held w gs (reserve_step (?nb i h t) g d1)"
        by (rule groups_held_step [OF d1(1) w _ d1(2)]) (auto simp: g)
      moreover have "batch_id (?nb i h t) = i" "batch_duePreRaw (?nb i h t) = ?due"
        by (simp_all add: new_batch_def)
      ultimately show ?thesis unfolding d by (simp only: reserve_step_write [OF d1(1)])
    qed
    show ?thesis
      unfolding update_clicks_count_def
      by (intro triple_bind [where B = "\<lambda>_. groups_held w gs"] triple_bind [where B = "\<lambda>_. ?B i h t"] triple_get
          triple_then [where B = "groups_held w gs"] triple_update_clicks step triple_ret triple_if triple_throw)
        auto
  qed
  have eq: "reserve_group deps run g =
     bindp (extern (dep_uuid deps)) (\<lambda>i.
       bindp (extern (dep_randomHex deps)) (\<lambda>hex.
       bindp (extern (dep_clock deps)) (\<lambda>createdAt.
       thenp (create_batch (?nb i hex createdAt))
       (bindp (update_clicks_count
           (\<lambda>c. click_id c \<in> click_id ` set g \<and> click_status c = C_PENDING \<and> click_batchId c = None)
           (\<lambda>c. c\<lparr>click_batchId := Some i, click_status := (if ?due = 0 then C_SETTLED else C_RESERVED)\<rparr>))
         (\<lambda>n. if n \<noteq> length g then throw (ChargeBlocked TRANSACTION_UNKNOWN) else ret ())))))"
    unfolding reserve_group_def due by (simp add: g)
  show "triple (groups_held w (g # gs)) (reserve_group deps run g) (\<lambda>_. groups_held w gs) (\<lambda>_. True)"
    unfolding eq by (intro triple_bind [where B = "\<lambda>_. groups_held w (g # gs)"] triple_extern
        triple_then [OF create assign]; simp)
qed

lemma groups_held_start:
  assumes inv: "billing_inv d" and w: "w = (dep_chainId deps, dep_contractAddress deps)"
  shows "groups_held w (click_groups (sort_key k (filter (reservable deps cutoff fin) (adBillingClick d)))) d"
proof -
  let ?cs = "sort_key k (filter (reservable deps cutoff fin) (adBillingClick d))"
  have ids: "distinct (map click_id ?cs)"
    using billing_invD(1) [OF inv] by (auto simp: distinct_map intro: inj_on_subset)
  have sets: "set (concat (click_groups ?cs)) = set ?cs"
    using click_groups_cover [of ?cs] by simp
  have "distinct (concat (click_groups ?cs))"
  proof (rule distinct_concat)
    show "distinct (click_groups ?cs)" by (rule click_groups_distinct)
    show "distinct g" if "g \<in> set (click_groups ?cs)" for g
      using distinct_group_ids [OF that ids] by (simp add: distinct_map)
    show "set g \<inter> set h = {}"
      if "g \<in> set (click_groups ?cs)" "h \<in> set (click_groups ?cs)" "g \<noteq> h" for g h
      using click_groups_disjoint [OF that(1,2)] that(3) by blast
  qed
  moreover have "inj_on click_id (set ?cs)" using ids by (simp only: distinct_map)
  ultimately have "distinct (map click_id (concat (click_groups ?cs)))"
    by (simp only: distinct_map sets)
  moreover have "group_ok w g" if "g \<in> set (click_groups ?cs)" for g
  proof -
    have "reservable deps cutoff fin c" if "c \<in> set g" for c
    proof -
      have "c \<in> set (concat (click_groups ?cs))" using \<open>g \<in> set (click_groups ?cs)\<close> that by auto
      then show ?thesis unfolding sets by simp
    qed
    then have "\<forall>c\<in>set g. click_status c = C_PENDING \<and> click_batchId c = None \<and> of_identity w c"
      unfolding reservable_def w by blast
    then show ?thesis
      using click_groups_nonempty [OF that] click_groups_same_key [OF that] unfolding group_ok_def by blast
  qed
  ultimately show ?thesis using inv sets by (auto simp: groups_held_def)
qed

lemma keeps_refreshRun: "keeps billing_inv (refreshRun runId now failure)"
  unfolding refreshRun_def
  by (intro keeps_rules keeps_update_run keeps_find_run) (simp add: billing_inv_other)

lemma harmless_runId: "harmless (\<lambda>b. b\<lparr>batch_runId := r\<rparr>)"
  by (simp add: harmless_def frame_batch_def)

lemma keeps_reserve_groups:
  assumes w: "w = (dep_chainId deps, dep_contractAddress deps)"
  shows "triple (groups_held w gs) (forp (\<lambda>g.
      if run_trigger run \<noteq> MANUAL \<and> \<not> chargeGroupDue g settings (dep_now deps) then ret ()
      else reserve_group deps run g) gs) (\<lambda>_. billing_inv) (\<lambda>_. True)"
proof -
  have "triple (groups_held w (g # rest))
      (if run_trigger run \<noteq> MANUAL \<and> \<not> chargeGroupDue g settings (dep_now deps) then ret ()
      else reserve_group deps run g) (\<lambda>_. groups_held w rest) (\<lambda>_. True)" for g rest
    by (intro triple_if triple_ret triple_reserve_group [OF w]) (simp add: groups_held_def)
  then have "triple (groups_held w gs) (forp (\<lambda>g.
      if run_trigger run \<noteq> MANUAL \<and> \<not> chargeGroupDue g settings (dep_now deps) then ret ()
      else reserve_group deps run g) gs) (\<lambda>_. groups_held w []) (\<lambda>_. True)"
    unfolding forp_def by (rule triple_foldp_rest [where I = "\<lambda>gs _. groups_held w gs"])
  then show ?thesis by (rule triple_conseq) (auto simp: groups_held_def)
qed

lemma keeps_weak: "keeps I m \<Longrightarrow> triple I m (\<lambda>_. I) (\<lambda>_. True)"
  by (erule triple_conseq) auto

lemma triple_reserve_clicks:
  "triple billing_inv (bindp (db_get (\<lambda>d. sort_key k (filter (reservable deps cutoff fin) (adBillingClick d)))) (\<lambda>clicks.
     thenp (forp (\<lambda>clickGroup.
         if run_trigger run \<noteq> MANUAL \<and> \<not> chargeGroupDue clickGroup settings (dep_now deps) then ret ()
         else reserve_group deps run clickGroup) (click_groups clicks))
     (thenp (update_run i f) (ret autoRuns)))) (\<lambda>_. billing_inv) (\<lambda>_. True)"
  by (rule triple_bind [where B = "\<lambda>clicks. groups_held (dep_chainId deps, dep_contractAddress deps) (click_groups clicks)"],
      rule triple_get, erule groups_held_start [OF _ refl], rule triple_then, rule keeps_reserve_groups [OF refl],
      intro keeps_weak keeps_then keeps_update_run keeps_ret)
    (simp add: billing_inv_other)

lemma keeps_reserveRun: "keeps billing_inv (reserveRun run settings deps head)"
  unfolding reserveRun_def Let_def
  by (rule triple_bind [where B = "\<lambda>_. billing_inv"], rule triple_transactional,
      intro triple_bind [OF keeps_weak [OF keeps_find_run]] triple_bind [where B = "\<lambda>_. billing_inv"]
        triple_then [where B = billing_inv] triple_reserve_clicks keeps_weak keeps_rules keeps_update_batches
        inv_harmless harmless_runId)
    (auto intro!: keeps_forp keeps_refreshRun)

subsection \<open>Prices and evidence\<close>

lemma keeps_unbatched: "unbatched_write P f \<Longrightarrow> keeps billing_inv (update_clicks P f)"
  by (rule keeps_update_clicks) (rule inv_unbatched)

lemma bill_amount_nonneg:
  assumes "bill_amount bid p = Inr amount"
  shows "0 \<le> amount"
proof -
  obtain t where t: "billPreRaw (show_int bid) p = Inr t" "js_bigint t = Some amount"
    using assms by (auto simp: bill_amount_def split: sum.splits option.splits)
  then obtain b q where "0 < b" "0 < q" "t = show_int (b * 10 ^ 30 div q)"
    using billPreRaw_Inr by blast
  with t(2) show ?thesis by (auto intro!: pos_imp_zdiv_nonneg_iff [THEN iffD2])
qed

lemma unbatched_priced:
  assumes "0 \<le> amount"
  shows "unbatched_write (\<lambda>c. click_id c = i \<and> click_status c = C_PRICE_PENDING \<and> click_amountPreRaw c = None)
    (priced p q s amount)"
  using assms by (auto simp: unbatched_write_def priced_def click_ok_def priced_click_def colon_free_def)

lemma unbatched_unbilled:
  assumes "\<And>c. P c \<Longrightarrow> click_batchId c = None \<or> \<not> batched_status (click_status c)"
  shows "unbatched_write P (\<lambda>c. c\<lparr>click_status := C_UNBILLED, click_errorCode := e\<rparr>)"
  using assms by (auto simp: unbatched_write_def click_ok_def priced_click_def colon_free_def)

lemma keeps_convert_click: "keeps billing_inv (convert_click p q s click)"
  unfolding convert_click_def
  by (intro keeps_rules keeps_unbatched unbatched_priced bill_amount_nonneg)

lemma keeps_convert_pages: "keeps billing_inv (convert_pages fuel p q s w a)"
proof (induction fuel arbitrary: a)
  case 0
  then show ?case by (simp add: keeps_throw)
next
  case (Suc fuel)
  then show ?case by (simp only: convert_pages.simps) (intro keeps_rules keeps_convert_click)
qed

lemma keeps_convertPendingPrices: "keeps billing_inv (convertPendingPrices formatUnits w now)"
  unfolding convertPendingPrices_def
  by (intro keeps_rules keeps_convert_pages keeps_unbatched unbatched_unbilled)
    (simp add: interrupted_def batched_status_def)

lemma keeps_validateClickEvidence: "keeps billing_inv (validateClickEvidence deps fin)"
proof -
  have verdict: "keeps I (block_verdict deps fin n h)" for I n h
    unfolding block_verdict_def by (intro keeps_rules)
  have click: "keeps I (click_verdict deps fin c)" for I c
    unfolding click_verdict_def
    by (intro keeps_bind triple_option keeps_ret verdict) (auto intro: keeps_ret verdict split: verdict.split option.split)
  have step: "keeps billing_inv (case v of
         Rejected e \<Rightarrow> update_clicks (\<lambda>c. click_id c = click_id click \<and> click_unreserved c)
           (\<lambda>c. c\<lparr>click_status := C_UNBILLED, click_errorCode := Some e\<rparr>)
       | _ \<Rightarrow> ret ())" for v click
    by (cases v) (auto intro!: keeps_ret keeps_unbatched unbatched_unbilled simp: click_unreserved_def)
  show ?thesis
    unfolding validateClickEvidence_def by (intro keeps_bind keeps_get keeps_forp click step)
qed

subsection \<open>The job\<close>

lemma keeps_update_settings: "keeps billing_inv (update_settings w f)"
  unfolding update_settings_def
  by (intro keeps_rules keeps_find_settings keeps_mod) (simp add: billing_inv_other)

lemma keeps_upsert_settings: "keeps billing_inv (upsert_settings w)"
  unfolding upsert_settings_def
  by (intro keeps_rules keeps_find_settings keeps_mod) (simp add: billing_inv_other)

lemma keeps_wallet_balance: "keeps I (wallet_balance j deps s signer)"
  unfolding wallet_balance_def Let_def by (intro keeps_rules)

lemma keeps_check_operator: "keeps I (check_operator j deps s)"
  unfolding check_operator_def Let_def by (intro keeps_rules keeps_wallet_balance)

lemma keeps_previous_canonical: "keeps I (previous_canonical deps s fin)"
  unfolding previous_canonical_def by (intro keeps_rules)

lemma keeps_reconcile_pass:
  assumes "sound_hashes deps"
  shows "keeps billing_inv (reconcile_pass deps settings)"
  unfolding reconcile_pass_def Let_def
  by (intro keeps_rules keeps_previous_canonical keeps_validateClickEvidence
      triple_bind [where B = "\<lambda>batches. held batches"] triple_bind [OF keeps_reconcile_loop [OF assms]] triple_get)
    (auto simp: to_reconcile_def intro: held_filter_sort)

lemma keeps_select_runs: "keeps billing_inv (select_runs j deps settings blocked)"
  unfolding select_runs_def create_run_def Let_def
  by (intro keeps_rules keeps_mod) (simp add: billing_inv_other)

lemma keeps_charge_run:
  assumes "sound_hashes deps"
  shows "keeps billing_inv (charge_run deps settings signer head run acc)"
proof -
  have "keeps billing_inv (bindp (db_get (to_prepare run)) (\<lambda>batches.
        bindp (loopp (charge_batch run deps s head) batches (waiting, None)) (\<lambda>(waiting', failure).
        thenp (refreshRun (run_id run) (dep_now deps) failure)
          (ret (waiting', if failure \<noteq> None \<and> failure \<noteq> Some WAITING_CONFIRMATION \<and>
             failure \<noteq> Some CAPTURE_PROOF_ORPHANED then failure else blocked)))))" for s waiting blocked
    by (rule triple_bind [where B = "\<lambda>batches. held batches"], rule triple_get)
      (auto simp: to_prepare_def intro!: held_filter_sort triple_bind [OF keeps_charge_batches [OF assms]]
        keeps_then keeps_ret keeps_refreshRun)
  then show ?thesis
    unfolding charge_run_def
    by (intro triple_prod triple_if keeps_then keeps_ret keeps_update_run keeps_reserveRun)
      (simp_all add: billing_inv_other)
qed

lemma keeps_run_charge_job:
  assumes "sound_hashes deps"
  shows "keeps billing_inv (run_charge_job j deps)"
  unfolding run_charge_job_def Let_def
  by (intro keeps_rules keeps_upsert_settings keeps_update_settings keeps_convertPendingPrices
      keeps_reconcile_pass [OF assms] keeps_check_operator keeps_refreshRun keeps_select_runs
      keeps_charge_run [OF assms])

subsection \<open>Properties of the charge worker\<close>

text \<open>
  C1: Whatever the chain, the operator and the outside world answer at each call, a run of the
  charge job, whether it returns or throws, keeps the billing invariant: every batch is backed by
  exactly its clicks, its due is the sum of their amounts, a confirmed batch charged its whole due
  and settled every click, a partial one charged less and settled clicks worth at most the charge,
  an uncollectable one charged nothing, an open one has its clicks reserved and nothing charged,
  and a settled signed batch holds the block that proves it.
\<close>

theorem processAdChargeJob_keeps_billing_inv:
  assumes "billing_inv (db st)" and "sound_hashes deps"
  shows "billing_inv (db (snd (processAdChargeJob jobRunId (Some deps) st)))"
proof -
  have "sound_hashes (deps\<lparr>dep_contractAddress := to_lower (dep_contractAddress deps)\<rparr>)"
    using assms(2) by (simp add: sound_hashes_def)
  from keepsD [OF keeps_run_charge_job [OF this] assms(1)] show ?thesis
    by (simp add: processAdChargeJob_def)
qed

text \<open>
  C2: A receipt whose event matches the batch is settled exactly: the batch records the charged
  amount and the rest of the due as its shortfall, it is confirmed when nothing is short and
  partial otherwise, the clicks it settles are worth at most the charge, all of them are settled
  when the charge covers the due and some is left when it does not, and no other batch or click
  changes.
\<close>

theorem settleChargeReceipt_settles:
  assumes inv: "billing_inv (db st)" and b: "batch \<in> set (adChargeBatch (db st))"
    and ev: "rc_event receipt = Some event" and m: "receipt_matches batch event"
  shows "\<exists>d'. settleChargeReceipt batch receipt st = (Inr (), st\<lparr>db := d'\<rparr>) \<and>
    (\<forall>b\<in>set (adChargeBatch d'). batch_id b = batch_id batch \<longrightarrow>
       batch_chargedPreRaw b = Some (ev_chargedPre event) \<and>
       batch_shortfallPreRaw b = Some (batch_duePreRaw batch - ev_chargedPre event) \<and>
       batch_status b = (if ev_chargedPre event < batch_duePreRaw batch then B_PARTIAL else B_CONFIRMED)) \<and>
    settled_total (clicks_of d' (batch_id batch)) \<le> ev_chargedPre event \<and>
    (all_status C_SETTLED (clicks_of d' (batch_id batch)) \<longleftrightarrow>
       ev_chargedPre event = batch_duePreRaw batch) \<and>
    (\<forall>i. i \<noteq> batch_id batch \<longrightarrow> clicks_of d' i = clicks_of (db st) i) \<and>
    filter (\<lambda>b. batch_id b \<noteq> batch_id batch) (adChargeBatch d') =
      filter (\<lambda>b. batch_id b \<noteq> batch_id batch) (adChargeBatch (db st))"
proof -
  let ?i = "batch_id batch" and ?charged = "ev_chargedPre event" and ?d = "db st"
  obtain s u where su: "allot ?charged (batch_clicks ?i ?d) = Some (s, u)"
    and run: "settleChargeReceipt batch receipt st = (Inr (), st\<lparr>db := batch_step ?i
      (settled_batch batch receipt ?charged) (settle_click s u) ?d\<rparr>)"
    using settle_runs [OF inv _ ev m] b by blast
  let ?g = "\<lambda>c. if click_batchId c = Some ?i then settle_click s u c else c"
  let ?d' = "batch_step ?i (settled_batch batch receipt ?charged) ?g ?d"
  have d': "batch_step ?i (settled_batch batch receipt ?charged) (settle_click s u) ?d = ?d'"
    by (simp add: batch_step_def frame_settle(2) [OF inv su])
  have clicks: "clicks_of ?d' j = (if j = ?i then map (settle_click s u) (clicks_of ?d ?i) else clicks_of ?d j)" for j
    unfolding clicks_of_batch_step [OF frame_settle(1) [OF inv su]] by (simp add: clicks_of_def)
  have ok: "batch_ok batch (clicks_of ?d ?i)" using billing_invD(5) [OF inv b] .
  have due: "batch_duePreRaw batch = sum_list (map amt (clicks_of ?d ?i))" and
    charged: "0 \<le> ?charged" "?charged \<le> batch_duePreRaw batch"
    using ok m by (auto simp: batch_ok_def receipt_matches_def split: if_splits)
  have states: "states_ok (settled_batch batch receipt ?charged batch) (clicks_of ?d' ?i)"
    using settled_states_ok [OF inv su due refl charged] by (simp add: clicks)
  have status: "batch_status (settled_batch batch receipt ?charged batch) =
      (if ?charged < batch_duePreRaw batch then B_PARTIAL else B_CONFIRMED)"
    by (simp add: settled_batch_def)
  have "settled_total (clicks_of ?d' ?i) = sum_list (map amt (clicks_of ?d' ?i))"
    if "all_status C_SETTLED (clicks_of ?d' ?i)"
    using that by (simp add: settled_total_def all_status_def filter_id_conv [THEN iffD2])
  moreover have "sum_list (map amt (clicks_of ?d' ?i)) = batch_duePreRaw batch"
    by (simp add: clicks due o_def)
  ultimately have all: "settled_total (clicks_of ?d' ?i) \<le> ?charged \<and>
      (all_status C_SETTLED (clicks_of ?d' ?i) \<longleftrightarrow> ?charged = batch_duePreRaw batch)"
    using states charged status
    by (cases "?charged < batch_duePreRaw batch")
      (auto simp: states_ok_def settled_batch_def all_status_def)
  have "batch_chargedPreRaw b = Some ?charged \<and> batch_shortfallPreRaw b = Some (batch_duePreRaw batch - ?charged) \<and>
      batch_status b = (if ?charged < batch_duePreRaw batch then B_PARTIAL else B_CONFIRMED)"
    if "b \<in> set (adChargeBatch ?d')" "batch_id b = ?i" for b
    using that by (auto simp: batch_step_def set_update_where settled_batch_def Let_def)
  moreover have "filter (\<lambda>b. batch_id b \<noteq> ?i) (adChargeBatch ?d') = filter (\<lambda>b. batch_id b \<noteq> ?i) (adChargeBatch ?d)"
    by (simp add: batch_step_def filter_other_rows settled_batch_def Let_def)
  ultimately show ?thesis using run all clicks unfolding d' by auto
qed

text \<open>
  A receipt without a charge event, or with one that differs from the batch in the keyword,
  the staker, the charge id or the requested amount, or that charges more than was requested, is
  refused as an unknown transaction, and nothing is written.
\<close>

theorem settleChargeReceipt_refuses:
  "settleChargeReceipt batch receipt st = (Inl (ChargeBlocked TRANSACTION_UNKNOWN), st) \<longleftrightarrow>
     (\<forall>event. rc_event receipt = Some event \<longrightarrow> \<not> receipt_matches batch event)"
proof (cases "\<exists>event. rc_event receipt = Some event \<and> receipt_matches batch event")
  case True
  then obtain event where ev: "rc_event receipt = Some event" "receipt_matches batch event" by blast
  have "settleChargeReceipt batch receipt st \<noteq> (Inl (ChargeBlocked TRANSACTION_UNKNOWN), st)"
    using ev by (auto simp: settleChargeReceipt_def transactional_def thenp_def bindp_def run_update_batch
        db_get_def throw_def whenp_def update_clicks_def db_mod_def ret_def split: option.splits)
  with ev show ?thesis by blast
qed (auto simp: settleChargeReceipt_def throw_def split: option.splits)

lemma sample_hashes: "sound_hashes sample_deps"
  by (simp add: sound_hashes_def sample_deps_def answer_def)

lemma processAdChargeJob_keeps_billing_inv_witness:
  "billing_inv (db (snd (processAdChargeJob None (Some sample_deps) sample_machine)))"
  by (rule processAdChargeJob_keeps_billing_inv [OF _ sample_hashes])
    (simp add: sample_machine_def sample_billing_inv)

lemma settleChargeReceipt_settles_witness:
  "\<exists>d'. settleChargeReceipt sample_batch sample_receipt sample_machine =
      (Inr (), sample_machine\<lparr>db := d'\<rparr>) \<and> settled_total (clicks_of d' ''b'') \<le> 100"
  using settleChargeReceipt_settles [of sample_machine sample_batch sample_receipt sample_event]
    sample_billing_inv sample_receipt_matches
  by (auto simp: sample_machine_def sample_db_def sample_receipt_def sample_event_def sample_batch_def)

lemma settleChargeReceipt_refuses_witness:
  "settleChargeReceipt sample_batch (sample_receipt\<lparr>rc_event := None\<rparr>) sample_machine =
     (Inl (ChargeBlocked TRANSACTION_UNKNOWN), sample_machine)"
  by (rule settleChargeReceipt_refuses [THEN iffD2]) simp

end
