(* ===== verification/Publication.thy ===== *)
theory Publication
  imports Wallet Projection
begin

section \<open>The price publication worker\<close>

text \<open>
  \<^verbatim>\<open>apps/worker/src/pre-usd-price-publication.ts\<close>, with the interface \<^verbatim>\<open>PricePublicationChain\<close> of
  \<^verbatim>\<open>pre-usd-price-publication-chain.ts\<close> as a record of external calls. The worker publishes the
  latest collected quotation to the contract: it journals the signed transaction before the first
  broadcast, and shares the wallet's nonces with the charge worker.
\<close>

subsection \<open>Errors that carry the variable of the enclosing function\<close>

text \<open>
  The one \<^verbatim>\<open>try\<close> of the job reads the variable \<^verbatim>\<open>active\<close> in its handler. \<open>tagged a m\<close> runs \<open>m\<close>
  while \<^verbatim>\<open>active\<close> is \<open>a\<close>: what \<open>m\<close> throws carries \<open>a\<close>; \<open>rescue\<close> is the handler.
\<close>

definition tagged :: "'x \<Rightarrow> ('d, 'm, 'w, 'e, 'a) prog \<Rightarrow> ('d, 'm, 'w, 'e \<times> 'x, 'a) prog" where
  "tagged x m = (\<lambda>s. case m s of (Inl e, s') \<Rightarrow> (Inl (e, x), s') | (Inr a, s') \<Rightarrow> (Inr a, s'))"

definition rescue :: "('d, 'm, 'w, 'e, 'a) prog \<Rightarrow> ('e \<Rightarrow> ('d, 'm, 'w, 'f, 'a) prog) \<Rightarrow> ('d, 'm, 'w, 'f, 'a) prog" where
  "rescue m h = (\<lambda>s. case m s of (Inl e, s') \<Rightarrow> h e s' | (Inr a, s') \<Rightarrow> (Inr a, s'))"

lemma triple_tagged: "triple P m Q E \<Longrightarrow> triple P (tagged x m) Q E"
  unfolding triple_def tagged_def by (fastforce split: prod.splits sum.splits)

lemma triple_rescue: "triple P m Q X \<Longrightarrow> (\<And>e. triple X (h e) Q E) \<Longrightarrow> triple P (rescue m h) Q E"
  unfolding triple_def rescue_def by (fastforce split: prod.splits sum.splits)

subsection \<open>Dependencies\<close>

record price_receipt =
  pr_blockNumber :: int
  pr_blockHash :: string
  pr_reverted :: bool
  pr_event :: "(int \<times> int) option"

type_synonym ('w, 'a) chain_call = "'w \<Rightarrow> (exn + 'a) \<times> 'w"

text \<open>
  A contract price is the pair of the price at eighteen decimals and the second it was quoted at.
  \<open>pp_price\<close> takes the block or none; \<open>pp_nonce\<close> whether pending transactions count;
  \<open>pp_sign\<close> answers the raw bytes and their hash; \<open>pp_toFixed\<close> is the decimal column's text.
\<close>

record 'w price_deps =
  pp_head :: "('w, int) chain_call"
  pp_blockHash :: "int \<Rightarrow> ('w, string) chain_call"
  pp_verify :: "('w, unit) chain_call"
  pp_price :: "int option \<Rightarrow> ('w, int \<times> int) chain_call"
  pp_authorities :: "('w, string \<times> string) chain_call"
  pp_receipt :: "string \<Rightarrow> ('w, price_receipt option) chain_call"
  pp_nonce :: "string \<Rightarrow> bool \<Rightarrow> ('w, int) chain_call"
  pp_sign :: "publication \<Rightarrow> string \<Rightarrow> int \<Rightarrow> ('w, string \<times> string) chain_call"
  pp_broadcast :: "string \<Rightarrow> ('w, string) chain_call"
  pp_unlock :: "('w, string) chain_call"
  pp_uuid :: "('w, string) chain_call"
  pp_clock :: "('w, int) chain_call"
  pp_toFixed :: "int \<Rightarrow> string"
  pp_now :: int
  pp_chainId :: int
  pp_contractAddress :: string
  pp_confirmations :: int

definition publication_code :: "exn \<Rightarrow> error_code" where
  "publication_code e = (case e of PricePublicationBlocked c \<Rightarrow> c | _ \<Rightarrow> RPC_UNAVAILABLE)"

subsection \<open>The quotation to publish\<close>

record price_data =
  pd_priceE18Raw :: int
  pd_quotedAt :: int
  pd_quoteId :: string

definition MAX_SAFE_INTEGER :: int where "MAX_SAFE_INTEGER = 2 ^ 53 - 1"

definition max_uint256 :: int where "max_uint256 = 2 ^ 256 - 1"

definition publicationQuote :: "quote option \<Rightarrow> int \<Rightarrow> exn + price_data" where
  "publicationQuote q now = (case q of
     None \<Rightarrow> Inl (PricePublicationBlocked PRICE_UNAVAILABLE)
   | Some r \<Rightarrow>
       if \<not> decimal_price (quote_priceUsd r) then Inl (PricePublicationBlocked PRICE_UNAVAILABLE)
       else (case js_bigint (price_digits (quote_priceUsd r)) of
         None \<Rightarrow> Inl Failure
       | Some priceE18 \<Rightarrow> (case quote_quotedAt r of
           None \<Rightarrow> Inl (PricePublicationBlocked PRICE_UNAVAILABLE)
         | Some milliseconds \<Rightarrow>
             if priceE18 \<le> 0 \<or> priceE18 > max_uint256 \<or> \<bar>milliseconds\<bar> > MAX_SAFE_INTEGER \<or>
                milliseconds \<le> 0 \<or> milliseconds > now + 60000
             then Inl (PricePublicationBlocked PRICE_UNAVAILABLE)
             else Inr \<lparr>pd_priceE18Raw = priceE18, pd_quotedAt = milliseconds div 1000,
               pd_quoteId = quote_id r\<rparr>)))"

text \<open>\<^verbatim>\<open>readLatestPreUsdPrice\<close> of \<^verbatim>\<open>packages/database/src/pre-usd-price.ts\<close>.\<close>

definition readLatestPreUsdPrice :: "(int \<Rightarrow> string) \<Rightarrow> ad_db \<Rightarrow> quote option" where
  "readLatestPreUsdPrice toFixed d = (case sort_key (\<lambda>r. - pr_quotedAt r) (preUsdPrice d) of
     [] \<Rightarrow> None
   | r # _ \<Rightarrow> Some \<lparr>quote_id = pr_id r, quote_priceUsd = toFixed (pr_priceE18 r),
       quote_quotedAt = Some (pr_quotedAt r)\<rparr>)"

subsection \<open>Reconciling a signed publication\<close>

definition finalized :: "'w price_deps \<Rightarrow> int \<Rightarrow> ('m, 'w, int) ad_prog" where
  "finalized deps head = (case finalizedAdsBlock head (pp_confirmations deps) of
     None \<Rightarrow> throw Failure | Some n \<Rightarrow> ret n)"

definition mark_publication ::
  "publication \<Rightarrow> publication_status \<Rightarrow> error_code option \<Rightarrow> ('m, 'w, unit) ad_prog" where
  "mark_publication row st e =
     update_publication (pub_id row) (\<lambda>p. p\<lparr>pub_status := st, pub_errorCode := e\<rparr>)"

text \<open>The status a receipt that is final and not reverted gives.\<close>

definition receipt_status ::
  "'w price_deps \<Rightarrow> publication \<Rightarrow> price_receipt \<Rightarrow> ('m, 'w, publication_status) ad_prog" where
  "receipt_status deps row receipt = (case pr_event receipt of
     None \<Rightarrow> bindp (extern (pp_price deps (Some (pr_blockNumber receipt)))) (\<lambda>(priceE18, quotedAt).
       if quotedAt > pub_quotedAt row then ret P_SUPERSEDED
       else if quotedAt \<noteq> pub_quotedAt row \<or> priceE18 \<noteq> pub_priceE18Raw row
       then throw (PricePublicationBlocked TRANSACTION_UNKNOWN)
       else ret P_CONFIRMED)
   | Some (priceE18, quotedAt) \<Rightarrow>
       if priceE18 \<noteq> pub_priceE18Raw row \<or> quotedAt \<noteq> pub_quotedAt row
       then throw (PricePublicationBlocked TRANSACTION_UNKNOWN)
       else ret P_CONFIRMED)"

definition settled_publication ::
  "publication_status \<Rightarrow> error_code option \<Rightarrow> price_receipt \<Rightarrow> int option \<Rightarrow> publication \<Rightarrow> publication" where
  "settled_publication st e receipt retry p = p\<lparr>pub_status := st, pub_errorCode := e,
     pub_receiptBlockNumber := Some (pr_blockNumber receipt),
     pub_receiptBlockHash := Some (pr_blockHash receipt), pub_nextAttemptAt := retry\<rparr>"

text \<open>A receipt was found. The result is the code's return value: does the row still wait?\<close>

definition publication_receipt ::
  "'w price_deps \<Rightarrow> int \<Rightarrow> publication \<Rightarrow> price_receipt \<Rightarrow> ('m, 'w, bool) ad_prog" where
  "publication_receipt deps head row receipt =
     bindp (finalized deps head) (\<lambda>final.
     bindp (if pr_blockNumber receipt > final then ret False
            else bindp (extern (pp_blockHash deps (pr_blockNumber receipt)))
              (\<lambda>h. ret (h = pr_blockHash receipt))) (\<lambda>confirmed.
     if \<not> confirmed then thenp (mark_publication row P_RECONCILING (Some WAITING_CONFIRMATION)) (ret True)
     else if pr_reverted receipt then
       thenp (update_publication (pub_id row)
         (settled_publication P_FAILED (Some TRANSACTION_FAILED) receipt (Some (pp_now deps + 60000)))) (ret False)
     else bindp (receipt_status deps row receipt) (\<lambda>st.
       thenp (update_publication (pub_id row) (settled_publication st None receipt None)) (ret False))))"

text \<open>No receipt, and a transaction with its nonce is already in a block.\<close>

definition publication_consumed ::
  "'w price_deps \<Rightarrow> int \<Rightarrow> publication \<Rightarrow> ('m, 'w, bool) ad_prog" where
  "publication_consumed deps head row =
     bindp (finalized deps head) (\<lambda>final.
     bindp (extern (pp_price deps (Some final))) (\<lambda>(priceE18, quotedAt).
       if quotedAt \<ge> pub_quotedAt row then thenp (mark_publication row P_SUPERSEDED None) (ret False)
       else throw (PricePublicationBlocked NONCE_CONSUMED)))"

definition check_authorities :: "'w price_deps \<Rightarrow> string \<Rightarrow> ('m, 'w, unit) ad_prog" where
  "check_authorities deps signer = bindp (extern (pp_authorities deps)) (\<lambda>(updater, operator).
     if to_lower signer \<noteq> to_lower updater then throw (PricePublicationBlocked PRICE_UPDATER_MISMATCH)
     else if to_lower signer = to_lower operator then throw (PricePublicationBlocked PRICE_UPDATER_NOT_DEDICATED)
     else ret ())"

definition broadcast_publication ::
  "'w price_deps \<Rightarrow> publication \<Rightarrow> string \<Rightarrow> string \<Rightarrow> string \<Rightarrow> ('m, 'w, unit) ad_prog" where
  "broadcast_publication deps row txHash raw signer = catchp
     (thenp (extern (pp_verify deps))
     (thenp (check_authorities deps signer)
     (bindp (extern (pp_broadcast deps raw)) (\<lambda>hash.
       if to_lower hash \<noteq> to_lower txHash then throw (PricePublicationBlocked TRANSACTION_UNKNOWN)
       else mark_publication row P_SUBMITTED (Some WAITING_CONFIRMATION)))))
     (\<lambda>e. thenp (mark_publication row P_RECONCILING (Some (publication_code e)))
        (if publication_code e \<noteq> TRANSACTION_UNKNOWN then throw e else ret ()))"

definition reconcilePublication ::
  "'w price_deps \<Rightarrow> int \<Rightarrow> publication \<Rightarrow> ('m, 'w, bool) ad_prog" where
  "reconcilePublication deps head row =
     (case (pub_txHash row, pub_signedTransaction row, pub_nonce row, pub_signerAddress row) of
       (Some txHash, Some raw, Some nonce, Some signer) \<Rightarrow>
         if txHash = [] \<or> raw = [] \<or> signer = [] then throw (PricePublicationBlocked TRANSACTION_UNKNOWN)
         else bindp (extern (pp_receipt deps txHash)) (\<lambda>receipt. case receipt of
           Some r \<Rightarrow> publication_receipt deps head row r
         | None \<Rightarrow>
             bindp (extern (pp_nonce deps signer False)) (\<lambda>latestNonce.
             if latestNonce > nonce then publication_consumed deps head row
             else bindp (extern (pp_nonce deps signer True)) (\<lambda>pendingNonce.
               if pendingNonce < nonce then throw (PricePublicationBlocked NONCE_GAP)
               else thenp (broadcast_publication deps row txHash raw signer) (ret True))))
     | _ \<Rightarrow> throw (PricePublicationBlocked TRANSACTION_UNKNOWN))"

subsection \<open>The job\<close>

datatype publication_outcome = O_BLOCKED | O_WAITING_CONFIRMATION | O_UNCHANGED | O_COMPLETED

definition waiting_outcome :: "publication_outcome \<times> error_code option" where
  "waiting_outcome = (O_WAITING_CONFIRMATION, Some WAITING_CONFIRMATION)"

definition pub_of_identity :: "'w price_deps \<Rightarrow> publication \<Rightarrow> bool" where
  "pub_of_identity deps p \<longleftrightarrow> pub_chainId p = pp_chainId deps \<and> pub_contractAddress p = pp_contractAddress deps"

definition outstanding :: "'w price_deps \<Rightarrow> ad_db \<Rightarrow> publication list" where
  "outstanding deps d = sort_key pub_createdAt
     (filter (\<lambda>p. pub_of_identity deps p \<and> pub_in_flight (pub_status p)) (adPricePublication d))"

definition last_settled :: "'w price_deps \<Rightarrow> ad_db \<Rightarrow> publication option" where
  "last_settled deps d = List.find (\<lambda>_. True) (sort_key (\<lambda>p. - the (pub_receiptBlockNumber p))
     (filter (\<lambda>p. pub_of_identity deps p \<and> pub_status p \<in> {P_CONFIRMED, P_FAILED, P_SUPERSEDED} \<and>
        pub_nonce p \<noteq> None \<and> pub_receiptBlockNumber p \<noteq> None) (adPricePublication d)))"

type_synonym ('m, 'w, 'a) active_prog = "(ad_db, 'm, 'w, exn \<times> publication option, 'a) prog"

text \<open>The loop over the rows in flight leaves \<^verbatim>\<open>active\<close> at the row it saw last.\<close>

definition reconcile_outstanding ::
  "'w price_deps \<Rightarrow> int \<Rightarrow> publication list \<Rightarrow> ('m, 'w, bool \<times> publication option) active_prog" where
  "reconcile_outstanding deps head rows = loopp (\<lambda>row _.
     bindp (tagged (Some row) (reconcilePublication deps head row)) (\<lambda>waiting.
       ret (if waiting then Break (True, Some row) else Continue (False, Some row)))) rows (False, None)"

text \<open>The newest settled row is reopened when its block has left the chain.\<close>

definition recheck_settled ::
  "'w price_deps \<Rightarrow> int \<Rightarrow> publication option \<Rightarrow> ('m, 'w, bool) active_prog" where
  "recheck_settled deps head active = bindp (db_get (last_settled deps)) (\<lambda>previous. case previous of
     None \<Rightarrow> ret False
   | Some p \<Rightarrow> (case (pub_receiptBlockNumber p, pub_receiptBlockHash p) of
       (Some n, Some h) \<Rightarrow>
         if h = [] then ret False
         else bindp (tagged active (extern (pp_blockHash deps n))) (\<lambda>canonical.
           if canonical = h then ret False
           else thenp (tagged active (mark_publication p P_RECONCILING (Some WAITING_CONFIRMATION)))
             (bindp (tagged active (find_publication (pub_id p))) (\<lambda>row.
               tagged (Some row) (reconcilePublication deps head row))))
     | _ \<Rightarrow> ret False))"

definition supersede_older :: "'w price_deps \<Rightarrow> int \<Rightarrow> ('m, 'w, unit) ad_prog" where
  "supersede_older deps quotedAt = db_mod (adPricePublication_update (update_where
     (\<lambda>p. pub_of_identity deps p \<and> pub_quotedAt p \<le> quotedAt \<and> pub_status p \<in> {P_PREPARED, P_FAILED})
     (\<lambda>p. p\<lparr>pub_status := P_SUPERSEDED, pub_errorCode := None\<rparr>)))"

definition prepared_publication :: "'w price_deps \<Rightarrow> price_data \<Rightarrow> string \<Rightarrow> int \<Rightarrow> publication" where
  "prepared_publication deps data i at = \<lparr>pub_id = i, pub_chainId = pp_chainId deps,
     pub_contractAddress = pp_contractAddress deps, pub_quoteId = Some (pd_quoteId data),
     pub_priceE18Raw = pd_priceE18Raw data, pub_quotedAt = pd_quotedAt data, pub_status = P_PREPARED,
     pub_signerAddress = None, pub_nonce = None, pub_txHash = None, pub_signedTransaction = None,
     pub_receiptBlockNumber = None, pub_receiptBlockHash = None, pub_errorCode = None,
     pub_attemptCount = 0, pub_nextAttemptAt = None, pub_createdAt = at\<rparr>"

text \<open>The row of this quotation, created when there is none; an id that is taken throws.\<close>

definition upsert_publication :: "'w price_deps \<Rightarrow> price_data \<Rightarrow> ('m, 'w, publication) ad_prog" where
  "upsert_publication deps data =
     bindp (db_get (\<lambda>d. List.find (\<lambda>p. pub_of_identity deps p \<and> pub_quotedAt p = pd_quotedAt data)
       (adPricePublication d))) (\<lambda>found. case found of
       Some p \<Rightarrow> ret p
     | None \<Rightarrow> bindp (extern (pp_uuid deps)) (\<lambda>i. bindp (extern (pp_clock deps)) (\<lambda>at.
         bindp (db_get (\<lambda>d. \<exists>p\<in>set (adPricePublication d). pub_id p = i)) (\<lambda>taken.
         if taken then throw Failure
         else thenp (db_mod (adPricePublication_update (\<lambda>rows. rows @ [prepared_publication deps data i at])))
           (ret (prepared_publication deps data i at))))))"

definition signed_publication :: "string \<Rightarrow> int \<Rightarrow> string \<Rightarrow> string \<Rightarrow> publication \<Rightarrow> publication" where
  "signed_publication signer nonce raw hash p = p\<lparr>pub_status := P_SIGNED,
     pub_signerAddress := Some (to_lower signer), pub_nonce := Some nonce, pub_txHash := Some hash,
     pub_signedTransaction := Some raw, pub_attemptCount := pub_attemptCount p + 1,
     pub_errorCode := None, pub_nextAttemptAt := None, pub_receiptBlockNumber := None,
     pub_receiptBlockHash := None\<rparr>"

text \<open>The transaction that reserves a nonce of the wallet and journals the signed bytes.\<close>

definition sign_publication ::
  "'w price_deps \<Rightarrow> string \<Rightarrow> publication \<Rightarrow> ('m, 'w, publication) ad_prog" where
  "sign_publication deps signer active = transactional
     (bindp (db_get (readKeywordMarketWalletReservation (pp_chainId deps) signer None (Some (pub_id active))))
       (\<lambda>reservation.
      bindp (find_publication (pub_id active)) (\<lambda>saved.
      if pub_in_flight (pub_status saved) then ret saved
      else if res_pending reservation then throw (PricePublicationBlocked WAITING_CONFIRMATION)
      else bindp (extern (pp_nonce deps signer True)) (\<lambda>pendingNonce.
        bindp (extern (pp_nonce deps signer False)) (\<lambda>latestNonce.
        if pendingNonce \<noteq> latestNonce then throw (PricePublicationBlocked WAITING_CONFIRMATION)
        else if (case res_latestNonce reservation of None \<Rightarrow> False | Some n \<Rightarrow> pendingNonce \<le> n)
        then throw (PricePublicationBlocked NONCE_GAP)
        else bindp (extern (pp_sign deps saved signer pendingNonce)) (\<lambda>(raw, hash).
          thenp (update_publication (pub_id saved) (signed_publication signer pendingNonce raw hash))
            (find_publication (pub_id saved))))))))"

text \<open>The keystore error becomes a publication error.\<close>

definition unlockPriceUpdater :: "'w price_deps \<Rightarrow> ('m, 'w, string) ad_prog" where
  "unlockPriceUpdater deps = catchp (extern (pp_unlock deps)) (\<lambda>e.
     throw (PricePublicationBlocked
       (if e = ChargeBlocked KEYSTORE_MISSING then KEYSTORE_MISSING else KEYSTORE_INVALID)))"

definition publish_quote ::
  "'w price_deps \<Rightarrow> int \<Rightarrow> ('m, 'w, publication_outcome \<times> error_code option) active_prog" where
  "publish_quote deps head =
     bindp (tagged None (bindp (db_get (readLatestPreUsdPrice (pp_toFixed deps))) (\<lambda>q.
       case publicationQuote q (pp_now deps) of Inl e \<Rightarrow> throw e | Inr data \<Rightarrow> ret data))) (\<lambda>data.
     bindp (tagged None (extern (pp_price deps None))) (\<lambda>(currentPrice, currentQuotedAt).
     if currentQuotedAt \<ge> pd_quotedAt data then
       thenp (tagged None (supersede_older deps currentQuotedAt)) (ret (O_UNCHANGED, None))
     else bindp (tagged None (upsert_publication deps data)) (\<lambda>active.
       if (case pub_nextAttemptAt active of None \<Rightarrow> False | Some t \<Rightarrow> pp_now deps < t)
       then ret (O_BLOCKED, pub_errorCode active)
       else bindp (tagged (Some active)
           (thenp (extern (pp_verify deps))
           (bindp (unlockPriceUpdater deps) (\<lambda>signer.
            thenp (check_authorities deps signer) (sign_publication deps signer active))))) (\<lambda>signed.
         bindp (tagged (Some signed) (reconcilePublication deps head signed)) (\<lambda>waiting.
         ret (if waiting then waiting_outcome else (O_COMPLETED, None)))))))"

definition publication_steps ::
  "'w price_deps \<Rightarrow> ('m, 'w, publication_outcome \<times> error_code option) active_prog" where
  "publication_steps deps =
     bindp (tagged None (extern (pp_head deps))) (\<lambda>head.
     bindp (db_get (outstanding deps)) (\<lambda>rows.
     bindp (reconcile_outstanding deps head rows) (\<lambda>(waiting, active).
     if waiting then ret waiting_outcome
     else bindp (recheck_settled deps head active) (\<lambda>waiting.
       if waiting then ret waiting_outcome else publish_quote deps head))))"

definition publication_failed ::
  "exn \<times> publication option \<Rightarrow> ('m, 'w, publication_outcome \<times> error_code option) ad_prog" where
  "publication_failed failure = (case failure of (e, active) \<Rightarrow>
     (let code = publication_code e in
      thenp (case active of None \<Rightarrow> ret () | Some row \<Rightarrow>
          update_publication (pub_id row) (\<lambda>p. p\<lparr>pub_errorCode := Some code,
            pub_status := (if pub_in_flight (pub_status row) then P_RECONCILING else pub_status p)\<rparr>))
        (ret (if code = WAITING_CONFIRMATION then O_WAITING_CONFIRMATION else O_BLOCKED, Some code))))"

definition processPreUsdPricePublication ::
  "'w price_deps option \<Rightarrow> ('m, 'w, publication_outcome \<times> error_code option) ad_prog" where
  "processPreUsdPricePublication dependencies = (case dependencies of
     None \<Rightarrow> ret (O_BLOCKED, Some AWAITING_CONTRACT)
   | Some d \<Rightarrow> (let deps = d\<lparr>pp_contractAddress := to_lower (pp_contractAddress d)\<rparr> in
       rescue (publication_steps deps) publication_failed))"

end
