(* ===== verification/Journals.thy ===== *)
theory Journals
  imports Charge_Job Publication
begin

section \<open>The two journals of the wallet\<close>

text \<open>
  The charge worker and the price worker sign with the same wallet and journal their nonces in two
  tables. Every write of either worker keeps the nonces of each wallet pairwise distinct over both
  tables, so no two rows ever hold signed transactions with the same nonce. The invariant also
  remembers rows a program has read: rows are never deleted and never change their chain.
\<close>

subsection \<open>The invariant\<close>

definition batch_ids :: "ad_db \<Rightarrow> (string \<times> int) set" where
  "batch_ids d = (\<lambda>b. (batch_id b, batch_chainId b)) ` set (adChargeBatch d)"

definition run_ids :: "ad_db \<Rightarrow> (string \<times> int) set" where
  "run_ids d = (\<lambda>r. (run_id r, run_chainId r)) ` set (adChargeRun d)"

definition pub_ids :: "ad_db \<Rightarrow> (string \<times> int) set" where
  "pub_ids d = (\<lambda>p. (pub_id p, pub_chainId p)) ` set (adPricePublication d)"

definition linked :: "ad_db \<Rightarrow> bool" where
  "linked d \<longleftrightarrow> distinct (map run_id (adChargeRun d)) \<and>
     (\<forall>b\<in>set (adChargeBatch d). (batch_runId b, batch_chainId b) \<in> run_ids d)"

definition journal ::
  "(string \<times> int) set \<Rightarrow> (string \<times> int) set \<Rightarrow> (string \<times> int) set \<Rightarrow> ad_db \<Rightarrow> bool" where
  "journal B R P d \<longleftrightarrow> journals_inv d \<and> linked d \<and>
     B \<subseteq> batch_ids d \<and> R \<subseteq> run_ids d \<and> P \<subseteq> pub_ids d"

abbreviation wallets_inv :: "ad_db \<Rightarrow> bool" where
  "wallets_inv \<equiv> journal {} {} {}"

lemma journal_weaken: "journal B R P d \<Longrightarrow> B' \<subseteq> B \<Longrightarrow> R' \<subseteq> R \<Longrightarrow> P' \<subseteq> P \<Longrightarrow> journal B' R' P' d"
  by (auto simp: journal_def)

text \<open>The nonces of a wallet, as a collection over all rows.\<close>

definition batch_value :: "int \<times> string \<Rightarrow> batch \<Rightarrow> int option" where
  "batch_value w b = (if batch_of_wallet (fst w) (snd w) b then batch_nonce b else None)"

definition pub_value :: "int \<times> string \<Rightarrow> publication \<Rightarrow> int option" where
  "pub_value w p = (if pub_of_wallet (fst w) (snd w) p then pub_nonce p else None)"

lemma map_filter_filter:
  "List.map_filter f (filter P xs) = List.map_filter (\<lambda>x. if P x then f x else None) xs"
proof (induction xs)
  case (Cons x xs)
  then show ?case by (cases "f x") (simp_all add: List.map_filter_simps)
qed (simp add: List.map_filter_simps)

lemma wallet_nonces_values:
  "wallet_nonces d w = List.map_filter (batch_value w) (adChargeBatch d) @
     List.map_filter (pub_value w) (adPricePublication d)"
  unfolding wallet_nonces_def charge_nonces_def publication_nonces_def map_filter_filter
    batch_value_def pub_value_def ..

lemma map_filter_update_where:
  "(\<And>x. g (f x) = g x) \<Longrightarrow> List.map_filter g (update_where P f xs) = List.map_filter g xs"
  by (induction xs) (auto simp: update_where_def List.map_filter_simps split: option.split)

lemma image_update_where: "(\<And>x. g (f x) = g x) \<Longrightarrow> g ` set (update_where P f xs) = g ` set xs"
  unfolding update_where_def set_map image_image by (intro image_cong) auto

lemma distinct_swap: "distinct (xs @ ys) \<longleftrightarrow> distinct (ys @ xs)"
  by auto

text \<open>Writes that touch no key, chain, run, signer or nonce.\<close>

definition batch_frame :: "(batch \<Rightarrow> batch) \<Rightarrow> bool" where
  "batch_frame f \<longleftrightarrow> (\<forall>b. batch_id (f b) = batch_id b \<and> batch_chainId (f b) = batch_chainId b \<and>
     batch_runId (f b) = batch_runId b \<and> batch_nonce (f b) = batch_nonce b \<and>
     batch_signerAddress (f b) = batch_signerAddress b)"

definition pub_frame :: "(publication \<Rightarrow> publication) \<Rightarrow> bool" where
  "pub_frame f \<longleftrightarrow> (\<forall>p. pub_id (f p) = pub_id p \<and> pub_chainId (f p) = pub_chainId p \<and>
     pub_nonce (f p) = pub_nonce p \<and> pub_signerAddress (f p) = pub_signerAddress p)"

lemma journal_batch_frame:
  assumes "batch_frame f" and "journal B R P d"
  shows "journal B R P (adChargeBatch_update (update_where Q f) d)"
proof -
  have f: "batch_id (f b) = batch_id b" "batch_chainId (f b) = batch_chainId b"
    "batch_runId (f b) = batch_runId b" "batch_value w (f b) = batch_value w b" for b w
    using assms(1) by (auto simp: batch_frame_def batch_value_def batch_of_wallet_def)
  show ?thesis
    using assms(2) by (auto simp: journal_def journals_inv_def wallet_nonces_values linked_def batch_ids_def
      run_ids_def pub_ids_def map_filter_update_where f map_update_where image_update_where elim!: in_update_whereE)
qed

lemma journal_pub_frame:
  assumes "pub_frame f" and "journal B R P d"
  shows "journal B R P (adPricePublication_update (update_where Q f) d)"
proof -
  have f: "pub_id (f p) = pub_id p" "pub_chainId (f p) = pub_chainId p" "pub_value w (f p) = pub_value w p" for p w
    using assms(1) by (auto simp: pub_frame_def pub_value_def pub_of_wallet_def)
  show ?thesis
    using assms(2) by (simp add: journal_def journals_inv_def wallet_nonces_values linked_def batch_ids_def
      run_ids_def pub_ids_def map_filter_update_where f map_update_where image_update_where)
qed

lemma journal_run_frame:
  assumes "\<And>r. run_id (f r) = run_id r" and "\<And>r. run_chainId (f r) = run_chainId r" and "journal B R P d"
  shows "journal B R P (adChargeRun_update (update_where Q f) d)"
  using assms(3) by (simp add: journal_def journals_inv_def wallet_nonces_values linked_def batch_ids_def
    run_ids_def pub_ids_def assms(1,2) map_update_where image_update_where)

lemma journal_clicks: "journal B R P d \<Longrightarrow> journal B R P (adBillingClick_update f d)"
  by (simp add: journal_def journals_inv_def wallet_nonces_values linked_def batch_ids_def run_ids_def pub_ids_def)

lemma journal_settings: "journal B R P d \<Longrightarrow> journal B R P (adChargeSettings_update f d)"
  by (simp add: journal_def journals_inv_def wallet_nonces_values linked_def batch_ids_def run_ids_def pub_ids_def)

lemma keeps_clicks [triple_rules]: "keeps (journal B R P) (update_clicks Q f)"
  by (rule keeps_update_clicks) (rule journal_clicks)

lemma keeps_clicks_count: "keeps (journal B R P) (update_clicks_count Q f)"
  by (rule keeps_update_clicks_count) (rule journal_clicks)

lemma keeps_batch: "batch_frame f \<Longrightarrow> keeps (journal B R P) (update_batch i f)"
  by (rule keeps_update_batch) (rule journal_batch_frame)

lemma keeps_run:
  "(\<And>r. run_id (f r) = run_id r) \<Longrightarrow> (\<And>r. run_chainId (f r) = run_chainId r)
   \<Longrightarrow> keeps (journal B R P) (update_run i f)"
  by (rule keeps_update_run) (rule journal_run_frame)

lemma keeps_publication: "pub_frame f \<Longrightarrow> keeps (journal B R P) (update_publication i f)"
  by (rule keeps_update_publication) (rule journal_pub_frame)

subsection \<open>Signing\<close>

lemma latest_below:
  assumes "\<not> (case res_latestNonce (readKeywordMarketWalletReservation c a oc op d) of None \<Rightarrow> False | Some m \<Rightarrow> n \<le> m)"
    and "m \<in> set (wallet_nonces d (c, to_lower a))"
  shows "m < n"
  using assms unfolding reservation_latest
  by (intro wallet.acceptable_fresh [of d "(c, to_lower a)" n m])
    (auto simp: wallet.acceptable_def split: option.splits)

text \<open>The one row that is signed gets a nonce that no row of its wallet holds.\<close>

lemma journal_sign_batch:
  assumes inv: "journal B R P d" and key: "(batch_id batch, c) \<in> B"
    and new: "\<And>m. m \<in> set (wallet_nonces d (c, to_lower a)) \<Longrightarrow> m < n"
  shows "journal B R P (adChargeBatch_update
     (update_where (\<lambda>b. batch_id b = batch_id batch) (signed_batch a n raw hash)) d)"
proof -
  let ?f = "signed_batch a n raw hash" and ?i = "batch_id batch"
  have dist: "distinct (map batch_id (adChargeBatch d))" and nonces: "\<And>w. distinct (wallet_nonces d w)"
    using inv by (auto simp: journal_def journals_inv_def)
  have chain: "batch_chainId b = c" if "b \<in> set (adChargeBatch d)" "batch_id b = ?i" for b
    using inv key dist that by (force simp: journal_def batch_ids_def dest: distinct_map_eq)
  have f: "batch_id (?f b) = batch_id b" "batch_chainId (?f b) = batch_chainId b" "batch_runId (?f b) = batch_runId b" for b
    by (simp_all add: signed_batch_def)
  have "distinct (List.map_filter (batch_value w) (update_where (\<lambda>b. batch_id b = ?i) ?f (adChargeBatch d)) @
      List.map_filter (pub_value w) (adPricePublication d))" for w
  proof (rule distinct_collect_update [OF _ dist])
    show "distinct (List.map_filter (batch_value w) (adChargeBatch d) @ List.map_filter (pub_value w) (adPricePublication d))"
      using nonces [of w] by (simp only: wallet_nonces_values)
    fix b v assume b: "b \<in> set (adChargeBatch d)" "batch_id b = ?i" and v: "batch_value w (?f b) = Some v"
    then have "w = (c, to_lower a)" "v = n"
      using chain [OF b] by (auto simp: batch_value_def batch_of_wallet_def signed_batch_def prod_eq_iff split: if_splits)
    then have "v \<notin> set (wallet_nonces d w)" using new by blast
    then show "v \<notin> set (List.map_filter (batch_value w) (adChargeBatch d) @
        List.map_filter (pub_value w) (adPricePublication d)) \<or> batch_value w b = Some v"
      by (simp only: wallet_nonces_values) blast
  qed
  then show ?thesis
    using inv by (auto simp: journal_def journals_inv_def wallet_nonces_values linked_def batch_ids_def
      run_ids_def pub_ids_def f map_update_where image_update_where elim!: in_update_whereE)
qed

lemma journal_sign_publication:
  assumes inv: "journal B R P d" and key: "(i, c) \<in> P"
    and new: "\<And>m. m \<in> set (wallet_nonces d (c, to_lower a)) \<Longrightarrow> m < n"
  shows "journal B R P (adPricePublication_update
     (update_where (\<lambda>p. pub_id p = i) (signed_publication a n raw hash)) d)"
proof -
  let ?f = "signed_publication a n raw hash"
  have dist: "distinct (map pub_id (adPricePublication d))" and nonces: "\<And>w. distinct (wallet_nonces d w)"
    using inv by (auto simp: journal_def journals_inv_def)
  have chain: "pub_chainId p = c" if "p \<in> set (adPricePublication d)" "pub_id p = i" for p
    using inv key dist that by (force simp: journal_def pub_ids_def dest: distinct_map_eq)
  have f: "pub_id (?f p) = pub_id p" "pub_chainId (?f p) = pub_chainId p" for p
    by (simp_all add: signed_publication_def)
  have "distinct (List.map_filter (pub_value w) (update_where (\<lambda>p. pub_id p = i) ?f (adPricePublication d)) @
      List.map_filter (batch_value w) (adChargeBatch d))" for w
  proof (rule distinct_collect_update [OF _ dist])
    show "distinct (List.map_filter (pub_value w) (adPricePublication d) @ List.map_filter (batch_value w) (adChargeBatch d))"
      using nonces [of w] unfolding wallet_nonces_values by (subst distinct_swap)
    fix p v assume p: "p \<in> set (adPricePublication d)" "pub_id p = i" and v: "pub_value w (?f p) = Some v"
    then have "w = (c, to_lower a)" "v = n"
      using chain [OF p] by (auto simp: pub_value_def pub_of_wallet_def signed_publication_def prod_eq_iff split: if_splits)
    then have "v \<notin> set (wallet_nonces d w)" using new by blast
    then show "v \<notin> set (List.map_filter (pub_value w) (adPricePublication d) @
        List.map_filter (batch_value w) (adChargeBatch d)) \<or> pub_value w p = Some v"
      unfolding wallet_nonces_values by auto
  qed
  then have "distinct (List.map_filter (batch_value w) (adChargeBatch d) @
      List.map_filter (pub_value w) (update_where (\<lambda>p. pub_id p = i) ?f (adPricePublication d)))" for w
    by (subst distinct_swap)
  then show ?thesis
    using inv by (simp add: journal_def journals_inv_def wallet_nonces_values linked_def batch_ids_def
      run_ids_def pub_ids_def f map_update_where image_update_where)
qed


subsection \<open>The charge worker\<close>

text \<open>A read of rows adds them to what is known.\<close>

lemma triple_read:
  assumes "\<And>d. journal B R P d \<Longrightarrow> journal (B' (f d)) (R' (f d)) (P' (f d)) d"
  shows "triple (journal B R P) (db_get f) (\<lambda>x. journal (B' x) (R' x) (P' x)) (journal B R P)"
  by (rule triple_get) (rule assms)

lemma triple_relax:
  "triple (journal B' R' P') m (\<lambda>_. journal B' R' P') (journal B' R' P') \<Longrightarrow> B \<subseteq> B' \<Longrightarrow> R \<subseteq> R' \<Longrightarrow> P \<subseteq> P'
   \<Longrightarrow> triple (journal B' R' P') m (\<lambda>_. journal B R P) (journal B R P)"
  by (erule triple_conseq) (auto intro: journal_weaken)

lemma keeps_bind_read:
  assumes "\<And>d. journal B R P d \<Longrightarrow> journal (B' (f d)) (R' (f d)) (P' (f d)) d"
    and "\<And>x. keeps (journal (B' x) (R' x) (P' x)) (k x)"
    and "\<And>x. B \<subseteq> B' x \<and> R \<subseteq> R' x \<and> P \<subseteq> P' x"
  shows "keeps (journal B R P) (bindp (db_get f) k)"
proof (rule triple_bind)
  show "triple (journal B R P) (db_get f) (\<lambda>x. journal (B' x) (R' x) (P' x)) (journal B R P)"
    by (rule triple_get) (rule assms(1))
  show "triple (journal (B' x) (R' x) (P' x)) (k x) (\<lambda>_. journal B R P) (journal B R P)" for x
    by (rule triple_relax [OF assms(2)]) (use assms(3) in auto)
qed

lemma journal_convert_click: "keeps (journal B R P) (convert_click p q s c)"
  unfolding convert_click_def by (intro keeps_rules keeps_clicks)

lemma journal_convert_pages: "keeps (journal B R P) (convert_pages fuel p q s w a)"
  by (induction fuel arbitrary: a)
    (auto intro!: keeps_rules journal_convert_click)

lemma journal_convertPendingPrices: "keeps (journal B R P) (convertPendingPrices fu w now)"
  unfolding convertPendingPrices_def by (intro keeps_rules keeps_clicks journal_convert_pages)

lemma keeps_block_verdict: "keeps I (block_verdict deps f n h)"
  unfolding block_verdict_def by (intro keeps_rules)

lemma keeps_click_verdict: "keeps I (click_verdict deps f c)"
  unfolding click_verdict_def by (intro keeps_rules keeps_block_verdict) (auto split: prod.split verdict.split option.split intro!: keeps_ret keeps_block_verdict)

lemma journal_validateClickEvidence: "keeps (journal B R P) (validateClickEvidence deps f)"
  unfolding validateClickEvidence_def
  by (intro keeps_rules keeps_click_verdict) (auto split: verdict.split intro!: keeps_rules keeps_clicks)

lemma keeps_mark: "keeps (journal B R P) (mark_batch b st e)"
  unfolding mark_batch_def by (rule keeps_batch) (simp add: batch_frame_def)

lemma keeps_settle: "keeps (journal B R P) (settleChargeReceipt b r)"
  unfolding settleChargeReceipt_def
  by (intro keeps_rules keeps_clicks keeps_batch) (auto simp: batch_frame_def settled_batch_def Let_def)

lemma keeps_uncollectable: "keeps (journal B R P) (uncollectable b e n h)"
  unfolding uncollectable_def
  by (intro keeps_rules keeps_clicks keeps_batch) (simp add: batch_frame_def uncollectable_batch_def)

lemma keeps_settle_indexed: "keeps (journal B R P) (settleIndexedCharge b deps head)"
  unfolding settleIndexedCharge_def by (intro keeps_rules keeps_settle)

lemma keeps_reopen: "keeps (journal B R P) (reopen_batch b)"
  unfolding reopen_batch_def
  by (intro keeps_rules keeps_clicks keeps_batch keeps_run) (simp_all add: batch_frame_def)

lemma keeps_reconcile_receipt: "keeps (journal B R P) (reconcile_receipt b r deps head)"
  unfolding reconcile_receipt_def
  by (intro keeps_rules keeps_mark keeps_settle keeps_settle_indexed keeps_batch) (simp add: batch_frame_def)

lemma keeps_reconcile_nonce: "keeps (journal B R P) (reconcile_nonce b deps)"
  unfolding reconcile_nonce_def by (auto split: option.split intro!: keeps_rules keeps_mark)

lemma journal_broadcast: "keeps (journal B R P) (broadcast_batch b deps)"
  unfolding broadcast_batch_def by (intro keeps_rules keeps_mark)

lemma journal_recheck: "keeps (journal B R P) (recheck_capture b deps head)"
  unfolding recheck_capture_def by (intro keeps_rules keeps_mark keeps_assert_capture)

lemma keeps_reconcile_missing: "keeps (journal B R P) (reconcile_missing b deps head)"
  unfolding reconcile_missing_def
  by (intro keeps_rules keeps_settle_indexed keeps_mark keeps_reconcile_nonce journal_recheck journal_broadcast)

lemma keeps_reconcile: "keeps (journal B R P) (reconcileChargeBatch b deps head)"
  unfolding reconcileChargeBatch_def
  by (intro keeps_rules keeps_reopen keeps_reconcile_receipt keeps_reconcile_missing)


text \<open>New rows: no nonce yet, and a run of the same chain.\<close>

lemma journal_create_batch:
  assumes "journal B R P d" and "\<forall>b\<in>set (adChargeBatch d). batch_id b \<noteq> batch_id nb"
    and "batch_nonce nb = None" and "(batch_runId nb, batch_chainId nb) \<in> R"
  shows "journal B R P (adChargeBatch_update (\<lambda>bs. bs @ [nb]) d)"
  using assms by (auto simp: journal_def journals_inv_def wallet_nonces_values linked_def batch_ids_def
    run_ids_def pub_ids_def map_filter_append List.map_filter_simps batch_value_def)

lemma keeps_create_batch:
  assumes "batch_nonce nb = None" and "(batch_runId nb, batch_chainId nb) \<in> R"
  shows "keeps (journal B R P) (create_batch nb)"
  using assms by (intro tripleI) (auto simp: create_batch_def prog_defs journal_create_batch split: if_splits)

lemma keeps_reserve_group:
  "(run_id run, dep_chainId deps) \<in> R \<Longrightarrow> keeps (journal B R P) (reserve_group deps run g)"
  unfolding reserve_group_def
  by (auto split: list.split option.split intro!: keeps_rules keeps_create_batch keeps_clicks_count simp: new_batch_def)

lemma journal_reassign:
  assumes inv: "journal B R P d" and rid: "(rid, c) \<in> R" and as: "\<forall>i\<in>A. (i, c) \<in> R"
  shows "journal B R P (adChargeBatch_update (update_where (\<lambda>b. batch_runId b \<in> A \<and> Q b)
     (\<lambda>b. b\<lparr>batch_runId := rid\<rparr>)) d)"
proof -
  let ?f = "\<lambda>b. b\<lparr>batch_runId := rid\<rparr>"
  have f: "batch_id (?f b) = batch_id b" "batch_chainId (?f b) = batch_chainId b"
    "batch_value w (?f b) = batch_value w b" for b w
    by (simp_all add: batch_value_def batch_of_wallet_def)
  have "batch_chainId b = c" if "b \<in> set (adChargeBatch d)" "batch_runId b \<in> A" for b
  proof -
    have "(batch_runId b, c) \<in> run_ids d" "(batch_runId b, batch_chainId b) \<in> run_ids d"
      using inv as that by (auto simp: journal_def linked_def)
    then show ?thesis
      using inv by (auto simp: journal_def linked_def run_ids_def dest: distinct_map_eq)
  qed
  then have "\<forall>b\<in>set (update_where (\<lambda>b. batch_runId b \<in> A \<and> Q b) ?f (adChargeBatch d)).
      (batch_runId b, batch_chainId b) \<in> run_ids d"
    using inv rid by (auto simp: journal_def linked_def elim!: in_update_whereE)
  then show ?thesis
    using inv by (simp add: journal_def journals_inv_def wallet_nonces_values linked_def batch_ids_def
      run_ids_def pub_ids_def map_filter_update_where f map_update_where image_update_where)
qed

lemma journal_refreshRun: "keeps (journal B R P) (refreshRun i now e)"
  unfolding refreshRun_def
  by (auto split: prod.split intro!: keeps_rules keeps_find_run keeps_run simp: find_run_def)

lemma journal_find_run: "keeps I (find_run i)"
  unfolding find_run_def by (intro keeps_rules)

lemma journal_reserveRun:
  assumes "(run_id run, dep_chainId deps) \<in> R"
  shows "keeps (journal B R P) (reserveRun run settings deps head)"
proof -
  let ?R = "\<lambda>as. R \<union> (\<lambda>i. (i, dep_chainId deps)) ` set as"
  have auto_runs: "triple (journal B R P) (if run_trigger run = MANUAL then db_get (auto_run_ids deps) else ret [])
      (\<lambda>as. journal B (?R as) P) (\<lambda>_. True)"
    by (intro triple_if triple_get triple_ret)
      (auto simp: journal_def run_ids_def auto_run_ids_def run_of_identity_def)
  have reassign: "keeps (journal B (?R as) P) (update_batches
     (\<lambda>b. batch_runId b \<in> set as \<and> batch_status b \<in> {B_PREPARED, B_FAILED}) (\<lambda>b. b\<lparr>batch_runId := run_id run\<rparr>))" for as
    by (intro keeps_update_batches journal_reassign) (use assms in auto)
  have body: "triple (journal B (?R as) P) m (\<lambda>_. journal B R P) (\<lambda>_. True)"
    if "keeps (journal B (?R as) P) m" for m :: "(ad_db, 'm, 'w, exn, string list) prog" and as
    by (rule triple_conseq [OF that]) (auto intro: journal_weaken)
  show ?thesis
    unfolding reserveRun_def Let_def
    by (intro keeps_bind [OF triple_transactional] keeps_rules journal_refreshRun
        triple_bind [OF keeps_here [OF journal_find_run]] triple_bind [OF auto_runs] body reassign keeps_reserve_group
        keeps_run) (use assms in auto)
qed

lemma keeps_sign_batch:
  assumes "(batch_id batch, dep_chainId deps) \<in> B"
  shows "keeps (journal B R P) (sign_batch batch deps signer)"
proof -
  let ?res = "readKeywordMarketWalletReservation (dep_chainId deps) signer (Some (batch_id batch)) None"
  let ?I = "\<lambda>r d. journal B R P d \<and> r = ?res d"
  have reserve: "triple (journal B R P) (db_get ?res) ?I (\<lambda>_. True)"
    by (rule triple_get) simp
  have found: "keeps (?I r) (find_batch i)" for r i by (rule keeps_find_batch)
  have signing: "triple (?I r) (update_batch (batch_id batch) (signed_batch signer n raw hash))
      (\<lambda>_. journal B R P) (\<lambda>_. True)"
    if "\<not> (case res_latestNonce r of None \<Rightarrow> False | Some m \<Rightarrow> n \<le> m)" for r n raw hash
    by (rule triple_update_batch) (use assms that in \<open>auto intro!: journal_sign_batch latest_below\<close>)
  show ?thesis
    unfolding sign_batch_def
    apply (intro triple_transactional triple_bind [OF reserve] triple_bind [OF keeps_here [OF found]] triple_if
        triple_ret triple_throw triple_bind [OF keeps_here [OF keeps_extern]] triple_prod
        triple_then [OF signing] triple_bind [OF keeps_here [OF keeps_find_batch]])
    apply auto
    done
qed

lemma keeps_prepare:
  assumes "(batch_id batch, dep_chainId deps) \<in> B"
  shows "keeps (journal B R P) (prepareBatch batch deps signer head)"
  unfolding prepareBatch_def Let_def
  by (intro keeps_rules keeps_assert_capture keeps_uncollectable keeps_sign_batch assms keeps_reconcile)


lemma keeps_settings_write: "keeps (journal B R P) (update_settings w f)"
  unfolding update_settings_def find_settings_def by (intro keeps_rules keeps_mod journal_settings)

lemma keeps_upsert: "keeps (journal B R P) (upsert_settings w)"
  unfolding upsert_settings_def find_settings_def by (intro keeps_rules keeps_mod) (simp add: journal_settings)

lemma journal_reconcile_pass: "keeps (journal B R P) (reconcile_pass deps s)"
  unfolding reconcile_pass_def reconcile_loop_def Let_def
  by (intro keeps_rules keeps_previous_canonical journal_validateClickEvidence keeps_reconcile)

lemma triple_select_runs:
  "triple (journal B R P) (select_runs j deps s e)
     (\<lambda>runs. journal B (R \<union> (\<lambda>r. (run_id r, dep_chainId deps)) ` set runs) P) (journal B R P)"
proof -
  let ?Q = "\<lambda>runs. journal B (R \<union> (\<lambda>r. (run_id r, dep_chainId deps)) ` set runs) P"
  let ?w = "(dep_chainId deps, dep_contractAddress deps)"
  have opened: "triple (journal B R P) (db_get (open_runs ?w j)) ?Q (journal B R P)"
    by (rule triple_get) (auto simp: journal_def run_ids_def open_runs_def run_of_identity_def)
  have create: "triple (?Q runs) (create_run (new_run ?w i at)) (\<lambda>_. ?Q (runs @ [new_run ?w i at])) (journal B R P)" for runs i at
  proof (rule tripleI)
    fix s x s' assume inv: "?Q runs (db s)" and run: "create_run (new_run ?w i at) s = (Inr x, s')"
    then have fresh: "\<forall>r\<in>set (adChargeRun (db s)). run_id r \<noteq> i"
      and s': "db s' = adChargeRun_update (\<lambda>rs. rs @ [new_run ?w i at]) (db s)"
      by (auto simp: create_run_def prog_defs new_run_def split: if_splits)
    have "linked (db s')"
      using inv fresh by (auto simp: journal_def linked_def run_ids_def s' new_run_def)
    then show "?Q (runs @ [new_run ?w i at]) (db s')"
      using inv by (auto simp: journal_def journals_inv_def wallet_nonces_values s' batch_ids_def run_ids_def
          pub_ids_def new_run_def)
  next
    fix s x s' assume "?Q runs (db s)" and "create_run (new_run ?w i at) s = (Inl x, s')"
    then show "journal B R P (db s')"
      by (auto simp: create_run_def prog_defs split: if_splits intro: journal_weaken)
  qed
  have weak: "triple (?Q runs) m (\<lambda>_. ?Q runs) (journal B R P)" if "keeps (?Q runs) m"
    for runs and m :: "(ad_db, 'mm, 'ww, exn, 'xx) prog"
    by (rule triple_conseq [OF that]) (auto intro: journal_weaken)
  show ?thesis
    unfolding select_runs_def Let_def
    by (intro triple_bind [OF opened] triple_if triple_bind [OF weak [OF keeps_get]]
        triple_bind [OF weak [OF keeps_extern]] triple_then [OF create] triple_ret) auto
qed

lemma keeps_charge_batch:
  assumes "(batch_id batch, dep_chainId deps) \<in> B"
  shows "keeps (journal B R P) (charge_batch run deps signer head batch acc)"
  unfolding charge_batch_def
  by (intro keeps_rules Charge_Job.keeps_find_settings keeps_prepare assms keeps_batch) (simp add: batch_frame_def)

lemma journal_charge_run:
  assumes "(run_id run, dep_chainId deps) \<in> R"
  shows "keeps (journal B R P) (charge_run deps settings signer head run acc)"
proof -
  have known: "journal (B \<union> (\<lambda>b. (batch_id b, dep_chainId deps)) ` set (to_prepare run d)) R P d"
    if inv: "journal B R P d" for d
  proof -
    have "batch_chainId b = dep_chainId deps" if b: "b \<in> set (adChargeBatch d)" "batch_runId b = run_id run" for b
    proof -
      have "(run_id run, batch_chainId b) \<in> run_ids d" "(run_id run, dep_chainId deps) \<in> run_ids d"
        using inv b assms by (auto simp: journal_def linked_def)
      then show ?thesis using inv by (auto simp: journal_def linked_def run_ids_def dest: distinct_map_eq)
    qed
    with inv show ?thesis by (auto simp: journal_def batch_ids_def to_prepare_def)
  qed
  have batches: "keeps (journal (B \<union> (\<lambda>b. (batch_id b, dep_chainId deps)) ` set batches) R P)
     (bindp (loopp (charge_batch run deps (the signer) head) batches (waiting, None)) (\<lambda>(waiting', failure).
        thenp (refreshRun (run_id run) (dep_now deps) failure) (ret (k waiting' failure))))"
    for batches waiting and k :: "bool \<Rightarrow> error_code option \<Rightarrow> bool \<times> error_code option"
    by (intro keeps_rules keeps_charge_batch journal_refreshRun) auto
  show ?thesis
    unfolding charge_run_def
    by (intro triple_prod keeps_then triple_if keeps_ret keeps_run journal_reserveRun [OF assms]
        keeps_bind_read [where B' = "\<lambda>bs. B \<union> (\<lambda>b. (batch_id b, dep_chainId deps)) ` set bs" and R' = "\<lambda>_. R" and P' = "\<lambda>_. P"] known batches) auto
qed

lemma journal_run_charge_job:
  fixes deps :: "'w charge_deps"
  shows "keeps (journal B R P) (run_charge_job j deps)"
proof -
  have rest: "triple (journal B (R \<union> (\<lambda>r. (run_id r, dep_chainId deps)) ` set runs) P)
     (bindp (foldp (charge_run deps settings signer head) runs acc) k) (\<lambda>_. journal B R P) (journal B R P)"
    if "\<And>x R. keeps (journal B R P) (k x)" for runs settings signer head acc
      and k :: "bool \<times> error_code option \<Rightarrow> (wallet_cache option, 'w, job_outcome) ad_prog"
    by (rule triple_relax) (intro keeps_bind keeps_foldp journal_charge_run that, auto)
  show ?thesis
    unfolding run_charge_job_def Let_def
    by (intro triple_bind [OF triple_select_runs] rest keeps_rules keeps_upsert journal_convertPendingPrices
        journal_reconcile_pass Charge_Job.keeps_check_operator keeps_settings_write journal_refreshRun)
qed

lemma keeps_processAdChargeJob: "keeps (journal B R P) (processAdChargeJob j deps)"
  unfolding processAdChargeJob_def by (intro keeps_rules journal_run_charge_job)


subsection \<open>The price worker\<close>

lemma keeps_mark_publication: "keeps (journal B R P) (mark_publication row st e)"
  unfolding mark_publication_def by (rule keeps_publication) (simp add: pub_frame_def)

lemma journal_finalized: "keeps I (finalized deps head)"
  unfolding finalized_def by (intro keeps_rules)

lemma keeps_receipt_status: "keeps I (receipt_status deps row r)"
  unfolding receipt_status_def by (intro keeps_rules)

lemma keeps_check_authorities: "keeps I (check_authorities deps signer)"
  unfolding check_authorities_def by (intro keeps_rules)

lemma keeps_reconcilePublication: "keeps (journal B R P) (reconcilePublication deps head row)"
  unfolding reconcilePublication_def publication_receipt_def publication_consumed_def broadcast_publication_def
  by (intro keeps_rules keeps_mark_publication journal_finalized keeps_receipt_status keeps_check_authorities
      keeps_publication) (simp_all add: pub_frame_def settled_publication_def)

lemma keeps_tagged: "keeps I m \<Longrightarrow> keeps I (tagged x m)"
  by (rule triple_tagged)

lemma keeps_rescue: "keeps I m \<Longrightarrow> (\<And>e. keeps I (h e)) \<Longrightarrow> keeps I (rescue m h)"
  by (rule triple_rescue)

lemma keeps_sign_publication:
  assumes "(pub_id active, pp_chainId deps) \<in> P"
  shows "keeps (journal B R P) (sign_publication deps signer active)"
proof -
  let ?res = "readKeywordMarketWalletReservation (pp_chainId deps) signer None (Some (pub_id active))"
  let ?I = "\<lambda>r d. journal B R P d \<and> r = ?res d"
  have reserve: "triple (journal B R P) (db_get ?res) ?I (\<lambda>_. True)"
    by (rule triple_get) simp
  have found: "triple (?I r) (find_publication (pub_id active)) (\<lambda>p d. pub_id p = pub_id active \<and> ?I r d) (\<lambda>_. True)" for r
    by (auto simp: triple_def find_publication_def prog_defs find_Some_iff split: option.splits)
  have update: "triple (?I r) (update_publication (pub_id active) (signed_publication signer n raw hash))
      (\<lambda>_. journal B R P) (\<lambda>_. True)"
    if "\<not> (case res_latestNonce r of None \<Rightarrow> False | Some m \<Rightarrow> n \<le> m)" for r n raw hash
    unfolding update_publication_def
    by (rule triple_then [OF keeps_here [OF keeps_find_publication]], rule triple_mod)
      (use assms that in \<open>auto intro!: journal_sign_publication latest_below\<close>)
  show ?thesis
    unfolding sign_publication_def
    apply (intro triple_transactional triple_bind [OF reserve] triple_bind_val [OF found] triple_if
        triple_ret triple_throw triple_bind [OF keeps_here [OF keeps_extern]] triple_prod)
    apply (simp_all only:)
    by (auto intro!: triple_then [OF update] keeps_here keeps_find_publication)
qed

lemma triple_upsert_publication:
  "triple (journal B R P) (upsert_publication deps data)
     (\<lambda>p. journal B R (insert (pub_id p, pp_chainId deps) P)) (journal B R P)"
proof (rule tripleI)
  fix s p s' assume inv: "journal B R P (db s)" and run: "upsert_publication deps data s = (Inr p, s')"
  show "journal B R (insert (pub_id p, pp_chainId deps) P) (db s')"
  proof (cases "List.find (\<lambda>p. pub_of_identity deps p \<and> pub_quotedAt p = pd_quotedAt data) (adPricePublication (db s))")
    case (Some q)
    with run have "q = p" "s' = s" by (auto simp: upsert_publication_def prog_defs)
    with Some inv show ?thesis
      by (auto simp: find_Some_iff journal_def pub_ids_def pub_of_identity_def)
  next
    case None
    with run obtain i at where fresh: "\<forall>q\<in>set (adPricePublication (db s)). pub_id q \<noteq> i"
      and p: "p = prepared_publication deps data i at"
      and s': "db s' = adPricePublication_update (\<lambda>rows. rows @ [p]) (db s)"
      by (auto simp: upsert_publication_def prog_defs split: prod.splits sum.splits if_splits)
    show ?thesis
      using inv fresh by (auto simp: p s' journal_def journals_inv_def wallet_nonces_values linked_def
          batch_ids_def run_ids_def pub_ids_def prepared_publication_def map_filter_append
          List.map_filter_simps pub_value_def)
  qed
next
  fix s e s' assume "journal B R P (db s)" and "upsert_publication deps data s = (Inl e, s')"
  then show "journal B R P (db s')"
    by (auto simp: upsert_publication_def prog_defs split: prod.splits sum.splits if_splits option.splits)
qed

lemma keeps_publish_quote:
  fixes deps :: "'w price_deps"
  shows "keeps (journal B R P) (publish_quote deps head)"
proof -
  have known: "keeps (journal B R P) (bindp (tagged None (upsert_publication deps data)) k)"
    if "\<And>p. keeps (journal B R (insert (pub_id p, pp_chainId deps) P)) (k p)"
    for data and k :: "publication \<Rightarrow> ('mm, 'w, 'xx) active_prog"
    by (rule triple_bind [OF triple_tagged [OF triple_upsert_publication]])
      (rule triple_relax [OF that], auto)
  have older: "keeps (journal B R P) (supersede_older deps t)" for t
    unfolding supersede_older_def
    by (intro keeps_mod journal_pub_frame) (simp_all add: pub_frame_def)
  show ?thesis
    unfolding publish_quote_def unlockPriceUpdater_def
    by (intro known keeps_rules keeps_tagged older keeps_check_authorities keeps_sign_publication
        keeps_reconcilePublication) auto
qed

lemma keeps_price_job: "keeps (journal B R P) (processPreUsdPricePublication deps)"
  unfolding processPreUsdPricePublication_def Let_def publication_steps_def reconcile_outstanding_def
    recheck_settled_def publication_failed_def
  by (intro keeps_rules keeps_rescue keeps_tagged keeps_reconcilePublication keeps_mark_publication
      keeps_find_publication keeps_publish_quote keeps_publication) (simp add: pub_frame_def)

subsection \<open>Any sequence of jobs\<close>

text \<open>
  The scheduler runs the jobs one after the other, each with the dependencies of its time; what a
  job throws ends that job only. The price worker does not touch the cached wallet balance.
\<close>

datatype 'w wallet_job =
  Charge_job "string option" "'w charge_deps option"
| Price_job "'w price_deps option"

fun run_wallet_job ::
  "(ad_db, wallet_cache option, 'w) machine \<Rightarrow> 'w wallet_job \<Rightarrow> (ad_db, wallet_cache option, 'w) machine" where
  "run_wallet_job s (Charge_job j deps) = snd (processAdChargeJob j deps s)"
| "run_wallet_job s (Price_job deps) = snd (processPreUsdPricePublication deps s)"

lemma wallet_job_keeps: "journal B R P (db s) \<Longrightarrow> journal B R P (db (run_wallet_job s job))"
  by (cases job) (simp_all add: keepsD [OF keeps_processAdChargeJob] keepsD [OF keeps_price_job])

lemma wallet_jobs_keep: "journal B R P (db s) \<Longrightarrow> journal B R P (db (foldl run_wallet_job s jobs))"
  by (induction jobs arbitrary: s) (simp_all add: wallet_job_keeps)

text \<open>
  C21: However charge jobs and price publications interleave, and whatever the chain answers, no two
  rows of the two journals ever hold the same nonce of a wallet.
\<close>

theorem wallet_nonces_never_repeat:
  assumes "wallets_inv (db s)"
  shows "distinct (wallet_nonces (db (foldl run_wallet_job s jobs)) w)"
proof -
  have "\<forall>w. distinct (wallet_nonces (db (foldl run_wallet_job s jobs)) w)"
    using wallet_jobs_keep [OF assms, of jobs] unfolding journal_def journals_inv_def by blast
  then show ?thesis by blast
qed

definition sample_price_deps :: "nat price_deps" where
  "sample_price_deps = \<lparr>pp_head = answer 100, pp_blockHash = (\<lambda>n. answer ''0xb''), pp_verify = answer (),
     pp_price = (\<lambda>n. answer (0, 0)), pp_authorities = answer (''0xo'', ''0xp''),
     pp_receipt = (\<lambda>h. answer None), pp_nonce = (\<lambda>a p. answer 8),
     pp_sign = (\<lambda>p a n. answer (''0xraw'', ''0xt'')), pp_broadcast = (\<lambda>raw. answer ''0xt''),
     pp_unlock = answer ''0xo'', pp_uuid = answer ''pub'', pp_clock = answer 50,
     pp_toFixed = show_units18, pp_now = 1000, pp_chainId = 1, pp_contractAddress = ''0xc'',
     pp_confirmations = 3\<rparr>"

lemma sample_wallets_inv: "wallets_inv sample_db"
  by (auto simp: journal_def journals_inv_def wallet_nonces_values linked_def batch_ids_def run_ids_def
      pub_ids_def sample_db_def sample_run_def sample_batch_def List.map_filter_simps batch_value_def)

lemma wallet_nonces_never_repeat_witness:
  "distinct (wallet_nonces (db (foldl run_wallet_job sample_machine
     [Price_job (Some sample_price_deps), Charge_job None (Some sample_deps),
      Price_job (Some sample_price_deps)])) (1, ''0xo''))"
  by (rule wallet_nonces_never_repeat) (simp add: sample_machine_def sample_wallets_inv)

end
