(* ===== verification/Publication_Facts.thy ===== *)
theory Publication_Facts
  imports Journals
begin

section \<open>What the price worker publishes\<close>

text \<open>
  The quotation accepted for publication, the confirmation of a signed row by a final receipt, and
  the refusal of a receipt that tells another price.
\<close>

subsection \<open>The quotation\<close>

text \<open>
  A price text denotes \<open>v\<close> units of \<open>10 ^ -18\<close> USD: it is a whole part \<open>W\<close> without leading zeros, alone or with a
  point and at most eighteen decimals \<open>F\<close>, and \<open>v / 10 ^ 18 = W + F / 10 ^ (length F)\<close>.
\<close>

definition denotes_units :: "string \<Rightarrow> int \<Rightarrow> bool" where
  "denotes_units p v \<longleftrightarrow> (\<exists>W F w f. natural_decimal W \<and> list_all is_digit F \<and> length F \<le> 18 \<and>
     p = (if F = [] then W else W @ CHR ''.'' # F) \<and>
     read_radix 10 0 W = Some w \<and> read_radix 10 0 F = Some f \<and>
     v * 10 ^ length F = (int w * 10 ^ length F + int f) * 10 ^ 18)"

lemma price_text_parts:
  assumes "natural_decimal W"
  shows "whole_part (W @ CHR ''.'' # F) = W" "fraction_part (W @ CHR ''.'' # F) = F"
    "whole_part W = W" "fraction_part W = []"
proof -
  have "\<forall>c\<in>set W. c \<noteq> CHR ''.''"
    using natural_decimal_digits [OF assms] digit_not_dot by (auto simp: list_all_iff)
  moreover from this have "takeWhile (\<lambda>c. c \<noteq> CHR ''.'') W = W" "dropWhile (\<lambda>c. c \<noteq> CHR ''.'') W = []" by simp_all
  ultimately show "whole_part (W @ CHR ''.'' # F) = W" "fraction_part (W @ CHR ''.'' # F) = F"
    "whole_part W = W" "fraction_part W = []"
    unfolding whole_part_def fraction_part_def by (simp_all only: takeWhile_append dropWhile_append) (simp_all del: dropWhile_eq_Nil_conv)
qed

lemma price_text_split:
  assumes "decimal_price p"
  shows "p = (if fraction_part p = [] then whole_part p else whole_part p @ CHR ''.'' # fraction_part p)"
proof (cases "dropWhile (\<lambda>c. c \<noteq> CHR ''.'') p")
  case Nil
  then show ?thesis
    using takeWhile_dropWhile_id [of "\<lambda>c. c \<noteq> CHR ''.''" p] unfolding whole_part_def fraction_part_def Nil by (simp only: append_Nil2 drop_Nil if_True)
next
  case (Cons c F)
  then have "c = CHR ''.''" using hd_dropWhile [of "\<lambda>c. c \<noteq> CHR ''.''" p] by force
  moreover have "F \<noteq> []" using assms Cons by (auto simp: decimal_price_def fraction_part_def)
  ultimately show ?thesis
    using Cons takeWhile_dropWhile_id [of "\<lambda>c. c \<noteq> CHR ''.''" p] by (simp add: whole_part_def fraction_part_def)
qed

lemma price_digits_read:
  assumes "natural_decimal W" and "list_all is_digit F" and "length F \<le> 18"
    and "read_radix 10 0 W = Some w" and "read_radix 10 0 F = Some f"
  shows "js_bigint (W @ pad_end 18 (CHR ''0'') F) = Some ((int w * 10 ^ length F + int f) * 10 ^ (18 - length F))"
proof -
  have W: "list_all is_digit W" "W \<noteq> []" using natural_decimal_digits [OF assms(1)] by auto
  let ?Z = "replicate (18 - length F) (CHR ''0'')"
  have Z: "list_all is_digit ?Z" by (simp add: list_all_iff)
  have "read_radix 10 w F = Some (w * 10 ^ length F + f)"
    using read_digits_append_value [OF assms(2), of w] assms(5) by auto
  moreover have "read_radix 10 a ?Z = Some (a * 10 ^ (18 - length F))" for a
    using read_digits_append_value [OF Z, of a] by simp
  ultimately have "read_radix 10 0 (W @ F @ ?Z) = Some ((w * 10 ^ length F + f) * 10 ^ (18 - length F))"
    by (simp add: read_radix_append assms(4))
  then show ?thesis
    using W Z assms(2) by (simp add: pad_end_def js_bigint_digits)
qed

text \<open>The code's reading of a price text is what the text denotes.\<close>

lemma price_denotes: "denotes_units p v \<longleftrightarrow> decimal_price p \<and> js_bigint (price_digits p) = Some v"
proof
  assume "denotes_units p v"
  then obtain W F w f where F: "natural_decimal W" "list_all is_digit F" "length F \<le> 18"
    "p = (if F = [] then W else W @ CHR ''.'' # F)" "read_radix 10 0 W = Some w" "read_radix 10 0 F = Some f"
    and v: "v * 10 ^ length F = (int w * 10 ^ length F + int f) * 10 ^ 18"
    unfolding denotes_units_def by blast
  have "(10 :: int) ^ 18 = 10 ^ (18 - length F) * 10 ^ length F" using F(3) by (simp flip: power_add)
  with v have "v * 10 ^ length F = ((int w * 10 ^ length F + int f) * 10 ^ (18 - length F)) * 10 ^ length F"
    by (simp only: mult.assoc)
  then have "v = (int w * 10 ^ length F + int f) * 10 ^ (18 - length F)" by simp
  moreover have parts: "whole_part p = W" "fraction_part p = F"
    using price_text_parts [OF F(1)] F(4) by (auto split: if_splits)
  ultimately have "js_bigint (price_digits p) = Some v"
    using price_digits_read [OF F(1-3,5,6)] by (simp add: price_digits_def)
  moreover have "decimal_price p"
  proof (cases "F = []")
    case True
    then have "p = W" using F(4) by simp
    moreover have "\<forall>c\<in>set W. c \<noteq> CHR ''.''"
      using natural_decimal_digits [OF F(1)] digit_not_dot by (auto simp: list_all_iff)
    ultimately show ?thesis using F(1) parts by (simp add: decimal_price_def)
  next
    case False
    then show ?thesis using F parts by (simp add: decimal_price_def Suc_le_eq)
  qed
  ultimately show "decimal_price p \<and> js_bigint (price_digits p) = Some v" by blast
next
  assume p: "decimal_price p \<and> js_bigint (price_digits p) = Some v"
  let ?W = "whole_part p" and ?F = "fraction_part p"
  have W: "natural_decimal ?W" using p by (simp add: decimal_price_def)
  have F: "list_all is_digit ?F" "length ?F \<le> 18" using fraction_digits p by blast+
  obtain w f where r: "read_radix 10 0 ?W = Some w" "read_radix 10 0 ?F = Some f"
    using read_digits_total [OF F(1)] read_digits_total natural_decimal_digits [OF W] by metis
  have "v = (int w * 10 ^ length ?F + int f) * 10 ^ (18 - length ?F)"
    using price_digits_read [OF W F r] p by (simp add: price_digits_def)
  moreover have "(10 :: int) ^ 18 = 10 ^ (18 - length ?F) * 10 ^ length ?F" using F(2) by (simp flip: power_add)
  ultimately have "v * 10 ^ length ?F = (int w * 10 ^ length ?F + int f) * 10 ^ 18" by (simp only: mult.assoc)
  with W F r price_text_split p show "denotes_units p v" unfolding denotes_units_def by blast
qed

text \<open>
  C22: A quotation is accepted for publication exactly when its price text denotes a positive number of units of
  10 ^ -18 USD that fits 256 bits and its time is a positive safe integer of milliseconds at most a minute ahead of
  the clock; the publication then carries exactly that number, the second the time falls in and the quotation's id.
  Every other quotation, or none, is refused as unavailable.
\<close>

theorem publicationQuote_exact:
  "(publicationQuote q now = Inr data \<longleftrightarrow>
     (\<exists>r v t. q = Some r \<and> denotes_units (quote_priceUsd r) v \<and> 0 < v \<and> v < 2 ^ 256 \<and>
       quote_quotedAt r = Some t \<and> 0 < t \<and> t < 2 ^ 53 \<and> t \<le> now + 60000 \<and>
       pd_priceE18Raw data = v \<and> pd_quotedAt data * 1000 \<le> t \<and> t < (pd_quotedAt data + 1) * 1000 \<and>
       pd_quoteId data = quote_id r)) \<and>
   publicationQuote q now \<in> insert (Inl (PricePublicationBlocked PRICE_UNAVAILABLE)) (range Inr)"
proof (cases q)
  case None
  then show ?thesis by (simp add: publicationQuote_def)
next
  case (Some r)
  let ?p = "quote_priceUsd r"
  have second: "n = t div 1000 \<longleftrightarrow> n * 1000 \<le> t \<and> t < (n + 1) * 1000" for n t :: int
    using div_mult_mod_eq [of t 1000] pos_mod_bound [of 1000 t] pos_mod_sign [of 1000 t] by auto
  have data: "data = \<lparr>pd_priceE18Raw = v, pd_quotedAt = t div 1000, pd_quoteId = quote_id r\<rparr> \<longleftrightarrow>
      pd_priceE18Raw data = v \<and> pd_quotedAt data * 1000 \<le> t \<and> t < (pd_quotedAt data + 1) * 1000 \<and> pd_quoteId data = quote_id r"
    for v t by (cases data) (auto simp: second)
  show ?thesis
  proof (cases "decimal_price ?p")
    case True
    then obtain v where v: "js_bigint (price_digits ?p) = Some v" using price_digits_value by blast
    with True have den: "denotes_units ?p v' \<longleftrightarrow> v' = v" for v' by (auto simp: price_denotes)
    show ?thesis
    proof (cases "quote_quotedAt r")
      case None
      with True v show ?thesis by (simp add: publicationQuote_def Some)
    next
      case t: (Some t)
      let ?bad = "v \<le> 0 \<or> v > max_uint256 \<or> \<bar>t\<bar> > MAX_SAFE_INTEGER \<or> t \<le> 0 \<or> t > now + 60000"
      have good: "\<not> ?bad \<longleftrightarrow> 0 < v \<and> v < 2 ^ 256 \<and> 0 < t \<and> t < 2 ^ 53 \<and> t \<le> now + 60000"
        by (auto simp: max_uint256_def MAX_SAFE_INTEGER_def)
      have run: "publicationQuote q now = (if ?bad then Inl (PricePublicationBlocked PRICE_UNAVAILABLE)
          else Inr \<lparr>pd_priceE18Raw = v, pd_quotedAt = t div 1000, pd_quoteId = quote_id r\<rparr>)"
        using True v by (simp only: publicationQuote_def Some t option.case not_not simp_thms if_False)
      have "publicationQuote q now = Inr data \<longleftrightarrow> \<not> ?bad \<and> data = \<lparr>pd_priceE18Raw = v, pd_quotedAt = t div 1000, pd_quoteId = quote_id r\<rparr>"
        unfolding run by auto
      then have "publicationQuote q now = Inr data \<longleftrightarrow> (0 < v \<and> v < 2 ^ 256 \<and> 0 < t \<and> t < 2 ^ 53 \<and> t \<le> now + 60000) \<and>
          (pd_priceE18Raw data = v \<and> pd_quotedAt data * 1000 \<le> t \<and> t < (pd_quotedAt data + 1) * 1000 \<and> pd_quoteId data = quote_id r)"
        unfolding good data .
      moreover have "publicationQuote q now \<in> insert (Inl (PricePublicationBlocked PRICE_UNAVAILABLE)) (range Inr)"
        unfolding run by (cases ?bad) (simp_all only: if_True if_False insertI1 insertI2 rangeI)
      ultimately show ?thesis
        unfolding Some by (simp only: option.inject den t ex_simps simp_thms) blast
    qed
  next
    case False
    then have "\<not> denotes_units ?p v" for v by (simp add: price_denotes)
    with False show ?thesis by (simp add: publicationQuote_def Some)
  qed
qed

lemma publicationQuote_exact_witness:
  "publicationQuote (Some \<lparr>quote_id = ''q'', quote_priceUsd = ''2.5'', quote_quotedAt = Some 5500\<rparr>) 0 =
     Inr \<lparr>pd_priceE18Raw = 2500000000000000000, pd_quotedAt = 5, pd_quoteId = ''q''\<rparr>"
proof -
  have "denotes_units ''2.5'' 2500000000000000000"
    unfolding denotes_units_def
    by (rule exI [of _ "''2''"], rule exI [of _ "''5''"], rule exI [of _ 2], rule exI [of _ 5]) code_simp
  then show ?thesis
    using publicationQuote_exact [of "Some \<lparr>quote_id = ''q'', quote_priceUsd = ''2.5'', quote_quotedAt = Some 5500\<rparr>" 0
        "\<lparr>pd_priceE18Raw = 2500000000000000000, pd_quotedAt = 5, pd_quoteId = ''q''\<rparr>"]
    by simp
qed

subsection \<open>Receipts\<close>

text \<open>
  C23: A signed publication whose receipt is final, not reverted and carries the event of exactly
  its price and time is confirmed with the receipt's block, whatever else the chain answers, and no
  other row changes.
\<close>

theorem reconcilePublication_confirms:
  assumes "pub_txHash row = Some h" and "pub_signedTransaction row = Some raw" and "pub_nonce row = Some n"
    and "pub_signerAddress row = Some a" and "h \<noteq> []" and "raw \<noteq> []" and "a \<noteq> []"
    and "row \<in> set (adPricePublication (db s))"
    and "pp_receipt deps h (world s) = (Inr (Some r), w)"
    and "finalizedAdsBlock head (pp_confirmations deps) = Some final" and "pr_blockNumber r \<le> final"
    and "pp_blockHash deps (pr_blockNumber r) w = (Inr (pr_blockHash r), w')"
    and "\<not> pr_reverted r" and "pr_event r = Some (pub_priceE18Raw row, pub_quotedAt row)"
  shows "reconcilePublication deps head row s = (Inr False, s\<lparr>db := adPricePublication_update
    (update_where (\<lambda>p. pub_id p = pub_id row) (\<lambda>p. p\<lparr>pub_status := P_CONFIRMED, pub_errorCode := None,
      pub_receiptBlockNumber := Some (pr_blockNumber r), pub_receiptBlockHash := Some (pr_blockHash r),
      pub_nextAttemptAt := None\<rparr>)) (db s), world := w'\<rparr>)"
proof -
  obtain q where q: "List.find (\<lambda>p. pub_id p = pub_id row) (adPricePublication (db s)) = Some q"
    using assms(8) by (cases "List.find (\<lambda>p. pub_id p = pub_id row) (adPricePublication (db s))")
      (auto simp: find_None_iff)
  then show ?thesis
    using assms by (simp add: reconcilePublication_def publication_receipt_def receipt_status_def
        finalized_def update_publication_def find_publication_def settled_publication_def [abs_def] prog_defs)
qed

definition sample_publication :: publication where
  "sample_publication = (prepared_publication sample_price_deps
     \<lparr>pd_priceE18Raw = 2, pd_quotedAt = 5, pd_quoteId = ''q''\<rparr> ''p'' 0)\<lparr>pub_status := P_SIGNED,
     pub_signerAddress := Some ''0xo'', pub_nonce := Some 8, pub_txHash := Some ''0xt'',
     pub_signedTransaction := Some ''0xraw''\<rparr>"

definition sample_price_receipt :: price_receipt where
  "sample_price_receipt = \<lparr>pr_blockNumber = 20, pr_blockHash = ''0xb'', pr_reverted = False, pr_event = Some (2, 5)\<rparr>"

definition sample_price_machine :: "(ad_db, wallet_cache option, nat) machine" where
  "sample_price_machine = \<lparr>db = sample_db\<lparr>adPricePublication := [sample_publication]\<rparr>, mem = None, world = 0\<rparr>"

definition confirmed_publication :: publication where
  "confirmed_publication = sample_publication\<lparr>pub_status := P_CONFIRMED, pub_errorCode := None,
     pub_receiptBlockNumber := Some 20, pub_receiptBlockHash := Some ''0xb'', pub_nextAttemptAt := None\<rparr>"

lemma reconcilePublication_confirms_witness:
  "\<exists>s'. reconcilePublication (sample_price_deps\<lparr>pp_receipt := \<lambda>h. answer (Some sample_price_receipt)\<rparr>) 100
     sample_publication sample_price_machine = (Inr False, s') \<and>
     map pub_status (adPricePublication (db s')) = [P_CONFIRMED]"
proof -
  let ?deps = "sample_price_deps\<lparr>pp_receipt := \<lambda>h. answer (Some sample_price_receipt)\<rparr>"
  have final: "finalizedAdsBlock 100 3 = Some 98" by code_simp
  have "reconcilePublication ?deps 100 sample_publication sample_price_machine =
    (Inr False, sample_price_machine\<lparr>db := adPricePublication_update
      (update_where (\<lambda>p. pub_id p = pub_id sample_publication) (\<lambda>p. p\<lparr>pub_status := P_CONFIRMED,
        pub_errorCode := None, pub_receiptBlockNumber := Some (pr_blockNumber sample_price_receipt),
        pub_receiptBlockHash := Some (pr_blockHash sample_price_receipt), pub_nextAttemptAt := None\<rparr>))
      (db sample_price_machine), world := 2\<rparr>)"
    by (rule reconcilePublication_confirms [where h = "''0xt''" and raw = "''0xraw''" and n = 8 and a = "''0xo''"
          and final = 98 and w = 1])
      (simp_all add: final sample_publication_def prepared_publication_def sample_price_machine_def
        sample_price_deps_def sample_price_receipt_def answer_def)
  then show ?thesis
    by (simp add: sample_price_machine_def update_where_def)
qed

text \<open>
  A final receipt that tells another price or another time than the row signed is never
  accepted: the reconciliation throws and writes nothing.
\<close>

theorem reconcilePublication_refuses:
  assumes "pub_txHash row = Some h" and "pub_signedTransaction row = Some raw" and "pub_nonce row = Some n"
    and "pub_signerAddress row = Some a" and "h \<noteq> []" and "raw \<noteq> []" and "a \<noteq> []"
    and "pp_receipt deps h (world s) = (Inr (Some r), w)"
    and "finalizedAdsBlock head (pp_confirmations deps) = Some final" and "pr_blockNumber r \<le> final"
    and "pp_blockHash deps (pr_blockNumber r) w = (Inr (pr_blockHash r), w')"
    and "\<not> pr_reverted r" and "pr_event r = Some e" and "e \<noteq> (pub_priceE18Raw row, pub_quotedAt row)"
  shows "reconcilePublication deps head row s =
    (Inl (PricePublicationBlocked TRANSACTION_UNKNOWN), s\<lparr>world := w'\<rparr>)"
  using assms by (cases e) (auto simp: reconcilePublication_def publication_receipt_def receipt_status_def
      finalized_def prog_defs)

lemma reconcilePublication_refuses_witness:
  "fst (reconcilePublication (sample_price_deps\<lparr>pp_receipt := \<lambda>h. answer (Some (sample_price_receipt\<lparr>pr_event := Some (3, 5)\<rparr>))\<rparr>)
     100 sample_publication sample_price_machine) = Inl (PricePublicationBlocked TRANSACTION_UNKNOWN)"
proof -
  let ?deps = "sample_price_deps\<lparr>pp_receipt := \<lambda>h. answer (Some (sample_price_receipt\<lparr>pr_event := Some (3, 5)\<rparr>))\<rparr>"
  have final: "finalizedAdsBlock 100 3 = Some 98" by code_simp
  have "reconcilePublication ?deps 100 sample_publication sample_price_machine =
      (Inl (PricePublicationBlocked TRANSACTION_UNKNOWN), sample_price_machine\<lparr>world := 2\<rparr>)"
    by (rule reconcilePublication_refuses [where h = "''0xt''" and raw = "''0xraw''" and n = 8 and a = "''0xo''"
          and final = 98 and w = 1 and r = "sample_price_receipt\<lparr>pr_event := Some (3, 5)\<rparr>" and e = "(3, 5)"])
      (simp_all add: final sample_publication_def prepared_publication_def sample_price_machine_def
        sample_price_deps_def sample_price_receipt_def answer_def)
  then show ?thesis by simp
qed

subsection \<open>An error after the loop reopens a settled row\<close>

text \<open>
  After the loop over the rows in flight, the variable the handler reads still holds the last row as
  it was loaded. When the next call fails, the handler sets that row, already settled by the loop,
  back to \<^verbatim>\<open>RECONCILING\<close>: here a confirmed publication, because one block hash could not be read.
\<close>

definition forgetful_price_deps :: "nat price_deps" where
  "forgetful_price_deps = sample_price_deps\<lparr>pp_receipt := \<lambda>h. answer (Some sample_price_receipt),
     pp_blockHash := \<lambda>n w. if w = 2 then (Inr ''0xb'', 3) else (Inl Failure, Suc w)\<rparr>"

lemma reconcile_sample:
  assumes "pp_receipt deps = (\<lambda>h. answer (Some sample_price_receipt))" and "pp_confirmations deps = 3"
    and "pp_blockHash deps 20 (Suc (Suc 0)) = (Inr ''0xb'', w)"
  shows "reconcilePublication deps 100 sample_publication (sample_price_machine\<lparr>world := 1\<rparr>) =
    (Inr False, sample_price_machine\<lparr>db := (db sample_price_machine)\<lparr>adPricePublication :=
       [confirmed_publication]\<rparr>, world := w\<rparr>)"
proof -
  have final: "finalizedAdsBlock 100 3 = Some 98" by code_simp
  show ?thesis
    by (subst reconcilePublication_confirms [where h = "''0xt''" and raw = "''0xraw''" and n = 8 and a = "''0xo''"
          and final = 98 and w = "Suc (Suc 0)" and w' = w and r = sample_price_receipt])
      (simp_all add: assms final sample_publication_def prepared_publication_def sample_price_machine_def
        sample_price_deps_def sample_price_receipt_def answer_def confirmed_publication_def update_where_def)
qed

text \<open>
  C26: A concrete run in which a settled publication is opened again: its receipt is final and names the
  published price, so the reconciling loop confirms the row, but the row stays in the variable that the
  catch block of the pass marks, and when a later, unrelated RPC read of the same pass fails the
  confirmed row is written back as reconciling.
\<close>

theorem settled_publication_reopened:
  "\<exists>s'. processPreUsdPricePublication (Some forgetful_price_deps) sample_price_machine =
      (Inr (O_BLOCKED, Some RPC_UNAVAILABLE), s') \<and>
    map (\<lambda>p. (pub_status p, pub_receiptBlockNumber p)) (adPricePublication (db s')) = [(P_RECONCILING, Some 20)]"
proof -
  have lower: "forgetful_price_deps\<lparr>pp_contractAddress := to_lower (pp_contractAddress forgetful_price_deps)\<rparr> = forgetful_price_deps"
  proof -
    have "to_lower ''0xc'' = ''0xc''" by code_simp
    then show ?thesis by (simp add: forgetful_price_deps_def sample_price_deps_def)
  qed
  have head: "tagged None (extern (pp_head forgetful_price_deps)) sample_price_machine =
      (Inr 100, sample_price_machine\<lparr>world := 1\<rparr>)"
    by (simp add: tagged_def extern_def forgetful_price_deps_def sample_price_deps_def answer_def sample_price_machine_def)
  have rows: "outstanding forgetful_price_deps (db (sample_price_machine\<lparr>world := 1\<rparr>)) = [sample_publication]"
    by (simp add: outstanding_def sample_price_machine_def pub_of_identity_def sample_publication_def
        prepared_publication_def forgetful_price_deps_def sample_price_deps_def pub_in_flight_def)
  let ?s = "sample_price_machine\<lparr>db := (db sample_price_machine)\<lparr>adPricePublication := [confirmed_publication]\<rparr>, world := 3\<rparr>"
  have loop: "reconcile_outstanding forgetful_price_deps 100 [sample_publication] (sample_price_machine\<lparr>world := 1\<rparr>) =
      (Inr (False, Some sample_publication), ?s)"
    using reconcile_sample [of forgetful_price_deps 3]
    by (simp add: reconcile_outstanding_def tagged_def bindp_def ret_def forgetful_price_deps_def sample_price_deps_def)
  have recheck: "recheck_settled forgetful_price_deps 100 (Some sample_publication) ?s =
      (Inl (Failure, Some sample_publication), ?s\<lparr>world := 4\<rparr>)"
    by (simp add: recheck_settled_def last_settled_def db_get_def bindp_def tagged_def extern_def
        pub_of_identity_def confirmed_publication_def sample_publication_def prepared_publication_def
        forgetful_price_deps_def sample_price_deps_def)
  have steps: "publication_steps forgetful_price_deps sample_price_machine =
      (Inl (Failure, Some sample_publication), ?s\<lparr>world := 4\<rparr>)"
    using rows recheck by (simp add: publication_steps_def bindp_def head db_get_def loop del: One_nat_def)
  have "processPreUsdPricePublication (Some forgetful_price_deps) sample_price_machine =
      publication_failed (Failure, Some sample_publication) (?s\<lparr>world := 4\<rparr>)"
    by (simp add: processPreUsdPricePublication_def lower rescue_def steps)
  then show ?thesis
    by (simp add: publication_failed_def publication_code_def
        update_publication_def find_publication_def prog_defs update_where_def pub_in_flight_def
        confirmed_publication_def sample_publication_def prepared_publication_def)
qed

end
