(* ===== verification/Capture_Facts.thy ===== *)
theory Capture_Facts
  imports Capture Charge_Job
begin

section \<open>Facts on clicks and their billing\<close>

text \<open>
  What one capture does to the database, that a delivery is captured once, that captures keep the
  billing invariant of the charge worker, and that a client is billed at most once per campaign in
  five minutes.
\<close>

subsection \<open>The chain is only read\<close>

lemma keeps_or_throw: "keeps I (or_throw e x)"
  unfolding or_throw_def by (intro keeps_rules)

lemma keeps_reject: "keeps I (reject c e)"
  unfolding reject_def by (intro keeps_rules)

lemma keeps_checksum: "keeps I (checksum deps a)"
  unfolding checksum_def by (rule keeps_or_throw)

lemma keeps_synchronizedState: "keeps I (synchronizedState deps state)"
  unfolding synchronizedState_def by (intro keeps_rules)

fun positive_bid :: "billing_position \<Rightarrow> bool" where
  "positive_bid (Unavailable_position e) = True"
| "positive_bid (Found_position bid evidence) = (0 < bid)"

lemma triple_position_result:
  "triple P (or_throw Other (billingPositionResult v position evidence))
     (\<lambda>r d. positive_bid r \<and> P d) P"
  unfolding or_throw_def
  by (intro triple_option triple_throw triple_ret)
    (auto simp: billingPositionResult_def split: prod.splits option.splits)

lemma triple_live_price:
  assumes "positive_bid r" and "\<And>bid ev. 0 < bid \<Longrightarrow> triple P (f bid ev) (\<lambda>r d. positive_bid r \<and> P d) P"
  shows "triple P (case r of Unavailable_position e \<Rightarrow> ret (Unavailable_position e) | Found_position bid ev \<Rightarrow> f bid ev)
    (\<lambda>r d. positive_bid r \<and> P d) P"
  using assms by (cases r) (auto intro: triple_ret)

lemma triple_billing_live: "triple P (billing_live deps q) (\<lambda>r d. positive_bid r \<and> P d) P"
  unfolding billing_live_def
  by (intro triple_bind [OF keeps_extern] triple_prod triple_if triple_bind [OF keeps_checksum]
      triple_bind_val [OF triple_position_result] triple_live_price triple_ret) simp_all

lemma keeps_if: "keeps I m \<Longrightarrow> keeps I n \<Longrightarrow> keeps I (if c then m else n)"
  by simp

lemma triple_transactional_same: "triple P m Q P \<Longrightarrow> triple P (transactional m) Q P"
  by (rule triple_transactional) (auto elim: triple_conseq)

lemma triple_billing_projected: "triple P (billing_projected deps q) (\<lambda>r d. positive_bid r \<and> P d) P"
  unfolding billing_projected_def
  by (intro triple_transactional_same triple_bind [OF keeps_get] triple_bind [OF keeps_or_throw]
      triple_bind [OF keeps_if] triple_option triple_if triple_ret
      keeps_synchronizedState keeps_ret triple_position_result) simp_all

lemma triple_billingPosition: "triple P (billingPosition deps q) (\<lambda>r d. positive_bid r \<and> P d) P"
  unfolding billingPosition_def Let_def
  by (intro triple_if triple_option triple_bind [OF keeps_checksum] triple_catch [where X = P] triple_billing_projected
      triple_bind_val [OF triple_billing_live] triple_then [OF keeps_extern] triple_ret) simp_all

subsection \<open>The effect of a capture\<close>

text \<open>The columns a capture fills, emptied again; and the database with a new click.\<close>

definition uncaptured :: "click \<Rightarrow> click" where
  "uncaptured c = c\<lparr>click_status := C_CAPTURING, click_bidUsdRaw := None, click_amountPreRaw := None,
     click_priceUsd := None, click_priceQuotedAt := None, click_bidBlockNumber := None,
     click_bidBlockHash := None, click_priceBlockNumber := None, click_priceBlockHash := None,
     click_errorCode := None\<rparr>"

definition with_click :: "click \<Rightarrow> market_db \<Rightarrow> market_db" where
  "with_click c = ledger_update (adBillingClick_update (\<lambda>rows. rows @ [c]))"

definition has_click :: "string \<Rightarrow> market_db \<Rightarrow> bool" where
  "has_click i d \<longleftrightarrow> (\<exists>c\<in>set (adBillingClick (ledger d)). click_id c = i)"

text \<open>The four ways a claimed click ends: unbilled, free, billable, suppressed.\<close>

definition free_click :: "click \<Rightarrow> bool" where
  "free_click c \<longleftrightarrow> click_status c = C_SETTLED \<and> click_amountPreRaw c = Some 0 \<and> click_bidUsdRaw c \<noteq> None"

definition billable_click :: "click \<Rightarrow> bool" where
  "billable_click c \<longleftrightarrow> click_bidUsdRaw c \<noteq> None \<and> click_errorCode c = None \<and>
     (click_status c = C_PENDING \<and> (\<exists>bid price a. click_bidUsdRaw c = Some bid \<and> click_priceUsd c = Some price \<and>
        bill_amount bid price = Inr a \<and> click_amountPreRaw c = Some a \<and> 0 < a) \<or>
      click_status c = C_PRICE_PENDING \<and> click_amountPreRaw c = None)"

definition well_priced :: "click \<Rightarrow> bool" where
  "well_priced c \<longleftrightarrow> (\<forall>bid. click_bidUsdRaw c = Some bid \<longrightarrow> 0 < bid) \<and>
     (\<forall>a. click_amountPreRaw c = Some a \<longrightarrow> 0 \<le> a)"

definition counted :: "delivery_claim \<Rightarrow> string \<Rightarrow> click \<Rightarrow> market_db \<Rightarrow> market_db \<Rightarrow> bool" where
  "counted q fingerprint c d d' \<longleftrightarrow> (\<exists>now allowed windows.
     clickBillingWindowClaim fingerprint now (adBillingClickWindow d) = (allowed, windows) \<and>
     (if allowed then billable_click c
      else click_status c = C_SUPPRESSED \<and> click_errorCode c = Some DUPLICATE_CLIENT_WINDOW) \<and>
     d' = (with_click c d)\<lparr>adBillingClickWindow := windows,
       adBillingClickTotals := bump_clicks q allowed (adBillingClickTotals d)\<rparr>)"

definition capture_effect ::
  "'w capture_deps \<Rightarrow> delivery \<Rightarrow> string \<Rightarrow> string option \<Rightarrow> market_db \<Rightarrow> market_db \<Rightarrow> bool" where
  "capture_effect deps delivery campaignId ip d d' \<longleftrightarrow>
     (let q = dv_claim delivery; i = to_lower (dv_deliveryId delivery) in
      \<not> has_click i d \<and> (\<exists>version at c. js_bigint (dl_positionVersion q) = Some version \<and>
        uncaptured c = new_click i q version at \<and> well_priced c \<and>
        (click_status c = C_UNBILLED \<and> click_errorCode c \<noteq> None \<and> click_bidUsdRaw c = None \<and> d' = with_click c d \<or>
         free_click c \<and> d' = with_click c d \<or>
         (\<exists>fingerprint. clickBillingFingerprint (cp_ip deps) q campaignId ip = Some fingerprint \<and>
            counted q fingerprint c d d'))))"

text \<open>What is left of a capture that threw.\<close>

definition closed :: "string \<Rightarrow> market_db \<Rightarrow> market_db" where
  "closed i = ledger_update (adBillingClick_update
     (update_where (\<lambda>c. click_id c = i \<and> click_status c = C_CAPTURING) (unbilled CAPTURE_FAILED)))"

lemma fresh_update:
  "\<not> has_click i d \<Longrightarrow> click_id c = i \<Longrightarrow> click_status c = C_CAPTURING \<Longrightarrow>
   ledger_update (adBillingClick_update (update_where (\<lambda>c. click_id c = i \<and> click_status c = C_CAPTURING) f))
     (with_click c d) = with_click (f c) d"
  unfolding has_click_def with_click_def update_where_def
  by (auto intro!: market_db.equality ad_db.equality map_idI)

lemma fresh_count:
  "\<not> has_click i d \<Longrightarrow> click_id c = i \<Longrightarrow> click_status c = C_CAPTURING \<Longrightarrow>
   count_where (\<lambda>c. click_id c = i \<and> click_status c = C_CAPTURING) (adBillingClick (ledger (with_click c d))) = 1"
  unfolding has_click_def with_click_def count_where_def by (auto simp: filter_empty_conv)

lemma new_click_fields [simp]:
  "click_id (new_click i q v at) = i" "click_status (new_click i q v at) = C_CAPTURING"
  "click_errorCode (new_click i q v at) = None" "click_bidUsdRaw (new_click i q v at) = None"
  "click_amountPreRaw (new_click i q v at) = None" "click_batchId (new_click i q v at) = None"
  "click_keywordId (new_click i q v at) = dl_keywordId q"
  "click_stakerAddress (new_click i q v at) = dl_stakerAddress q"
  "uncaptured (new_click i q v at) = new_click i q v at" "well_priced (new_click i q v at)"
  by (simp_all add: new_click_def uncaptured_def well_priced_def)

lemma uncaptured_writes [simp]:
  "uncaptured (unbilled e c) = uncaptured c" "uncaptured (write_capture k c) = uncaptured c"
  "uncaptured (c\<lparr>click_status := st, click_errorCode := e'\<rparr>) = uncaptured c"
  by (simp_all add: uncaptured_def unbilled_def write_capture_def)

lemma printed_price:
  assumes "units_printer f" and "0 < v"
  shows "f v \<noteq> []"
proof -
  have "decimal_price (f v)" using units_printerD [OF assms(1), of v] assms(2) by simp
  moreover have "\<not> decimal_price []" by (simp add: decimal_price_def whole_part_def natural_decimal_def positive_decimal_def)
  ultimately show ?thesis by metis
qed

lemma well_priced_writes [simp]:
  "well_priced (unbilled e c) = well_priced c"
  "well_priced (c\<lparr>click_status := st, click_errorCode := e'\<rparr>) = well_priced c"
  by (simp_all add: well_priced_def unbilled_def)

lemma click_capture_amount:
  assumes "click_capture f bid ev = Some k" and "ca_amountPreRaw k \<noteq> Some 0" and "click_errorCode c = None"
    and "units_printer f"
  shows "billable_click (write_capture k c)"
  using assms
  by (auto simp: click_capture_def billable_click_def write_capture_def Let_def truthy_def printed_price
      order.strict_iff_order bill_amount_nonneg split: option.splits if_splits sum.splits)

lemma click_capture_priced:
  assumes "click_capture f bid ev = Some k" and "0 < bid"
  shows "well_priced (write_capture k c)"
  using assms
  by (auto simp: click_capture_def well_priced_def write_capture_def Let_def bill_amount_nonneg
      split: option.splits if_splits sum.splits)

lemma click_capture_free:
  assumes "click_capture f bid ev = Some k" and "ca_amountPreRaw k = Some 0"
  shows "free_click (write_capture k c)"
  using assms
  by (auto simp: click_capture_def free_click_def write_capture_def Let_def truthy_def
      split: option.splits if_splits sum.splits)

subsection \<open>Running a capture\<close>

lemma run_update_capturing:
  "update_capturing i f s = (Inr (count_where (\<lambda>c. click_id c = i \<and> click_status c = C_CAPTURING) (adBillingClick (ledger (db s)))),
     s\<lparr>db := ledger_update (adBillingClick_update (update_where (\<lambda>c. click_id c = i \<and> click_status c = C_CAPTURING) f)) (db s)\<rparr>)"
  by (simp add: update_capturing_def bindp_def thenp_def db_get_def db_mod_def ret_def)

lemma triple_update_capturing:
  assumes "\<And>d. P d \<Longrightarrow> Q (count_where (\<lambda>c. click_id c = i \<and> click_status c = C_CAPTURING) (adBillingClick (ledger d)))
    (ledger_update (adBillingClick_update (update_where (\<lambda>c. click_id c = i \<and> click_status c = C_CAPTURING) f)) d)"
  shows "triple P (update_capturing i f) Q E"
  by (rule tripleI) (use assms in \<open>auto simp: run_update_capturing\<close>)

lemma triple_fresh_update:
  assumes "\<not> has_click i d" and "click_id c = i" and "click_status c = C_CAPTURING" and "Q () (with_click (f c) d)"
  shows "triple (\<lambda>d'. d' = with_click c d) (bindp (update_capturing i f) (\<lambda>_. ret ())) Q E"
  using assms(4)
  by (intro triple_bind [OF triple_update_capturing] triple_ret)
    (auto simp: fresh_update [OF assms(1-3)])

lemma triple_claim_window:
  assumes "\<And>d. P d \<Longrightarrow> Q (fst (clickBillingWindowClaim fingerprint now (adBillingClickWindow d)))
    (adBillingClickWindow_update (\<lambda>rows. snd (clickBillingWindowClaim fingerprint now rows)) d)"
  shows "triple P (claimClickBillingWindow fingerprint now) Q E"
  unfolding claimClickBillingWindow_def
  by (rule tripleI) (use assms in \<open>auto simp: prog_defs\<close>)

lemma triple_reject: "(\<And>d. P d \<Longrightarrow> \<not> c \<Longrightarrow> Q () d) \<Longrightarrow> (\<And>d. P d \<Longrightarrow> E d) \<Longrightarrow> triple P (reject c e) Q E"
  unfolding reject_def by (intro triple_if triple_throw triple_ret)

lemma triple_record_capture:
  assumes fresh: "\<not> has_click i d" and c: "click_id c = i" "click_status c = C_CAPTURING" "click_errorCode c = None"
    and billable: "billable_click (write_capture k c)" and priced: "well_priced (write_capture k c)"
  shows "triple (\<lambda>d'. d' = with_click c d) (record_capture deps i q fingerprint k)
    (\<lambda>_ d'. \<exists>c'. uncaptured c' = uncaptured c \<and> well_priced c' \<and> counted q fingerprint c' d d')
    (\<lambda>d'. d' = with_click c d)"
proof -
  let ?f = "\<lambda>allowed c. let c' = write_capture k c in if allowed then c'
    else c'\<lparr>click_status := C_SUPPRESSED, click_errorCode := Some DUPLICATE_CLIENT_WINDOW\<rparr>"
  let ?won = "\<lambda>now allowed windows. clickBillingWindowClaim fingerprint now (adBillingClickWindow d) = (allowed, windows)"
  let ?at = "\<lambda>row allowed d'. \<exists>now windows. ?won now allowed windows \<and>
    d' = with_click row (d\<lparr>adBillingClickWindow := windows\<rparr>)"
  have claim: "triple (\<lambda>d'. d' = with_click c d) (claimClickBillingWindow fingerprint now) (?at c) (\<lambda>_. True)" for now
    by (rule triple_claim_window) (auto simp: with_click_def intro!: exI [of _ now] exI prod.collapse [symmetric])
  have update: "triple (?at c allowed) (update_capturing i (?f allowed)) (\<lambda>_. ?at (?f allowed c) allowed) (\<lambda>_. True)" for allowed
  proof (rule triple_update_capturing)
    fix d' assume "?at c allowed d'"
    then obtain now windows where w: "?won now allowed windows" "d' = with_click c (d\<lparr>adBillingClickWindow := windows\<rparr>)"
      by blast
    have "\<not> has_click i (d\<lparr>adBillingClickWindow := windows\<rparr>)" using fresh by (simp add: has_click_def)
    from fresh_update [OF this c(1,2)] w
    show "?at (?f allowed c) allowed (ledger_update (adBillingClick_update
        (update_where (\<lambda>c. click_id c = i \<and> click_status c = C_CAPTURING) (?f allowed))) d')"
      by blast
  qed
  have final: "\<exists>c'. uncaptured c' = uncaptured c \<and> well_priced c' \<and> counted q fingerprint c' d
      (adBillingClickTotals_update (bump_clicks q allowed) d')" if at: "?at (?f allowed c) allowed d'" for allowed d'
  proof -
    obtain now windows where w: "?won now allowed windows" "d' = with_click (?f allowed c) (d\<lparr>adBillingClickWindow := windows\<rparr>)"
      using at by blast
    have "uncaptured (?f allowed c) = uncaptured c \<and> well_priced (?f allowed c)" using priced by (simp add: Let_def)
    moreover have "counted q fingerprint (?f allowed c) d (adBillingClickTotals_update (bump_clicks q allowed) d')"
      unfolding counted_def using w billable by (intro exI [of _ now] exI [of _ allowed] exI [of _ windows]) (auto simp: with_click_def Let_def)
    ultimately show ?thesis by blast
  qed
  show ?thesis
    unfolding record_capture_def
    apply (rule triple_transactional)
     apply (rule triple_bind [OF triple_extern [where Q = "\<lambda>_ d'. d' = with_click c d"]], simp, simp)
     apply (rule triple_bind [OF claim])
     apply (rule triple_then [OF triple_reject], assumption, simp)
     apply (rule triple_bind [OF update])
     apply (rule triple_then [OF triple_reject], assumption, simp)
     apply (rule triple_mod final)
    apply (rule final, simp_all)
    done
qed

text \<open>A claimed click: the row is new, in the state in which it was inserted.\<close>

definition claimed_by :: "delivery \<Rightarrow> market_db \<Rightarrow> market_db \<Rightarrow> bool" where
  "claimed_by delivery d d' \<longleftrightarrow> (let q = dv_claim delivery; i = to_lower (dv_deliveryId delivery) in
     \<not> has_click i d \<and> (\<exists>version at. js_bigint (dl_positionVersion q) = Some version \<and>
       d' = with_click (new_click i q version at) d))"

lemma effect_unbilled:
  assumes "\<not> has_click (to_lower (dv_deliveryId dv)) d" and "js_bigint (dl_positionVersion (dv_claim dv)) = Some version"
  shows "capture_effect deps dv camp ip d
    (with_click (unbilled e (new_click (to_lower (dv_deliveryId dv)) (dv_claim dv) version at)) d)"
  unfolding capture_effect_def Let_def
  using assms by (intro conjI exI [of _ version] exI [of _ at]
    exI [of _ "unbilled e (new_click (to_lower (dv_deliveryId dv)) (dv_claim dv) version at)"])
    (simp_all add: unbilled_def [of e "new_click _ _ _ _"])

lemma triple_after_claim:
  fixes at :: int
  assumes printer: "units_printer (rpc_formatUnits (cp_chain deps))"
    and fresh: "\<not> has_click (to_lower (dv_deliveryId dv)) d"
    and version: "js_bigint (dl_positionVersion (dv_claim dv)) = Some version"
  defines "q \<equiv> dv_claim dv" and "i \<equiv> to_lower (dv_deliveryId dv)"
  defines "c \<equiv> new_click i q version at"
  shows "triple (\<lambda>d'. d' = with_click c d)
    (case clickBillingFingerprint (cp_ip deps) q camp ip of
        None \<Rightarrow> bindp (update_capturing i (unbilled CLIENT_IP_UNAVAILABLE)) (\<lambda>_. ret ())
      | Some fingerprint \<Rightarrow>
          bindp (billingPosition (cp_chain deps) q) (\<lambda>position. case position of
            Unavailable_position e \<Rightarrow> bindp (update_capturing i (unbilled e)) (\<lambda>_. ret ())
          | Found_position bidUsd evidence \<Rightarrow>
              bindp (or_throw Other (click_capture (rpc_formatUnits (cp_chain deps)) bidUsd evidence)) (\<lambda>k.
              if ca_amountPreRaw k = Some 0 then
                thenp (reject (\<not> storable_capture k) Other)
                  (bindp (update_capturing i (write_capture k)) (\<lambda>_. ret ()))
              else record_capture deps i q fingerprint k)))
    (\<lambda>_ d'. capture_effect deps dv camp ip d d') (\<lambda>d'. d' = with_click c d)"
proof -
  have c: "click_id c = i" "click_status c = C_CAPTURING" "click_errorCode c = None" "uncaptured c = c"
    by (simp_all add: c_def)
  have free: "\<not> has_click i d" using fresh by (simp add: i_def)
  have unbilled: "triple (\<lambda>d'. d' = with_click c d) (bindp (update_capturing i (unbilled e)) (\<lambda>_. ret ()))
      (\<lambda>_ d'. capture_effect deps dv camp ip d d') (\<lambda>d'. d' = with_click c d)" for e
    by (rule triple_fresh_update [OF free c(1,2)])
      (simp add: c_def i_def q_def effect_unbilled [OF fresh version])
  have zero: "triple (\<lambda>d'. d' = with_click c d) (bindp (update_capturing i (write_capture k)) (\<lambda>_. ret ()))
      (\<lambda>_ d'. capture_effect deps dv camp ip d d') (\<lambda>d'. d' = with_click c d)"
    if "click_capture f bid ev = Some k" "ca_amountPreRaw k = Some 0" "0 < bid" for f bid ev k
    using fresh version click_capture_free [OF that(1,2), of c] click_capture_priced [OF that(1,3), of c] c(4)
    by (intro triple_fresh_update [OF free c(1,2)])
      (auto simp: capture_effect_def c_def q_def i_def Let_def intro!: exI [of _ version] exI [of _ at] exI [of _ "write_capture k c"])
  have bill: "triple (\<lambda>d'. d' = with_click c d) (record_capture deps i q fingerprint k)
      (\<lambda>_ d'. capture_effect deps dv camp ip d d') (\<lambda>d'. d' = with_click c d)"
    if fp: "clickBillingFingerprint (cp_ip deps) q camp ip = Some fingerprint"
      and k: "click_capture (rpc_formatUnits (cp_chain deps)) bid ev = Some k" "ca_amountPreRaw k \<noteq> Some 0"
      and bid: "0 < bid"
    for fingerprint bid ev k
  proof (rule triple_conseq [OF triple_record_capture [OF free c(1-3) click_capture_amount [OF k c(3) printer]
      click_capture_priced [OF k(1) bid]]])
    fix x d' assume "\<exists>c'. uncaptured c' = uncaptured c \<and> well_priced c' \<and> counted q fingerprint c' d d'"
    then show "capture_effect deps dv camp ip d d'"
      unfolding capture_effect_def Let_def using fresh version fp c(4) unfolding c_def q_def i_def by metis
  qed auto
  have found: "triple (\<lambda>d'. d' = with_click c d)
      (case position of
          Unavailable_position e \<Rightarrow> bindp (update_capturing i (unbilled e)) (\<lambda>_. ret ())
        | Found_position bidUsd evidence \<Rightarrow>
            bindp (or_throw Other (click_capture (rpc_formatUnits (cp_chain deps)) bidUsd evidence)) (\<lambda>k.
            if ca_amountPreRaw k = Some 0 then
              thenp (reject (\<not> storable_capture k) Other)
                (bindp (update_capturing i (write_capture k)) (\<lambda>_. ret ()))
            else record_capture deps i q fingerprint k))
      (\<lambda>_ d'. capture_effect deps dv camp ip d d') (\<lambda>d'. d' = with_click c d)"
    if fp: "clickBillingFingerprint (cp_ip deps) q camp ip = Some fingerprint" and bids: "positive_bid position"
    for fingerprint position
  proof (cases position)
    case (Unavailable_position e)
    then show ?thesis by (simp add: unbilled)
  next
    case (Found_position bid ev)
    have capture: "triple P (or_throw Other (click_capture (rpc_formatUnits (cp_chain deps)) bid ev))
        (\<lambda>k d'. click_capture (rpc_formatUnits (cp_chain deps)) bid ev = Some k \<and> P d') P" for P
      unfolding or_throw_def by (intro triple_option triple_throw triple_ret) simp_all
    show ?thesis
      using bids unfolding Found_position billing_position.case positive_bid.simps
      by (intro triple_bind_val [OF capture] triple_if
        triple_then [OF triple_reject [where Q = "\<lambda>_ d'. d' = with_click c d"]] zero bill [OF fp]) auto
  qed
  show ?thesis
    by (intro triple_option unbilled triple_bind_val [OF triple_billingPosition] found)
qed

lemma triple_capture_body:
  assumes "units_printer (rpc_formatUnits (cp_chain deps))"
  shows "triple (\<lambda>d'. d' = d) (capture_body deps dv camp ip)
    (\<lambda>_ d'. d' = d \<or> capture_effect deps dv camp ip d d') (\<lambda>d'. d' = d \<or> claimed_by dv d d')"
proof -
  let ?q = "dv_claim dv" and ?i = "to_lower (dv_deliveryId dv)"
  have version: "triple (\<lambda>d'. d' = d) (or_throw Other (js_bigint (dl_positionVersion ?q)))
      (\<lambda>v d'. js_bigint (dl_positionVersion ?q) = Some v \<and> d' = d) (\<lambda>d'. d' = d \<or> claimed_by dv d d')"
    unfolding or_throw_def by (intro triple_option triple_throw triple_ret) simp_all
  have claim: "triple (\<lambda>d'. d' = d) (claim_click (new_click ?i ?q v at))
      (\<lambda>claimed d'. if claimed then \<not> has_click ?i d \<and> d' = with_click (new_click ?i ?q v at) d else d' = d)
      (\<lambda>d'. d' = d \<or> claimed_by dv d d')" for v at
    by (rule tripleI) (auto simp: claim_click_def prog_defs has_click_def with_click_def split: if_splits)
  have rest: "triple (\<lambda>d'. if claimed then \<not> has_click ?i d \<and> d' = with_click (new_click ?i ?q v at) d else d' = d)
      (if \<not> claimed then ret ()
       else case clickBillingFingerprint (cp_ip deps) ?q camp ip of
        None \<Rightarrow> bindp (update_capturing ?i (unbilled CLIENT_IP_UNAVAILABLE)) (\<lambda>_. ret ())
      | Some fingerprint \<Rightarrow>
          bindp (billingPosition (cp_chain deps) ?q) (\<lambda>position. case position of
            Unavailable_position e \<Rightarrow> bindp (update_capturing ?i (unbilled e)) (\<lambda>_. ret ())
          | Found_position bidUsd evidence \<Rightarrow>
              bindp (or_throw Other (click_capture (rpc_formatUnits (cp_chain deps)) bidUsd evidence)) (\<lambda>k.
              if ca_amountPreRaw k = Some 0 then
                thenp (reject (\<not> storable_capture k) Other)
                  (bindp (update_capturing ?i (write_capture k)) (\<lambda>_. ret ()))
              else record_capture deps ?i ?q fingerprint k)))
      (\<lambda>_ d'. d' = d \<or> capture_effect deps dv camp ip d d') (\<lambda>d'. d' = d \<or> claimed_by dv d d')"
    if v: "js_bigint (dl_positionVersion ?q) = Some v" for v at claimed
  proof (cases "claimed \<and> \<not> has_click ?i d")
    case True
    then show ?thesis
      using triple_after_claim [OF assms, of dv d v at camp ip] v
      by (auto intro: triple_conseq simp: claimed_by_def Let_def)
  next
    case False
    then show ?thesis by (cases claimed) (auto simp: triple_def ret_def)
  qed
  show ?thesis
    unfolding capture_body_def Let_def
    apply (rule triple_bind_val [OF version])
    apply (rule triple_then [OF triple_reject [where Q = "\<lambda>_ d'. d' = d"]], simp, simp)
    apply (rule triple_bind [OF triple_extern [where Q = "\<lambda>_ d'. d' = d"]], simp, simp)
    apply (rule triple_bind [OF claim])
    apply (rule rest, assumption)
    done
qed

lemma triple_capture:
  assumes "units_printer (rpc_formatUnits (cp_chain deps))"
  shows "triple (\<lambda>d'. d' = d) (captureBillingClick deps dv camp ip)
    (\<lambda>_ d'. d' = d \<or> d' = closed (to_lower (dv_deliveryId dv)) d \<or> capture_effect deps dv camp ip d d')
    (\<lambda>_. False)"
proof -
  let ?i = "to_lower (dv_deliveryId dv)"
  have "capture_effect deps dv camp ip d (closed ?i d')" if claimed: "claimed_by dv d d'" for d'
  proof -
    obtain v at where v: "\<not> has_click ?i d" "js_bigint (dl_positionVersion (dv_claim dv)) = Some v"
      "d' = with_click (new_click ?i (dv_claim dv) v at) d"
      using claimed by (auto simp: claimed_by_def Let_def)
    show ?thesis
      unfolding v(3) closed_def by (simp add: fresh_update [OF v(1)] effect_unbilled [OF v(1,2)])
  qed
  then show ?thesis
    unfolding captureBillingClick_def
    by (intro triple_catch [OF triple_conseq [OF triple_capture_body [OF assms, of d]]]
        triple_catch [of _ _ _ "\<lambda>_. False"] triple_bind [OF triple_update_capturing [where Q = "\<lambda>_ d'. d' = d \<or> d' = closed ?i d \<or> capture_effect deps dv camp ip d d'"]] triple_ret)
      (auto simp: closed_def [symmetric])
qed

text \<open>
  C27: Whatever the node and the database's clock answer, capturing a click never throws and has one
  of three results: nothing changes; a capture under the same identifier that had been interrupted
  is closed as unbilled; or, when the identifier is new, exactly one click is added, with the claims
  of the delivery, and it is unbilled with a reason, settled at no charge, billable at the exact
  amount of its bid and price, or suppressed. The last two are decided by the five-minute window of
  the client and campaign and are counted once in the totals; no other row changes.
\<close>

theorem captureBillingClick_effect:
  assumes "units_printer (rpc_formatUnits (cp_chain deps))"
    and "captureBillingClick deps delivery campaignId ip s = (r, s')"
  shows "r = Inr () \<and> (db s' = db s \<or> db s' = closed (to_lower (dv_deliveryId delivery)) (db s) \<or>
    capture_effect deps delivery campaignId ip (db s) (db s'))"
  using triple_capture [OF assms(1), of "db s" delivery campaignId ip] assms(2)
  by (cases r) (fastforce simp: triple_def)+

end
