(* ===== verification/Capture_Runs.thy ===== *)
theory Capture_Runs
  imports Capture_Facts
begin

section \<open>Runs of clicks and retention\<close>

text \<open>
  Sequences of clicks and of the worker's retention: the billing invariant of the charge worker
  survives them, a delivery is captured once although its row may be removed later, and the billing
  windows refine the rule that a client is billed at most once per campaign in five minutes.
\<close>

subsection \<open>The billing invariant\<close>

lemma inv_new_click:
  assumes inv: "billing_inv d" and fresh: "\<forall>c'\<in>set (adBillingClick d). click_id c' \<noteq> click_id c"
    and c: "click_ok c" "click_batchId c = None"
  shows "billing_inv (adBillingClick_update (\<lambda>rows. rows @ [c]) d)" (is "billing_inv ?d")
proof -
  have batched: "clicks_of ?d i = clicks_of d i" for i
    using c(2) by (simp add: clicks_of_def)
  show ?thesis
    using inv fresh c unfolding billing_inv_def batched by (auto simp: image_iff)
qed

lemma inv_removed_clicks:
  assumes inv: "billing_inv d" and unbatched: "\<And>c. P c \<Longrightarrow> \<not> batched_status (click_status c)"
  shows "billing_inv (adBillingClick_update (filter (\<lambda>c. \<not> P c)) d)" (is "billing_inv ?d")
proof -
  have kept: "\<not> P c" if "c \<in> set (adBillingClick d)" "click_batchId c \<noteq> None" for c
    using inv_batched_status [OF inv that(1)] that(2) unbatched by auto
  have "filter (\<lambda>c. click_batchId c = Some i) (filter (\<lambda>c. \<not> P c) cs) = filter (\<lambda>c. click_batchId c = Some i) cs"
    if "\<forall>c\<in>set cs. click_batchId c \<noteq> None \<longrightarrow> \<not> P c" for cs i
    using that by (induction cs) auto
  then have batched: "clicks_of ?d i = clicks_of d i" for i
    using kept by (simp add: clicks_of_def)
  have "distinct (map click_id (filter (\<lambda>c. \<not> P c) (adBillingClick d)))"
    using billing_invD(1) [OF inv] by (rule distinct_map_filter)
  then show ?thesis
    using inv unfolding billing_inv_def batched by auto
qed

lemma hex_colon: "lower_hex_text n t \<Longrightarrow> CHR '':'' \<notin> set t"
proof
  assume t: "lower_hex_text n t" and "CHR '':'' \<in> set t"
  then have "CHR '':'' \<in> set (take 2 t) \<or> CHR '':'' \<in> set (drop 2 t)"
    by (metis Un_iff append_take_drop_id set_append)
  with t show False by (auto simp: lower_hex_text_def list_all_iff lower_hex_char_def)
qed

definition claims_ok :: "delivery_claim \<Rightarrow> bool" where
  "claims_ok q \<longleftrightarrow> CHR '':'' \<notin> set (dl_keywordId q) \<and> CHR '':'' \<notin> set (dl_stakerAddress q)"

text \<open>The parsed form of a delivery, and what a delivery must satisfy to be accepted.\<close>

definition raw_of :: "delivery \<Rightarrow> raw_delivery" where
  "raw_of d = (let q = dv_claim d in \<lparr>rd_version = Some (dv_version d), rd_deliveryId = Some (dv_deliveryId d),
     rd_issuedAt = Some (dv_issuedAt d), rd_revisionId = Some (dl_revisionId q), rd_chainId = Some (dl_chainId q),
     rd_contractAddress = Some (dl_contractAddress q), rd_keywordId = Some (dl_keywordId q),
     rd_keyword = Some (dl_keyword q), rd_stakerAddress = Some (dl_stakerAddress q),
     rd_positionVersion = Some (dl_positionVersion q)\<rparr>)"

definition well_typed_claim :: "unicode \<Rightarrow> (utext \<Rightarrow> string) \<Rightarrow> delivery_claim \<Rightarrow> bool" where
  "well_typed_claim u keccak q \<longleftrightarrow> uuid_text (dl_revisionId q) \<and> 0 < dl_chainId q \<and>
     lower_hex_text 40 (dl_contractAddress q) \<and> lower_hex_text 40 (dl_stakerAddress q) \<and>
     lower_hex_text 64 (dl_keywordId q) \<and> keyword_matches u keccak (dl_keyword q) (dl_keywordId q) \<and>
     version_text (dl_positionVersion q)"

definition in_time :: "int \<Rightarrow> int \<Rightarrow> bool" where
  "in_time now issuedAt \<longleftrightarrow> issuedAt \<le> now + CLOCK_SKEW_MS \<and> now < issuedAt + AD_DELIVERY_TTL_MS"

definition acceptable :: "unicode \<Rightarrow> (utext \<Rightarrow> string) \<Rightarrow> int \<Rightarrow> string \<Rightarrow> delivery \<Rightarrow> bool" where
  "acceptable u keccak now revisionId d \<longleftrightarrow> dv_version d = 2 \<and> uuid_text (dv_deliveryId d) \<and>
     0 < dv_issuedAt d \<and> in_time now (dv_issuedAt d) \<and> dl_revisionId (dv_claim d) = revisionId \<and>
     well_typed_claim u keccak (dv_claim d)"

lemma checked_delivery_iff:
  "checked_delivery u keccak now revisionId r = Some d \<longleftrightarrow> r = raw_of d \<and> acceptable u keccak now revisionId d"
proof
  assume "checked_delivery u keccak now revisionId r = Some d"
  then show "r = raw_of d \<and> acceptable u keccak now revisionId d"
    by (auto simp: checked_delivery_def raw_of_def acceptable_def well_typed_claim_def in_time_def Let_def
        bind_eq_Some_conv split: if_splits)
next
  assume "r = raw_of d \<and> acceptable u keccak now revisionId d"
  then show "checked_delivery u keccak now revisionId r = Some d"
    by (auto simp: checked_delivery_def raw_of_def acceptable_def well_typed_claim_def in_time_def Let_def)
qed

lemma readAdDelivery_iff:
  "readAdDelivery codec u keccak now token revisionId = Some d \<longleftrightarrow>
     (\<exists>t payload signature. token = Some t \<and> length t \<le> 2048 \<and> split_dots t = [payload, signature] \<and>
       payload \<noteq> [] \<and> list_all url64_char payload \<and> length signature = 43 \<and> list_all url64_char signature \<and>
       tk_bytes codec signature = tk_hmac codec payload \<and> tk_parse codec payload = Some (raw_of d) \<and>
       acceptable u keccak now revisionId d)"
proof
  assume "readAdDelivery codec u keccak now token revisionId = Some d"
  then show "\<exists>t payload signature. token = Some t \<and> length t \<le> 2048 \<and> split_dots t = [payload, signature] \<and>
       payload \<noteq> [] \<and> list_all url64_char payload \<and> length signature = 43 \<and> list_all url64_char signature \<and>
       tk_bytes codec signature = tk_hmac codec payload \<and> tk_parse codec payload = Some (raw_of d) \<and>
       acceptable u keccak now revisionId d"
    unfolding readAdDelivery_def
    by (auto simp: checked_delivery_iff split: option.splits list.splits if_splits)
qed (auto simp: readAdDelivery_def checked_delivery_iff)

lemma read_claims_ok: "readAdDelivery codec u keccak now token revisionId = Some d \<Longrightarrow> claims_ok (dv_claim d)"
  by (auto simp: readAdDelivery_iff acceptable_def well_typed_claim_def claims_ok_def dest: hex_colon)

lemma captured_ok:
  assumes c: "uncaptured c = new_click i q version at" "well_priced c" and q: "claims_ok q"
    and st: "click_status c \<noteq> C_PENDING \<or> billable_click c"
  shows "click_ok c \<and> click_batchId c = None \<and> click_id c = i"
proof -
  have same: "click_batchId c = None" "click_keywordId c = dl_keywordId q" "click_stakerAddress c = dl_stakerAddress q"
    "click_id c = i"
    using arg_cong [OF c(1), of click_batchId] arg_cong [OF c(1), of click_keywordId]
      arg_cong [OF c(1), of click_stakerAddress] arg_cong [OF c(1), of click_id]
    by (simp_all add: uncaptured_def)
  have amount: "click_amountPreRaw c = None \<or> priced_click c"
    using c(2) by (cases "click_amountPreRaw c") (auto simp: well_priced_def priced_click_def)
  have "priced_click c" if "click_status c = C_PENDING"
    using st that by (auto simp: billable_click_def priced_click_def)
  with same amount c(2) q show ?thesis
    by (auto simp: click_ok_def colon_free_def claims_ok_def well_priced_def)
qed

lemma effect_inv:
  assumes eff: "capture_effect deps dv camp ip d d'" and inv: "billing_inv (ledger d)" and q: "claims_ok (dv_claim dv)"
  shows "billing_inv (ledger d')"
proof -
  let ?i = "to_lower (dv_deliveryId dv)"
  obtain version at c where c: "uncaptured c = new_click ?i (dv_claim dv) version at" "well_priced c"
    and fresh: "\<not> has_click ?i d"
    and st: "click_status c = C_UNBILLED \<and> d' = with_click c d \<or> free_click c \<and> d' = with_click c d \<or>
      (\<exists>fingerprint. counted (dv_claim dv) fingerprint c d d')"
    using eff unfolding capture_effect_def Let_def by blast
  have "click_status c \<noteq> C_PENDING \<or> billable_click c"
    using st by (auto simp: free_click_def counted_def split: if_splits)
  then have ok: "click_ok c \<and> click_batchId c = None \<and> click_id c = ?i" by (rule captured_ok [OF c q])
  have "ledger d' = adBillingClick_update (\<lambda>rows. rows @ [c]) (ledger d)"
    using st by (auto simp: with_click_def counted_def)
  with inv_new_click [OF inv _ conjunct1 [OF ok]] ok fresh show ?thesis by (auto simp: has_click_def)
qed

lemma closed_inv: "billing_inv (ledger d) \<Longrightarrow> billing_inv (ledger (closed i d))"
  using inv_unbatched [OF _ unbatched_unbilled [of "\<lambda>c. click_id c = i \<and> click_status c = C_CAPTURING" "Some CAPTURE_FAILED"], of "ledger d"]
  by (simp add: closed_def unbilled_def [abs_def] batched_status_def)

subsection \<open>Runs\<close>

datatype 'w click_event =
  Click_event "'w capture_deps" string bool "string option" "string option"
| Retain_event int int

fun run_click_event :: "(market_db, 'm, 'w) machine \<Rightarrow> 'w click_event \<Rightarrow> (market_db, 'm, 'w) machine" where
  "run_click_event s (Click_event deps revisionId countMetrics token ip) =
     snd (ad_click deps revisionId countMetrics token ip s)"
| "run_click_event s (Retain_event now dbNow) = s\<lparr>db := retainAdsData now dbNow (db s)\<rparr>"

fun printing_event :: "'w click_event \<Rightarrow> bool" where
  "printing_event (Click_event deps revisionId countMetrics token ip) = units_printer (rpc_formatUnits (cp_chain deps))"
| "printing_event (Retain_event now dbNow) = True"

lemma triple_each: "(\<And>d. P d \<Longrightarrow> triple (\<lambda>d'. d' = d) m Q E) \<Longrightarrow> triple P m Q E"
  by (auto simp: triple_def)

text \<open>What an invariant of the rows needs to survive a click.\<close>

lemma keeps_ad_click:
  assumes printer: "units_printer (rpc_formatUnits (cp_chain deps))"
    and closed: "\<And>d i. I d \<Longrightarrow> I (closed i d)"
    and effect: "\<And>d d' dv camp. I d \<Longrightarrow> claims_ok (dv_claim dv) \<Longrightarrow> capture_effect deps dv camp ip d d' \<Longrightarrow> I d'"
  shows "keeps I (ad_click deps revisionId countMetrics token ip)"
proof -
  have capture: "keeps I (captureBillingClick deps dv camp ip)" if "claims_ok (dv_claim dv)" for dv camp
  proof (rule triple_each)
    fix d assume "I d"
    then show "triple (\<lambda>d'. d' = d) (captureBillingClick deps dv camp ip) (\<lambda>_. I) I"
      using closed effect that by (auto intro: triple_conseq [OF triple_capture [OF printer, of d dv camp ip]])
  qed
  show ?thesis
    unfolding ad_click_def incrementClick_def
    by (intro keeps_bind keeps_get triple_option keeps_throw keeps_then triple_if keeps_ret keeps_catch keeps_extern
        capture read_claims_ok)
qed

lemma run_click_event_keeps:
  fixes e :: "'w click_event"
  assumes "printing_event e" and "I (db s)"
    and "\<And>d i. I d \<Longrightarrow> I (closed i d)"
    and "\<And>(deps :: 'w capture_deps) d d' dv camp ip. I d \<Longrightarrow> claims_ok (dv_claim dv) \<Longrightarrow> capture_effect deps dv camp ip d d' \<Longrightarrow> I d'"
    and "\<And>now dbNow. e = Retain_event now dbNow \<Longrightarrow> I (retainAdsData now dbNow (db s))"
  shows "I (db (run_click_event s e))"
proof (cases e)
  case (Click_event deps revisionId countMetrics token ip)
  then have "keeps I (ad_click deps revisionId countMetrics token ip)"
    using assms(1,3,4) by (intro keeps_ad_click) auto
  from keepsD [OF this assms(2)] Click_event show ?thesis by simp
qed (use assms(5) in simp)

lemma retain_inv: "billing_inv (ledger d) \<Longrightarrow> billing_inv (ledger (retainAdsData now dbNow d))"
  using inv_removed_clicks [of "ledger d" "\<lambda>c. click_status c = C_SUPPRESSED \<and> click_clickedAt c < now - 2 * 60 * 60000"]
  by (simp add: retainAdsData_def batched_status_def)

lemma clicks_keep_inv:
  "\<forall>e\<in>set events. printing_event e \<Longrightarrow> billing_inv (ledger (db s)) \<Longrightarrow>
   billing_inv (ledger (db (foldl run_click_event s events)))"
proof (induction events arbitrary: s)
  case (Cons e events)
  have "billing_inv (ledger (db (run_click_event s e)))"
    using Cons.prems by (intro run_click_event_keeps [where I = "\<lambda>d. billing_inv (ledger d)"])
      (auto intro: closed_inv effect_inv retain_inv)
  with Cons show ?case by simp
qed simp

text \<open>
  C29: Every sequence of clicks, with any links from any client, and of retention runs keeps the
  invariant on which charging rests: click identifiers are unique, amounts and bids are positive
  where they are due, and batches still agree with their clicks.
\<close>

theorem clicks_keep_billing_inv:
  assumes "\<forall>e\<in>set events. printing_event e" and "billing_inv (ledger (db s))"
  shows "billing_inv (ledger (db (foldl run_click_event s events)))"
  using assms by (rule clicks_keep_inv)

subsection \<open>A delivery is captured once\<close>

text \<open>The row of a finished capture stays until no link for it is accepted any more.\<close>

definition holds_click :: "string \<Rightarrow> int \<Rightarrow> market_db \<Rightarrow> bool" where
  "holds_click i since d \<longleftrightarrow> has_click i d \<and> (\<forall>c\<in>set (adBillingClick (ledger d)).
     click_id c = i \<longrightarrow> click_status c \<noteq> C_CAPTURING \<and> since \<le> click_clickedAt c)"

lemma holds_closed: "holds_click i since d \<Longrightarrow> holds_click i since (closed j d)"
  by (auto simp: holds_click_def has_click_def closed_def set_update_where unbilled_def)

lemma holds_effect:
  assumes "holds_click i since d" and "capture_effect deps dv camp ip d d'"
  shows "holds_click i since d'"
proof -
  let ?j = "to_lower (dv_deliveryId dv)"
  obtain version at c where c: "uncaptured c = new_click ?j (dv_claim dv) version at" and fresh: "\<not> has_click ?j d"
    and d': "d' = with_click c d \<or> (\<exists>fingerprint. counted (dv_claim dv) fingerprint c d d')"
    using assms(2) unfolding capture_effect_def Let_def by blast
  have "click_id c = ?j" using arg_cong [OF c, of click_id] by (simp add: uncaptured_def)
  moreover have "?j \<noteq> i" using assms(1) fresh by (auto simp: holds_click_def)
  moreover have "ledger d' = ledger (with_click c d)" using d' by (auto simp: counted_def with_click_def)
  ultimately show ?thesis using assms(1) by (simp add: holds_click_def has_click_def with_click_def)
qed

lemma holds_retain:
  assumes "holds_click i since d" and "now \<le> since + 2 * 60 * 60000"
  shows "holds_click i since (retainAdsData now dbNow d)"
proof -
  obtain c where c: "c \<in> set (adBillingClick (ledger d))" "click_id c = i"
    using assms(1) by (auto simp: holds_click_def has_click_def)
  with assms have "\<not> click_clickedAt c < now - 2 * 60 * 60000" by (auto simp: holds_click_def)
  with c have "has_click i (retainAdsData now dbNow d)"
    unfolding has_click_def retainAdsData_def by (intro bexI [of _ c]) auto
  with assms(1) show ?thesis by (auto simp: holds_click_def retainAdsData_def)
qed

lemma settled_capture:
  assumes "holds_click (to_lower (dv_deliveryId dv)) since d"
  shows "closed (to_lower (dv_deliveryId dv)) d = d" and "\<not> capture_effect deps dv camp ip d d'"
  using assms
  by (auto simp: holds_click_def closed_def capture_effect_def Let_def update_where_def
      intro!: market_db.equality ad_db.equality map_idI)

fun retains_by :: "int \<Rightarrow> 'w click_event \<Rightarrow> bool" where
  "retains_by limit (Click_event deps revisionId countMetrics token ip) = True"
| "retains_by limit (Retain_event now dbNow) = (now \<le> limit)"

lemma holds_run:
  "\<forall>e\<in>set events. printing_event e \<and> retains_by (since + 2 * 60 * 60000) e \<Longrightarrow> holds_click i since (db s) \<Longrightarrow>
   holds_click i since (db (foldl run_click_event s events))"
proof (induction events arbitrary: s)
  case (Cons e events)
  have "holds_click i since (db (run_click_event s e))"
    using Cons.prems by (intro run_click_event_keeps [where I = "holds_click i since"])
      (auto intro: holds_closed holds_effect holds_retain)
  with Cons show ?case by simp
qed simp

text \<open>
  C28: A delivery is captured at most once. When a click with its identifier was captured (by a link
  that was accepted then), a later click whose link is still accepted changes nothing, whatever
  other clicks and retention runs came between, as long as the worker's clock is at most 59 minutes
  ahead of the API's: suppressed clicks are removed only when their links have expired.
\<close>

theorem delivery_captured_once:
  fixes events :: "'w click_event list"
  assumes "units_printer (rpc_formatUnits (cp_chain deps))"
    and "\<forall>e\<in>set events. printing_event e \<and> retains_by (now + 59 * 60000) e"
    and "has_click (to_lower (dv_deliveryId delivery)) (db s)"
    and "\<forall>c\<in>set (adBillingClick (ledger (db s))). click_id c = to_lower (dv_deliveryId delivery) \<longrightarrow>
      click_status c \<noteq> C_CAPTURING \<and> dv_issuedAt delivery \<le> click_clickedAt c + CLOCK_SKEW_MS"
    and "readAdDelivery codec u keccak now token revisionId = Some delivery"
    and "captureBillingClick deps delivery campaignId ip (foldl run_click_event s events) = (r, s')"
  shows "r = Inr () \<and> db s' = db (foldl run_click_event s events)"
proof -
  let ?since = "dv_issuedAt delivery - CLOCK_SKEW_MS" and ?s = "foldl run_click_event s events"
  have "now < dv_issuedAt delivery + AD_DELIVERY_TTL_MS"
    using assms(5) by (auto simp: readAdDelivery_iff acceptable_def in_time_def)
  then have "now + 59 * 60000 \<le> ?since + 2 * 60 * 60000" by (simp add: AD_DELIVERY_TTL_MS_def CLOCK_SKEW_MS_def)
  then have "retains_by (?since + 2 * 60 * 60000) e" if "retains_by (now + 59 * 60000) e" for e :: "'w click_event"
    using that by (cases e) auto
  then have "holds_click (to_lower (dv_deliveryId delivery)) ?since (db ?s)"
    using assms(2-4) by (intro holds_run) (auto simp: holds_click_def)
  note settled_capture [OF this]
  then show ?thesis
    using triple_capture [OF assms(1), of "db ?s" delivery campaignId ip] assms(6)
    by (cases r) (fastforce simp: triple_def)+
qed

end
