(* ===== verification/Chain_Adapter_Facts.thy ===== *)
theory Chain_Adapter_Facts
  imports Chain_Adapter Projection_Facts
begin

section \<open>What a prepared transaction and a billed position guarantee\<close>

text \<open>
  The RPC node's documented behaviour: a read pinned at a block answers from the state of that
  block. The named hypothesis \<open>pinned\<close> says so; the state is a family of functions of the block.
\<close>

record chain_view =
  cv_details :: "string \<Rightarrow> string \<Rightarrow> string \<Rightarrow> int \<Rightarrow> stake_details"
  cv_price :: "string \<Rightarrow> int \<Rightarrow> int"
  cv_quotedAt :: "string \<Rightarrow> int \<Rightarrow> int"
  cv_minimumStake :: "string \<Rightarrow> int \<Rightarrow> int"
  cv_paused :: "string \<Rightarrow> int \<Rightarrow> bool"
  cv_allowance :: "string \<Rightarrow> string \<Rightarrow> string \<Rightarrow> int \<Rightarrow> int"

definition reads :: "('w, 'a) api_call \<Rightarrow> 'a \<Rightarrow> bool" where
  "reads call x \<longleftrightarrow> (\<forall>w y w'. call w = (Inr y, w') \<longrightarrow> y = x)"

definition pinned :: "'w adapter_deps \<Rightarrow> chain_view \<Rightarrow> bool" where
  "pinned deps c \<longleftrightarrow> (\<forall>a k u n. reads (rpc_stakeDetails deps a k u n) (cv_details c a k u n)) \<and>
     (\<forall>a n. reads (rpc_price deps a n) (cv_price c a n) \<and> reads (rpc_quotedAt deps a n) (cv_quotedAt c a n) \<and>
        reads (rpc_minimumStake deps a n) (cv_minimumStake c a n) \<and> reads (rpc_paused deps a n) (cv_paused c a n)) \<and>
     (\<forall>t u a n. reads (rpc_allowance deps t u a n) (cv_allowance c t u a n))"

lemma readsD: "reads call x \<Longrightarrow> call w = (Inr y, w') \<Longrightarrow> y = x"
  by (auto simp: reads_def)

lemma pinnedD:
  assumes "pinned deps c"
  shows "rpc_stakeDetails deps a k u n w = (Inr d, w') \<Longrightarrow> d = cv_details c a k u n"
    "rpc_price deps a n w = (Inr i, w') \<Longrightarrow> i = cv_price c a n"
    "rpc_quotedAt deps a n w = (Inr i, w') \<Longrightarrow> i = cv_quotedAt c a n"
    "rpc_minimumStake deps a n w = (Inr i, w') \<Longrightarrow> i = cv_minimumStake c a n"
    "rpc_paused deps a n w = (Inr b, w') \<Longrightarrow> b = cv_paused c a n"
    "rpc_allowance deps t u a n w = (Inr i, w') \<Longrightarrow> i = cv_allowance c t u a n"
  using assms unfolding pinned_def by (blast dest: readsD)+

subsection \<open>Stakes\<close>

lemma reading_or_throw: "(\<And>y. x = Some y \<Longrightarrow> \<Phi> y) \<Longrightarrow> reading d (or_throw e x) \<Phi>"
  unfolding or_throw_def by (intro reading_rules)

lemma reading_reject: "(\<not> c \<Longrightarrow> \<Phi> ()) \<Longrightarrow> reading d (reject c e) \<Phi>"
  unfolding reject_def by (intro reading_rules)

lemma reading_checksum: "(\<And>y. rpc_getAddress deps a = Some y \<Longrightarrow> \<Phi> y) \<Longrightarrow> reading d (checksum deps a) \<Phi>"
  unfolding checksum_def by (rule reading_or_throw)

lemma reading_keyword_id:
  "(\<And>i. adKeywordId (rpc_unicode deps) (rpc_keccak deps) k = Inr i \<Longrightarrow> \<Phi> i) \<Longrightarrow> reading d (keyword_id deps k) \<Phi>"
  unfolding keyword_id_def by (intro reading_rules)

lemmas reading_adapter = reading_or_throw reading_reject reading_checksum reading_keyword_id

lemma reading_pinned:
  assumes "pinned deps c"
  shows "\<Phi> (cv_details c a k u n) \<Longrightarrow> reading d (extern (rpc_stakeDetails deps a k u n)) \<Phi>"
    and "\<Psi> (cv_price c a n) \<Longrightarrow> reading d (extern (rpc_price deps a n)) \<Psi>"
    and "\<Psi> (cv_quotedAt c a n) \<Longrightarrow> reading d (extern (rpc_quotedAt deps a n)) \<Psi>"
    and "\<Psi> (cv_minimumStake c a n) \<Longrightarrow> reading d (extern (rpc_minimumStake deps a n)) \<Psi>"
    and "\<Theta> (cv_paused c a n) \<Longrightarrow> reading d (extern (rpc_paused deps a n)) \<Theta>"
    and "\<Psi> (cv_allowance c t u a n) \<Longrightarrow> reading d (extern (rpc_allowance deps t u a n)) \<Psi>"
  using pinnedD [OF assms] by (auto intro!: reading_extern)

lemma reading_any:
  "(\<And>x. \<Phi> x) \<Longrightarrow> reading d (extern (rpc_clock deps)) \<Phi>"
  "(\<And>x. \<Phi> x) \<Longrightarrow> reading d (extern (rpc_chainId deps)) \<Phi>"
  "(\<And>x. \<Psi> x) \<Longrightarrow> reading d (extern (rpc_block deps)) \<Psi>"
  "(\<And>x. \<Theta> x) \<Longrightarrow> reading d (extern (rpc_deadline deps)) \<Theta>"
  by (auto intro!: reading_extern)

lemma reading_check_stake:
  assumes "pinned deps c"
    and "\<And>amount bill required w. js_bigint amountRaw = Some amount \<Longrightarrow>
      billPreRaw bidUsdRaw (rpc_formatUnits deps (cv_price c a n)) = Inr bill \<Longrightarrow> js_bigint bill = Some required \<Longrightarrow>
      \<not> sd_amount sd + amount < required \<Longrightarrow> \<not> (cv_price c a n \<le> 0 \<or> cv_quotedAt c a n \<le> 0) \<Longrightarrow>
      \<not> cv_paused c a n \<Longrightarrow> \<not> (sd_amount sd > 0 \<and> sd_withdrawAvailableAt sd \<noteq> 0) \<Longrightarrow>
      \<not> (amountRaw = ''0'' \<and> \<not> sd_amount sd > 0) \<Longrightarrow>
      \<not> (\<not> sd_amount sd > 0 \<and> amount < cv_minimumStake c a n) \<Longrightarrow> \<Phi> w"
  shows "reading d (check_stake deps a n sd amountRaw bidUsdRaw) \<Phi>"
  unfolding check_stake_def Let_def
  by (intro reading_control reading_adapter reading_pinned [OF assms(1)] reading_any; rule assms(2); assumption)

lemma natural_text_zero:
  assumes "natural_decimal t" and "t \<noteq> ''0''" and "js_bigint t = Some v"
  shows "0 < v"
  using assms positive_decimal_value [of t] by (auto simp: natural_decimal_def)

lemma js_bigint_zero [simp]: "js_bigint ''0'' = Some 0"
  by code_simp

lemma parsed_amount:
  assumes "parseAdsStakeAmount v = Some t"
  shows "v = Some t \<and> natural_decimal t \<and> (\<exists>n. js_bigint t = Some n \<and> 0 \<le> n \<and> n < 2 ^ 256 \<and> (t \<noteq> ''0'' \<longrightarrow> 0 < n))"
proof -
  from assms have t: "v = Some t" "natural_decimal t" "\<not> the (js_bigint t) > MAX_UINT256"
    by (auto simp: parseAdsStakeAmount_def split: option.splits if_splits)
  moreover have "\<exists>n. js_bigint t = Some n \<and> 0 \<le> n \<and> (t \<noteq> ''0'' \<longrightarrow> 0 < n)"
    using t(2) positive_decimal_value [of t] by (auto simp: natural_decimal_def js_bigint_zero)
  ultimately show ?thesis by (auto simp: MAX_UINT256_def)
qed

lemma parsed_bid:
  assumes "parseAdsBidUsd v = Some t"
  shows "v = Some t \<and> positive_decimal t \<and> (\<exists>n. js_bigint t = Some n \<and> 0 < n \<and> n < 2 ^ 256)"
proof -
  from assms have t: "v = Some t" "positive_decimal t" "\<not> the (js_bigint t) > MAX_UINT256"
    by (auto simp: parseAdsBidUsd_def split: option.splits if_splits)
  with positive_decimal_value [of t] show ?thesis by (auto simp: MAX_UINT256_def)
qed

definition plan_of ::
  "stake_operation \<Rightarrow> int \<Rightarrow> string \<Rightarrow> string \<Rightarrow> string \<Rightarrow> int \<Rightarrow> contract_call \<Rightarrow> bool \<Rightarrow> ready_plan" where
  "plan_of operation chainId contract token keywordId amount call approve = \<lparr>plan_operation = operation,
     plan_keywordId = keywordId, plan_tokenAddress = token,
     plan_approval = (if amount > 0 \<and> approve then Some \<lparr>tx_chainId = chainId, tx_to = token,
        tx_data = Call_approve contract amount, tx_valueRaw = 0\<rparr> else None),
     plan_transaction = \<lparr>tx_chainId = chainId, tx_to = contract, tx_data = call, tx_valueRaw = 0\<rparr>,
     plan_priceWarning = None\<rparr>"

lemma build_stake:
  assumes "js_bigint t = Some amount" and "t \<noteq> []" and "js_bigint b = Some bid"
  shows "buildAdsStakeTransactionPlan STAKE ch ca ta k (Some t) (Some b) ap =
    Some (plan_of STAKE ch ca ta k amount (Call_stake k amount bid) ap)"
  using assms by (simp add: buildAdsStakeTransactionPlan_def plan_of_def amount_or_zero_def truthy_def)

lemma build_unstake:
  "buildAdsStakeTransactionPlan REQUEST_UNSTAKE ch ca ta k None bd ap =
    Some (plan_of REQUEST_UNSTAKE ch ca ta k 0 (Call_requestUnstake k) ap)"
  "buildAdsStakeTransactionPlan UNSTAKE ch ca ta k None bd ap =
    Some (plan_of UNSTAKE ch ca ta k 0 (Call_unstake k) ap)"
  by (simp_all add: buildAdsStakeTransactionPlan_def plan_of_def amount_or_zero_def truthy_def)

lemma reading_snapshot:
  assumes "\<And>snapshot. \<Phi> snapshot"
  shows "reading d (chain_snapshot deps) \<Phi>"
  unfolding chain_snapshot_def Let_def synchronizedState_def
  by (intro reading_control reading_adapter reading_any assms)

lemma bill_of_printed:
  assumes "units_printer f" and "0 < v" and "js_bigint b = Some bid" and "billPreRaw b (f v) = Inr bill"
    and "js_bigint bill = Some required"
  shows "required = bid * 10 ^ 30 div v"
  using assms units_printerD [OF assms(1), of v] by (auto simp: billPreRaw_def split: if_splits)

lemma plan_of_zero: "\<not> 0 < amount \<Longrightarrow> plan_of op ch c t k amount call a = plan_of op ch c t k amount call a'"
  by (simp add: plan_of_def)

lemma reading_prepare_stake:
  assumes pin: "pinned deps c" and printer: "units_printer (rpc_formatUnits deps)"
    and given: "\<And>ch contract token staker kw n t b amount bid warning.
      si_amountRaw i = Some t \<Longrightarrow> js_bigint t = Some amount \<Longrightarrow> 0 \<le> amount \<Longrightarrow> amount < 2 ^ 256 \<Longrightarrow>
      si_bidUsdRaw i = Some b \<Longrightarrow> js_bigint b = Some bid \<Longrightarrow> 0 < bid \<Longrightarrow> bid < 2 ^ 256 \<Longrightarrow>
      rpc_getAddress deps (si_stakerAddress i) = Some staker \<Longrightarrow>
      \<not> cv_paused c contract n \<Longrightarrow> 0 < cv_price c contract n \<Longrightarrow>
      bid * 10 ^ 30 div cv_price c contract n \<le> sd_amount (cv_details c contract kw staker n) + amount \<Longrightarrow>
      (if sd_amount (cv_details c contract kw staker n) > 0
        then sd_withdrawAvailableAt (cv_details c contract kw staker n) = 0
        else 0 < amount \<and> cv_minimumStake c contract n \<le> amount) \<Longrightarrow>
      \<Phi> (Ready_plan ((plan_of STAKE ch contract token kw amount (Call_stake kw amount bid)
        (cv_allowance c token staker contract n < amount))\<lparr>plan_priceWarning := warning\<rparr>))"
    and disabled: "\<And>st. \<Phi> (Disabled_plan st STAKE)"
  shows "reading d (prepare_stake deps STAKE i) \<Phi>"
proof -
  have ready: "\<Phi> (Ready_plan (p\<lparr>plan_priceWarning := w\<rparr>))"
    if parsed: "parseAdsStakeAmount (si_amountRaw i) = Some t" "parseAdsBidUsd (si_bidUsdRaw i) = Some b"
      and staker: "rpc_getAddress deps (si_stakerAddress i) = Some staker"
      and bill: "js_bigint (the (Some t)) = Some amount"
        "billPreRaw (the (Some b)) (rpc_formatUnits deps (cv_price c contract n)) = Inr bill" "js_bigint bill = Some required"
      and checks: "\<not> sd_amount (cv_details c contract kw staker n) + amount < required"
        "\<not> (cv_price c contract n \<le> 0 \<or> cv_quotedAt c contract n \<le> 0)" "\<not> cv_paused c contract n"
        "\<not> (0 < sd_amount (cv_details c contract kw staker n) \<and> sd_withdrawAvailableAt (cv_details c contract kw staker n) \<noteq> 0)"
        "\<not> (the (Some t) = ''0'' \<and> \<not> 0 < sd_amount (cv_details c contract kw staker n))"
        "\<not> (\<not> 0 < sd_amount (cv_details c contract kw staker n) \<and> amount < cv_minimumStake c contract n)"
      and plan: "buildAdsStakeTransactionPlan STAKE ch contract token kw (Some t) (Some b) approve = Some p"
      and approve: "0 < amount \<Longrightarrow> approve = (cv_allowance c token staker contract n < amount)"
    for p w t b staker amount bill required contract n kw ch token approve
  proof -
    obtain bid where bid: "js_bigint b = Some bid" "0 < bid" "bid < 2 ^ 256" "si_bidUsdRaw i = Some b"
      using parsed_bid [OF parsed(2)] by blast
    have t: "si_amountRaw i = Some t" "natural_decimal t" "0 \<le> amount" "amount < 2 ^ 256" "t \<noteq> ''0'' \<longrightarrow> 0 < amount" "t \<noteq> []"
      using parsed_amount [OF parsed(1)] bill(1) by (auto simp: natural_decimal_def positive_decimal_def)
    have "p = plan_of STAKE ch contract token kw amount (Call_stake kw amount bid) approve"
      using plan build_stake [OF _ t(6) bid(1)] bill(1) by simp
    also have "\<dots> = plan_of STAKE ch contract token kw amount (Call_stake kw amount bid)
        (cv_allowance c token staker contract n < amount)"
      using approve plan_of_zero by (cases "0 < amount") auto
    finally have p: "p = plan_of STAKE ch contract token kw amount (Call_stake kw amount bid)
        (cv_allowance c token staker contract n < amount)" .
    have required: "required = bid * 10 ^ 30 div cv_price c contract n"
      using bill_of_printed [OF printer _ bid(1) _ bill(3)] bill(2) checks(2) by simp
    show ?thesis
      unfolding p by (rule given) (use t bid staker bill(1) checks required in auto)
  qed
  show ?thesis
    unfolding prepare_stake_def
    apply (simp only: simp_thms if_True stake_operation.distinct)
    apply (intro reading_snapshot reading_check_stake [OF pin] reading_control reading_adapter
        reading_pinned [OF pin] reading_any)
       apply (rule disabled)
      apply (rule disabled)
     apply (rule ready, assumption+, simp)
    apply (rule ready, assumption+, simp)
    done
qed

text \<open>
  C24: A stake transaction is handed out only when the chain, at one block, says the stake is good:
  the market is not paused, the position is not being withdrawn, a new position reaches the minimum,
  and the resulting stake covers the exact price of one click at the offered bid. An approval of
  exactly the deposit comes with it when and only when the allowance is smaller.
\<close>

theorem stake_plan_covers_a_click:
  assumes "pinned deps c" and "units_printer (rpc_formatUnits deps)"
    and "prepare_stake deps STAKE i s = (Inr (Ready_plan p), s')"
  shows "\<exists>contract token staker keywordId n amount bid.
    plan_transaction p = \<lparr>tx_chainId = tx_chainId (plan_transaction p), tx_to = contract,
      tx_data = Call_stake keywordId amount bid, tx_valueRaw = 0\<rparr> \<and>
    rpc_getAddress deps (si_stakerAddress i) = Some staker \<and>
    map_option js_bigint (si_amountRaw i) = Some (Some amount) \<and> 0 \<le> amount \<and> amount < 2 ^ 256 \<and>
    map_option js_bigint (si_bidUsdRaw i) = Some (Some bid) \<and> 0 < bid \<and> bid < 2 ^ 256 \<and>
    \<not> cv_paused c contract n \<and> 0 < cv_price c contract n \<and>
    bid * 10 ^ 30 div cv_price c contract n \<le> sd_amount (cv_details c contract keywordId staker n) + amount \<and>
    (if sd_amount (cv_details c contract keywordId staker n) > 0
      then sd_withdrawAvailableAt (cv_details c contract keywordId staker n) = 0
      else 0 < amount \<and> cv_minimumStake c contract n \<le> amount) \<and>
    plan_approval p = (if 0 < amount \<and> cv_allowance c token staker contract n < amount
      then Some \<lparr>tx_chainId = tx_chainId (plan_transaction p), tx_to = token,
        tx_data = Call_approve contract amount, tx_valueRaw = 0\<rparr> else None)" (is "?Q p")
proof -
  have "reading (db s) (prepare_stake deps STAKE i) (\<lambda>plan. \<forall>p. plan = Ready_plan p \<longrightarrow> ?Q p)"
  proof (rule reading_prepare_stake [OF assms(1,2)])
    fix ch contract token staker kw n t b amount bid warning
    assume facts: "si_amountRaw i = Some t" "js_bigint t = Some amount" "0 \<le> amount" "amount < 2 ^ 256"
      "si_bidUsdRaw i = Some b" "js_bigint b = Some bid" "0 < bid" "bid < 2 ^ 256"
      "rpc_getAddress deps (si_stakerAddress i) = Some staker" "\<not> cv_paused c contract n" "0 < cv_price c contract n"
      "bid * 10 ^ 30 div cv_price c contract n \<le> sd_amount (cv_details c contract kw staker n) + amount"
      "if sd_amount (cv_details c contract kw staker n) > 0
        then sd_withdrawAvailableAt (cv_details c contract kw staker n) = 0
        else 0 < amount \<and> cv_minimumStake c contract n \<le> amount"
    let ?p = "(plan_of STAKE ch contract token kw amount (Call_stake kw amount bid)
        (cv_allowance c token staker contract n < amount))\<lparr>plan_priceWarning := warning\<rparr>"
    have "?Q ?p"
      by (rule exI [of _ contract], rule exI [of _ token], rule exI [of _ staker], rule exI [of _ kw],
          rule exI [of _ n], rule exI [of _ amount], rule exI [of _ bid], use facts in \<open>simp add: plan_of_def\<close>)
    then show "\<forall>p. Ready_plan ?p = Ready_plan p \<longrightarrow> ?Q p" by simp
  qed simp
  from readingD [OF this assms(3)] show ?thesis by blast
qed


subsection \<open>Unstakes\<close>

text \<open>
  A transaction that gives a stake up is handed out only for a position with a stake, and in the
  right order: a request only when none is pending, a withdrawal only when one was requested and its
  waiting time is over by the clock. Neither comes with an approval.
\<close>

theorem unstake_plan_in_order:
  assumes "pinned deps c" and "operation \<noteq> STAKE"
    and "prepare_stake deps operation i s = (Inr (Ready_plan p), s')"
  shows "\<exists>contract staker keywordId n.
    plan_approval p = None \<and> tx_to (plan_transaction p) = contract \<and>
    0 < sd_amount (cv_details c contract keywordId staker n) \<and>
    (operation = REQUEST_UNSTAKE \<and> tx_data (plan_transaction p) = Call_requestUnstake keywordId \<and>
       sd_withdrawAvailableAt (cv_details c contract keywordId staker n) = 0 \<or>
     operation = UNSTAKE \<and> tx_data (plan_transaction p) = Call_unstake keywordId \<and>
       sd_withdrawAvailableAt (cv_details c contract keywordId staker n) \<noteq> 0 \<and>
       (\<exists>w now w'. rpc_clock deps w = (Inr now, w') \<and>
          sd_withdrawAvailableAt (cv_details c contract keywordId staker n) \<le> now div 1000))" (is "?Q p")
proof -
  have ready: "\<forall>p. Ready_plan (plan\<lparr>plan_priceWarning := w\<rparr>) = Ready_plan p \<longrightarrow> ?Q p"
    if "buildAdsStakeTransactionPlan operation ch contract token kw None None ap = Some plan"
      and amount: "\<not> \<not> 0 < sd_amount (cv_details c contract kw staker n)"
      and order: "operation = REQUEST_UNSTAKE \<and> sd_withdrawAvailableAt (cv_details c contract kw staker n) = 0 \<or>
        operation = UNSTAKE \<and> sd_withdrawAvailableAt (cv_details c contract kw staker n) \<noteq> 0 \<and>
        (\<exists>w now w'. rpc_clock deps w = (Inr now, w') \<and>
          sd_withdrawAvailableAt (cv_details c contract kw staker n) \<le> now div 1000)"
    for plan w ch contract token kw ap staker n
  proof -
    have "plan = plan_of operation ch contract token kw 0
        (if operation = UNSTAKE then Call_unstake kw else Call_requestUnstake kw) ap"
      using that(1) assms(2) build_unstake by (cases operation) auto
    then have "?Q (plan\<lparr>plan_priceWarning := w\<rparr>)"
      by - (rule exI [of _ contract], rule exI [of _ staker], rule exI [of _ kw], rule exI [of _ n],
          use amount order in \<open>auto simp: plan_of_def\<close>)
    then show ?thesis by simp
  qed
  have "reading (db s) (prepare_stake deps operation i) (\<lambda>plan. \<forall>p. plan = Ready_plan p \<longrightarrow> ?Q p)"
    unfolding prepare_stake_def check_unstake_def
    apply (simp only: assms(2) simp_thms if_False)
    apply (intro reading_snapshot reading_control reading_adapter reading_pinned [OF assms(1)] reading_extern)
      apply simp
     apply (rule ready, assumption, assumption, rule disjI2, simp only: not_less simp_thms, blast)
    apply (rule ready, assumption, assumption, rule disjI1, use assms(2) stake_operation.exhaust in blast)
    done
  from readingD [OF this assms(3)] show ?thesis by blast
qed


subsection \<open>The position a click is billed at\<close>

text \<open>
  The evidence of a live read that starts in the world \<open>w\<close>: the node names the chain, then a block, and every
  value is read at that block. The evidence of a projection: the clock is read twice from \<open>w\<close> on, and by these two
  readings the checkpoint is not from the future and at most a minute old.
\<close>

definition live_evidence :: "'w adapter_deps \<Rightarrow> chain_view \<Rightarrow> delivery_claim \<Rightarrow> int \<Rightarrow> 'w \<Rightarrow> position_evidence \<Rightarrow> bool" where
  "live_evidence deps c q bid w ev \<longleftrightarrow> ev_source ev = RPC \<and> (\<exists>contract staker w1 w2.
     rpc_chainId deps w = (Inr (dl_chainId q), w1) \<and>
     rpc_block deps w1 = (Inr (ev_blockNumber ev, ev_blockHash ev), w2) \<and>
     rpc_getAddress deps (dl_contractAddress q) = Some contract \<and> rpc_getAddress deps (dl_stakerAddress q) = Some staker \<and>
     (let d = cv_details c contract (dl_keywordId q) staker (ev_blockNumber ev) in
       sd_bidUsd d = bid \<and> 0 < sd_amount d \<and> js_bigint (dl_positionVersion q) = Some (sd_positionVersion d)) \<and>
     ev_preUsdPriceE18 ev = show_int (cv_price c contract (ev_blockNumber ev)) \<and>
     ev_preUsdPriceQuotedAt ev = cv_quotedAt c contract (ev_blockNumber ev))"

definition projected_evidence :: "'w adapter_deps \<Rightarrow> ad_db \<Rightarrow> delivery_claim \<Rightarrow> int \<Rightarrow> 'w \<Rightarrow> position_evidence \<Rightarrow> bool" where
  "projected_evidence deps d q bid w ev \<longleftrightarrow> ev_source ev = PROJECTION \<and> (\<exists>st p amount now now' w1 w2.
     find_state (show_int (dl_chainId q) @ '':'' @ dl_contractAddress q) d = Some st \<and>
     rpc_clock deps w = (Inr now, w1) \<and> rpc_clock deps w1 = (Inr now', w2) \<and>
     ix_updatedAt st \<le> now \<and> now' \<le> ix_updatedAt st + 60000 \<and>
     ix_configBlockNumber st = Some (ix_lastBlockNumber st) \<and> ix_minimumStakeRaw st \<noteq> None \<and>
     ix_paused st \<noteq> None \<and> ix_operatorAddress st \<noteq> None \<and>
     ev_blockNumber ev = ix_lastBlockNumber st \<and> ev_blockHash ev = ix_lastBlockHash st \<and>
     ev_preUsdPriceE18 ev = (case ix_preUsdPriceE18Raw st of None \<Rightarrow> ''0'' | Some price \<Rightarrow> price) \<and>
     ev_preUsdPriceQuotedAt ev = (case ix_preUsdPriceQuotedAt st of None \<Rightarrow> 0 | Some t \<Rightarrow> t) \<and>
     find_position (dl_chainId q, dl_contractAddress q, dl_keywordId q, dl_stakerAddress q) d = Some p \<and>
     js_bigint (sp_bidUsdRaw p) = Some bid \<and> js_bigint (sp_stakeRaw p) = Some amount \<and> 0 < amount \<and>
     js_bigint (dl_positionVersion q) = Some (sp_positionVersion p))"

abbreviation live_read :: "'w adapter_deps \<Rightarrow> delivery_claim \<Rightarrow> ('m, 'w, billing_position) market_prog" where
  "live_read deps q \<equiv> bindp (billing_live deps q) (\<lambda>r. thenp (extern (rpc_deadline deps)) (ret r))"

lemma billingPositionResult_found:
  "billingPositionResult v (amount, bid', version) e = Some (Found_position bid ev) \<longleftrightarrow>
     js_bigint v = Some version \<and> 0 < amount \<and> 0 < bid \<and> bid = bid' \<and> ev = e"
  by (auto simp: billingPositionResult_def split: option.splits)

lemma billingPositionResult_unavailable:
  "billingPositionResult v (amount, bid', version) e = Some (Unavailable_position c) \<Longrightarrow>
     c = POSITION_VERSION_MISMATCH \<or> c = POSITION_MISSING"
  by (auto simp: billingPositionResult_def split: option.splits if_splits)

lemma reading_position:
  "(\<And>c. x = Unavailable_position c \<Longrightarrow> reading d (m c) \<Phi>) \<Longrightarrow>
   (\<And>bid ev. x = Found_position bid ev \<Longrightarrow> reading d (n bid ev) \<Phi>)
   \<Longrightarrow> reading d (case x of Unavailable_position c \<Rightarrow> m c | Found_position bid ev \<Rightarrow> n bid ev) \<Phi>"
  by (cases x) auto

lemma reading_billing:
  "reading d (live_read deps q) (\<lambda>_. True)" "reading d (billing_projected deps q) (\<lambda>_. True)"
  unfolding billing_live_def billing_projected_def synchronizedState_def
  by (intro reading_position reading_control reading_adapter reading_any reading_extern; simp)+

lemma checksum_returns [returns]: "checksum deps a s = (Inr x, s') \<longleftrightarrow> rpc_getAddress deps a = Some x \<and> s' = s"
  by (simp add: checksum_def returns)

lemma cases_return:
  "(case x of None \<Rightarrow> m | Some y \<Rightarrow> n y) s = (Inr z, s') \<longleftrightarrow>
     x = None \<and> m s = (Inr z, s') \<or> (\<exists>y. x = Some y \<and> n y s = (Inr z, s'))"
  "(case r of Unavailable_position e \<Rightarrow> u e | Found_position b ev \<Rightarrow> v b ev) s = (Inr z, s') \<longleftrightarrow>
     (\<exists>e. r = Unavailable_position e \<and> u e s = (Inr z, s')) \<or> (\<exists>b ev. r = Found_position b ev \<and> v b ev s = (Inr z, s'))"
  "(if c then m else k) s = (Inr z, s') \<longleftrightarrow> c \<and> m s = (Inr z, s') \<or> \<not> c \<and> k s = (Inr z, s')"
  by (simp_all split: option.split billing_position.split)

lemma live_position_found:
  assumes "pinned deps c" and "live_read deps q s = (Inr (Found_position bid ev), s')"
  shows "0 < bid \<and> live_evidence deps c q bid (world s) ev"
  using assms(2) unfolding billing_live_def
  by (auto simp: returns cases_return billingPositionResult_found live_evidence_def Let_def dest!: pinnedD [OF assms(1)])

lemma transactional_returns [returns]: "transactional m s = (Inr x, s') \<longleftrightarrow> m s = (Inr x, s')"
  by (auto simp: transactional_def split: prod.splits sum.splits)

lemma projected_found:
  assumes "billing_projected deps q s = (Inr (Found_position bid ev), s')"
  shows "0 < bid \<and> projected_evidence deps (ledger (db s)) q bid (world s) ev"
proof (cases "find_state (show_int (dl_chainId q) @ '':'' @ dl_contractAddress q) (ledger (db s))")
  case None
  then show ?thesis using assms by (simp add: billing_projected_def returns)
next
  case st: (Some st)
  let ?key = "(dl_chainId q, dl_contractAddress q, dl_keywordId q, dl_stakerAddress q)"
  from assms st obtain synced s1 p amount bid' where clock: "synchronizedState deps (Some st) s = (Inr synced, s1)"
    and rest: "synced" "find_position ?key (ledger (db s1)) = Some p"
      "js_bigint (sp_stakeRaw p) = Some amount" "js_bigint (sp_bidUsdRaw p) = Some bid'"
      "billingPositionResult (dl_positionVersion q) (amount, bid', sp_positionVersion p)
          \<lparr>ev_source = PROJECTION, ev_blockNumber = ix_lastBlockNumber st, ev_blockHash = ix_lastBlockHash st,
           ev_preUsdPriceE18 = (case ix_preUsdPriceE18Raw st of None \<Rightarrow> ''0'' | Some t \<Rightarrow> t),
           ev_preUsdPriceQuotedAt = (case ix_preUsdPriceQuotedAt st of None \<Rightarrow> 0 | Some t \<Rightarrow> t)\<rparr> = Some (Found_position bid ev)"
    unfolding billing_projected_def by (auto simp: returns cases_return)
  from clock obtain now now' w1 w2 where times: "rpc_clock deps (world s) = (Inr now, w1)" "rpc_clock deps w1 = (Inr now', w2)"
    "synced = synchronized now now' (Some st)" "db s1 = db s"
    by (auto simp: synchronizedState_def returns)
  have p: "js_bigint (dl_positionVersion q) = Some (sp_positionVersion p)" "0 < amount" "0 < bid" "bid' = bid"
    "ev = \<lparr>ev_source = PROJECTION, ev_blockNumber = ix_lastBlockNumber st, ev_blockHash = ix_lastBlockHash st,
       ev_preUsdPriceE18 = (case ix_preUsdPriceE18Raw st of None \<Rightarrow> ''0'' | Some t \<Rightarrow> t),
       ev_preUsdPriceQuotedAt = (case ix_preUsdPriceQuotedAt st of None \<Rightarrow> 0 | Some t \<Rightarrow> t)\<rparr>"
    using rest(5) unfolding billingPositionResult_found by simp_all
  have fresh: "ix_updatedAt st \<le> now" "now' \<le> ix_updatedAt st + 60000" "ix_configBlockNumber st = Some (ix_lastBlockNumber st)"
    "ix_minimumStakeRaw st \<noteq> None" "ix_paused st \<noteq> None" "ix_operatorAddress st \<noteq> None"
    using rest(1) unfolding times(3) synchronized_def by simp_all
  have "projected_evidence deps (ledger (db s)) q bid (world s) ev"
    unfolding projected_evidence_def p(5)
    by (intro conjI exI [of _ st] exI [of _ p] exI [of _ amount] exI [of _ now] exI [of _ now'] exI [of _ w1] exI [of _ w2])
      (use st times fresh p(1-4) rest(2-4) in simp_all)
  with p(3) show ?thesis ..
qed

text \<open>
  C25: A position found for billing belongs to this deployment's chain and has a positive bid, and it comes with its
  evidence. Either the live read answered in time: bid, version, stake and price are those of the block that the node
  named, on the delivered chain. Or the live read failed, and by the two readings of the clock that follow it the
  projection is at most a minute old, its configuration was read at its checkpoint, it holds that position in the
  delivered version, and block and price are those of the checkpoint. Looking it up writes nothing.
\<close>

theorem billingPosition_evidence:
  assumes "pinned deps c" and "billingPosition deps q s = (Inr (Found_position bid ev), s')"
  shows "db s' = db s \<and> dl_chainId q = cfg_chainId (rpc_config deps) \<and> 0 < bid \<and>
    (case live_read deps q s of
       (Inr r, s1) \<Rightarrow> r = Found_position bid ev \<and> s1 = s' \<and> live_evidence deps c q bid (world s) ev
     | (Inl e, s1) \<Rightarrow> projected_evidence deps (ledger (db s)) q bid (world s1) ev)"
proof -
  from assms(2) have chain: "dl_chainId q = cfg_chainId (rpc_config deps)"
    and run: "catchp (live_read deps q) (\<lambda>_. billing_projected deps q) s = (Inr (Found_position bid ev), s')"
    by (auto simp: billingPosition_def Let_def returns split: if_splits option.splits)
  obtain x s1 where live: "live_read deps q s = (x, s1)" by fastforce
  have same: "db s1 = db s" by (rule reading_keeps [OF reading_billing(1) live])
  show ?thesis
  proof (cases x)
    case (Inl e)
    with run live have p: "billing_projected deps q s1 = (Inr (Found_position bid ev), s')" by (simp add: catchp_def)
    from projected_found [OF p] reading_keeps [OF reading_billing(2) p] show ?thesis
      using chain same by (simp add: live Inl)
  next
    case (Inr r)
    with run live have "r = Found_position bid ev" "s1 = s'" by (simp_all add: catchp_def)
    with live_position_found [OF assms(1), of q s bid ev s'] show ?thesis
      using chain same by (simp add: live Inr)
  qed
qed

subsection \<open>A sample node\<close>

definition reply :: "'a \<Rightarrow> (nat, 'a) api_call" where
  "reply x w = (Inr x, Suc w)"

definition plain_unicode :: unicode where
  "plain_unicode = \<lparr>nfkc = id, lowercase = id, word_point = (\<lambda>c. c \<noteq> 32), locale_compare = (\<lambda>a b. 0)\<rparr>"

definition sample_node :: "nat adapter_deps" where
  "sample_node = \<lparr>rpc_clock = reply 2000000, rpc_chainId = reply 1, rpc_block = reply (20, ''0xb''),
     rpc_deadline = reply (), rpc_stakeDetails = (\<lambda>a k u n. reply \<lparr>sd_amount = 0, sd_bidUsd = 0,
       sd_withdrawAvailableAt = 0, sd_positionVersion = 0\<rparr>),
     rpc_price = (\<lambda>a n. reply (10 ^ 18)), rpc_quotedAt = (\<lambda>a n. reply 1500),
     rpc_minimumStake = (\<lambda>a n. reply 5), rpc_paused = (\<lambda>a n. reply False),
     rpc_allowance = (\<lambda>t u a n. reply 0), rpc_getAddress = Some, rpc_keccak = (\<lambda>k. ''0xk''),
     rpc_unicode = plain_unicode, rpc_formatUnits = show_units18,
     rpc_config = \<lparr>cfg_address = Some ''c'', cfg_deploymentBlock = Some 1, cfg_chainId = 1,
       cfg_preAddress = ''t'', cfg_owner = ''o'', cfg_confirmations = 3\<rparr>\<rparr>"

definition sample_view :: chain_view where
  "sample_view = \<lparr>cv_details = (\<lambda>a k u n. \<lparr>sd_amount = 0, sd_bidUsd = 0, sd_withdrawAvailableAt = 0,
     sd_positionVersion = 0\<rparr>), cv_price = (\<lambda>a n. 10 ^ 18), cv_quotedAt = (\<lambda>a n. 1500),
     cv_minimumStake = (\<lambda>a n. 5), cv_paused = (\<lambda>a n. False), cv_allowance = (\<lambda>t u a n. 0)\<rparr>"

lemma sample_pinned: "pinned sample_node sample_view"
  by (simp add: pinned_def reads_def sample_node_def sample_view_def reply_def)

definition sample_state :: indexer_state where
  "sample_state = (empty_state ''1:c'')\<lparr>ix_chainId := 1, ix_contractAddress := ''c'', ix_lastBlockNumber := 10,
     ix_lastBlockHash := ''0xd'', ix_minimumStakeRaw := Some ''5'', ix_paused := Some False,
     ix_operatorAddress := Some ''p'', ix_configBlockNumber := Some 10, ix_updatedAt := 1990000\<rparr>"

definition adapter_machine :: "(market_db, unit, nat) machine" where
  "adapter_machine = \<lparr>db = \<lparr>ledger = empty_db\<lparr>adIndexerState := [sample_state]\<rparr>, adCampaign = [],
     adCreativeRevision = [], adReport = [], adReportAggregate = [], auditEvent = [],
     adBillingClickWindow = [], adBillingClickTotals = [], requireReviewSetting = None,
     projectConfigured = True\<rparr>, mem = (), world = 0\<rparr>"


definition sample_stake :: stake_input where
  "sample_stake = \<lparr>si_canonicalKeyword = [112], si_stakerAddress = ''s'', si_amountRaw = Some ''1000000000000'',
     si_bidUsdRaw = Some ''1''\<rparr>"

lemma sample_snapshot:
  "chain_snapshot (sample_node\<lparr>rpc_stakeDetails := f\<rparr>) adapter_machine = (Inr \<lparr>snap_status = SYNCED, snap_chainId = 1,
    snap_contractAddress = Some ''c'', snap_deploymentBlock = Some 1, snap_transactionsEnabled = True,
    snap_indexedThroughBlock = Some 10, snap_minimumStakeRaw = Some ''5'', snap_preTokenAddress = ''t'',
    snap_paused = Some False\<rparr>, adapter_machine\<lparr>world := 2\<rparr>)"
proof -
  have key: "show_int 1 @ CHR '':'' # ''c'' = ''1:c''" "to_lower ''c'' = ''c''" by code_simp+
  have state: "find_state ''1:c'' (ledger (db adapter_machine)) = Some sample_state"
    by (simp add: adapter_machine_def find_state_def sample_state_def empty_state_def)
  have sync: "synchronized 2000000 2000000 (Some sample_state)"
    by (simp add: synchronized_def sample_state_def)
  show ?thesis
    by (simp add: chain_snapshot_def synchronizedState_def bindp_def checksum_def or_throw_def ret_def db_get_def
       extern_def sample_node_def reply_def key state sync Let_def) (simp add: sample_state_def adapter_machine_def)
qed

lemma sample_keyword: "adKeywordId plain_unicode (\<lambda>k. ''0xk'') [112] = Inr ''0xk''"
  by code_simp

lemma sample_amount: "js_bigint ''1000000000000'' = Some 1000000000000" "js_bigint ''1'' = Some 1"
  "parseAdsStakeAmount (Some ''1000000000000'') = Some ''1000000000000''" "parseAdsBidUsd (Some ''1'') = Some ''1''"
proof -
  have digits: "list_all is_digit ''1000000000000''" "natural_decimal ''1000000000000''" "positive_decimal ''1''"
    by code_simp+
  show a: "js_bigint ''1000000000000'' = Some 1000000000000"
    using js_bigint_digits [OF digits(1)] by (simp add: digit_value_def)
  show b: "js_bigint ''1'' = Some 1" by code_simp
  show "parseAdsStakeAmount (Some ''1000000000000'') = Some ''1000000000000''"
    by (simp add: parseAdsStakeAmount_def digits a MAX_UINT256_def)
  show "parseAdsBidUsd (Some ''1'') = Some ''1''" by (simp add: parseAdsBidUsd_def digits b MAX_UINT256_def)
qed

lemma sample_bill: "billPreRaw ''1'' (show_units18 (10 ^ 18)) = Inr (show_int 1000000000000)"
proof -
  have "show_int 1 = ''1''" by code_simp
  then show ?thesis using billPreRaw_printed [OF show_units18_printer, of 1 "10 ^ 18"] by simp
qed

lemma sample_stake_ready:
  "\<exists>p s'. prepare_stake sample_node STAKE sample_stake adapter_machine = (Inr (Ready_plan p), s')"
proof -
  have node: "sample_node\<lparr>rpc_stakeDetails := rpc_stakeDetails sample_node\<rparr> = sample_node" by simp
  show ?thesis
    by (simp add: prepare_stake_def bindp_def sample_snapshot [of "rpc_stakeDetails sample_node", unfolded node])
      (simp add: sample_stake_def sample_amount thenp_def bindp_def checksum_def or_throw_def
       ret_def extern_def sample_node_def reply_def keyword_id_def sample_keyword check_stake_def Let_def reject_def
       sample_bill [simplified] buildAdsStakeTransactionPlan_def amount_or_zero_def truthy_def)
qed

lemma sample_printer: "units_printer (rpc_formatUnits sample_node)"
  by (simp add: sample_node_def show_units18_printer)

lemma stake_plan_covers_a_click_witness:
  "\<exists>p s'. prepare_stake sample_node STAKE sample_stake adapter_machine = (Inr (Ready_plan p), s') \<and>
     (\<exists>contract token staker keywordId n amount bid.
       plan_transaction p = \<lparr>tx_chainId = tx_chainId (plan_transaction p), tx_to = contract,
         tx_data = Call_stake keywordId amount bid, tx_valueRaw = 0\<rparr> \<and> staker = ''s'' \<and>
       0 < cv_price sample_view contract n \<and>
       bid * 10 ^ 30 div cv_price sample_view contract n \<le>
         sd_amount (cv_details sample_view contract keywordId staker n) + amount)"
proof -
  obtain p s' where run: "prepare_stake sample_node STAKE sample_stake adapter_machine = (Inr (Ready_plan p), s')"
    using sample_stake_ready by blast
  have staker: "rpc_getAddress sample_node (si_stakerAddress sample_stake) = Some y \<Longrightarrow> y = ''s''" for y
    by (simp add: sample_node_def sample_stake_def)
  from stake_plan_covers_a_click [OF sample_pinned sample_printer run] run staker show ?thesis by blast
qed

definition staked_node :: "nat adapter_deps" where
  "staked_node = sample_node\<lparr>rpc_stakeDetails := (\<lambda>a k u n. reply \<lparr>sd_amount = 7, sd_bidUsd = 3,
     sd_withdrawAvailableAt = 1500, sd_positionVersion = 1\<rparr>)\<rparr>"

definition staked_view :: chain_view where
  "staked_view = sample_view\<lparr>cv_details := (\<lambda>a k u n. \<lparr>sd_amount = 7, sd_bidUsd = 3,
     sd_withdrawAvailableAt = 1500, sd_positionVersion = 1\<rparr>)\<rparr>"

lemma staked_pinned: "pinned staked_node staked_view"
  by (simp add: pinned_def reads_def staked_node_def staked_view_def sample_node_def sample_view_def reply_def)

lemma staked_unstake_ready:
  "\<exists>p s'. prepare_stake staked_node UNSTAKE sample_stake adapter_machine = (Inr (Ready_plan p), s')"
  by (simp add: prepare_stake_def bindp_def sample_snapshot staked_node_def)
    (simp add: sample_stake_def thenp_def bindp_def checksum_def or_throw_def ret_def extern_def sample_node_def
      reply_def keyword_id_def sample_keyword check_unstake_def reject_def build_unstake)

lemma unstake_plan_in_order_witness:
  "\<exists>p s'. prepare_stake staked_node UNSTAKE sample_stake adapter_machine = (Inr (Ready_plan p), s') \<and>
     plan_approval p = None \<and> (\<exists>k. tx_data (plan_transaction p) = Call_unstake k)"
proof -
  obtain p s' where run: "prepare_stake staked_node UNSTAKE sample_stake adapter_machine = (Inr (Ready_plan p), s')"
    using staked_unstake_ready by blast
  have "UNSTAKE \<noteq> STAKE" by simp
  from unstake_plan_in_order [OF staked_pinned this run] run show ?thesis by blast
qed

definition sample_claim :: delivery_claim where
  "sample_claim = \<lparr>dl_revisionId = ''r'', dl_chainId = 1, dl_contractAddress = ''c'', dl_keywordId = ''0xk'',
     dl_keyword = [112], dl_stakerAddress = ''s'', dl_positionVersion = ''1''\<rparr>"

lemma sample_billing:
  "\<exists>s'. billingPosition staked_node sample_claim adapter_machine = (Inr (Found_position 3
     \<lparr>ev_source = RPC, ev_blockNumber = 20, ev_blockHash = ''0xb'', ev_preUsdPriceE18 = show_int (10 ^ 18),
      ev_preUsdPriceQuotedAt = 1500\<rparr>), s')"
proof -
  have "to_lower ''c'' = ''c''" by code_simp
  then show ?thesis
    by (simp add: billingPosition_def billing_live_def sample_claim_def staked_node_def sample_node_def reply_def
      bindp_def thenp_def catchp_def extern_def checksum_def or_throw_def ret_def Let_def billingPositionResult_def
      sample_amount)
qed

text \<open>A node that does not answer, and a projection that holds the position.\<close>

definition silent_node :: "nat adapter_deps" where
  "silent_node = staked_node\<lparr>rpc_chainId := (\<lambda>w. (Inl Other, Suc w))\<rparr>"

definition projected_position :: stake_position where
  "projected_position = \<lparr>sp_chainId = 1, sp_contractAddress = ''c'', sp_keywordId = ''0xk'', sp_stakerAddress = ''s'',
     sp_stakeRaw = ''9'', sp_bidUsdRaw = ''4'', sp_requiredCoveragePreRaw = ''4'', sp_eligible = True,
     sp_withdrawAvailableAt = 0, sp_positionVersion = 1, sp_stakeSinceBlock = 1, sp_stakeSinceLogIndex = 0,
     sp_amountSinceBlock = 1, sp_amountSinceLogIndex = 0, sp_positionBlock = 1, sp_positionBlockHash = ''0x1'',
     sp_positionTxHash = ''0x2'', sp_positionLogIndex = 0, sp_active = True\<rparr>"

definition projected_machine :: "(market_db, unit, nat) machine" where
  "projected_machine = adapter_machine\<lparr>db := (db adapter_machine)\<lparr>ledger := empty_db\<lparr>
     adIndexerState := [sample_state\<lparr>ix_preUsdPriceE18Raw := Some ''7'', ix_preUsdPriceQuotedAt := Some 1500\<rparr>],
     adStakePosition := [projected_position]\<rparr>\<rparr>\<rparr>"

lemma silent_pinned: "pinned silent_node staked_view"
  using staked_pinned by (simp add: pinned_def silent_node_def)

lemma silent_read: "live_read silent_node sample_claim s = (Inl Other, s\<lparr>world := Suc (world s)\<rparr>)"
  by (simp add: billing_live_def bindp_def extern_def silent_node_def)

lemma sample_projected:
  "\<exists>s'. billingPosition silent_node sample_claim projected_machine = (Inr (Found_position 4
     \<lparr>ev_source = PROJECTION, ev_blockNumber = 10, ev_blockHash = ''0xd'', ev_preUsdPriceE18 = ''7'',
      ev_preUsdPriceQuotedAt = 1500\<rparr>), s')"
proof -
  have texts: "to_lower ''c'' = ''c''" "show_int 1 @ CHR '':'' # ''c'' = ''1:c''" "js_bigint ''9'' = Some 9" "js_bigint ''4'' = Some 4"
    by code_simp+
  have clock: "rpc_clock silent_node = reply 2000000" "rpc_config silent_node = rpc_config sample_node" "rpc_getAddress silent_node = Some"
    by (simp_all add: silent_node_def staked_node_def sample_node_def)
  have "billing_projected silent_node sample_claim (projected_machine\<lparr>world := Suc 0\<rparr>) = (Inr (Found_position 4
     \<lparr>ev_source = PROJECTION, ev_blockNumber = 10, ev_blockHash = ''0xd'', ev_preUsdPriceE18 = ''7'',
      ev_preUsdPriceQuotedAt = 1500\<rparr>), projected_machine\<lparr>world := 3\<rparr>)"
    by (simp add: billing_projected_def sample_claim_def projected_machine_def adapter_machine_def projected_position_def
        sample_state_def find_state_def find_position_def row_key_def synchronizedState_def synchronized_def clock reply_def prog_defs
        or_throw_def billingPositionResult_def texts sample_amount empty_state_def)
  moreover have "checksum silent_node a s = (Inr a, s)" for a and s :: "(market_db, unit, nat) machine"
    by (simp add: checksum_def or_throw_def ret_def clock)
  moreover have "dl_chainId sample_claim = 1" "dl_contractAddress sample_claim = ''c''" "world projected_machine = 0"
    "cfg_address (rpc_config silent_node) = Some ''c''" "cfg_chainId (rpc_config silent_node) = 1"
    unfolding clock by (simp_all add: sample_claim_def sample_node_def projected_machine_def adapter_machine_def)
  ultimately show ?thesis
    by (simp add: billingPosition_def Let_def bindp_def [of "checksum _ _"] catchp_def silent_read texts(1))
qed

lemma billingPosition_evidence_witness:
  "(\<exists>bid ev s'. billingPosition staked_node sample_claim adapter_machine = (Inr (Found_position bid ev), s') \<and>
     db s' = db adapter_machine \<and> 0 < bid \<and> live_evidence staked_node staked_view sample_claim bid 0 ev) \<and>
   (\<exists>bid ev s'. billingPosition silent_node sample_claim projected_machine = (Inr (Found_position bid ev), s') \<and>
     db s' = db projected_machine \<and> bid = 4 \<and>
     projected_evidence silent_node (ledger (db projected_machine)) sample_claim bid 1 ev)"
proof -
  let ?ev = "\<lparr>ev_source = RPC, ev_blockNumber = 20, ev_blockHash = ''0xb'', ev_preUsdPriceE18 = show_int (10 ^ 18),
      ev_preUsdPriceQuotedAt = 1500\<rparr>"
  let ?ev' = "\<lparr>ev_source = PROJECTION, ev_blockNumber = 10, ev_blockHash = ''0xd'', ev_preUsdPriceE18 = ''7'',
      ev_preUsdPriceQuotedAt = 1500\<rparr>"
  obtain s' where run: "billingPosition staked_node sample_claim adapter_machine = (Inr (Found_position 3 ?ev), s')"
    using sample_billing by blast
  obtain t' where run': "billingPosition silent_node sample_claim projected_machine = (Inr (Found_position 4 ?ev'), t')"
    using sample_projected by blast
  have w: "world adapter_machine = 0" "world projected_machine = 0" by (simp_all add: adapter_machine_def projected_machine_def)
  note live = billingPosition_evidence [OF staked_pinned run]
  have "db s' = db adapter_machine" "live_evidence staked_node staked_view sample_claim 3 0 ?ev"
    using live by (auto simp: w projected_evidence_def split: prod.splits sum.splits)
  with run have "\<exists>bid ev s'. billingPosition staked_node sample_claim adapter_machine = (Inr (Found_position bid ev), s') \<and>
     db s' = db adapter_machine \<and> 0 < bid \<and> live_evidence staked_node staked_view sample_claim bid 0 ev"
    by (intro exI [of _ 3] exI [of _ ?ev] exI [of _ s']) simp
  moreover have "db t' = db projected_machine"
    "projected_evidence silent_node (ledger (db projected_machine)) sample_claim 4 1 ?ev'"
    using billingPosition_evidence [OF silent_pinned run'] by (auto simp: w silent_read)
  with run' have "\<exists>bid ev s'. billingPosition silent_node sample_claim projected_machine = (Inr (Found_position bid ev), s') \<and>
     db s' = db projected_machine \<and> bid = 4 \<and>
     projected_evidence silent_node (ledger (db projected_machine)) sample_claim bid 1 ev"
    by (intro exI [of _ 4] exI [of _ ?ev'] exI [of _ t']) simp
  ultimately show ?thesis ..
qed

end
