(* ===== verification/Delivery_Facts.thy ===== *)
theory Delivery_Facts
  imports Capture_Runs Chain_Adapter_Facts
begin

section \<open>Facts on delivery tokens and billing windows\<close>

text \<open>
  The window table refines the rule it stands for, a signed link is read back exactly while it is
  valid, and what is read from a link is well typed. At the end, a sample capture.
\<close>

subsection \<open>Billing windows\<close>

text \<open>Operations on the window table, with the database's clock: a claim, and a retention run.\<close>

datatype window_op = Claim_window string int | Expire_windows int int

fun op_time :: "window_op \<Rightarrow> int" where
  "op_time (Claim_window f t) = t"
| "op_time (Expire_windows now t) = t"

fun window_answers :: "window_op list \<Rightarrow> market_db \<Rightarrow> bool list" where
  "window_answers [] d = []"
| "window_answers (Claim_window f t # ops) d =
     (case clickBillingWindowClaim f t (adBillingClickWindow d) of (allowed, windows) \<Rightarrow>
       allowed # window_answers ops (d\<lparr>adBillingClickWindow := windows\<rparr>))"
| "window_answers (Expire_windows now t # ops) d = window_answers ops (retainAdsData now t d)"

text \<open>The rule: a claim is allowed when every allowed claim of its client is five minutes old.\<close>

fun allowed_claims :: "(string \<times> int) list \<Rightarrow> window_op list \<Rightarrow> bool list" where
  "allowed_claims past [] = []"
| "allowed_claims past (Claim_window f t # ops) =
     (let allowed = list_all (\<lambda>(f', t'). f' = f \<longrightarrow> t' + 300000 \<le> t) past
      in allowed # allowed_claims (if allowed then (f, t) # past else past) ops)"
| "allowed_claims past (Expire_windows now t # ops) = allowed_claims past ops"

definition free_at :: "billing_window list \<Rightarrow> string \<Rightarrow> int \<Rightarrow> bool" where
  "free_at windows f t \<longleftrightarrow> (\<forall>w\<in>set windows. win_fingerprint w = f \<longrightarrow> win_expiresAt w \<le> t)"

definition agrees :: "int \<Rightarrow> billing_window list \<Rightarrow> (string \<times> int) list \<Rightarrow> bool" where
  "agrees now windows past \<longleftrightarrow> distinct (map win_fingerprint windows) \<and>
     (\<forall>f t. now \<le> t \<longrightarrow> free_at windows f t = list_all (\<lambda>(f', t'). f' = f \<longrightarrow> t' + 300000 \<le> t) past)"

lemma claim_answer:
  assumes "distinct (map win_fingerprint windows)"
  shows "fst (clickBillingWindowClaim f t windows) = free_at windows f t"
proof (cases "List.find (\<lambda>w. win_fingerprint w = f) windows")
  case None
  then have "\<forall>w\<in>set windows. win_fingerprint w \<noteq> f" by (simp add: find_None_iff)
  with None show ?thesis by (auto simp: clickBillingWindowClaim_def free_at_def)
next
  case (Some w)
  then have w: "w \<in> set windows" "win_fingerprint w = f" by (auto simp: find_Some_iff)
  have "v = w" if "v \<in> set windows" "win_fingerprint v = f" for v
    using distinct_map_eq [OF assms that(1) w(1)] that w by simp
  with w have "free_at windows f t \<longleftrightarrow> win_expiresAt w \<le> t" unfolding free_at_def by blast
  with Some show ?thesis by (simp add: clickBillingWindowClaim_def)
qed

lemma claim_denied: "\<not> fst (clickBillingWindowClaim f t windows) \<Longrightarrow> snd (clickBillingWindowClaim f t windows) = windows"
  by (auto simp: clickBillingWindowClaim_def split: option.splits)

lemma claim_granted:
  assumes "fst (clickBillingWindowClaim f t windows)" and "distinct (map win_fingerprint windows)"
  shows "distinct (map win_fingerprint (snd (clickBillingWindowClaim f t windows)))"
    and "free_at (snd (clickBillingWindowClaim f t windows)) f' t' = (if f' = f then t + 300000 \<le> t' else free_at windows f' t')"
proof -
  have "distinct (map win_fingerprint (snd (clickBillingWindowClaim f t windows))) \<and>
      free_at (snd (clickBillingWindowClaim f t windows)) f' t' = (if f' = f then t + 300000 \<le> t' else free_at windows f' t')"
  proof (cases "List.find (\<lambda>w. win_fingerprint w = f) windows")
    case None
    then have "\<forall>w\<in>set windows. win_fingerprint w \<noteq> f" by (simp add: find_None_iff)
    with None assms(2) show ?thesis
      by (auto simp: clickBillingWindowClaim_def free_at_def BILLING_WINDOW_MS_def)
  next
    case (Some w)
    then have w: "w \<in> set windows" "win_fingerprint w = f" by (auto simp: find_Some_iff)
    have claimed: "snd (clickBillingWindowClaim f t windows) =
        update_where (\<lambda>w. win_fingerprint w = f) (win_expiresAt_update (\<lambda>_. t + 300000)) windows"
      using Some assms(1) by (auto simp: clickBillingWindowClaim_def BILLING_WINDOW_MS_def split: if_splits)
    show ?thesis
      unfolding claimed using w assms(2) by (auto simp: free_at_def set_update_where map_update_where ball_Un)
  qed
  then show "distinct (map win_fingerprint (snd (clickBillingWindowClaim f t windows)))"
    and "free_at (snd (clickBillingWindowClaim f t windows)) f' t' = (if f' = f then t + 300000 \<le> t' else free_at windows f' t')"
    by blast+
qed

lemma agrees_claim:
  fixes f :: string
  assumes agree: "agrees now windows past" and t: "now \<le> t"
  defines "allowed \<equiv> list_all (\<lambda>(f', t'). f' = f \<longrightarrow> t' + 300000 \<le> t) past"
  shows "fst (clickBillingWindowClaim f t windows) = allowed"
    and "agrees t (snd (clickBillingWindowClaim f t windows)) (if allowed then (f, t) # past else past)"
proof -
  have unique: "distinct (map win_fingerprint windows)" using agree by (simp add: agrees_def)
  show answer: "fst (clickBillingWindowClaim f t windows) = allowed"
    using agree t unfolding claim_answer [OF unique] by (simp add: agrees_def allowed_def)
  show "agrees t (snd (clickBillingWindowClaim f t windows)) (if allowed then (f, t) # past else past)"
  proof (cases allowed)
    case True
    have older: "list_all (\<lambda>(f', t'). f' = f \<longrightarrow> t' + 300000 \<le> later) past" if "t \<le> later" for later
      using True that unfolding allowed_def by (elim list.pred_mono_strong) auto
    show ?thesis
      using agree t True answer older claim_granted [OF _ unique, of f t]
      by (auto simp: agrees_def list_all_iff)
  next
    case False
    with agree t answer claim_denied [of f t windows] show ?thesis by (simp add: agrees_def)
  qed
qed

lemma agrees_expire:
  assumes "agrees now windows past" and "now \<le> t"
  shows "agrees t (filter (\<lambda>w. \<not> win_expiresAt w \<le> t) windows) past"
proof -
  have "free_at (filter (\<lambda>w. \<not> win_expiresAt w \<le> t) windows) f t' = free_at windows f t'" if "t \<le> t'" for f t'
    using that by (auto simp: free_at_def)
  with assms show ?thesis by (auto simp: agrees_def distinct_map_filter)
qed

lemma windows_agree:
  "sorted (now # map op_time ops) \<Longrightarrow> agrees now (adBillingClickWindow d) past \<Longrightarrow>
   window_answers ops d = allowed_claims past ops"
proof (induction ops arbitrary: now d past)
  case (Cons op ops)
  show ?case
  proof (cases op)
    case (Claim_window f t)
    then have t: "now \<le> t" "sorted (t # map op_time ops)" using Cons.prems(1) by auto
    show ?thesis
      using agrees_claim [OF Cons.prems(2) t(1), of f] Cons.IH [OF t(2)]
      by (auto simp: Claim_window Let_def split: prod.splits)
  next
    case (Expire_windows n t)
    then have t: "now \<le> t" "sorted (t # map op_time ops)" using Cons.prems(1) by auto
    show ?thesis
      using Cons.IH [OF t(2), of "retainAdsData n t d"] agrees_expire [OF Cons.prems(2) t(1)]
      by (simp add: Expire_windows retainAdsData_def)
  qed
qed simp

text \<open>
  C30: Along every sequence of claims and retention runs in the order of the database's clock, the
  window table answers exactly as the rule it implements: a click is billed if and only if the last
  billed click of the same client and campaign is at least five minutes old. Deleting windows that
  are over never lets a second click be billed.
\<close>

theorem windows_bill_once_in_five_minutes:
  assumes "sorted (map op_time ops)" and "adBillingClickWindow d = []"
  shows "window_answers ops d = allowed_claims [] ops"
proof (cases ops)
  case (Cons op ops')
  then show ?thesis using assms by (intro windows_agree [of "op_time op"]) (auto simp: agrees_def free_at_def)
qed simp

lemma windows_bill_once_in_five_minutes_witness:
  "window_answers [Claim_window ''f'' 0, Claim_window ''g'' 100000, Claim_window ''f'' 299999, Expire_windows 0 300000,
     Claim_window ''f'' 300000] (db adapter_machine) = [True, True, False, True]"
  by (subst windows_bill_once_in_five_minutes) (simp_all add: adapter_machine_def)

subsection \<open>Links\<close>

lemma split_dots_nonempty: "split_dots t \<noteq> []"
  by (induction t rule: split_dots.induct) (auto split: list.splits)

lemma split_dots_none: "CHR ''.'' \<notin> set t \<Longrightarrow> split_dots t = [t]"
  by (induction t rule: split_dots.induct) auto

lemma split_dots_append: "CHR ''.'' \<notin> set p \<Longrightarrow> split_dots (p @ CHR ''.'' # t) = p # split_dots t"
  by (induction p) auto

lemma split_dots_one: "split_dots t = [p] \<Longrightarrow> t = p"
  by (induction t arbitrary: p rule: split_dots.induct) (auto simp: split_dots_nonempty split: if_splits list.splits)

lemma split_dots_two: "split_dots t = [p, q] \<Longrightarrow> t = p @ CHR ''.'' # q"
  by (induction t arbitrary: p rule: split_dots.induct)
    (auto simp: split_dots_nonempty dest: split_dots_one split: if_splits list.splits)

lemma url64_dot: "list_all url64_char t \<Longrightarrow> CHR ''.'' \<notin> set t"
  by (auto simp: list_all_iff url64_char_def)

lemma lower_hex_lower: "lower_hex_char c \<Longrightarrow> lower_char c = c"
  by (auto simp: lower_hex_char_def lower_char_def Let_def)

lemma lower_hex_text_lower:
  assumes "lower_hex_text n t"
  shows "to_lower t = t"
proof -
  have "t = ''0x'' @ drop 2 t" using assms by (metis append_take_drop_id lower_hex_text_def)
  moreover have "map lower_char (drop 2 t) = drop 2 t"
    using assms by (intro map_idI) (auto simp: lower_hex_text_def list_all_iff lower_hex_lower)
  moreover have "map lower_char ''0x'' = ''0x''" by code_simp
  ultimately show ?thesis unfolding to_lower_def by (metis map_append)
qed

lemma version_text_value:
  assumes "version_text t"
  shows "\<exists>n. js_bigint t = Some n \<and> 0 < n \<and> n < 2 ^ 256"
  using assms positive_decimal_value [of t] by (auto simp: version_text_def)

text \<open>
  C31: What is read from a link is well typed. A link that is accepted is a payload and a signature
  that is the payload's digest under the secret; its delivery is for the asked revision, was issued
  within the last hour, its position version is a positive 256-bit number, its addresses and
  keyword id are in the lower-case form the tables store and contain no colon, and its keyword is in
  normal form with that id.
\<close>

theorem readAdDelivery_well_typed:
  assumes "readAdDelivery codec u keccak now token revisionId = Some d"
  defines "q \<equiv> dv_claim d"
  shows "(\<exists>payload signature. token = Some (payload @ ''.'' @ signature) \<and>
      tk_bytes codec signature = tk_hmac codec payload \<and> tk_parse codec payload = Some (raw_of d)) \<and>
    dl_revisionId q = revisionId \<and> in_time now (dv_issuedAt d) \<and>
    (\<exists>version. js_bigint (dl_positionVersion q) = Some version \<and> 0 < version \<and> version < 2 ^ 256) \<and>
    (\<forall>t\<in>{dl_contractAddress q, dl_stakerAddress q, dl_keywordId q}. to_lower t = t \<and> CHR '':'' \<notin> set t) \<and>
    normalizeAdKeyword u (dl_keyword q) = Inr (dl_keyword q) \<and> adKeywordId u keccak (dl_keyword q) = Inr (dl_keywordId q)"
proof -
  obtain t payload signature where t: "token = Some t" "split_dots t = [payload, signature]"
    and sig: "tk_bytes codec signature = tk_hmac codec payload" "tk_parse codec payload = Some (raw_of d)"
    and ok: "acceptable u keccak now revisionId d"
    using assms(1) unfolding readAdDelivery_iff by blast
  have q: "well_typed_claim u keccak q" using ok by (simp add: acceptable_def q_def)
  have "token = Some (payload @ ''.'' @ signature)" using t split_dots_two by fastforce
  with sig ok q version_text_value [of "dl_positionVersion q"] show ?thesis
    by (auto simp: acceptable_def well_typed_claim_def keyword_matches_def q_def dest: hex_colon lower_hex_text_lower)
qed

lemma raw_of_inject: "raw_of d = raw_of d' \<longleftrightarrow> d = d'"
  by (cases d; cases d'; cases "dv_claim d"; cases "dv_claim d'") (auto simp: raw_of_def Let_def)

text \<open>Base64url, JSON and the digest on one delivery.\<close>

definition codec_ok :: "token_codec \<Rightarrow> delivery \<Rightarrow> bool" where
  "codec_ok codec d \<longleftrightarrow> (let payload = tk_encode codec d; digest = tk_hmac codec payload in
     tk_parse codec payload = Some (raw_of d) \<and> payload \<noteq> [] \<and> length payload \<le> 2000 \<and>
     list_all url64_char payload \<and> length (tk_text codec digest) = 43 \<and>
     list_all url64_char (tk_text codec digest) \<and> tk_bytes codec (tk_text codec digest) = digest)"

text \<open>
  C32: A signed link is read back as exactly the delivery that was signed from a minute before its
  time of issue to an hour after it, and refused at every other time.
\<close>

theorem signed_link_roundtrip:
  assumes "codec_ok codec \<lparr>dv_version = 2, dv_deliveryId = i, dv_issuedAt = issuedAt, dv_claim = q\<rparr>"
    and "well_typed_claim u keccak q" and "uuid_text i" and "0 < issuedAt"
  shows "readAdDelivery codec u keccak now (Some (signAdDelivery codec q i issuedAt)) (dl_revisionId q) =
    (if issuedAt - 60000 \<le> now \<and> now < issuedAt + 3600000
     then Some \<lparr>dv_version = 2, dv_deliveryId = i, dv_issuedAt = issuedAt, dv_claim = q\<rparr> else None)"
proof -
  let ?d = "\<lparr>dv_version = 2, dv_deliveryId = i, dv_issuedAt = issuedAt, dv_claim = q\<rparr>"
  let ?p = "tk_encode codec ?d" and ?s = "tk_text codec (tk_hmac codec (tk_encode codec ?d))"
  have c: "tk_parse codec ?p = Some (raw_of ?d)" "?p \<noteq> []" "length ?p \<le> 2000" "list_all url64_char ?p"
    "length ?s = 43" "list_all url64_char ?s" "tk_bytes codec ?s = tk_hmac codec ?p"
    using assms(1) by (simp_all add: codec_ok_def Let_def)
  have token: "signAdDelivery codec q i issuedAt = ?p @ CHR ''.'' # ?s" by (simp add: signAdDelivery_def Let_def)
  have parts: "split_dots (?p @ CHR ''.'' # ?s) = [?p, ?s]"
    using c(4,6) by (simp add: split_dots_append split_dots_none url64_dot)
  have read: "readAdDelivery codec u keccak now (Some (signAdDelivery codec q i issuedAt)) (dl_revisionId q) =
      checked_delivery u keccak now (dl_revisionId q) (raw_of ?d)"
    using c parts by (simp add: readAdDelivery_def token)
  have "acceptable u keccak now (dl_revisionId q) ?d \<longleftrightarrow> issuedAt - 60000 \<le> now \<and> now < issuedAt + 3600000"
    using assms(2-4) by (auto simp: acceptable_def in_time_def CLOCK_SKEW_MS_def AD_DELIVERY_TTL_MS_def)
  moreover have "checked_delivery u keccak now (dl_revisionId q) (raw_of ?d) = (if acceptable u keccak now (dl_revisionId q) ?d
      then Some ?d else None)"
  proof (cases "checked_delivery u keccak now (dl_revisionId q) (raw_of ?d)")
    case None
    then show ?thesis using checked_delivery_iff [of u keccak now "dl_revisionId q" "raw_of ?d" ?d] by auto
  next
    case (Some d)
    then have "raw_of ?d = raw_of d" "acceptable u keccak now (dl_revisionId q) d" by (simp_all only: checked_delivery_iff)
    with Some show ?thesis by (simp only: raw_of_inject if_True)
  qed
  ultimately show ?thesis unfolding read by simp
qed

definition link_codec :: token_codec where
  "link_codec = \<lparr>tk_encode = (\<lambda>d. ''abc''), tk_parse = (\<lambda>p. Some (raw_of \<lparr>dv_version = 2,
     dv_deliveryId = ''0a0a0a0a-0a0a-4a0a-8a0a-0a0a0a0a0a0a'', dv_issuedAt = 5000000, dv_claim = \<lparr>
     dl_revisionId = ''0b0b0b0b-0b0b-4b0b-8b0b-0b0b0b0b0b0b'', dl_chainId = 1,
     dl_contractAddress = ''0x'' @ replicate 40 (CHR ''c''), dl_keywordId = ''0x'' @ replicate 64 (CHR ''a''),
     dl_keyword = [112], dl_stakerAddress = ''0x'' @ replicate 40 (CHR ''d''), dl_positionVersion = ''1''\<rparr>\<rparr>)),
     tk_hmac = (\<lambda>p. p), tk_text = (\<lambda>t. replicate 43 (CHR ''x'')), tk_bytes = (\<lambda>t. ''abc'')\<rparr>"

definition link_claim :: delivery_claim where
  "link_claim = \<lparr>dl_revisionId = ''0b0b0b0b-0b0b-4b0b-8b0b-0b0b0b0b0b0b'', dl_chainId = 1,
     dl_contractAddress = ''0x'' @ replicate 40 (CHR ''c''), dl_keywordId = ''0x'' @ replicate 64 (CHR ''a''),
     dl_keyword = [112], dl_stakerAddress = ''0x'' @ replicate 40 (CHR ''d''), dl_positionVersion = ''1''\<rparr>"

definition link_id :: string where "link_id = ''0a0a0a0a-0a0a-4a0a-8a0a-0a0a0a0a0a0a''"

definition link_delivery :: delivery where
  "link_delivery = \<lparr>dv_version = 2, dv_deliveryId = link_id, dv_issuedAt = 5000000, dv_claim = link_claim\<rparr>"

definition link_keccak :: "utext \<Rightarrow> string" where "link_keccak k = ''0x'' @ replicate 64 (CHR ''a'')"

lemma link_codec_ok: "codec_ok link_codec link_delivery"
  by (simp add: codec_ok_def link_codec_def link_delivery_def link_claim_def link_id_def Let_def url64_char_def list_all_iff)

lemma link_ids: "uuid_text link_id" "uuid_text (dl_revisionId link_claim)"
  by code_simp+

lemma link_texts: "lower_hex_text 40 (dl_contractAddress link_claim)" "lower_hex_text 40 (dl_stakerAddress link_claim)"
    "lower_hex_text 64 (dl_keywordId link_claim)"
    "normalizeAdKeyword plain_unicode (dl_keyword link_claim) = Inr (dl_keyword link_claim)"
  by code_simp+

lemma link_claim_typed: "well_typed_claim plain_unicode link_keccak link_claim"
  using link_ids link_texts
  by (simp add: well_typed_claim_def keyword_matches_def adKeywordId_def link_keccak_def version_text_def sample_amount)
    (simp add: link_claim_def sample_amount positive_decimal_def is_digit_def)

lemma signed_link_roundtrip_witness:
  "readAdDelivery link_codec plain_unicode link_keccak 5000000
     (Some (signAdDelivery link_codec link_claim link_id 5000000)) (dl_revisionId link_claim) = Some link_delivery"
  using signed_link_roundtrip [of link_codec link_id 5000000 link_claim plain_unicode link_keccak 5000000] link_codec_ok
    link_claim_typed link_ids(1)
  by (simp add: link_delivery_def)

end
