(* ===== verification/Capture_Samples.thy ===== *)
theory Capture_Samples
  imports Delivery_Facts
begin

section \<open>A sample capture\<close>

text \<open>
  A node, a client and a link for which a click is billed: it shows that the hypotheses of the
  theorems on clicks can hold.
\<close>

definition capture_node :: "nat adapter_deps" where
  "capture_node = staked_node\<lparr>rpc_config := rpc_config staked_node\<lparr>cfg_address := Some (dl_contractAddress link_claim)\<rparr>\<rparr>"

definition sample_capture_deps :: "nat capture_deps" where
  "sample_capture_deps = \<lparr>cp_chain = capture_node,
     cp_ip = \<lparr>ip_family = (\<lambda>t. 4), ip_canonical = id, ip_hmac = (\<lambda>scope. ''f'')\<rparr>,
     cp_codec = link_codec, cp_dbNow = reply 5000100, cp_count = (\<lambda>i. reply True)\<rparr>"

lemma capture_position:
  "billingPosition capture_node link_claim s = (Inr (Found_position 3
     \<lparr>ev_source = RPC, ev_blockNumber = 20, ev_blockHash = ''0xb'', ev_preUsdPriceE18 = show_int (10 ^ 18),
      ev_preUsdPriceQuotedAt = 1500\<rparr>), s\<lparr>world := 6 + world s\<rparr>)"
proof -
  have lower: "to_lower (dl_contractAddress link_claim) = dl_contractAddress link_claim"
    by (rule lower_hex_text_lower [OF link_texts(1)])
  have "js_bigint (dl_positionVersion link_claim) = Some 1" "dl_chainId link_claim = 1"
    by (simp_all add: link_claim_def sample_amount)
  with lower show ?thesis
    by (simp add: billingPosition_def billing_live_def capture_node_def staked_node_def sample_node_def reply_def
      bindp_def thenp_def catchp_def extern_def checksum_def or_throw_def ret_def Let_def billingPositionResult_def
      eval_nat_numeral)
qed

definition sample_captured :: capture where
  "sample_captured = \<lparr>ca_status = C_PENDING, ca_bidUsdRaw = 3, ca_amountPreRaw = Some 3000000000000,
     ca_priceUsd = Some (show_units18 (10 ^ 18)), ca_priceQuotedAt = Some 1500000, ca_priceBlockNumber = Some 20,
     ca_priceBlockHash = Some ''0xb'', ca_bidBlockNumber = 20, ca_bidBlockHash = ''0xb''\<rparr>"

lemma sample_click_capture:
  "click_capture show_units18 3 \<lparr>ev_source = RPC, ev_blockNumber = 20, ev_blockHash = ''0xb'',
     ev_preUsdPriceE18 = show_int (10 ^ 18), ev_preUsdPriceQuotedAt = 1500\<rparr> = Some sample_captured"
proof -
  have "show_units18 (10 ^ 18) \<noteq> []" by (rule printed_price [OF show_units18_printer]) simp
  moreover have "bill_amount 3 (show_units18 (10 ^ 18)) = Inr 3000000000000"
    by (simp add: bill_amount_def billPreRaw_printed [OF show_units18_printer, simplified])
  ultimately show ?thesis
    by (simp add: click_capture_def sample_captured_def truthy_def Let_def del: power_numeral)
qed

abbreviation sample_click_row :: click where
  "sample_click_row \<equiv> new_click (to_lower link_id) link_claim 1 5000100"

lemma sample_claimed:
  "\<not> has_click (to_lower link_id) (db s) \<Longrightarrow>
   claim_click sample_click_row s = (Inr True, s\<lparr>db := with_click sample_click_row (db s)\<rparr>)"
  by (auto simp: claim_click_def has_click_def with_click_def prog_defs)

lemma sample_recorded:
  assumes "\<not> has_click (to_lower link_id) d" and "adBillingClickWindow d = []"
  shows "record_capture sample_capture_deps (to_lower link_id) link_claim ''f'' sample_captured
      \<lparr>db = with_click sample_click_row d, mem = m, world = w\<rparr> =
    (Inr (), \<lparr>db = (with_click (write_capture sample_captured sample_click_row) d)
      \<lparr>adBillingClickWindow := [\<lparr>win_fingerprint = ''f'', win_expiresAt = 5300100\<rparr>],
       adBillingClickTotals := bump_clicks link_claim True (adBillingClickTotals d)\<rparr>, mem = m, world = Suc w\<rparr>)"
proof -
  let ?d = "d\<lparr>adBillingClickWindow := [\<lparr>win_fingerprint = ''f'', win_expiresAt = 5300100\<rparr>]\<rparr>"
  have fresh: "\<not> has_click (to_lower link_id) ?d" using assms(1) by (simp add: has_click_def)
  have "storable_capture sample_captured"
    by (simp add: storable_capture_def sample_captured_def MAX_DATE_MS_def)
  moreover have "claimClickBillingWindow ''f'' 5000100 \<lparr>db = with_click sample_click_row d, mem = m, world = Suc w\<rparr> =
      (Inr True, \<lparr>db = with_click sample_click_row ?d, mem = m, world = Suc w\<rparr>)"
    using assms(2) by (simp add: claimClickBillingWindow_def prog_defs clickBillingWindowClaim_def BILLING_WINDOW_MS_def with_click_def)
  moreover have "with_click c ?d = (with_click c d)\<lparr>adBillingClickWindow := [\<lparr>win_fingerprint = ''f'', win_expiresAt = 5300100\<rparr>]\<rparr>"
    "adBillingClickTotals (with_click c ?d) = adBillingClickTotals d" for c
    by (simp_all add: with_click_def)
  ultimately show ?thesis
    using fresh_count [OF fresh, of sample_click_row] fresh_update [OF fresh, of sample_click_row]
    by (simp add: record_capture_def transactional_def bindp_def thenp_def extern_def sample_capture_deps_def
        reply_def reject_def ret_def run_update_capturing db_mod_def Let_def)
qed

lemma sample_run:
  "\<exists>s'. captureBillingClick sample_capture_deps link_delivery ''c'' (Some ''1.2.3.4'') adapter_machine = (Inr (), s') \<and>
     adBillingClick (ledger (db s')) = [write_capture sample_captured sample_click_row]"
proof -
  have d: "\<not> has_click (to_lower link_id) (db adapter_machine)" "adBillingClickWindow (db adapter_machine) = []"
    "adBillingClick (ledger (db adapter_machine)) = []" "mem adapter_machine = ()"
    by (simp_all add: has_click_def adapter_machine_def empty_db_def)
  have link: "js_bigint (dl_positionVersion link_claim) = Some 1" "storable_claim link_claim 1"
    by (simp_all add: link_claim_def sample_amount storable_claim_def)
  have fp: "clickBillingFingerprint (cp_ip sample_capture_deps) link_claim ''c'' (Some ''1.2.3.4'') = Some ''f''"
    by (simp add: clickBillingFingerprint_def canonicalClickIp_def sample_capture_deps_def)
  have deps: "cp_chain sample_capture_deps = capture_node" "rpc_formatUnits capture_node = show_units18"
    "cp_dbNow sample_capture_deps = reply 5000100" "ca_amountPreRaw sample_captured = Some 3000000000000"
    by (simp_all add: sample_capture_deps_def capture_node_def staked_node_def sample_node_def sample_captured_def)
  have dv: "dv_claim link_delivery = link_claim" "dv_deliveryId link_delivery = link_id"
    by (simp_all add: link_delivery_def)
  have "adapter_machine = \<lparr>db = db adapter_machine, mem = (), world = 0\<rparr>" by (simp add: adapter_machine_def)
  then obtain d0 where m: "adapter_machine = \<lparr>db = d0, mem = (), world = 0\<rparr>" and d0: "d0 = db adapter_machine" by blast
  have "capture_body sample_capture_deps link_delivery ''c'' (Some ''1.2.3.4'') adapter_machine = (Inr (),
     \<lparr>db = (with_click (write_capture sample_captured sample_click_row) d0)
      \<lparr>adBillingClickWindow := [\<lparr>win_fingerprint = ''f'', win_expiresAt = 5300100\<rparr>],
       adBillingClickTotals := bump_clicks link_claim True (adBillingClickTotals d0)\<rparr>, mem = (), world = 8\<rparr>)"
    using link fp d sample_recorded [of d0 "()" 7]
    by (simp add: capture_body_def dv deps bindp_def thenp_def or_throw_def ret_def reject_def extern_def reply_def
        m sample_claimed capture_position sample_click_capture [simplified] Let_def del: One_nat_def)
  then show ?thesis
    using d d0 by (simp add: captureBillingClick_def catchp_def with_click_def)
qed

lemma sample_prints: "units_printer (rpc_formatUnits (cp_chain sample_capture_deps))"
  by (simp add: sample_capture_deps_def capture_node_def staked_node_def sample_node_def show_units18_printer)

lemma captureBillingClick_effect_witness:
  "\<exists>s' version at c now windows.
     captureBillingClick sample_capture_deps link_delivery ''c'' (Some ''1.2.3.4'') adapter_machine = (Inr (), s') \<and>
     capture_effect sample_capture_deps link_delivery ''c'' (Some ''1.2.3.4'') (db adapter_machine) (db s') \<and>
     length (adBillingClick (ledger (db s'))) = 1"
proof -
  obtain s' where run: "captureBillingClick sample_capture_deps link_delivery ''c'' (Some ''1.2.3.4'') adapter_machine = (Inr (), s')"
    and added: "length (adBillingClick (ledger (db s'))) = 1"
    using sample_run by fastforce
  have "length (adBillingClick (ledger (db adapter_machine))) = 0" by (simp add: adapter_machine_def empty_db_def)
  then have "db s' \<noteq> db adapter_machine" "db s' \<noteq> closed i (db adapter_machine)" for i
    using added by (auto simp: closed_def)
  with captureBillingClick_effect [OF sample_prints run] run added show ?thesis by blast
qed

definition sample_events :: "nat click_event list" where
  "sample_events = [Click_event sample_capture_deps (dl_revisionId link_claim) True (Some ''abc.x'') (Some ''1.2.3.4''),
     Retain_event 5400000 5400000]"

lemma sample_events_print: "\<forall>e\<in>set sample_events. printing_event e \<and> retains_by (5400000 + 59 * 60000) e"
  by (simp add: sample_events_def sample_prints)

lemma clicks_keep_billing_inv_witness:
  "billing_inv (ledger (db (foldl run_click_event adapter_machine sample_events)))"
  using sample_events_print
  by (intro clicks_keep_billing_inv) (auto simp: adapter_machine_def empty_db_def billing_inv_def)

text \<open>The second click on the same link, after the first was captured and retention ran.\<close>

definition clicked_machine :: "(market_db, unit, nat) machine" where
  "clicked_machine = snd (captureBillingClick sample_capture_deps link_delivery ''c'' (Some ''1.2.3.4'') adapter_machine)"

lemma link_read:
  "readAdDelivery link_codec plain_unicode link_keccak 5400000
     (Some (signAdDelivery link_codec link_claim link_id 5000000)) (dl_revisionId link_claim) = Some link_delivery"
proof -
  have parts: "split_dots (signAdDelivery link_codec link_claim link_id 5000000) = [''abc'', replicate 43 (CHR ''x'')]"
    "length (signAdDelivery link_codec link_claim link_id 5000000) \<le> 2048"
    by (simp_all add: signAdDelivery_def link_codec_def split_dots_none Let_def)
  show ?thesis
    unfolding readAdDelivery_iff
    using parts link_codec_ok link_claim_typed link_ids(1)
    by (intro exI [of _ "signAdDelivery link_codec link_claim link_id 5000000"] exI [of _ "''abc''"]
        exI [of _ "replicate 43 (CHR ''x'')"])
      (simp_all add: codec_ok_def link_codec_def link_delivery_def Let_def acceptable_def in_time_def CLOCK_SKEW_MS_def AD_DELIVERY_TTL_MS_def url64_char_def list_all_iff)
qed

lemma delivery_captured_once_witness:
  "\<exists>s'. captureBillingClick sample_capture_deps link_delivery ''c'' (Some ''1.2.3.4'')
       (foldl run_click_event clicked_machine sample_events) = (Inr (), s') \<and>
     db s' = db (foldl run_click_event clicked_machine sample_events)"
proof -
  let ?s = "foldl run_click_event clicked_machine sample_events"
  obtain r s' where run: "captureBillingClick sample_capture_deps link_delivery ''c'' (Some ''1.2.3.4'') ?s = (r, s')"
    by (cases "captureBillingClick sample_capture_deps link_delivery ''c'' (Some ''1.2.3.4'') ?s")
  have rows: "adBillingClick (ledger (db clicked_machine)) = [write_capture sample_captured sample_click_row]"
    using sample_run by (auto simp: clicked_machine_def)
  have "r = Inr () \<and> db s' = db ?s"
    using sample_events_print run
    by (intro delivery_captured_once [OF sample_prints, where events = sample_events, OF _ _ _ link_read])
      (auto simp: has_click_def rows link_delivery_def write_capture_def sample_captured_def new_click_def CLOCK_SKEW_MS_def)
  with run show ?thesis by blast
qed

lemma readAdDelivery_well_typed_witness:
  "(\<exists>payload signature. signAdDelivery link_codec link_claim link_id 5000000 = payload @ ''.'' @ signature) \<and>
   to_lower (dl_contractAddress link_claim) = dl_contractAddress link_claim"
  using readAdDelivery_well_typed [OF link_read] unfolding link_delivery_def delivery.select_convs by blast

end
