(* ===== verification/Calendar.thy ===== *)
theory Calendar
  imports Main
begin

section \<open>Calendar dates\<close>

text \<open>
  \<^verbatim>\<open>packages/shared/src/monthly-schedule.ts\<close> and \<^verbatim>\<open>utcMonthStart\<close> of \<^verbatim>\<open>packages/shared/src/index.ts\<close>.
  A date is its time value in milliseconds. The calendar of JavaScript's \<^verbatim>\<open>Date\<close> is defined after its
  specification: \<open>DayFromYear\<close> is the day number of the first of January, and a day number is taken
  apart into year, month (from 0) and day of the month.
\<close>

definition MILLISECONDS_PER_DAY :: int where "MILLISECONDS_PER_DAY = 86400000"

definition isGregorianLeapYear :: "int \<Rightarrow> bool" where
  "isGregorianLeapYear year \<longleftrightarrow> year mod 4 = 0 \<and> (year mod 100 \<noteq> 0 \<or> year mod 400 = 0)"

definition daysInUtcMonth :: "int \<Rightarrow> nat \<Rightarrow> int" where
  "daysInUtcMonth year month =
     (if month = 1 then (if isGregorianLeapYear year then 29 else 28)
      else if month = 3 \<or> month = 5 \<or> month = 8 \<or> month = 10 then 30 else 31)"

definition DayFromYear :: "int \<Rightarrow> int" where
  "DayFromYear y = 365 * (y - 1970) + (y - 1969) div 4 - (y - 1901) div 100 + (y - 1601) div 400"

definition year_of_day :: "int \<Rightarrow> int" where
  "year_of_day d = (let y = 1970 + (400 * d) div 146097 in
     if d < DayFromYear y then y - 1 else if d < DayFromYear (y + 1) then y else y + 1)"

function month_day :: "int \<Rightarrow> nat \<Rightarrow> int \<Rightarrow> nat \<times> int" where
  "month_day y m k = (if m \<ge> 11 \<or> k < daysInUtcMonth y m then (m, k + 1)
     else month_day y (m + 1) (k - daysInUtcMonth y m))"
  by pat_completeness auto
termination by (relation "measure (\<lambda>(y, m, k). 11 - m)") auto

declare month_day.simps [simp del]

definition civil :: "int \<Rightarrow> int \<times> nat \<times> int" where
  "civil d = (let y = year_of_day d in (y, month_day y 0 (d - DayFromYear y)))"

definition month_start :: "int \<Rightarrow> nat \<Rightarrow> int" where
  "month_start y m = DayFromYear y + sum_list (map (daysInUtcMonth y) [0..<m])"

text \<open>The functions of the code; \<open>None\<close> is the \<^verbatim>\<open>RangeError\<close>.\<close>

definition utcDate :: "int \<Rightarrow> nat \<Rightarrow> int \<Rightarrow> int" where
  "utcDate year month day = (month_start year month + day - 1) * MILLISECONDS_PER_DAY"

definition isUtcMidnight :: "int \<Rightarrow> bool" where
  "isUtcMidnight date \<longleftrightarrow> date mod MILLISECONDS_PER_DAY = 0"

definition utc_civil :: "int \<Rightarrow> int \<times> nat \<times> int" where
  "utc_civil date = civil (date div MILLISECONDS_PER_DAY)"

definition nextMonthlySettlementUtc :: "int \<Rightarrow> int \<Rightarrow> int option" where
  "nextMonthlySettlementUtc currentBoundary settlementDay =
     (if \<not> isUtcMidnight currentBoundary \<or> settlementDay < 1 \<or> settlementDay > 31 then None
      else case utc_civil currentBoundary of (year, currentMonth, _) \<Rightarrow>
        let nextMonth = (currentMonth + 1) mod 12;
            nextYear = year + (if currentMonth = 11 then 1 else 0)
        in Some (utcDate nextYear nextMonth (min settlementDay (daysInUtcMonth nextYear nextMonth))))"

definition utcMonthStart :: "int \<Rightarrow> int" where
  "utcMonthStart date = (case utc_civil date of (year, month, _) \<Rightarrow> utcDate year month 1)"

definition defaultFirstSettlementUtc :: "int \<Rightarrow> int option" where
  "defaultFirstSettlementUtc now = (case utc_civil now of (year, month, day) \<Rightarrow>
     nextMonthlySettlementUtc (utcDate year month 1) day)"

definition MIN_FIRST_SETTLEMENT_DELAY_MS :: int where
  "MIN_FIRST_SETTLEMENT_DELAY_MS = 7 * MILLISECONDS_PER_DAY"

definition MAX_FIRST_SETTLEMENT_DELAY_MS :: int where
  "MAX_FIRST_SETTLEMENT_DELAY_MS = 60 * MILLISECONDS_PER_DAY"

subsection \<open>The calendar\<close>

lemma div_bounds:
  fixes a k :: int
  assumes "0 < k"
  shows "k * (a div k) \<le> a" and "a < k * (a div k) + k"
  using mult_div_mod_eq [of k a] pos_mod_bound [OF assms, of a] pos_mod_sign [OF assms, of a] by linarith+

lemma div_step:
  fixes a k :: int
  assumes "0 < k"
  shows "(a + 1) div k = a div k + (if (a + 1) mod k = 0 then 1 else 0)"
proof (cases "a mod k + 1 = k")
  case True
  then have "a + 1 = k * (a div k) + k"
    using mult_div_mod_eq [of k a] by linarith
  then have "a + 1 = k * (a div k + 1) + 0" by (simp add: distrib_left)
  then have "(a + 1) div k = a div k + 1" "(a + 1) mod k = 0"
    using assms int_div_pos_eq int_mod_pos_eq by blast+
  then show ?thesis by simp
next
  case False
  have "a + 1 = k * (a div k) + (a mod k + 1)" using mult_div_mod_eq [of k a] by simp
  moreover have "0 \<le> a mod k + 1" "a mod k + 1 < k"
    using False assms pos_mod_bound [of k a] pos_mod_sign [of k a] by linarith+
  ultimately have "(a + 1) div k = a div k" "(a + 1) mod k = a mod k + 1"
    using int_div_pos_eq int_mod_pos_eq by blast+
  then show ?thesis using pos_mod_sign [OF assms, of a] by simp
qed

lemma mod_shift: "(y - k * q) mod k = y mod k" for y k q :: int
  using mod_mult_self2 [of y k "- q"] by simp

lemma leap_bounds:
  fixes y a b c :: int
  assumes "4 * a \<le> y - 1969" "y - 1969 < 4 * a + 4" "100 * b \<le> y - 1901" "y - 1901 < 100 * b + 100"
    "400 * c \<le> y - 1601" "y - 1601 < 400 * c + 400"
  shows "146097 * (y - 1970) - 506 \<le> 400 * (365 * (y - 1970) + a - b + c)"
    and "400 * (365 * (y - 1970) + a - b + c) \<le> 146097 * (y - 1970) + 589"
  using assms by (simp_all add: algebra_simps)

lemma DayFromYear_bounds:
  "146097 * (y - 1970) - 506 \<le> 400 * DayFromYear y"
  "400 * DayFromYear y \<le> 146097 * (y - 1970) + 589"
  unfolding DayFromYear_def by (rule leap_bounds; rule div_bounds; simp)+

lemma leap_count:
  fixes n a b c :: int
  assumes "P400 \<Longrightarrow> P100" and "P100 \<Longrightarrow> P4"
  shows "365 * (n + 1) + (a + (if P4 then 1 else 0)) - (b + (if P100 then 1 else 0)) + (c + (if P400 then 1 else 0)) =
    365 * n + a - b + c + (if P4 \<and> (\<not> P100 \<or> P400) then 366 else 365)"
  using assms by (cases P4; cases P100; cases P400) simp_all

lemma year_length: "DayFromYear (y + 1) = DayFromYear y + (if isGregorianLeapYear y then 366 else 365)"
proof -
  have m: "(y - 1968) mod 4 = y mod 4" "(y - 1900) mod 100 = y mod 100" "(y - 1600) mod 400 = y mod 400"
    using mod_shift [of y 4 492] mod_shift [of y 100 19] mod_shift [of y 400 4] by simp_all
  have p: "y - 1969 + 1 = y - 1968" "y - 1901 + 1 = y - 1900" "y - 1601 + 1 = y - 1600" by simp_all
  have q: "(y - 1968) div 4 = (y - 1969) div 4 + (if y mod 4 = 0 then 1 else 0)"
    "(y - 1900) div 100 = (y - 1901) div 100 + (if y mod 100 = 0 then 1 else 0)"
    "(y - 1600) div 400 = (y - 1601) div 400 + (if y mod 400 = 0 then 1 else 0)"
    using div_step [of 4 "y - 1969", unfolded p m] div_step [of 100 "y - 1901", unfolded p m]
      div_step [of 400 "y - 1601", unfolded p m] by (simp_all only: zero_less_numeral simp_thms)
  have dvd: "y mod 400 = 0 \<Longrightarrow> y mod 100 = 0" "y mod 100 = 0 \<Longrightarrow> y mod 4 = 0"
    using mod_mod_cancel [of 100 400 y] mod_mod_cancel [of 4 100 y] by simp_all
  have e: "y + 1 - 1970 = y - 1970 + 1" "y + 1 - 1969 = y - 1968" "y + 1 - 1901 = y - 1900" "y + 1 - 1601 = y - 1600"
    by simp_all
  show ?thesis
    unfolding DayFromYear_def isGregorianLeapYear_def e q
    by (rule leap_count [OF dvd])
qed

lemma DayFromYear_mono: "x \<le> y \<Longrightarrow> DayFromYear x \<le> DayFromYear y"
proof (induction "nat (y - x)" arbitrary: y)
  case (Suc n)
  then have "DayFromYear x \<le> DayFromYear (y - 1)" by auto
  then show ?case using year_length [of "y - 1"] by (auto split: if_splits)
qed auto

lemma year_of_day_bounds: "DayFromYear (year_of_day d) \<le> d \<and> d < DayFromYear (year_of_day d + 1)"
proof -
  define n where "n = (400 * d) div 146097"
  have n: "146097 * n \<le> 400 * d" "400 * d < 146097 * n + 146097"
    unfolding n_def using div_bounds [of 146097 "400 * d"] by simp_all
  have "DayFromYear (1969 + n) \<le> d" using DayFromYear_bounds(2) [of "1969 + n"] n by simp
  moreover have "d < DayFromYear (1972 + n)" using DayFromYear_bounds(1) [of "1972 + n"] n by simp
  ultimately show ?thesis by (auto simp: year_of_day_def Let_def n_def [symmetric] add.commute)
qed

lemma year_of_day_unique:
  assumes "DayFromYear y \<le> d" and "d < DayFromYear (y + 1)"
  shows "year_of_day d = y"
proof (rule ccontr)
  assume "year_of_day d \<noteq> y"
  then consider "year_of_day d + 1 \<le> y" | "y + 1 \<le> year_of_day d" by linarith
  then show False
    using assms year_of_day_bounds [of d] DayFromYear_mono by cases fastforce+
qed

lemma days_positive: "28 \<le> daysInUtcMonth y m \<and> daysInUtcMonth y m \<le> 31"
  by (simp add: daysInUtcMonth_def)

lemma month_day_in: "m \<le> 11 \<Longrightarrow> 0 \<le> k \<Longrightarrow> k < sum_list (map (daysInUtcMonth y) [m..<12]) \<Longrightarrow>
  (case month_day y m k of (m', d) \<Rightarrow> m \<le> m' \<and> m' \<le> 11 \<and> 1 \<le> d \<and> d \<le> daysInUtcMonth y m' \<and>
    k + 1 = sum_list (map (daysInUtcMonth y) [m..<m']) + d)"
proof (induction "11 - m" arbitrary: m k)
  case 0
  then show ?case by (subst month_day.simps) (auto simp: upt_conv_Cons)
next
  case (Suc n)
  show ?case
  proof (cases "k < daysInUtcMonth y m")
    case True
    with Suc.prems show ?thesis by (subst month_day.simps) auto
  next
    case False
    have upt: "[m..<12] = m # [m + 1..<12]" using Suc.prems by (simp add: upt_conv_Cons)
    have "case month_day y (m + 1) (k - daysInUtcMonth y m) of (m', d) \<Rightarrow> m + 1 \<le> m' \<and> m' \<le> 11 \<and> 1 \<le> d \<and>
        d \<le> daysInUtcMonth y m' \<and>
        k - daysInUtcMonth y m + 1 = sum_list (map (daysInUtcMonth y) [m + 1..<m']) + d"
      using Suc.prems Suc.hyps(2) False by (intro Suc.hyps(1)) (auto simp: upt)
    moreover have "month_day y m k = month_day y (m + 1) (k - daysInUtcMonth y m)"
      using False Suc.hyps(2) by (subst month_day.simps) auto
    ultimately show ?thesis by (auto simp: upt_conv_Cons)
  qed
qed

lemma year_days: "sum_list (map (daysInUtcMonth y) [0..<12]) = (if isGregorianLeapYear y then 366 else 365)"
  by (simp add: upt_rec daysInUtcMonth_def)

lemma month_start_12: "month_start y 12 = DayFromYear (y + 1)"
  by (simp add: month_start_def year_days year_length)

lemma month_start_Suc: "month_start y (Suc m) = month_start y m + daysInUtcMonth y m"
  by (simp add: month_start_def)

lemma month_start_mono: "m \<le> n \<Longrightarrow> month_start y m \<le> month_start y n"
proof (induction rule: dec_induct)
  case (step n)
  then show ?case using days_positive [of y n] by (simp add: month_start_Suc)
qed simp

lemma civil_spec: "civil d = (y, m, k) \<Longrightarrow> m \<le> 11 \<and> 1 \<le> k \<and> k \<le> daysInUtcMonth y m \<and> d = month_start y m + k - 1"
  using year_of_day_bounds [of d] month_day_in [of 0 "d - DayFromYear (year_of_day d)" "year_of_day d"]
  by (auto simp: civil_def Let_def year_days year_length month_start_def split: if_splits)

text \<open>A day number determines its date, and every date has a day number.\<close>

lemma month_day_unique:
  assumes "m \<le> 11" "1 \<le> k" "k \<le> daysInUtcMonth y m" "m' \<le> 11" "1 \<le> k'" "k' \<le> daysInUtcMonth y m'"
    and "month_start y m + k = month_start y m' + k'"
  shows "m = m' \<and> k = k'"
proof -
  have "m = m'"
  proof (rule ccontr)
    assume "m \<noteq> m'"
    then consider "Suc m \<le> m'" | "Suc m' \<le> m" by linarith
    then show False
      using assms month_start_mono [of "Suc m" m' y] month_start_mono [of "Suc m'" m y]
      by cases (simp_all add: month_start_Suc)
  qed
  with assms show ?thesis by simp
qed

lemma civil_month_start:
  assumes "m \<le> 11" "1 \<le> k" "k \<le> daysInUtcMonth y m"
  shows "civil (month_start y m + k - 1) = (y, m, k)"
proof -
  let ?d = "month_start y m + k - 1"
  have "month_start y 0 \<le> month_start y m" "month_start y (Suc m) \<le> month_start y 12"
    using assms(1) by (intro month_start_mono; simp)+
  then have year: "year_of_day ?d = y"
    using assms by (intro year_of_day_unique) (simp_all add: month_start_12 month_start_Suc, simp add: month_start_def)
  obtain m' k' where c: "civil ?d = (y, m', k')"
    by (cases "month_day y 0 (?d - DayFromYear y)") (auto simp: civil_def Let_def year)
  then show ?thesis
    using civil_spec [OF c] month_day_unique [OF assms, of m' k'] by auto
qed

subsection \<open>Settlement dates\<close>

lemma month_start_next_year: "month_start (y + 1) 0 = month_start y 12"
  by (simp add: month_start_12) (simp add: month_start_def)

lemma utcDate_midnight: "isUtcMidnight (utcDate y m d)"
  by (simp add: isUtcMidnight_def utcDate_def)

lemma utc_civil_utcDate:
  "m \<le> 11 \<Longrightarrow> 1 \<le> d \<Longrightarrow> d \<le> daysInUtcMonth y m \<Longrightarrow> utc_civil (utcDate y m d) = (y, m, d)"
  by (simp add: utc_civil_def utcDate_def MILLISECONDS_PER_DAY_def civil_month_start)

lemma utc_civil_split:
  assumes "utc_civil t = (y, m, d)"
  shows "m \<le> 11" "1 \<le> d" "d \<le> daysInUtcMonth y m" "t = utcDate y m d + t mod MILLISECONDS_PER_DAY"
  using civil_spec [of "t div MILLISECONDS_PER_DAY" y m d] assms
proof -
  have "civil (t div MILLISECONDS_PER_DAY) = (y, m, d)" using assms by (simp add: utc_civil_def)
  note s = civil_spec [OF this]
  then show "m \<le> 11" "1 \<le> d" "d \<le> daysInUtcMonth y m" by simp_all
  from s show "t = utcDate y m d + t mod MILLISECONDS_PER_DAY"
    unfolding utcDate_def by (metis div_mult_mod_eq)
qed

lemma utcDate_days: "utcDate y m d = utcDate y' m' d' + (month_start y m - month_start y' m' + d - d') * MILLISECONDS_PER_DAY"
  by (simp add: utcDate_def algebra_simps)

definition following :: "int \<Rightarrow> nat \<Rightarrow> int \<times> nat" where
  "following y m = (if m = 11 then (y + 1, 0) else (y, Suc m))"

lemma month_start_following:
  "m \<le> 11 \<Longrightarrow> following y m = (y', m') \<Longrightarrow> m' \<le> 11 \<and> month_start y' m' = month_start y m + daysInUtcMonth y m"
  by (auto simp: following_def month_start_next_year month_start_Suc [symmetric] simp flip: numeral_eq_Suc split: if_splits)

lemma next_settlement_date:
  assumes "isUtcMidnight b" "1 \<le> s" "s \<le> 31" "utc_civil b = (y, m, d)" "following y m = (y', m')"
  shows "nextMonthlySettlementUtc b s = Some (utcDate y' m' (min s (daysInUtcMonth y' m')))"
proof -
  have "m \<le> 11" using utc_civil_split(1) [OF assms(4)] .
  then have "m' = (m + 1) mod 12 \<and> y' = y + (if m = 11 then 1 else 0)"
    using assms(5) by (auto simp: following_def split: if_splits)
  then show ?thesis using assms by (simp add: nextMonthlySettlementUtc_def Let_def)
qed

text \<open>
  C39: For a boundary at midnight and a settlement day from 1 to 31 the next monthly settlement is
  midnight of that day in the following month of the calendar, or of the last day of that month when it
  is shorter, and it is 1 to 62 days later; for any other input the function throws.
\<close>

theorem nextMonthlySettlementUtc_following:
  fixes b s y y' d :: int and m m' :: nat
  assumes "utc_civil b = (y, m, d)" and "following y m = (y', m')"
  shows "case nextMonthlySettlementUtc b s of
      None \<Rightarrow> \<not> isUtcMidnight b \<or> s < 1 \<or> 31 < s
    | Some t \<Rightarrow> isUtcMidnight b \<and> 1 \<le> s \<and> s \<le> 31 \<and>
        isUtcMidnight t \<and> utc_civil t = (y', m', min s (daysInUtcMonth y' m')) \<and>
        b + MILLISECONDS_PER_DAY \<le> t \<and> t \<le> b + 62 * MILLISECONDS_PER_DAY"
proof (cases "isUtcMidnight b \<and> 1 \<le> s \<and> s \<le> 31")
  case False
  then show ?thesis by (auto simp: nextMonthlySettlementUtc_def)
next
  case True
  define k where "k = min s (daysInUtcMonth y' m')"
  have k: "1 \<le> k" "k \<le> daysInUtcMonth y' m'" "k \<le> 31"
    using True days_positive [of y' m'] by (simp_all add: k_def min_def)
  note b = utc_civil_split [OF assms(1)]
  have f: "m' \<le> 11" "month_start y' m' = month_start y m + daysInUtcMonth y m"
    using month_start_following [OF b(1) assms(2)] by simp_all
  have now: "b = utcDate y m d"
    using b(4) True by (simp add: isUtcMidnight_def)
  have "utcDate y' m' k = b + (daysInUtcMonth y m + k - d) * MILLISECONDS_PER_DAY"
    using utcDate_days [of y' m' k y m d] f by (simp add: now)
  moreover have "1 \<le> daysInUtcMonth y m + k - d" "daysInUtcMonth y m + k - d \<le> 62"
    using k b days_positive [of y m] by simp_all
  ultimately have "b + MILLISECONDS_PER_DAY \<le> utcDate y' m' k" "utcDate y' m' k \<le> b + 62 * MILLISECONDS_PER_DAY"
    by (simp_all add: MILLISECONDS_PER_DAY_def)
  then show ?thesis
    using True k f next_settlement_date [OF _ _ _ assms]
    by (simp add: k_def [symmetric] utcDate_midnight utc_civil_utcDate)
qed

lemma end_of_january: "utc_civil (utcDate 2028 0 31) = (2028, 0, 31)"
  by (simp add: utc_civil_utcDate daysInUtcMonth_def)

theorem nextMonthlySettlementUtc_following_witness:
  "case nextMonthlySettlementUtc (utcDate 2028 0 31) 31 of
      None \<Rightarrow> False
    | Some t \<Rightarrow> isUtcMidnight t \<and> utc_civil t = (2028, 1, 29) \<and>
        utcDate 2028 0 31 + MILLISECONDS_PER_DAY \<le> t \<and> t \<le> utcDate 2028 0 31 + 62 * MILLISECONDS_PER_DAY"
  using nextMonthlySettlementUtc_following [OF end_of_january, of 2028 1 31]
  by (simp add: following_def utcDate_midnight daysInUtcMonth_def isGregorianLeapYear_def split: option.splits)

text \<open>The settlement date offered for a new goal is within the days the escrow accepts.\<close>

lemma defaultFirstSettlementUtc_accepted:
  obtains t where "defaultFirstSettlementUtc now = Some t"
    and "MIN_FIRST_SETTLEMENT_DELAY_MS < t - now" and "t - now \<le> MAX_FIRST_SETTLEMENT_DELAY_MS"
proof -
  obtain y m d where now: "utc_civil now = (y, m, d)" by (cases "utc_civil now")
  note n = utc_civil_split [OF now]
  obtain y' m' where fl: "following y m = (y', m')" by fastforce
  have f: "m' \<le> 11" "month_start y' m' = month_start y m + daysInUtcMonth y m"
    using month_start_following [OF n(1) fl] by simp_all
  have "utc_civil (utcDate y m 1) = (y, m, 1)"
    using n days_positive [of y m] by (simp add: utc_civil_utcDate)
  then have "nextMonthlySettlementUtc (utcDate y m 1) d = Some (utcDate y' m' (min d (daysInUtcMonth y' m')))"
    using n days_positive [of y m] fl by (intro next_settlement_date) (simp_all add: utcDate_midnight)
  then have r: "defaultFirstSettlementUtc now = Some (utcDate y' m' (min d (daysInUtcMonth y' m')))"
    by (simp add: defaultFirstSettlementUtc_def now)
  define k where "k = daysInUtcMonth y m + min d (daysInUtcMonth y' m') - d"
  have k: "28 \<le> k" "k \<le> 31"
    using n days_positive [of y m] days_positive [of y' m'] by (simp_all add: k_def min_def)
  have t: "utcDate y' m' (min d (daysInUtcMonth y' m')) = utcDate y m d + k * MILLISECONDS_PER_DAY"
    using utcDate_days [of y' m' "min d (daysInUtcMonth y' m')" y m d] f by (simp add: k_def)
  have "0 \<le> now mod MILLISECONDS_PER_DAY" "now mod MILLISECONDS_PER_DAY < MILLISECONDS_PER_DAY"
    by (simp_all add: MILLISECONDS_PER_DAY_def)
  with n(4) k show ?thesis
    by (intro that [OF r]; unfold t MIN_FIRST_SETTLEMENT_DELAY_MS_def MAX_FIRST_SETTLEMENT_DELAY_MS_def
      MILLISECONDS_PER_DAY_def; linarith)
qed

end
