(* ===== verification/Metrics.thy ===== *)
theory Metrics
  imports Calendar Capture
begin

section \<open>Counters of impressions\<close>

text \<open>
  \<^verbatim>\<open>flushAdResolutionMetrics\<close> of \<^verbatim>\<open>apps/worker/src/ads-maintenance.ts\<close>, the counters it drains
  (\<^verbatim>\<open>apps/api/src/ads/ads-metrics.service.ts\<close>) and the part of \<^verbatim>\<open>retainAdsData\<close> on their tables. The
  API counts resolutions, views and clicks per revision and day in hashes of Redis, which expire after
  fourteen days. The worker renames each hash to a batch under a fresh name, adds the batch to the
  tables in one transaction together with a receipt, and deletes it.

  Redis is part of the state, as the tables are: its hashes, and its clock. Between two commands the
  API's processes may count and time may pass; a command may be refused, or executed while its answer
  is lost. A page of \<^verbatim>\<open>SCAN\<close> holds any of the keys that are there, as often as the server likes.
  The clocks of the processes, of Redis and of the database agree.
\<close>

subsection \<open>Tables and hashes\<close>

datatype metric_type = Resolutions | Views | Clicks

definition metric_types :: "metric_type list" where "metric_types = [Resolutions, Views, Clicks]"

fun metric_name :: "metric_type \<Rightarrow> string" where
  "metric_name Resolutions = ''resolutions''"
| "metric_name Views = ''views''"
| "metric_name Clicks = ''clicks''"

record metric_counts =
  mc_resolutions :: int
  mc_views :: int
  mc_clicks :: int

definition no_counts :: metric_counts where
  "no_counts = \<lparr>mc_resolutions = 0, mc_views = 0, mc_clicks = 0\<rparr>"

fun count_of :: "metric_type \<Rightarrow> metric_counts \<Rightarrow> int" where
  "count_of Resolutions c = mc_resolutions c"
| "count_of Views c = mc_views c"
| "count_of Clicks c = mc_clicks c"

text \<open>\<^verbatim>\<open>{ [type]: { increment: count } }\<close>\<close>

fun add_count :: "metric_type \<Rightarrow> int \<Rightarrow> metric_counts \<Rightarrow> metric_counts" where
  "add_count Resolutions n c = c\<lparr>mc_resolutions := mc_resolutions c + n\<rparr>"
| "add_count Views n c = c\<lparr>mc_views := mc_views c + n\<rparr>"
| "add_count Clicks n c = c\<lparr>mc_clicks := mc_clicks c + n\<rparr>"

record metric_revision =
  mr_id :: string
  mr_lifetime :: metric_counts

record daily_metric =
  dm_revisionId :: string
  dm_day :: int
  dm_counts :: metric_counts

record flush_receipt =
  fl_id :: string
  fl_bucketDay :: int
  fl_createdAt :: int

record counter_hash =
  hs_key :: string
  hs_fields :: "(string \<times> string) list"
  hs_expiresAt :: int

text \<open>
  \<open>md_drawn\<close> is the number of UUIDs the workers have drawn. The last two fields are a history that no
  operation reads: the counts Redis has executed, and the hashes that expired before they were flushed.
\<close>

record metrics_db =
  md_revisions :: "metric_revision list"
  md_daily :: "daily_metric list"
  md_receipts :: "flush_receipt list"
  md_hashes :: "counter_hash list"
  md_clock :: int
  md_drawn :: nat
  md_counted :: "(metric_type \<times> string) list"
  md_expired :: "counter_hash list"

datatype metrics_error = Redis_failed | Database_failed

type_synonym ('w, 'a) metrics_prog = "(metrics_db, unit, 'w, metrics_error, 'a) prog"

subsection \<open>Keys\<close>

definition pad_start :: "nat \<Rightarrow> string \<Rightarrow> string" where
  "pad_start n s = replicate (n - length s) (CHR ''0'') @ s"

text \<open>\<^verbatim>\<open>date.toISOString().slice(0, 10)\<close>; years beyond four digits have a sign and six digits.\<close>

definition iso_year :: "int \<Rightarrow> string" where
  "iso_year y = (if 0 \<le> y \<and> y \<le> 9999 then pad_start 4 (show_nat (nat y))
     else (if y < 0 then ''-'' else ''+'') @ pad_start 6 (show_nat (nat \<bar>y\<bar>)))"

definition adsUtcDay :: "int \<Rightarrow> string" where
  "adsUtcDay date = (case utc_civil date of (y, m, d) \<Rightarrow>
     take 10 (iso_year y @ ''-'' @ pad_start 2 (show_nat (m + 1)) @ ''-'' @ pad_start 2 (show_nat (nat d))))"

definition adMetricCounterKey :: "string \<Rightarrow> string \<Rightarrow> string" where
  "adMetricCounterKey type day = ''precommunity:ads:'' @ type @ '':'' @ day"

definition FLUSH_MARKER :: string where "FLUSH_MARKER = '':flush:''"

definition strip_prefix :: "string \<Rightarrow> string \<Rightarrow> string option" where
  "strip_prefix p s = (if take (length p) s = p then Some (drop (length p) s) else None)"

fun includes_text :: "string \<Rightarrow> string \<Rightarrow> bool" where
  "includes_text p s = (take (length p) s = p \<or> (case s of [] \<Rightarrow> False | _ # t \<Rightarrow> includes_text p t))"

declare includes_text.simps [simp del]

text \<open>The patterns of \<^verbatim>\<open>SCAN\<close>: a star stands for any text.\<close>

fun glob :: "string \<Rightarrow> string \<Rightarrow> bool" where
  "glob [] s = (s = [])"
| "glob (c # p) s = (if c = CHR ''*'' then list_ex (glob p) (map (\<lambda>i. drop i s) [0..<Suc (length s)])
     else (case s of [] \<Rightarrow> False | x # t \<Rightarrow> x = c \<and> glob p t))"

text \<open>\<^verbatim>\<open>\d{4}-\d{2}-\d{2}\<close>, and the date of its midnight; a day past the end of its month runs over.\<close>

definition day_text :: "string \<Rightarrow> bool" where
  "day_text s \<longleftrightarrow> length s = 10 \<and> list_all is_digit (take 4 s) \<and> s ! 4 = CHR ''-'' \<and>
     list_all is_digit (take 2 (drop 5 s)) \<and> s ! 7 = CHR ''-'' \<and> list_all is_digit (drop 8 s)"

definition midnight :: "string \<Rightarrow> int option" where
  "midnight s = (case (read_radix 10 0 (take 4 s), read_radix 10 0 (take 2 (drop 5 s)), read_radix 10 0 (drop 8 s)) of
     (Some y, Some m, Some d) \<Rightarrow>
       if 1 \<le> m \<and> m \<le> 12 \<and> 1 \<le> d \<and> d \<le> 31 then Some (utcDate (int y) (m - 1) (int d)) else None
   | _ \<Rightarrow> None)"

text \<open>The type and the day of a batch; the day is \<open>None\<close> where its time value is \<^verbatim>\<open>NaN\<close>.\<close>

definition bucket_of :: "string \<Rightarrow> metric_type \<Rightarrow> (metric_type \<times> int option) option" where
  "bucket_of rest type = (case strip_prefix (metric_name type @ '':'') rest of
     None \<Rightarrow> None
   | Some tail \<Rightarrow>
       if day_text (take 10 tail) \<and> strip_prefix FLUSH_MARKER (drop 10 tail) \<noteq> None
       then Some (type, midnight (take 10 tail)) else None)"

definition bucketFromBatchKey :: "string \<Rightarrow> (metric_type \<times> int option) option" where
  "bucketFromBatchKey key = (case strip_prefix ''precommunity:ads:'' key of
     None \<Rightarrow> None
   | Some rest \<Rightarrow> (case List.map_filter (bucket_of rest) metric_types of [] \<Rightarrow> None | b # _ \<Rightarrow> Some b))"

subsection \<open>Commands of Redis\<close>

definition MAX_INT64 :: int where "MAX_INT64 = 2 ^ 63 - 1"

definition find_hash :: "string \<Rightarrow> metrics_db \<Rightarrow> counter_hash option" where
  "find_hash k d = List.find (\<lambda>h. hs_key h = k) (md_hashes d)"

text \<open>
  \<^verbatim>\<open>HINCRBY\<close> of one: an error when the value is not a 64-bit integer or would leave the range.
\<close>

definition redis_int :: "string \<Rightarrow> int option" where
  "redis_int v = (case js_bigint v of None \<Rightarrow> None
     | Some n \<Rightarrow> if v = show_int n \<and> \<bar>n\<bar> \<le> MAX_INT64 then Some n else None)"

definition hincrby :: "string \<Rightarrow> (string \<times> string) list \<Rightarrow> (string \<times> string) list option" where
  "hincrby f fs = (case map_of fs f of
     None \<Rightarrow> Some (fs @ [(f, ''1'')])
   | Some v \<Rightarrow> (case redis_int v of None \<Rightarrow> None
     | Some n \<Rightarrow> if n = MAX_INT64 then None
         else Some (map (\<lambda>(g, w). (g, if g = f then show_int (n + 1) else w)) fs)))"

definition COUNTER_TTL_SECONDS :: int where "COUNTER_TTL_SECONDS = 14 * 24 * 60 * 60"

text \<open>The \<^verbatim>\<open>MULTI\<close> of a count: the increment and the new expiry, and whether both succeeded.\<close>

definition count_hit :: "metric_type \<Rightarrow> string \<Rightarrow> metrics_db \<Rightarrow> bool \<times> metrics_db" where
  "count_hit type revisionId d =
     (let key = adMetricCounterKey (metric_name type) (adsUtcDay (md_clock d));
          expiresAt = md_clock d + COUNTER_TTL_SECONDS * 1000;
          put = (\<lambda>fs. update_where (\<lambda>h. hs_key h = key)
            (\<lambda>h. h\<lparr>hs_fields := fs, hs_expiresAt := expiresAt\<rparr>) (md_hashes d)) in
      case find_hash key d of
        None \<Rightarrow> (True, d\<lparr>md_hashes := md_hashes d @
            [\<lparr>hs_key = key, hs_fields = [(revisionId, ''1'')], hs_expiresAt = expiresAt\<rparr>],
          md_counted := md_counted d @ [(type, revisionId)]\<rparr>)
      | Some h \<Rightarrow> (case hincrby revisionId (hs_fields h) of
          None \<Rightarrow> (False, d\<lparr>md_hashes := put (hs_fields h)\<rparr>)
        | Some fs \<Rightarrow> (True, d\<lparr>md_hashes := put fs,
            md_counted := md_counted d @ [(type, revisionId)]\<rparr>)))"

definition flushed :: "metrics_db \<Rightarrow> string \<Rightarrow> bool" where
  "flushed d k \<longleftrightarrow> k \<in> fl_id ` set (md_receipts d)"

text \<open>Time passes: hashes past their expiry are gone.\<close>

definition elapse :: "nat \<Rightarrow> metrics_db \<Rightarrow> metrics_db" where
  "elapse n d = (let now = md_clock d + int n in d\<lparr>md_clock := now,
     md_hashes := filter (\<lambda>h. now < hs_expiresAt h) (md_hashes d),
     md_expired := md_expired d @ filter (\<lambda>h. \<not> now < hs_expiresAt h \<and> \<not> flushed d (hs_key h)) (md_hashes d)\<rparr>)"

datatype activity = Hit metric_type string | Elapse nat

fun other_client :: "activity \<Rightarrow> metrics_db \<Rightarrow> metrics_db" where
  "other_client (Hit type revisionId) d = snd (count_hit type revisionId d)"
| "other_client (Elapse n) d = elapse n d"

text \<open>
  The parameters: what happens at the next command (what other clients did before it, whether its
  answer arrives; an error when it was refused), the pages of the next scan, each a choice among the keys that
  are there, the failures of the database, the connection of the API, and the sequence of UUIDs.
\<close>

record 'w metrics_deps =
  mx_network :: "'w \<Rightarrow> (metrics_error + activity list \<times> bool) \<times> 'w"
  mx_pages :: "'w \<Rightarrow> (metrics_error + (string list \<Rightarrow> string list) \<times> (string list \<Rightarrow> string list) list) \<times> 'w"
  mx_database :: "'w \<Rightarrow> (metrics_error + unit) \<times> 'w"
  mx_connect :: "'w \<Rightarrow> (metrics_error + bool) \<times> 'w"
  mx_uuid :: "nat \<Rightarrow> string"

definition redis_call :: "'w metrics_deps \<Rightarrow> ('w, 'a) metrics_prog \<Rightarrow> ('w, 'a) metrics_prog" where
  "redis_call deps command = bindp (extern (mx_network deps)) (\<lambda>(activities, answered).
     thenp (db_mod (fold other_client activities))
       (bindp command (\<lambda>x. if answered then ret x else throw Redis_failed)))"

definition scan_page :: "string \<Rightarrow> (string list \<Rightarrow> string list) \<Rightarrow> metrics_db \<Rightarrow> string list" where
  "scan_page pattern page d = (let keys = map hs_key (md_hashes d) in
     filter (\<lambda>k. k \<in> set keys \<and> glob pattern k) (page keys))"

definition rename_if_exists :: "string \<Rightarrow> string \<Rightarrow> ('w, bool) metrics_prog" where
  "rename_if_exists from to = bindp (db_get (find_hash from)) (\<lambda>h. case h of
     None \<Rightarrow> ret False
   | Some _ \<Rightarrow> thenp (db_mod (md_hashes_update (\<lambda>hs. update_where (\<lambda>h. hs_key h = from)
         (\<lambda>h. h\<lparr>hs_key := to\<rparr>) (filter (\<lambda>h. hs_key h \<noteq> to) hs)))) (ret True))"

definition hgetall :: "string \<Rightarrow> metrics_db \<Rightarrow> (string \<times> string) list" where
  "hgetall k d = (case find_hash k d of None \<Rightarrow> [] | Some h \<Rightarrow> hs_fields h)"

definition del_hash :: "'w metrics_deps \<Rightarrow> string \<Rightarrow> ('w, unit) metrics_prog" where
  "del_hash deps k = redis_call deps (db_mod (md_hashes_update (filter (\<lambda>h. hs_key h \<noteq> k))))"

text \<open>\<^verbatim>\<open>incrementCounter\<close> of the API: errors are answered by \<^verbatim>\<open>false\<close>.\<close>

definition incrementCounter :: "'w metrics_deps \<Rightarrow> metric_type \<Rightarrow> string \<Rightarrow> ('w, bool) metrics_prog" where
  "incrementCounter deps type revisionId = catchp
     (bindp (extern (mx_connect deps)) (\<lambda>ready. if \<not> ready then ret False
        else redis_call deps (bindp (db_get (count_hit type revisionId)) (\<lambda>(succeeded, d).
          thenp (db_mod (\<lambda>_. d)) (ret succeeded)))))
     (\<lambda>_. ret False)"

subsection \<open>The flush\<close>

definition scanKeys :: "'w metrics_deps \<Rightarrow> string \<Rightarrow> ('w, string list) metrics_prog" where
  "scanKeys deps pattern = bindp (extern (mx_pages deps)) (\<lambda>(first, pages).
     foldp (\<lambda>page keys. bindp (redis_call deps (db_get (scan_page pattern page)))
       (\<lambda>found. ret (keys @ found))) (first # pages) [])"

definition randomUUID :: "'w metrics_deps \<Rightarrow> ('w, string) metrics_prog" where
  "randomUUID deps = bindp (db_get md_drawn) (\<lambda>n.
     thenp (db_mod (md_drawn_update Suc)) (ret (mx_uuid deps n)))"

definition roll_key :: "'w metrics_deps \<Rightarrow> string \<Rightarrow> string list \<Rightarrow> ('w, string list) metrics_prog" where
  "roll_key deps activeKey batches = bindp (randomUUID deps) (\<lambda>uuid.
     bindp (redis_call deps (rename_if_exists activeKey (activeKey @ FLUSH_MARKER @ uuid))) (\<lambda>moved.
       ret (if moved then batches @ [activeKey @ FLUSH_MARKER @ uuid] else batches)))"

definition rollActiveCounters :: "'w metrics_deps \<Rightarrow> string \<Rightarrow> ('w, string list) metrics_prog" where
  "rollActiveCounters deps pattern = bindp (scanKeys deps pattern) (\<lambda>keys.
     foldp (roll_key deps) (filter (\<lambda>k. \<not> includes_text FLUSH_MARKER k) keys) [])"

definition positive_counts :: "(string \<times> string) list \<Rightarrow> (string \<times> int) list" where
  "positive_counts counters = List.map_filter (\<lambda>(revisionId, value). case js_bigint value of
     None \<Rightarrow> None | Some amount \<Rightarrow> if amount \<le> 0 then None else Some (revisionId, amount)) counters"

text \<open>The columns are 64-bit integers; an increment past them is an error of the database.\<close>

definition upsert_daily :: "metric_type \<Rightarrow> int \<Rightarrow> string \<Rightarrow> int \<Rightarrow> ('w, unit) metrics_prog" where
  "upsert_daily type day revisionId amount =
     (let P = (\<lambda>m. dm_revisionId m = revisionId \<and> dm_day m = day) in
      bindp (db_get (\<lambda>d. List.find P (md_daily d))) (\<lambda>row. case row of
        Some m \<Rightarrow> if MAX_INT64 < count_of type (dm_counts m) + amount then throw Database_failed
          else db_mod (md_daily_update (update_where P (\<lambda>m. m\<lparr>dm_counts := add_count type amount (dm_counts m)\<rparr>)))
      | None \<Rightarrow> if MAX_INT64 < amount then throw Database_failed
          else db_mod (md_daily_update (\<lambda>ms. ms @
            [\<lparr>dm_revisionId = revisionId, dm_day = day, dm_counts = add_count type amount no_counts\<rparr>]))))"

definition find_metric_revision :: "string \<Rightarrow> metrics_db \<Rightarrow> metric_revision option" where
  "find_metric_revision i d = List.find (\<lambda>r. mr_id r = i) (md_revisions d)"

definition persist_entry ::
  "metric_type \<Rightarrow> int \<Rightarrow> string \<times> int \<Rightarrow> int \<Rightarrow> ('w, int) metrics_prog" where
  "persist_entry type day entry tally = (case entry of (revisionId, amount) \<Rightarrow>
     bindp (db_get (find_metric_revision revisionId)) (\<lambda>revision. case revision of
       None \<Rightarrow> ret tally
     | Some r \<Rightarrow> thenp (upsert_daily type day revisionId amount)
         (if MAX_INT64 < count_of type (mr_lifetime r) + amount then throw Database_failed
          else thenp (db_mod (md_revisions_update (update_where (\<lambda>r. mr_id r = revisionId)
              (\<lambda>r. r\<lparr>mr_lifetime := add_count type amount (mr_lifetime r)\<rparr>))))
            (ret (tally + amount)))))"

text \<open>The transaction: the receipt comes first, and only its writer applies the batch.\<close>

definition persist_transaction ::
  "'w metrics_deps \<Rightarrow> string \<Rightarrow> metric_type \<Rightarrow> int \<Rightarrow> (string \<times> int) list \<Rightarrow> ('w, bool \<times> int) metrics_prog" where
  "persist_transaction deps batchKey type day entries = transactional
     (bindp (db_get (\<lambda>d. flushed d batchKey)) (\<lambda>present.
        bindp (if present then ret (False, 0)
          else thenp (db_mod (\<lambda>d. d\<lparr>md_receipts := md_receipts d @
              [\<lparr>fl_id = batchKey, fl_bucketDay = day, fl_createdAt = md_clock d\<rparr>]\<rparr>))
            (bindp (foldp (persist_entry type day) entries 0) (\<lambda>tally. ret (True, tally))))
        (\<lambda>result. thenp (extern (mx_database deps)) (ret result))))"

record batch_result =
  br_batchKey :: string
  br_applied :: bool
  br_type :: "metric_type option"
  br_total :: int

definition persistBatch :: "'w metrics_deps \<Rightarrow> string \<Rightarrow> ('w, batch_result) metrics_prog" where
  "persistBatch deps batchKey = (case bucketFromBatchKey batchKey of
     Some (type, Some day) \<Rightarrow>
       bindp (redis_call deps (db_get (hgetall batchKey))) (\<lambda>counters.
         bindp (persist_transaction deps batchKey type day (positive_counts counters)) (\<lambda>(applied, tally).
           thenp (extern (mx_database deps)) (thenp (del_hash deps batchKey)
             (ret \<lparr>br_batchKey = batchKey, br_applied = applied, br_type = Some type, br_total = tally\<rparr>))))
   | _ \<Rightarrow> thenp (del_hash deps batchKey)
       (ret \<lparr>br_batchKey = batchKey, br_applied = False, br_type = None, br_total = 0\<rparr>))"

record flush_result =
  fr_batches :: nat
  fr_applied :: nat
  fr_totals :: metric_counts

definition flush_totals :: "batch_result list \<Rightarrow> metric_counts" where
  "flush_totals results = fold (\<lambda>r totals. case br_type r of
     Some type \<Rightarrow> if br_applied r then add_count type (br_total r) totals else totals
   | None \<Rightarrow> totals) results no_counts"

definition flush_type :: "'w metrics_deps \<Rightarrow> metric_type \<Rightarrow> batch_result list \<Rightarrow> ('w, batch_result list) metrics_prog" where
  "flush_type deps type results = (let pattern = adMetricCounterKey (metric_name type) ''*'' in
     thenp (rollActiveCounters deps pattern)
       (bindp (scanKeys deps (pattern @ FLUSH_MARKER @ ''*'')) (\<lambda>batches.
         foldp (\<lambda>batch results. bindp (persistBatch deps batch) (\<lambda>r. ret (results @ [r]))) batches results)))"

definition flushAdResolutionMetrics :: "'w metrics_deps \<Rightarrow> ('w, flush_result) metrics_prog" where
  "flushAdResolutionMetrics deps = bindp (foldp (flush_type deps) metric_types []) (\<lambda>results.
     ret \<lparr>fr_batches = length results, fr_applied = length (filter br_applied results),
       fr_totals = flush_totals results\<rparr>)"

text \<open>What \<^verbatim>\<open>retainAdsData\<close> removes of these tables.\<close>

definition retain_metrics :: "metrics_db \<Rightarrow> metrics_db" where
  "retain_metrics d = (let cutoff = md_clock d - RETENTION_MS in d\<lparr>
     md_daily := filter (\<lambda>m. \<not> dm_day m < cutoff) (md_daily d),
     md_receipts := filter (\<lambda>r. \<not> fl_createdAt r < cutoff) (md_receipts d)\<rparr>)"

datatype metrics_job = Flush_job | Retain_job | Count_job metric_type string | Other_job activity

definition run_metrics_job ::
  "'w metrics_deps \<Rightarrow> metrics_job \<Rightarrow> (metrics_db, unit, 'w) machine \<Rightarrow> (metrics_db, unit, 'w) machine" where
  "run_metrics_job deps job s = (case job of
     Flush_job \<Rightarrow> snd (flushAdResolutionMetrics deps s)
   | Retain_job \<Rightarrow> s\<lparr>db := retain_metrics (db s)\<rparr>
   | Count_job type revisionId \<Rightarrow> snd (incrementCounter deps type revisionId s)
   | Other_job a \<Rightarrow> s\<lparr>db := other_client a (db s)\<rparr>)"

definition run_metrics_jobs ::
  "'w metrics_deps \<Rightarrow> metrics_job list \<Rightarrow> (metrics_db, unit, 'w) machine \<Rightarrow> (metrics_db, unit, 'w) machine" where
  "run_metrics_jobs deps = fold (run_metrics_job deps)"

end
