(* ===== verification/Metrics_Facts.thy ===== *)
theory Metrics_Facts
  imports Metrics
begin

section \<open>Every impression is counted once\<close>

text \<open>
  The keys of counters and batches, the accounting invariant of the hashes and the tables, and that every
  job keeps it: whatever commands are refused or lose their answer, a count that Redis executed is in
  the tables, still in Redis, or in a hash that expired, and never in two of them.
\<close>

subsection \<open>Days\<close>

definition YEAR_10000 :: int where "YEAR_10000 = 253402300800000"

lemma show_nat_length: "n < 10 ^ Suc k \<Longrightarrow> length (show_nat n) \<le> Suc k"
proof (induction k arbitrary: n)
  case (Suc k)
  show ?case
  proof (cases "n < 10")
    case False
    have "n div 10 < 10 ^ Suc k" using Suc.prems by (simp add: less_mult_imp_div_less mult.commute)
    then show ?thesis using Suc.IH [of "n div 10"] False by (subst show_nat.simps) simp
  qed (subst show_nat.simps, simp)
qed (subst show_nat.simps, simp)

lemma pad_start_facts:
  assumes "n < 10 ^ k" "0 < k"
  shows "length (pad_start k (show_nat n)) = k" "list_all is_digit (pad_start k (show_nat n))"
    "read_radix 10 0 (pad_start k (show_nat n)) = Some n"
  using show_nat_length [of n "k - 1"] show_nat_digits [of n] assms
  by (auto simp: pad_start_def read_radix_append read_show_nat list_all_iff)

lemma civil_year_bounds:
  assumes "0 \<le> t" "t < YEAR_10000" "utc_civil t = (y, m, d)"
  shows "1970 \<le> y" "y \<le> 9999" "m \<le> 11" "1 \<le> d" "d \<le> 31"
proof -
  let ?n = "t div MILLISECONDS_PER_DAY"
  have n: "0 \<le> ?n" "?n < 2932897"
    using assms by (simp_all add: MILLISECONDS_PER_DAY_def YEAR_10000_def)
  have y: "y = year_of_day ?n" using assms(3) by (simp add: utc_civil_def civil_def Let_def)
  note b = year_of_day_bounds [of ?n, folded y]
  have "DayFromYear 1970 = 0" "DayFromYear 10000 = 2932897" by (simp_all add: DayFromYear_def)
  then show "1970 \<le> y" "y \<le> 9999"
    using b n DayFromYear_mono [of "y + 1" 1970] DayFromYear_mono [of 10000 y] by force+
  show "m \<le> 11" "1 \<le> d" "d \<le> 31"
    using utc_civil_split(1-3) [OF assms(3)] days_positive [of y m] by auto
qed

lemma day_shape:
  assumes "length Y = 4" "length M = 2" "length D = 2" "list_all is_digit Y" "list_all is_digit M" "list_all is_digit D"
  shows "day_text (Y @ ''-'' @ M @ ''-'' @ D)" "take 4 (Y @ ''-'' @ M @ ''-'' @ D) = Y"
    "take 2 (drop 5 (Y @ ''-'' @ M @ ''-'' @ D)) = M" "drop 8 (Y @ ''-'' @ M @ ''-'' @ D) = D"
  using assms by (simp_all add: day_text_def nth_append)

lemma adsUtcDay_midnight:
  assumes "0 \<le> t" "t < YEAR_10000"
  shows "day_text (adsUtcDay t)" "midnight (adsUtcDay t) = Some (t - t mod MILLISECONDS_PER_DAY)"
proof -
  obtain y m d where c: "utc_civil t = (y, m, d)" by (cases "utc_civil t") auto
  note b = civil_year_bounds [OF assms c]
  define Y where "Y = pad_start 4 (show_nat (nat y))"
  define M where "M = pad_start 2 (show_nat (Suc m))"
  define D where "D = pad_start 2 (show_nat (nat d))"
  have Y: "length Y = 4" "list_all is_digit Y" "read_radix 10 0 Y = Some (nat y)"
    using b pad_start_facts [of "nat y" 4] by (simp_all add: Y_def)
  have M: "length M = 2" "list_all is_digit M" "read_radix 10 0 M = Some (Suc m)"
    using b pad_start_facts [of "Suc m" 2] by (simp_all add: M_def)
  have D: "length D = 2" "list_all is_digit D" "read_radix 10 0 D = Some (nat d)"
    using b pad_start_facts [of "nat d" 2] by (simp_all add: D_def)
  note s = day_shape [OF Y(1) M(1) D(1) Y(2) M(2) D(2)]
  have e: "adsUtcDay t = Y @ ''-'' @ M @ ''-'' @ D"
    using b Y(1) M(1) D(1) by (simp add: adsUtcDay_def c iso_year_def Y_def [symmetric] M_def [symmetric] D_def [symmetric])
  show "day_text (adsUtcDay t)" unfolding e by (rule s(1))
  have "midnight (adsUtcDay t) = Some (utcDate y m d)"
    unfolding e midnight_def s(2-4) using Y(3) M(3) D(3) b by (simp add: Suc_le_eq)
  then show "midnight (adsUtcDay t) = Some (t - t mod MILLISECONDS_PER_DAY)"
    using utc_civil_split(4) [OF c] by simp
qed

subsection \<open>Keys\<close>

definition counter_key :: "metric_type \<Rightarrow> string \<Rightarrow> string" where
  "counter_key t D = adMetricCounterKey (metric_name t) D"

definition active_key :: "string \<Rightarrow> bool" where
  "active_key k \<longleftrightarrow> (\<exists>t D. day_text D \<and> midnight D \<noteq> None \<and> k = counter_key t D)"

text \<open>A key that \<open>rollActiveCounters\<close> made with one of the first \<open>n\<close> UUIDs.\<close>

definition batch_key :: "(nat \<Rightarrow> string) \<Rightarrow> nat \<Rightarrow> string \<Rightarrow> bool" where
  "batch_key uuid n k \<longleftrightarrow> (\<exists>a i. active_key a \<and> i < n \<and> k = a @ FLUSH_MARKER @ uuid i)"

definition key_type :: "string \<Rightarrow> metric_type option" where
  "key_type k = (if take 29 k = ''precommunity:ads:resolutions:'' then Some Resolutions
     else if take 23 k = ''precommunity:ads:views:'' then Some Views
     else if take 24 k = ''precommunity:ads:clicks:'' then Some Clicks else None)"

lemma key_type_counter [simp]: "key_type (counter_key t D) = Some t" "key_type (counter_key t D @ x) = Some t"
  by (cases t; simp add: key_type_def counter_key_def adMetricCounterKey_def)+

lemma includes_text_append: "includes_text p (a @ p @ b)"
proof (induction a)
  case Nil
  then show ?case by (subst includes_text.simps) simp
next
  case (Cons x a)
  then show ?case by (subst includes_text.simps) simp
qed

lemma includes_text_char: "includes_text (c # p) s \<Longrightarrow> c \<in> set s"
proof (induction s)
  case (Cons x s)
  then show ?case by (subst (asm) includes_text.simps) auto
qed (simp add: includes_text.simps)

lemma colon_not_digit: "is_digit c \<Longrightarrow> c \<noteq> CHR '':''"
  by (auto simp: is_digit_def Let_def)

lemma day_text_split:
  assumes "day_text D"
  shows "D = take 4 D @ ''-'' @ take 2 (drop 5 D) @ ''-'' @ drop 8 D" "length D = 10"
proof -
  have l: "length D = 10" and h: "D ! 4 = CHR ''-''" "D ! 7 = CHR ''-''" using assms by (auto simp: day_text_def)
  show "length D = 10" by (rule l)
  have "drop 4 D = CHR ''-'' # drop 5 D" using l h Cons_nth_drop_Suc [of 4 D] by simp
  moreover have "drop 7 D = CHR ''-'' # drop 8 D" using l h Cons_nth_drop_Suc [of 7 D] by simp
  moreover have "drop 5 D = take 2 (drop 5 D) @ drop 7 D"
    using append_take_drop_id [of 2 "drop 5 D"] by simp
  ultimately show "D = take 4 D @ ''-'' @ take 2 (drop 5 D) @ ''-'' @ drop 8 D"
    by (metis append_take_drop_id append_Cons append_Nil)
qed

lemma day_text_no_colon: "day_text D \<Longrightarrow> CHR '':'' \<notin> set D"
proof -
  assume d: "day_text D"
  then have "list_all is_digit (take 4 D)" "list_all is_digit (take 2 (drop 5 D))" "list_all is_digit (drop 8 D)"
    by (simp_all add: day_text_def)
  then have "CHR '':'' \<notin> set (take 4 D @ ''-'' @ take 2 (drop 5 D) @ ''-'' @ drop 8 D)"
    unfolding list_all_iff using colon_not_digit by auto
  then show ?thesis using day_text_split(1) [OF d] by metis
qed

lemma counter_key_cancel:
  assumes "day_text D" "day_text D'" "counter_key t D @ x = counter_key t' D' @ x'"
  shows "t = t' \<and> D = D' \<and> x = x'"
proof -
  have "t = t'" using arg_cong [OF assms(3), of key_type] by simp
  moreover have "D @ x = D' @ x'"
    using assms(3) \<open>t = t'\<close> by (simp add: counter_key_def adMetricCounterKey_def)
  then have "D = D' \<and> x = x'"
    using day_text_split(2) assms(1,2) by simp
  ultimately show ?thesis by simp
qed

lemma active_cancel: "active_key a \<Longrightarrow> active_key b \<Longrightarrow> a @ x = b @ y \<Longrightarrow> a = b \<and> x = y"
  unfolding active_key_def using counter_key_cancel by blast

lemma active_not_batch: "active_key k \<Longrightarrow> \<not> batch_key uuid n k"
  using active_cancel [of k _ "[]"] by (auto simp: batch_key_def FLUSH_MARKER_def)

lemma batch_key_mono: "batch_key uuid n k \<Longrightarrow> n \<le> m \<Longrightarrow> batch_key uuid m k"
  by (auto simp: batch_key_def intro: less_le_trans)

lemma batch_marker: "batch_key uuid n k \<Longrightarrow> includes_text FLUSH_MARKER k"
  by (auto simp: batch_key_def includes_text_append)

lemma fresh_batch_key:
  assumes "inj uuid" "active_key a" "batch_key uuid n k"
  shows "a @ FLUSH_MARKER @ uuid n \<noteq> k"
proof
  assume "a @ FLUSH_MARKER @ uuid n = k"
  moreover obtain b i where b: "active_key b" "i < n" "k = b @ FLUSH_MARKER @ uuid i"
    using assms(3) by (auto simp: batch_key_def)
  ultimately have "FLUSH_MARKER @ uuid n = FLUSH_MARKER @ uuid i" using active_cancel assms(2) by metis
  then show False using injD [OF assms(1), of n i] b(2) by simp
qed

lemma strip_prefix_append [simp]: "strip_prefix p (p @ s) = Some s"
  by (simp add: strip_prefix_def)

lemma bucket_of_counter:
  assumes "day_text D"
  shows "bucket_of (metric_name t @ '':'' @ D @ FLUSH_MARKER @ u) t' = (if t' = t then Some (t, midnight D) else None)"
proof -
  have l: "length D = 10" by (rule day_text_split(2) [OF assms])
  have "strip_prefix (metric_name t' @ '':'') (metric_name t @ '':'' @ D @ FLUSH_MARKER @ u) =
      (if t' = t then Some (D @ FLUSH_MARKER @ u) else None)"
    by (cases t; cases t'; simp add: strip_prefix_def)
  then show ?thesis using assms l by (simp add: bucket_of_def)
qed

lemma only_type: "(\<And>t'. f t' = (if t' = t then Some x else None)) \<Longrightarrow> List.map_filter f metric_types = [x]"
  by (cases t) (simp_all add: metric_types_def map_filter_simps)

lemma batch_bucket:
  assumes "active_key a"
  shows "\<exists>t day. key_type a = Some t \<and> bucketFromBatchKey (a @ FLUSH_MARKER @ u) = Some (t, Some day)"
proof -
  obtain t D day where a: "day_text D" "midnight D = Some day" "a = counter_key t D"
    using assms by (auto simp: active_key_def)
  have e: "a @ FLUSH_MARKER @ u = ''precommunity:ads:'' @ metric_name t @ '':'' @ D @ FLUSH_MARKER @ u"
    by (simp add: a(3) counter_key_def adMetricCounterKey_def)
  have "bucketFromBatchKey (a @ FLUSH_MARKER @ u) = Some (t, Some day)"
    unfolding e bucketFromBatchKey_def strip_prefix_append option.case
    by (subst only_type [OF bucket_of_counter [OF a(1)]]) (simp add: a(2))
  then show ?thesis using a(3) by auto
qed

lemma batch_key_type: "key_type (a @ FLUSH_MARKER @ u) = key_type a" if "active_key a"
  using that by (auto simp: active_key_def)

lemma glob_literal:
  "CHR ''*'' \<notin> set p \<Longrightarrow> glob (p @ q) s \<longleftrightarrow> (\<exists>r. s = p @ r \<and> glob q r)"
proof (induction p arbitrary: s)
  case (Cons c p)
  then show ?case by (cases s) auto
qed simp

lemma glob_star: "glob (CHR ''*'' # p) s \<longleftrightarrow> (\<exists>i\<le>length s. glob p (drop i s))"
  by (auto simp: list_ex_iff less_Suc_eq_le simp del: upt_Suc)

lemma batch_pattern:
  assumes "active_key k"
  shows "\<not> glob (adMetricCounterKey (metric_name t) ''*'' @ FLUSH_MARKER @ ''*'') k"
proof
  let ?p = "adMetricCounterKey (metric_name t) []"
  have p: "CHR ''*'' \<notin> set ?p" by (cases t) (simp_all add: adMetricCounterKey_def)
  have e: "adMetricCounterKey (metric_name t) ''*'' @ FLUSH_MARKER @ ''*'' = ?p @ CHR ''*'' # FLUSH_MARKER @ ''*''"
    by (simp add: adMetricCounterKey_def)
  assume "glob (adMetricCounterKey (metric_name t) ''*'' @ FLUSH_MARKER @ ''*'') k"
  then obtain r i where k: "k = ?p @ r" and "glob (FLUSH_MARKER @ ''*'') (drop i r)"
    unfolding e glob_literal [OF p] glob_star by blast
  then have "CHR '':'' \<in> set (drop i r)" by (cases "drop i r") (auto simp: FLUSH_MARKER_def)
  then have "CHR '':'' \<in> set r" by (rule in_set_dropD)
  obtain t' D where D: "day_text D" "k = counter_key t' D" using assms by (auto simp: active_key_def)
  have "counter_key t r = counter_key t' D" using k D(2) by (simp add: counter_key_def adMetricCounterKey_def)
  moreover from this have "t = t'" by (metis key_type_counter(1) option.inject)
  ultimately have "r = D" by (simp add: counter_key_def adMetricCounterKey_def)
  with \<open>CHR '':'' \<in> set r\<close> show False using day_text_no_colon [OF D(1)] by simp
qed

subsection \<open>Accounting\<close>

definition fields_ok :: "(string \<times> string) list \<Rightarrow> bool" where
  "fields_ok fs \<longleftrightarrow> distinct (map fst fs) \<and> (\<forall>(f, v) \<in> set fs. \<exists>n>0. v = show_int n)"

definition field_count :: "string \<Rightarrow> (string \<times> string) list \<Rightarrow> int" where
  "field_count i fs = (case map_of fs i of None \<Rightarrow> 0
     | Some v \<Rightarrow> (case js_bigint v of None \<Rightarrow> 0 | Some n \<Rightarrow> n))"

definition hash_count :: "metric_type \<Rightarrow> string \<Rightarrow> counter_hash \<Rightarrow> int" where
  "hash_count t i h = (if key_type (hs_key h) = Some t then field_count i (hs_fields h) else 0)"

text \<open>
  For a type and a revision: what the tables hold, what is still in Redis without a receipt, what expired
  there without a receipt, and how often Redis counted.
\<close>

definition lifetime :: "metric_type \<Rightarrow> string \<Rightarrow> metrics_db \<Rightarrow> int" where
  "lifetime t i d = (case find_metric_revision i d of None \<Rightarrow> 0 | Some r \<Rightarrow> count_of t (mr_lifetime r))"

definition unflushed_count :: "metric_type \<Rightarrow> string \<Rightarrow> metrics_db \<Rightarrow> counter_hash \<Rightarrow> int" where
  "unflushed_count t i d h = (if flushed d (hs_key h) then 0 else hash_count t i h)"

lemma unflushed_count_receipts:
  "md_receipts d' = md_receipts d \<Longrightarrow> unflushed_count t i d' = unflushed_count t i d"
  by (rule ext) (simp add: unflushed_count_def flushed_def)

definition in_redis :: "metric_type \<Rightarrow> string \<Rightarrow> metrics_db \<Rightarrow> int" where
  "in_redis t i d = sum_list (map (unflushed_count t i d) (md_hashes d))"

definition expired :: "metric_type \<Rightarrow> string \<Rightarrow> metrics_db \<Rightarrow> int" where
  "expired t i d = sum_list (map (hash_count t i) (md_expired d))"

definition hits :: "metric_type \<Rightarrow> string \<Rightarrow> metrics_db \<Rightarrow> int" where
  "hits t i d = int (count_list (md_counted d) (t, i))"

definition balance :: "metric_type \<Rightarrow> string \<Rightarrow> metrics_db \<Rightarrow> int" where
  "balance t i d = lifetime t i d + in_redis t i d + expired t i d - hits t i d"

definition COUNTER_TTL_MS :: int where "COUNTER_TTL_MS = COUNTER_TTL_SECONDS * 1000"

definition hash_ok :: "(nat \<Rightarrow> string) \<Rightarrow> metrics_db \<Rightarrow> counter_hash \<Rightarrow> bool" where
  "hash_ok uuid d h \<longleftrightarrow> fields_ok (hs_fields h) \<and> md_clock d < hs_expiresAt h \<and>
     hs_expiresAt h \<le> md_clock d + COUNTER_TTL_MS \<and>
     (active_key (hs_key h) \<or> batch_key uuid (md_drawn d) (hs_key h))"

definition receipt_ok :: "(nat \<Rightarrow> string) \<Rightarrow> metrics_db \<Rightarrow> flush_receipt \<Rightarrow> bool" where
  "receipt_ok uuid d r \<longleftrightarrow> batch_key uuid (md_drawn d) (fl_id r) \<and>
     (\<forall>h\<in>set (md_hashes d). hs_key h = fl_id r \<longrightarrow> hs_expiresAt h \<le> fl_createdAt r + COUNTER_TTL_MS)"

definition well_kept :: "(nat \<Rightarrow> string) \<Rightarrow> metrics_db \<Rightarrow> bool" where
  "well_kept uuid d \<longleftrightarrow> 0 \<le> md_clock d \<and> distinct (map hs_key (md_hashes d)) \<and>
     (\<forall>h\<in>set (md_hashes d). hash_ok uuid d h) \<and> (\<forall>r\<in>set (md_receipts d). receipt_ok uuid d r) \<and>
     distinct (map mr_id (md_revisions d))"

text \<open>The revisions are those of \<open>d\<^sub>0\<close> and nothing was lost or counted twice since.\<close>

definition balanced :: "metrics_db \<Rightarrow> metrics_db \<Rightarrow> bool" where
  "balanced d\<^sub>0 d \<longleftrightarrow> map mr_id (md_revisions d) = map mr_id (md_revisions d\<^sub>0) \<and>
     (\<forall>t. \<forall>i\<in>mr_id ` set (md_revisions d\<^sub>0). balance t i d = balance t i d\<^sub>0)"

definition accounted :: "(nat \<Rightarrow> string) \<Rightarrow> metrics_db \<Rightarrow> metrics_db \<Rightarrow> bool" where
  "accounted uuid d\<^sub>0 d \<longleftrightarrow> well_kept uuid d \<and> balanced d\<^sub>0 d"

lemma balanced_trans: "balanced d\<^sub>0 d \<Longrightarrow> balanced d d' \<Longrightarrow> balanced d\<^sub>0 d'"
  unfolding balanced_def by (metis list.set_map)

lemma balancedI:
  assumes "md_revisions d' = md_revisions d"
    and "\<And>t i. in_redis t i d' + expired t i d' - hits t i d' = in_redis t i d + expired t i d - hits t i d"
  shows "balanced d d'"
proof -
  have "balance t i d' = balance t i d" for t i
    using assms(2) [of t i] assms(1) by (simp add: balance_def lifetime_def find_metric_revision_def)
  then show ?thesis using assms(1) by (simp add: balanced_def)
qed

subsection \<open>Sums over hashes\<close>

lemma sum_update_where:
  fixes g :: "'a \<Rightarrow> int"
  assumes "distinct (map key hs)" "h \<in> set hs"
  shows "sum_list (map g (update_where (\<lambda>x. key x = key h) f hs)) = sum_list (map g hs) - g h + g (f h)"
proof -
  obtain as bs where hs: "hs = as @ h # bs" using assms(2) by (auto dest: split_list)
  have "update_where (\<lambda>x. key x = key h) f xs = xs" if "key h \<notin> key ` set xs" for xs
    using that by (induction xs) (auto simp: update_where_def)
  from this [of as] this [of bs] show ?thesis using assms(1) by (simp add: hs update_where_def)
qed

lemma sum_filter:
  fixes g :: "'a \<Rightarrow> int"
  shows "sum_list (map g xs) = sum_list (map g (filter P xs)) + sum_list (map g (filter (\<lambda>x. \<not> P x) xs))"
  by (induction xs) auto

lemma sum_filter_zero:
  fixes g :: "'a \<Rightarrow> int"
  shows "(\<And>x. x \<in> set xs \<Longrightarrow> \<not> P x \<Longrightarrow> g x = 0) \<Longrightarrow> sum_list (map g (filter P xs)) = sum_list (map g xs)"
  by (induction xs) auto

lemma sum_filter_if:
  fixes g :: "'a \<Rightarrow> int"
  shows "sum_list (map (\<lambda>x. if Q x then 0 else g x) (filter P xs)) = sum_list (map g (filter (\<lambda>x. P x \<and> \<not> Q x) xs))"
  by (induction xs) auto

lemma sum_without:
  fixes g :: "'a \<Rightarrow> int"
  assumes "distinct (map key xs)"
  shows "sum_list (map (\<lambda>x. if key x = k then 0 else g x) xs) =
    sum_list (map g xs) - (case List.find (\<lambda>x. key x = k) xs of None \<Rightarrow> 0 | Some x \<Rightarrow> g x)"
  using assms
proof (induction xs)
  case (Cons x xs)
  have "map (\<lambda>y. if key y = key x then 0 else g y) xs = map g xs" using Cons.prems by (auto simp: rev_image_eqI)
  moreover have "List.find (\<lambda>y. key y = key x) xs = None" unfolding find_None_iff using Cons.prems by simp (metis imageI)
  ultimately show ?case using Cons by auto
qed simp

lemma find_hash_Some: "find_hash k d = Some h \<Longrightarrow> h \<in> set (md_hashes d) \<and> hs_key h = k"
  by (auto simp: find_hash_def find_Some_iff)

lemma find_hash_None: "find_hash k d = None \<longleftrightarrow> k \<notin> hs_key ` set (md_hashes d)"
  by (auto simp: find_hash_def find_None_iff)

lemma field_count_nonneg: "fields_ok fs \<Longrightarrow> 0 \<le> field_count i fs"
  by (force simp: fields_ok_def field_count_def split: option.splits dest!: map_of_SomeD)

lemma js_bigint_one: "js_bigint ''1'' = Some 1" "''1'' = show_int 1"
  by code_simp+

lemma map_of_replace:
  "map_of (map (\<lambda>(g, w). (g, if g = f then x else w)) fs) i =
     (if i = f then map_option (\<lambda>_. x) (map_of fs f) else map_of fs i)"
  by (induction fs) auto

lemma hincrby_counts:
  assumes "fields_ok fs" "hincrby f fs = Some fs'"
  shows "fields_ok fs'" "field_count i fs' = field_count i fs + (if i = f then 1 else 0)"
proof -
  consider (new) "map_of fs f = None" "fs' = fs @ [(f, ''1'')]"
    | (old) v n where "map_of fs f = Some v" "redis_int v = Some n"
        "fs' = map (\<lambda>(g, w). (g, if g = f then show_int (n + 1) else w)) fs"
    using assms(2) by (auto simp: hincrby_def split: option.splits if_splits)
  then show "fields_ok fs'" "field_count i fs' = field_count i fs + (if i = f then 1 else 0)"
  proof (atomize (full), cases)
    case new
    then have "f \<notin> fst ` set fs" by (simp add: map_of_eq_None_iff)
    then show "fields_ok fs' \<and> field_count i fs' = field_count i fs + (if i = f then 1 else 0)"
      using assms(1) new
      by (auto simp: fields_ok_def field_count_def map_add_def js_bigint_one split: option.splits)
  next
    case old
    have "js_bigint v = Some n" "v = show_int n"
      using old(2) by (auto simp: redis_int_def split: option.splits if_splits)
    moreover have "0 < n" using assms(1) map_of_SomeD [OF old(1)] \<open>v = show_int n\<close> by (auto simp: fields_ok_def)
    moreover have "map_of fs' i = (if i = f then Some (show_int (n + 1)) else map_of fs i)"
      using old(1) unfolding old(3) map_of_replace by simp
    moreover have "map fst fs' = map fst fs" unfolding old(3) by (induction fs) auto
    moreover have "\<forall>(g, w)\<in>set fs'. \<exists>m>0. w = show_int m"
      using assms(1) \<open>0 < n\<close> unfolding old(3) fields_ok_def by force
    ultimately show "fields_ok fs' \<and> field_count i fs' = field_count i fs + (if i = f then 1 else 0)"
      using assms(1) old(1) by (auto simp: fields_ok_def field_count_def)
  qed
qed

subsection \<open>Steps\<close>

lemma active_unflushed: "well_kept uuid d \<Longrightarrow> active_key k \<Longrightarrow> \<not> flushed d k"
  unfolding well_kept_def flushed_def receipt_ok_def using active_not_batch by blast

lemma day_key_active: "0 \<le> t \<Longrightarrow> t < YEAR_10000 \<Longrightarrow> active_key (adMetricCounterKey (metric_name ty) (adsUtcDay t))"
  unfolding active_key_def counter_key_def using adsUtcDay_midnight by (metis option.distinct(1))

lemma hit_fields:
  assumes "well_kept uuid d" "md_clock d < YEAR_10000" "count_hit t i d = (ok, d')"
  obtains (new) "find_hash (adMetricCounterKey (metric_name t) (adsUtcDay (md_clock d))) d = None"
      "d' = d\<lparr>md_hashes := md_hashes d @ [\<lparr>hs_key = adMetricCounterKey (metric_name t) (adsUtcDay (md_clock d)),
          hs_fields = [(i, ''1'')], hs_expiresAt = md_clock d + COUNTER_TTL_MS\<rparr>],
        md_counted := md_counted d @ [(t, i)]\<rparr>"
  | (old) h fs counted where "h \<in> set (md_hashes d)" "hs_key h = adMetricCounterKey (metric_name t) (adsUtcDay (md_clock d))"
      "fields_ok fs" "\<And>j. field_count j fs = field_count j (hs_fields h) + (if j = i \<and> counted then 1 else 0)"
      "d' = d\<lparr>md_hashes := update_where (\<lambda>x. hs_key x = hs_key h)
          (\<lambda>x. x\<lparr>hs_fields := fs, hs_expiresAt := md_clock d + COUNTER_TTL_MS\<rparr>) (md_hashes d),
        md_counted := md_counted d @ (if counted then [(t, i)] else [])\<rparr>"
proof (cases "find_hash (adMetricCounterKey (metric_name t) (adsUtcDay (md_clock d))) d")
  case None
  with assms(3) show ?thesis by (intro new) (auto simp: count_hit_def Let_def COUNTER_TTL_MS_def)
next
  case (Some h)
  note h = find_hash_Some [OF Some]
  have ok: "fields_ok (hs_fields h)" using assms(1) h by (auto simp: well_kept_def hash_ok_def)
  show ?thesis
  proof (cases "hincrby i (hs_fields h)")
    case None
    with Some assms(3) h ok show ?thesis
      by (intro old [of h "hs_fields h" False]) (auto simp: count_hit_def Let_def COUNTER_TTL_MS_def)
  next
    case (Some fs)
    note c = hincrby_counts [OF ok Some]
    show ?thesis using \<open>find_hash _ d = Some h\<close> Some assms(3) h c
      by (intro old [of h fs True]) (auto simp: count_hit_def Let_def COUNTER_TTL_MS_def)
  qed
qed

lemma hit_accounted:
  assumes "well_kept uuid d" "md_clock d < YEAR_10000" "count_hit t i d = (ok, d')"
  shows "well_kept uuid d' \<and> balanced d d'"
  using assms
proof (cases rule: hit_fields)
  case new
  let ?k = "adMetricCounterKey (metric_name t) (adsUtcDay (md_clock d))"
  have k: "active_key ?k" using assms by (intro day_key_active) (auto simp: well_kept_def)
  have t: "key_type ?k = Some t" using key_type_counter(1) [of t] by (simp add: counter_key_def)
  have u: "\<not> flushed d ?k" by (rule active_unflushed [OF assms(1) k])
  have "hash_ok uuid d \<lparr>hs_key = ?k, hs_fields = [(i, ''1'')], hs_expiresAt = md_clock d + COUNTER_TTL_MS\<rparr>"
    using k js_bigint_one(2) by (auto simp: hash_ok_def fields_ok_def COUNTER_TTL_MS_def COUNTER_TTL_SECONDS_def intro!: exI [of _ 1])
  moreover have "\<forall>r\<in>set (md_receipts d). fl_id r \<noteq> ?k" using u unfolding flushed_def by (metis imageI)
  ultimately have "well_kept uuid d'"
    using assms(1) new unfolding well_kept_def find_hash_None
    by (auto simp: hash_ok_def receipt_ok_def)
  moreover have "balanced d d'"
  proof (rule balancedI)
    fix t' j
    have f: "field_count j [(i, ''1'')] = (if j = i then 1 else 0)" by (simp add: field_count_def js_bigint_one)
    show "in_redis t' j d' + expired t' j d' - hits t' j d' = in_redis t' j d + expired t' j d - hits t' j d"
      using u t f unflushed_count_receipts [of d' d t' j] unfolding new(2)
      by (simp add: in_redis_def expired_def hits_def unflushed_count_def hash_count_def)
  qed (simp add: new(2))
  ultimately show ?thesis ..
next
  case (old h fs counted)
  have k: "active_key (hs_key h)" unfolding old(2) using assms by (intro day_key_active) (auto simp: well_kept_def)
  have t: "key_type (hs_key h) = Some t" unfolding old(2) using key_type_counter(1) [of t] by (simp add: counter_key_def)
  have u: "\<not> flushed d (hs_key h)" by (rule active_unflushed [OF assms(1) k])
  have d: "distinct (map hs_key (md_hashes d))" using assms(1) by (simp add: well_kept_def)
  have "\<forall>r\<in>set (md_receipts d). fl_id r \<noteq> hs_key h" using u unfolding flushed_def by (metis imageI)
  then have "well_kept uuid d'"
    using assms(1) k old(3) unfolding old(5)
    by (auto simp: well_kept_def hash_ok_def receipt_ok_def map_update_where set_update_where
        COUNTER_TTL_MS_def COUNTER_TTL_SECONDS_def)
  moreover have "balanced d d'"
  proof (rule balancedI)
    fix t' j
    have "in_redis t' j d' = in_redis t' j d + (if counted \<and> j = i \<and> t' = t then 1 else 0)"
      using u t old(4) [of j] sum_update_where [OF d old(1), of "unflushed_count t' j d"]
        unflushed_count_receipts [of d' d t' j]
      unfolding old(5) in_redis_def by (auto simp: unflushed_count_def hash_count_def)
    then show "in_redis t' j d' + expired t' j d' - hits t' j d' = in_redis t' j d + expired t' j d - hits t' j d"
      unfolding old(5) by (auto simp: expired_def hits_def)
  qed (simp add: old(5))
  ultimately show ?thesis ..
qed

lemma elapse_accounted:
  assumes "well_kept uuid d"
  shows "well_kept uuid (elapse n d) \<and> balanced d (elapse n d)"
proof
  show "well_kept uuid (elapse n d)"
    using assms by (auto simp: well_kept_def elapse_def Let_def hash_ok_def receipt_ok_def intro: distinct_map_filter)
  show "balanced d (elapse n d)"
  proof (rule balancedI)
    fix t i
    let ?P = "\<lambda>h. md_clock d + int n < hs_expiresAt h"
    have "sum_list (map (unflushed_count t i d) (filter (\<lambda>h. \<not> ?P h) (md_hashes d))) =
        sum_list (map (hash_count t i) (filter (\<lambda>h. \<not> ?P h \<and> \<not> flushed d (hs_key h)) (md_hashes d)))"
      unfolding unflushed_count_def by (rule sum_filter_if)
    then show "in_redis t i (elapse n d) + expired t i (elapse n d) - hits t i (elapse n d) =
        in_redis t i d + expired t i d - hits t i d"
      using sum_filter [of "unflushed_count t i d" "md_hashes d" ?P]
      by (simp add: elapse_def Let_def in_redis_def expired_def hits_def unflushed_count_def [abs_def] flushed_def)
  qed (simp add: elapse_def Let_def)
qed

lemma retain_accounted:
  assumes "well_kept uuid d"
  shows "well_kept uuid (retain_metrics d) \<and> balanced d (retain_metrics d)"
proof
  show "well_kept uuid (retain_metrics d)"
    using assms by (auto simp: well_kept_def retain_metrics_def Let_def hash_ok_def receipt_ok_def)
  have "flushed (retain_metrics d) (hs_key h) = flushed d (hs_key h)" if "h \<in> set (md_hashes d)" for h
    using assms that unfolding well_kept_def hash_ok_def receipt_ok_def
    by (fastforce simp: flushed_def retain_metrics_def Let_def RETENTION_MS_def COUNTER_TTL_MS_def COUNTER_TTL_SECONDS_def)
  then show "balanced d (retain_metrics d)"
    by (intro balancedI)
      (simp_all add: in_redis_def unflushed_count_def expired_def hits_def retain_metrics_def Let_def cong: map_cong)
qed

subsection \<open>Commands and other clients\<close>

definition late :: "metrics_db \<Rightarrow> bool" where
  "late d \<longleftrightarrow> YEAR_10000 \<le> md_clock d"

text \<open>
  What holds between two commands: the accounts, that the batches of \<open>K\<close> are known, that those of \<open>S\<close>
  are flushed or gone, and that those of \<open>N\<close> do not exist yet.
\<close>

definition settled :: "string \<Rightarrow> metrics_db \<Rightarrow> bool" where
  "settled k d \<longleftrightarrow> flushed d k \<or> find_hash k d = None"

definition kept ::
  "(nat \<Rightarrow> string) \<Rightarrow> metrics_db \<Rightarrow> string set \<Rightarrow> string set \<Rightarrow> string set \<Rightarrow> metrics_db \<Rightarrow> bool" where
  "kept uuid d\<^sub>0 K S N d \<longleftrightarrow> \<not> late d \<and> well_kept uuid d \<and> balanced d\<^sub>0 d \<and>
     (\<forall>k\<in>K \<union> S \<union> N. batch_key uuid (md_drawn d) k) \<and> (\<forall>k\<in>S. settled k d) \<and>
     (\<forall>k\<in>N. \<not> flushed d k \<and> find_hash k d = None)"

definition on_time :: "(metrics_db \<Rightarrow> bool) \<Rightarrow> metrics_db \<Rightarrow> bool" where
  "on_time P d \<longleftrightarrow> late d \<or> P d"

lemma on_time_mono: "on_time P d \<Longrightarrow> (\<And>d. P d \<Longrightarrow> Q d) \<Longrightarrow> on_time Q d"
  by (auto simp: on_time_def)

lemma kept_mono: "kept uuid d\<^sub>0 K S N d \<Longrightarrow> K' \<subseteq> K \<Longrightarrow> S' \<subseteq> S \<Longrightarrow> N' \<subseteq> N \<Longrightarrow> kept uuid d\<^sub>0 K' S' N' d"
  unfolding kept_def by blast

lemma other_client_fixed:
  "md_drawn (other_client a d) = md_drawn d" "md_receipts (other_client a d) = md_receipts d"
  by (cases a; auto simp: count_hit_def elapse_def Let_def split: option.splits)+

lemma other_client_absent:
  assumes "find_hash k d = None" "\<not> active_key k" "0 \<le> md_clock d" "\<not> late d"
  shows "find_hash k (other_client a d) = None"
proof (cases a)
  case (Hit t i)
  have "k \<noteq> adMetricCounterKey (metric_name t) (adsUtcDay (md_clock d))"
    using day_key_active [of "md_clock d" t] assms(2-4) by (auto simp: late_def)
  with Hit assms(1) show ?thesis
    unfolding find_hash_None by (auto simp: count_hit_def Let_def set_update_where split: option.splits)
qed (use assms(1) in \<open>auto simp: find_hash_None elapse_def Let_def\<close>)

lemma kept_other:
  assumes "kept uuid d\<^sub>0 K S N d"
  shows "on_time (kept uuid d\<^sub>0 K S N) (other_client a d)"
proof (cases "late (other_client a d)")
  case False
  let ?d = "other_client a d"
  have w: "well_kept uuid d" "balanced d\<^sub>0 d" "\<not> late d" using assms by (auto simp: kept_def)
  have "well_kept uuid ?d \<and> balanced d ?d"
    using hit_accounted [OF w(1)] elapse_accounted [OF w(1)] w(3)
    by (cases a) (auto simp: late_def prod_eq_iff)
  moreover have "find_hash k ?d = None" if "k \<in> S \<union> N" "find_hash k d = None" for k
  proof (rule other_client_absent)
    show "\<not> active_key k" using that(1) assms active_not_batch unfolding kept_def by blast
  qed (use that(2) w in \<open>auto simp: well_kept_def\<close>)
  moreover have "flushed ?d k = flushed d k" for k by (simp add: flushed_def other_client_fixed)
  ultimately show ?thesis
    using assms False w(2) unfolding on_time_def kept_def settled_def other_client_fixed
    by (auto dest: balanced_trans)
qed (simp add: on_time_def)

lemma late_other: "late d \<Longrightarrow> late (other_client a d)"
  by (cases a) (auto simp: late_def count_hit_def elapse_def Let_def split: option.splits)

lemma triple_on_time:
  assumes "triple P m (\<lambda>x. on_time (Q x)) (on_time E)" "keeps late m"
  shows "triple (on_time P) m (\<lambda>x. on_time (Q x)) (on_time E)"
  using assms unfolding triple_def on_time_def by (fastforce split: prod.splits sum.splits)

lemma keeps_others: "keeps (on_time (kept uuid d\<^sub>0 K S N)) (db_mod (fold other_client as))"
proof (rule keeps_mod)
  show "on_time (kept uuid d\<^sub>0 K S N) (fold other_client as d)" if "on_time (kept uuid d\<^sub>0 K S N) d" for d
    using that
  proof (induction as arbitrary: d)
    case (Cons a as)
    have "on_time (kept uuid d\<^sub>0 K S N) (other_client a d)"
      using Cons.prems kept_other [of uuid d\<^sub>0 K S N d a] late_other [of d a] by (auto simp: on_time_def)
    then show ?case using Cons.IH by simp
  qed simp
qed

lemma keeps_late_others: "keeps late (db_mod (fold other_client as))"
proof (rule keeps_mod)
  show "late (fold other_client as d)" if "late d" for d
    using that by (induction as arbitrary: d) (auto intro: late_other)
qed

lemma redis_call_late: "keeps late command \<Longrightarrow> keeps late (redis_call deps command)"
  unfolding redis_call_def
  by (intro keeps_rules keeps_bind keeps_then keeps_late_others triple_prod triple_if) auto

lemma triple_redis:
  assumes "triple (kept uuid d\<^sub>0 K S N) command Q E" "keeps late command"
    and "\<And>x d. Q x d \<Longrightarrow> E d" "\<And>d. kept uuid d\<^sub>0 K S N d \<Longrightarrow> E d"
  shows "triple (on_time (kept uuid d\<^sub>0 K S N)) (redis_call deps command) (\<lambda>x. on_time (Q x)) (on_time E)"
proof -
  have c: "triple (on_time (kept uuid d\<^sub>0 K S N)) command (\<lambda>x. on_time (Q x)) (on_time E)"
    by (rule triple_on_time [OF triple_conseq [OF assms(1)] assms(2)]) (auto simp: on_time_def)
  have o: "triple (on_time (kept uuid d\<^sub>0 K S N)) (db_mod (fold other_client as)) (\<lambda>_. on_time (kept uuid d\<^sub>0 K S N)) (on_time E)" for as
    by (rule triple_conseq [OF keeps_others]) (auto simp: on_time_def assms(4))
  show ?thesis
    unfolding redis_call_def
    by (intro triple_bind [where B = "\<lambda>_. on_time (kept uuid d\<^sub>0 K S N)"] triple_extern triple_prod triple_then [OF o]
        triple_bind [OF c] triple_if triple_ret triple_throw) (auto simp: on_time_def assms(3,4))
qed

end
