(* ===== verification/Metrics_Runs.thy ===== *)
theory Metrics_Runs
  imports Metrics_Facts
begin

section \<open>Flushes, retention and counts in any order\<close>

text \<open>
  The accounting invariant through the programs of theory Metrics: rolling the counters, persisting a
  batch and whole flushes, with other clients between any two commands; then sequences of jobs.
\<close>

subsection \<open>Once the clock is late\<close>

lemma keeps_late_mod: "(\<And>d. md_clock (f d) = md_clock d) \<Longrightarrow> keeps late (db_mod f)"
  by (rule keeps_mod) (simp add: late_def)

lemmas late_rules = redis_call_late keeps_late_mod keeps_ret keeps_throw keeps_get keeps_extern keeps_bind
  keeps_then keeps_catch keeps_transactional keeps_foldp triple_if triple_prod triple_option

lemma rename_late: "keeps late (rename_if_exists a b)"
  unfolding rename_if_exists_def by (intro late_rules) auto

lemma del_late: "keeps late (del_hash deps k)"
  unfolding del_hash_def by (intro late_rules) auto

lemma scan_late: "keeps late (scanKeys deps pattern)"
  unfolding scanKeys_def by (intro late_rules)

lemma uuid_late: "keeps late (randomUUID deps)"
  unfolding randomUUID_def by (intro late_rules) auto

lemma roll_key_late: "keeps late (roll_key deps k batches)"
  unfolding roll_key_def by (intro late_rules uuid_late rename_late)

lemma persist_entry_late: "keeps late (persist_entry t day e tally)"
  unfolding persist_entry_def upsert_daily_def Let_def by (intro late_rules) auto

lemma transaction_late: "keeps late (persist_transaction deps k t day entries)"
  unfolding persist_transaction_def by (intro late_rules persist_entry_late) auto

lemma persist_late: "keeps late (persistBatch deps k)"
  unfolding persistBatch_def by (intro late_rules transaction_late del_late)

lemma count_command_late:
  "keeps late (bindp (db_get (count_hit t i)) (\<lambda>(succeeded, d). thenp (db_mod (\<lambda>_. d)) (ret succeeded))
    :: (metrics_db, 'm, 'w, 'e, bool) prog)"
proof (rule keepsI)
  fix s :: "(metrics_db, 'm, 'w) machine"
  assume "late (db s)"
  then have "late (snd (count_hit t i (db s)))" using late_other [of "db s" "Hit t i"] by simp
  then show "late (db (snd (bindp (db_get (count_hit t i))
      (\<lambda>(succeeded, d). thenp (db_mod (\<lambda>_. d)) (ret succeeded)) s :: ('e + bool) \<times> (metrics_db, 'm, 'w) machine)))"
    by (cases "count_hit t i (db s)") (simp add: prog_defs)
qed

lemma count_late: "keeps late (incrementCounter deps t i)"
  unfolding incrementCounter_def
  by (intro keeps_catch keeps_bind keeps_extern triple_if keeps_ret redis_call_late count_command_late)

subsection \<open>Rolling the counters\<close>

abbreviation kept_on_time ::
  "(nat \<Rightarrow> string) \<Rightarrow> metrics_db \<Rightarrow> string set \<Rightarrow> string set \<Rightarrow> string set \<Rightarrow> metrics_db \<Rightarrow> bool" where
  "kept_on_time uuid d\<^sub>0 K S N \<equiv> on_time (kept uuid d\<^sub>0 K S N)"

lemma kept_hashes: "kept uuid d\<^sub>0 K S N d \<Longrightarrow> k \<in> hs_key ` set (md_hashes d) \<Longrightarrow> active_key k \<or> batch_key uuid (md_drawn d) k"
  by (auto simp: kept_def well_kept_def hash_ok_def)

lemma scanned:
  assumes "\<And>k. active_key k \<Longrightarrow> A k \<Longrightarrow> \<not> glob pattern k"
  shows "triple (kept_on_time uuid d\<^sub>0 K {} {}) (scanKeys deps pattern)
    (\<lambda>ks. kept_on_time uuid d\<^sub>0 (K \<union> {k \<in> set ks. A k}) {} {}) (kept_on_time uuid d\<^sub>0 K {} {})"
proof -
  let ?I = "\<lambda>ks. kept_on_time uuid d\<^sub>0 (K \<union> {k \<in> set ks. A k}) {} {}"
  let ?E = "kept_on_time uuid d\<^sub>0 K {} {}"
  have found: "triple (kept uuid d\<^sub>0 (K \<union> {k \<in> set ks. A k}) {} {}) (db_get (scan_page pattern page))
      (\<lambda>found. kept uuid d\<^sub>0 (K \<union> {k \<in> set (ks @ found). A k}) {} {}) (kept uuid d\<^sub>0 K {} {})" for ks page
  proof (rule triple_get)
    fix d assume d: "kept uuid d\<^sub>0 (K \<union> {k \<in> set ks. A k}) {} {} d"
    have "batch_key uuid (md_drawn d) k" if "k \<in> set (scan_page pattern page d)" "A k" for k
      using kept_hashes [OF d, of k] assms [of k] that by (auto simp: scan_page_def Let_def)
    with d show "kept uuid d\<^sub>0 (K \<union> {k \<in> set (ks @ scan_page pattern page d). A k}) {} {} d"
      by (auto simp: kept_def)
  qed
  have "triple (?I ks) (bindp (redis_call deps (db_get (scan_page pattern page))) (\<lambda>found. ret (ks @ found))) ?I ?E"
    for ks page
  proof (rule triple_bind)
    show "triple (?I ks) (redis_call deps (db_get (scan_page pattern page)))
        (\<lambda>found. ?I (ks @ found)) ?E"
      by (rule triple_redis [OF found keeps_get]) (auto elim: kept_mono)
  qed (auto intro: triple_ret)
  then have loop: "triple (?I []) (foldp (\<lambda>page keys. bindp (redis_call deps (db_get (scan_page pattern page)))
      (\<lambda>found. ret (keys @ found))) pages []) ?I ?E" for pages
    by (intro triple_foldp)
  show ?thesis
    unfolding scanKeys_def
    by (intro triple_bind [where B = "\<lambda>_. kept_on_time uuid d\<^sub>0 K {} {}"] triple_extern triple_prod triple_pre [OF loop])
      auto
qed

lemma distinct_replace: "distinct ks \<Longrightarrow> b \<notin> set ks \<Longrightarrow> distinct (map (\<lambda>k. if k = a then b else k) ks)"
  by (auto simp: distinct_map inj_on_def)

lemma renamed:
  assumes "kept uuid d\<^sub>0 K {} {b} d" "active_key a" "b = a @ FLUSH_MARKER @ u" "find_hash a d = Some h"
  shows "kept uuid d\<^sub>0 K {} {} (md_hashes_update (\<lambda>hs. update_where (\<lambda>h. hs_key h = a)
         (\<lambda>h. h\<lparr>hs_key := b\<rparr>) (filter (\<lambda>h. hs_key h \<noteq> b) hs)) d)" (is "kept _ _ _ _ _ (md_hashes_update ?f d)")
proof -
  let ?hs = "update_where (\<lambda>h. hs_key h = a) (\<lambda>h. h\<lparr>hs_key := b\<rparr>) (md_hashes d)"
  let ?d = "d\<lparr>md_hashes := ?hs\<rparr>"
  have w: "well_kept uuid d" and b: "batch_key uuid (md_drawn d) b" "\<not> flushed d b" "b \<notin> hs_key ` set (md_hashes d)"
    using assms(1) by (auto simp: kept_def find_hash_None)
  have e: "md_hashes_update ?f d = ?d"
  proof -
    have "filter (\<lambda>h. hs_key h \<noteq> b) (md_hashes d) = md_hashes d" using b(3) by (auto simp: filter_id_conv)
    then show ?thesis by simp
  qed
  have keys: "map hs_key ?hs = map (\<lambda>k. if k = a then b else k) (map hs_key (md_hashes d))"
    by (simp add: update_where_def)
  have "distinct (map hs_key ?hs)"
    unfolding keys by (rule distinct_replace) (use w b(3) in \<open>auto simp: well_kept_def\<close>)
  moreover have "\<forall>r\<in>set (md_receipts d). fl_id r \<noteq> b" using b(2) unfolding flushed_def by (metis imageI)
  ultimately have "well_kept uuid ?d"
    using w b(1) by (auto simp: well_kept_def hash_ok_def receipt_ok_def set_update_where)
  moreover have "balanced d ?d"
  proof (rule balancedI)
    fix t i
    have "unflushed_count t i ?d (if hs_key h = a then h\<lparr>hs_key := b\<rparr> else h) = unflushed_count t i d h" for h
      using b(2) active_unflushed [OF w assms(2)] batch_key_type [OF assms(2), of u]
      by (simp add: unflushed_count_def flushed_def hash_count_def assms(3))
    then have "in_redis t i ?d = in_redis t i d" by (simp add: in_redis_def update_where_def comp_def)
    then show "in_redis t i ?d + expired t i ?d - hits t i ?d = in_redis t i d + expired t i d - hits t i d"
      by (simp add: expired_def hits_def)
  qed simp
  ultimately show ?thesis
    unfolding e using assms(1) by (auto simp: kept_def late_def dest: balanced_trans)
qed

lemma rolled:
  assumes "inj (mx_uuid deps)" "\<not> includes_text FLUSH_MARKER a"
  shows "triple (kept_on_time (mx_uuid deps) d\<^sub>0 K {} {}) (roll_key deps a batches)
    (\<lambda>_. kept_on_time (mx_uuid deps) d\<^sub>0 K {} {}) (kept_on_time (mx_uuid deps) d\<^sub>0 K {} {})"
proof (rule triple_on_time [OF _ roll_key_late])
  let ?E = "kept_on_time (mx_uuid deps) d\<^sub>0 K {} {}"
  define N where "N u = (if active_key a then {a @ FLUSH_MARKER @ u} else {})" for u
  have uuid: "triple (kept (mx_uuid deps) d\<^sub>0 K {} {}) (randomUUID deps)
      (\<lambda>u. kept_on_time (mx_uuid deps) d\<^sub>0 K {} (N u)) ?E"
  proof (rule tripleI)
    fix s :: "(metrics_db, unit, 'a) machine" and x s'
    assume k: "kept (mx_uuid deps) d\<^sub>0 K {} {} (db s)" and "randomUUID deps s = (Inr x, s')"
    then have x: "x = mx_uuid deps (md_drawn (db s))" "db s' = (db s)\<lparr>md_drawn := Suc (md_drawn (db s))\<rparr>"
      by (auto simp: randomUUID_def returns)
    have w: "well_kept (mx_uuid deps) (db s)" using k by (simp add: kept_def)
    have mono: "batch_key (mx_uuid deps) (Suc (md_drawn (db s))) k" if "batch_key (mx_uuid deps) (md_drawn (db s)) k" for k
      using batch_key_mono [OF that] by simp
    have r: "in_redis t i (db s') = in_redis t i (db s)" for t i
      using unflushed_count_receipts [of "db s'" "db s" t i] by (simp add: in_redis_def x(2))
    have "balanced (db s) (db s')" by (rule balancedI) (simp_all only: r, simp_all add: x(2) expired_def hits_def)
    moreover have "well_kept (mx_uuid deps) (db s')"
      using w mono unfolding x(2) by (auto simp: well_kept_def hash_ok_def receipt_ok_def)
    moreover have "\<not> flushed (db s) (a @ FLUSH_MARKER @ x) \<and> find_hash (a @ FLUSH_MARKER @ x) (db s) = None"
      if "active_key a"
    proof -
      have ne: "k \<noteq> a @ FLUSH_MARKER @ x" if "active_key k \<or> batch_key (mx_uuid deps) (md_drawn (db s)) k" for k
        using that fresh_batch_key [OF assms(1) \<open>active_key a\<close>, of "md_drawn (db s)" k]
          active_cancel [OF _ \<open>active_key a\<close>, of k "[]"] unfolding x(1) by (auto simp: FLUSH_MARKER_def)
      have "hs_key h \<noteq> a @ FLUSH_MARKER @ x" if "h \<in> set (md_hashes (db s))" for h
        by (rule ne) (use w that in \<open>simp add: well_kept_def hash_ok_def\<close>)
      moreover have "fl_id r \<noteq> a @ FLUSH_MARKER @ x" if "r \<in> set (md_receipts (db s))" for r
        by (rule ne) (use w that in \<open>simp add: well_kept_def receipt_ok_def\<close>)
      ultimately show ?thesis unfolding find_hash_None flushed_def by (metis (no_types, lifting) imageE)
    qed
    moreover have "batch_key (mx_uuid deps) (Suc (md_drawn (db s))) (a @ FLUSH_MARKER @ x)" if "active_key a"
      unfolding batch_key_def x(1) using that by blast
    ultimately have new: "well_kept (mx_uuid deps) (db s')" "balanced (db s) (db s')"
      "active_key a \<Longrightarrow> \<not> flushed (db s) (a @ FLUSH_MARKER @ x) \<and> find_hash (a @ FLUSH_MARKER @ x) (db s) = None"
      "active_key a \<Longrightarrow> batch_key (mx_uuid deps) (Suc (md_drawn (db s))) (a @ FLUSH_MARKER @ x)"
      by blast+
    have same: "\<not> late (db s')" "md_drawn (db s') = Suc (md_drawn (db s))"
      "flushed (db s') k = flushed (db s) k" "find_hash k (db s') = find_hash k (db s)" for k
      using k by (simp_all add: x(2) flushed_def find_hash_def late_def kept_def)
    have "balanced d\<^sub>0 (db s')" using k balanced_trans [OF _ new(2)] by (simp add: kept_def)
    moreover have "\<forall>k\<in>K \<union> {} \<union> N x. batch_key (mx_uuid deps) (md_drawn (db s')) k"
      using k mono new(4) unfolding same(2) by (auto simp: kept_def N_def)
    moreover have "\<forall>k\<in>N x. \<not> flushed (db s') k \<and> find_hash k (db s') = None"
      using new(3) unfolding same(3,4) by (simp add: N_def)
    ultimately have "kept (mx_uuid deps) d\<^sub>0 K {} (N x) (db s')"
      unfolding kept_def using new(1) same(1) by blast
    then show "kept_on_time (mx_uuid deps) d\<^sub>0 K {} (N x) (db s')" by (simp add: on_time_def)
  qed (auto simp: randomUUID_def prog_defs)
  have rename: "triple (kept (mx_uuid deps) d\<^sub>0 K {} (N u)) (rename_if_exists a (a @ FLUSH_MARKER @ u))
      (\<lambda>_. kept (mx_uuid deps) d\<^sub>0 K {} {}) (kept (mx_uuid deps) d\<^sub>0 K {} {})" for u
    unfolding rename_if_exists_def
  proof (rule triple_bind)
    let ?B = "\<lambda>x d. kept (mx_uuid deps) d\<^sub>0 K {} (N u) d \<and> find_hash a d = x"
    show "triple (kept (mx_uuid deps) d\<^sub>0 K {} (N u)) (db_get (find_hash a)) ?B (kept (mx_uuid deps) d\<^sub>0 K {} {})"
      by (rule triple_get) simp
    fix x
    have "kept (mx_uuid deps) d\<^sub>0 K {} {} (md_hashes_update (\<lambda>hs. update_where (\<lambda>h. hs_key h = a)
        (\<lambda>h. h\<lparr>hs_key := a @ FLUSH_MARKER @ u\<rparr>) (filter (\<lambda>h. hs_key h \<noteq> a @ FLUSH_MARKER @ u) hs)) d)"
      if "?B x d" "x = Some h" for d h
    proof -
      have "active_key a"
        using that kept_hashes [of "mx_uuid deps" d\<^sub>0 K "{}" "N u" d a] find_hash_None [of a d]
          batch_marker [of "mx_uuid deps" "md_drawn d" a] assms(2) by auto
      then show ?thesis using that by (intro renamed) (auto simp: N_def)
    qed
    then show "triple (?B x) (case x of None \<Rightarrow> ret False
        | Some _ \<Rightarrow> thenp (db_mod (md_hashes_update (\<lambda>hs. update_where (\<lambda>h. hs_key h = a)
            (\<lambda>h. h\<lparr>hs_key := a @ FLUSH_MARKER @ u\<rparr>) (filter (\<lambda>h. hs_key h \<noteq> a @ FLUSH_MARKER @ u) hs)))) (ret True))
        (\<lambda>_. kept (mx_uuid deps) d\<^sub>0 K {} {}) (kept (mx_uuid deps) d\<^sub>0 K {} {})"
      by (intro triple_option triple_ret triple_then [where B = "kept (mx_uuid deps) d\<^sub>0 K {} {}"] triple_mod)
        (auto elim: kept_mono)
  qed
  show "triple (kept (mx_uuid deps) d\<^sub>0 K {} {}) (roll_key deps a batches)
      (\<lambda>_. kept_on_time (mx_uuid deps) d\<^sub>0 K {} {}) ?E"
    unfolding roll_key_def
    by (intro triple_bind [OF uuid] triple_bind [OF triple_redis [OF rename rename_late]] triple_ret)
      (auto elim: kept_mono)
qed

subsection \<open>Persisting a batch\<close>

definition owed :: "metric_type \<Rightarrow> metric_type \<Rightarrow> string \<Rightarrow> (string \<times> int) list \<Rightarrow> int" where
  "owed t t' i entries = (if t' = t then sum_list (map (\<lambda>(j, n). if j = i then n else 0) entries) else 0)"

lemma owed_Nil [simp]: "owed t t' i [] = 0"
  by (simp add: owed_def)

lemma owed_fields: "fields_ok fs \<Longrightarrow> owed t t' i (positive_counts fs) = (if t' = t then field_count i fs else 0)"
proof (induction fs)
  case Nil
  then show ?case by (simp add: owed_def positive_counts_def map_filter_simps field_count_def)
next
  case (Cons x fs)
  obtain f n where x: "x = (f, show_int n)" "0 < n" using Cons.prems by (auto simp: fields_ok_def)
  have "map_of fs f = None" using Cons.prems x by (auto simp: fields_ok_def map_of_eq_None_iff)
  moreover have "fields_ok fs" using Cons.prems by (simp add: fields_ok_def)
  ultimately show ?case
    using Cons.IH x by (auto simp: owed_def positive_counts_def map_filter_simps field_count_def)
qed

text \<open>Inside the transaction: the receipt is written, and the entries still to come are owed.\<close>

definition applying ::
  "(nat \<Rightarrow> string) \<Rightarrow> metrics_db \<Rightarrow> string set \<Rightarrow> string \<Rightarrow> metric_type \<Rightarrow> (string \<times> int) list \<Rightarrow> metrics_db \<Rightarrow> bool" where
  "applying uuid d\<^sub>0 K k t entries d \<longleftrightarrow> \<not> late d \<and> well_kept uuid d \<and>
     (\<forall>k'\<in>insert k K. batch_key uuid (md_drawn d) k') \<and> flushed d k \<and>
     map mr_id (md_revisions d) = map mr_id (md_revisions d\<^sub>0) \<and>
     (\<forall>t'. \<forall>i\<in>mr_id ` set (md_revisions d\<^sub>0). balance t' i d + owed t t' i entries = balance t' i d\<^sub>0)"

lemma receipt_written:
  assumes "kept uuid d\<^sub>0 K {} {} d" "k \<in> K" "key_type k = Some t" "\<not> flushed d k"
  shows "applying uuid d\<^sub>0 K k t (positive_counts (hgetall k d))
    (d\<lparr>md_receipts := md_receipts d @ [\<lparr>fl_id = k, fl_bucketDay = day, fl_createdAt = md_clock d\<rparr>]\<rparr>)"
    (is "applying _ _ _ _ _ _ ?d")
proof -
  have w: "well_kept uuid d" "batch_key uuid (md_drawn d) k" using assms(1,2) by (auto simp: kept_def)
  have "well_kept uuid ?d" using w by (auto simp: well_kept_def hash_ok_def receipt_ok_def)
  moreover have "balance t' i ?d + owed t t' i (positive_counts (hgetall k d)) = balance t' i d" for t' i
  proof -
    have u: "unflushed_count t' i ?d = (\<lambda>h. if hs_key h = k then 0 else unflushed_count t' i d h)"
      using assms(4) by (auto simp: unflushed_count_def flushed_def)
    have "distinct (map hs_key (md_hashes d))" using w by (simp add: well_kept_def)
    note sum = sum_without [OF this, of k "unflushed_count t' i d", folded u find_hash_def]
    have "owed t t' i (positive_counts (hgetall k d)) =
        (case find_hash k d of None \<Rightarrow> 0 | Some h \<Rightarrow> unflushed_count t' i d h)"
    proof (cases "find_hash k d")
      case None
      then show ?thesis by (simp add: hgetall_def owed_def positive_counts_def map_filter_simps)
    next
      case (Some h)
      then have "fields_ok (hs_fields h)" "hs_key h = k"
        using find_hash_Some w by (auto simp: well_kept_def hash_ok_def)
      with Some assms(3,4) show ?thesis by (simp add: hgetall_def owed_fields unflushed_count_def hash_count_def)
    qed
    with sum show ?thesis
      by (simp add: balance_def in_redis_def lifetime_def find_metric_revision_def expired_def hits_def)
  qed
  ultimately show ?thesis
    using assms(1,2) w(2) by (auto simp: applying_def kept_def balanced_def late_def flushed_def)
qed

lemma count_of_add: "count_of t' (add_count t n c) = count_of t' c + (if t' = t then n else 0)"
  by (cases t; cases t') simp_all

lemma find_update_where:
  "(\<And>r. key (f r) = key r) \<Longrightarrow> List.find (\<lambda>r. key r = j) (update_where (\<lambda>r. key r = i) f rows) =
     map_option (\<lambda>r. if j = i then f r else r) (List.find (\<lambda>r. key r = j) rows)"
  by (induction rows) (auto simp: update_where_def)

lemma well_kept_tables:
  "md_hashes d' = md_hashes d \<Longrightarrow> md_receipts d' = md_receipts d \<Longrightarrow> md_clock d' = md_clock d \<Longrightarrow>
   md_drawn d' = md_drawn d \<Longrightarrow> map mr_id (md_revisions d') = map mr_id (md_revisions d) \<Longrightarrow>
   well_kept uuid d \<Longrightarrow> well_kept uuid d'"
  by (simp add: well_kept_def hash_ok_def receipt_ok_def)

lemma applying_daily: "applying uuid d\<^sub>0 K k t es d \<Longrightarrow> applying uuid d\<^sub>0 K k t es (md_daily_update f d)"
  using well_kept_tables [of "md_daily_update f d" d uuid] unflushed_count_receipts [of "md_daily_update f d" d]
  by (simp add: applying_def late_def flushed_def balance_def in_redis_def lifetime_def find_metric_revision_def
      expired_def hits_def)

lemma applying_revision:
  assumes "applying uuid d\<^sub>0 K k t ((i, n) # es) d" "find_metric_revision i d = Some r"
  shows "applying uuid d\<^sub>0 K k t es (md_revisions_update (update_where (\<lambda>r. mr_id r = i)
      (\<lambda>r. r\<lparr>mr_lifetime := add_count t n (mr_lifetime r)\<rparr>)) d)" (is "applying _ _ _ _ _ _ ?d")
proof -
  have ids: "map mr_id (md_revisions ?d) = map mr_id (md_revisions d)" by (simp add: map_update_where)
  have "balance t' j ?d = balance t' j d + owed t t' j [(i, n)]" for t' j
    using assms(2) unflushed_count_receipts [of ?d d t' j]
    by (auto simp: balance_def in_redis_def expired_def hits_def lifetime_def owed_def find_metric_revision_def
        find_update_where count_of_add split: option.splits)
  moreover have "owed t t' j ((i, n) # es) = owed t t' j [(i, n)] + owed t t' j es" for t' j
    by (simp add: owed_def)
  moreover have "well_kept uuid ?d"
    by (rule well_kept_tables [of _ d]) (use assms(1) ids in \<open>simp_all add: applying_def\<close>)
  ultimately show ?thesis
    using assms(1) ids by (simp add: applying_def late_def flushed_def add.assoc)
qed

lemma applying_unknown:
  assumes "applying uuid d\<^sub>0 K k t ((i, n) # es) d" "find_metric_revision i d = None"
  shows "applying uuid d\<^sub>0 K k t es d"
proof -
  have "i \<notin> mr_id ` set (md_revisions d)"
    using assms(2) by (auto simp: find_metric_revision_def find_None_iff)
  moreover have "mr_id ` set (md_revisions d) = mr_id ` set (md_revisions d\<^sub>0)"
    using assms(1) unfolding applying_def by (metis list.set_map)
  ultimately have "owed t t' j ((i, n) # es) = owed t t' j es" if "j \<in> mr_id ` set (md_revisions d\<^sub>0)" for t' j
    using that by (auto simp: owed_def)
  with assms(1) show ?thesis by (simp add: applying_def)
qed

lemma entry_applied:
  "triple (applying uuid d\<^sub>0 K k t (e # es)) (persist_entry t day e tally)
     (\<lambda>_. applying uuid d\<^sub>0 K k t es) (\<lambda>_. True)"
proof -
  obtain i n where e: "e = (i, n)" by (cases e)
  let ?A = "applying uuid d\<^sub>0 K k t ((i, n) # es)"
  have daily: "triple (\<lambda>d. ?A d \<and> find_metric_revision i d = Some r) (upsert_daily t day i n)
      (\<lambda>_ d. ?A d \<and> find_metric_revision i d = Some r) (\<lambda>_. True)" for r
    unfolding upsert_daily_def Let_def
    by (intro triple_bind [where B = "\<lambda>_ d. ?A d \<and> find_metric_revision i d = Some r"] triple_get triple_option
        triple_if triple_throw triple_mod) (auto simp: applying_daily find_metric_revision_def)
  show ?thesis
    unfolding persist_entry_def e prod.case
  proof (rule triple_bind [where B = "\<lambda>r d. ?A d \<and> find_metric_revision i d = r"])
    fix r
    show "triple (\<lambda>d. ?A d \<and> find_metric_revision i d = r) (case r of None \<Rightarrow> ret tally
        | Some r \<Rightarrow> thenp (upsert_daily t day i n) (if MAX_INT64 < count_of t (mr_lifetime r) + n then throw Database_failed
            else thenp (db_mod (md_revisions_update (update_where (\<lambda>r. mr_id r = i)
              (\<lambda>r. r\<lparr>mr_lifetime := add_count t n (mr_lifetime r)\<rparr>)))) (ret (tally + n))))
        (\<lambda>_. applying uuid d\<^sub>0 K k t es) (\<lambda>_. True)"
    proof (cases r)
      case (Some r')
      show ?thesis unfolding Some option.case
        by (intro triple_then [OF daily] triple_if triple_throw
            triple_then [where B = "applying uuid d\<^sub>0 K k t es"] triple_mod triple_ret)
          (auto simp: applying_revision)
    qed (auto intro!: triple_ret simp: applying_unknown)
  qed (auto intro: triple_get)
qed

lemma applied_kept: "applying uuid d\<^sub>0 K k t [] d \<Longrightarrow> kept uuid d\<^sub>0 K {k} {} d"
  by (auto simp: applying_def kept_def balanced_def settled_def)

lemma transaction_kept:
  assumes "k \<in> K" "key_type k = Some t"
  shows "triple (\<lambda>d. kept uuid d\<^sub>0 K {} {} d \<and> hgetall k d = c) (persist_transaction deps k t day (positive_counts c))
    (\<lambda>_. kept uuid d\<^sub>0 K {k} {}) (kept uuid d\<^sub>0 K {} {})"
proof -
  let ?P = "\<lambda>d. kept uuid d\<^sub>0 K {} {} d \<and> hgetall k d = c"
  have fold: "triple (applying uuid d\<^sub>0 K k t es) (foldp (persist_entry t day) es 0)
      (\<lambda>_. applying uuid d\<^sub>0 K k t []) (\<lambda>_. True)" for es
    by (rule triple_foldp_rest) (rule entry_applied)
  show ?thesis
    unfolding persist_transaction_def
    by (intro triple_transactional triple_bind [where B = "\<lambda>present d. ?P d \<and> flushed d k = present"] triple_get
        triple_bind [where B = "\<lambda>_. kept uuid d\<^sub>0 K {k} {}"] triple_if triple_ret
        triple_then [where B = "applying uuid d\<^sub>0 K k t (positive_counts c)"] triple_mod triple_bind [OF fold]
        triple_then [where B = "kept uuid d\<^sub>0 K {k} {}"] triple_extern)
      (use assms receipt_written [OF _ assms] in \<open>auto simp: applied_kept, auto simp: kept_def settled_def\<close>)
qed

lemma deleted:
  "triple (kept uuid d\<^sub>0 K {k} {}) (db_mod (md_hashes_update (filter (\<lambda>h. hs_key h \<noteq> k))))
     (\<lambda>_. kept uuid d\<^sub>0 K {} {}) (kept uuid d\<^sub>0 K {} {})"
proof (rule triple_mod)
  fix d assume d: "kept uuid d\<^sub>0 K {k} {} d"
  let ?d = "md_hashes_update (filter (\<lambda>h. hs_key h \<noteq> k)) d"
  have w: "well_kept uuid d" using d by (simp add: kept_def)
  have zero: "unflushed_count t i d h = 0" if "h \<in> set (md_hashes d)" "\<not> hs_key h \<noteq> k" for t i h
    using d that by (auto simp: kept_def settled_def unflushed_count_def find_hash_None)
  have "in_redis t i ?d = in_redis t i d" for t i
    using sum_filter_zero [of "md_hashes d" "\<lambda>h. hs_key h \<noteq> k" "unflushed_count t i d"] zero unflushed_count_receipts [of ?d d t i] by (simp add: in_redis_def)
  then have "balanced d ?d" by (intro balancedI) (simp_all add: expired_def hits_def)
  moreover have "well_kept uuid ?d"
    using w by (auto simp: well_kept_def hash_ok_def receipt_ok_def intro: distinct_map_filter)
  ultimately show "kept uuid d\<^sub>0 K {} {} ?d" using d by (auto simp: kept_def late_def dest: balanced_trans)
qed

lemma persisted:
  assumes "k \<in> K"
  shows "triple (kept_on_time uuid d\<^sub>0 K {} {}) (persistBatch deps k)
    (\<lambda>_. kept_on_time uuid d\<^sub>0 K {} {}) (kept_on_time uuid d\<^sub>0 K {} {})"
proof (rule triple_on_time [OF triple_given persist_late])
  let ?K = "kept uuid d\<^sub>0 K" and ?E = "kept_on_time uuid d\<^sub>0 K {} {}"
  fix d assume "?K {} {} d"
  with assms obtain a i where a: "active_key a" "k = a @ FLUSH_MARKER @ uuid i"
    by (auto simp: kept_def batch_key_def)
  obtain t day where b: "bucketFromBatchKey k = Some (t, Some day)" "key_type k = Some t"
    using batch_bucket [OF a(1), of "uuid i"] batch_key_type [OF a(1)] a(2) by auto
  have read: "triple ?E (redis_call deps (db_get (hgetall k)))
      (\<lambda>c. on_time (\<lambda>d. ?K {} {} d \<and> hgetall k d = c)) ?E"
    by (rule triple_redis [OF triple_get keeps_get]) auto
  have commit: "triple (on_time (\<lambda>d. ?K {} {} d \<and> hgetall k d = c)) (persist_transaction deps k t day (positive_counts c))
      (\<lambda>_. kept_on_time uuid d\<^sub>0 K {k} {}) ?E" for c
    by (rule triple_on_time [OF triple_conseq [OF transaction_kept [OF assms b(2)]] transaction_late])
      (auto simp: on_time_def)
  have del: "triple (kept_on_time uuid d\<^sub>0 K {k} {}) (del_hash deps k) (\<lambda>_. ?E) ?E"
    unfolding del_hash_def by (rule triple_redis [OF deleted keeps_late_mod]) (auto elim: kept_mono)
  show "triple (?K {} {}) (persistBatch deps k) (\<lambda>_. ?E) ?E"
    unfolding persistBatch_def b(1) option.case prod.case
    by (rule triple_pre [where P = ?E], intro triple_bind [OF read] triple_bind [OF commit] triple_prod
        triple_then [OF triple_extern, where B = "kept_on_time uuid d\<^sub>0 K {k} {}"] triple_then [OF del] triple_ret)
      (use kept_mono [of uuid d\<^sub>0 K "{k}" "{}" _ K "{}" "{}"] in \<open>auto simp: on_time_def\<close>)
qed

subsection \<open>Jobs\<close>

lemma flushed_type:
  assumes "inj (mx_uuid deps)"
  shows "keeps (kept_on_time (mx_uuid deps) d\<^sub>0 {} {} {}) (flush_type deps t results)"
proof -
  let ?I = "\<lambda>K. kept_on_time (mx_uuid deps) d\<^sub>0 K {} {}"
  let ?p = "adMetricCounterKey (metric_name t) ''*''"
  have fewer: "?I K d \<Longrightarrow> ?I {} d" for K d by (auto elim!: on_time_mono kept_mono)
  have roll: "keeps (?I {}) (rollActiveCounters deps ?p)"
    unfolding rollActiveCounters_def
    by (rule triple_bind [where B = "\<lambda>_. ?I {}"])
      (use scanned [of "\<lambda>_. False" ?p "mx_uuid deps" d\<^sub>0 "{}" deps] in \<open>auto intro!: keeps_foldp rolled assms\<close>)
  have batches: "triple (?I {}) (scanKeys deps (?p @ FLUSH_MARKER @ ''*'')) (\<lambda>ks. ?I (set ks)) (?I {})"
    using scanned [of "\<lambda>_. True", OF batch_pattern, of "mx_uuid deps" d\<^sub>0 "{}" deps t] by simp
  have persist: "triple (?I (set ks)) (foldp (\<lambda>batch results. bindp (persistBatch deps batch)
      (\<lambda>r. ret (results @ [r]))) ks results) (\<lambda>_. ?I {}) (?I {})" for ks
    by (rule triple_conseq [OF keeps_foldp [where I = "?I (set ks)"]])
      (auto intro!: triple_bind [OF persisted] triple_ret fewer)
  show ?thesis
    unfolding flush_type_def Let_def by (intro triple_then [OF roll] triple_bind [OF batches] persist)
qed

lemma flush_kept: "inj (mx_uuid deps) \<Longrightarrow> keeps (kept_on_time (mx_uuid deps) d\<^sub>0 {} {} {}) (flushAdResolutionMetrics deps)"
  unfolding flushAdResolutionMetrics_def by (intro keeps_bind keeps_foldp flushed_type keeps_ret)

lemma count_kept: "keeps (kept_on_time uuid d\<^sub>0 {} {} {}) (incrementCounter deps t i)"
proof -
  have hit: "triple (kept uuid d\<^sub>0 {} {} {}) (bindp (db_get (count_hit t i))
      (\<lambda>(succeeded, d). thenp (db_mod (\<lambda>_. d)) (ret succeeded)))
      (\<lambda>_. kept uuid d\<^sub>0 {} {} {}) (kept uuid d\<^sub>0 {} {} {})"
  proof (rule triple_bind [where B = "\<lambda>r _. kept uuid d\<^sub>0 {} {} {} (snd r)"])
    show "triple (kept uuid d\<^sub>0 {} {} {}) (db_get (count_hit t i)) (\<lambda>r _. kept uuid d\<^sub>0 {} {} {} (snd r)) (kept uuid d\<^sub>0 {} {} {})"
    proof (rule triple_get)
      fix d assume d: "kept uuid d\<^sub>0 {} {} {} d"
      have "late (other_client (Hit t i) d) = late d"
        by (auto simp: late_def count_hit_def Let_def split: option.splits)
      then show "kept uuid d\<^sub>0 {} {} {} (snd (count_hit t i d))"
        using kept_other [OF d, of "Hit t i"] d by (auto simp: on_time_def kept_def)
    qed
  qed (auto intro!: triple_prod triple_then [where B = "kept uuid d\<^sub>0 {} {} {}"] triple_mod triple_ret)
  show ?thesis
    unfolding incrementCounter_def
    by (intro keeps_catch keeps_bind keeps_extern triple_if keeps_ret triple_redis [OF hit count_command_late])
qed

lemma job_kept:
  assumes "inj (mx_uuid deps)" "kept_on_time (mx_uuid deps) d\<^sub>0 {} {} {} (db s)"
  shows "kept_on_time (mx_uuid deps) d\<^sub>0 {} {} {} (db (run_metrics_job deps job s))"
proof (cases job)
  case Flush_job
  then show ?thesis using keepsD [OF flush_kept [OF assms(1)] assms(2)] by (simp add: run_metrics_job_def)
next
  case Retain_job
  have "late (retain_metrics d) = late d" for d by (simp add: late_def retain_metrics_def Let_def)
  with Retain_job assms(2) show ?thesis
    using retain_accounted [of "mx_uuid deps" "db s"]
    by (auto simp: run_metrics_job_def on_time_def kept_def dest: balanced_trans)
next
  case (Count_job t i)
  then show ?thesis using keepsD [OF count_kept assms(2)] by (simp add: run_metrics_job_def)
next
  case (Other_job a)
  then show ?thesis
    using keepsD [OF keeps_others [of _ _ _ _ _ "[a]"] assms(2)]
    by (simp add: run_metrics_job_def db_mod_def)
qed

lemma jobs_kept:
  "inj (mx_uuid deps) \<Longrightarrow> kept_on_time (mx_uuid deps) d\<^sub>0 {} {} {} (db s)
   \<Longrightarrow> kept_on_time (mx_uuid deps) d\<^sub>0 {} {} {} (db (run_metrics_jobs deps jobs s))"
  by (induction jobs arbitrary: s) (auto simp: run_metrics_jobs_def job_kept)

text \<open>An empty Redis, no receipts and no history.\<close>

definition no_impressions :: "metrics_db \<Rightarrow> bool" where
  "no_impressions d \<longleftrightarrow> md_hashes d = [] \<and> md_receipts d = [] \<and> md_counted d = [] \<and> md_expired d = [] \<and>
     0 \<le> md_clock d \<and> distinct (map mr_id (md_revisions d))"

text \<open>
  C4: Every impression that Redis counted for a revision is, after any sequence of flushes, retentions and counts,
  in exactly one place: in the lifetime total of its revision, in a hash that is still to be flushed, or in
  a hash that expired before a flush reached it. This holds whatever commands of Redis were refused or
  executed without an answer, whatever transactions failed or committed without an answer, whatever keys
  a scan repeated or missed, and whatever the API counted between two commands of a flush; and although the
  retention removes receipts after a year, since a batch does not live longer than fourteen days.
\<close>

theorem impressions_counted_once:
  assumes "inj (mx_uuid deps)" "no_impressions (db s)"
    and "md_clock (db (run_metrics_jobs deps jobs s)) < YEAR_10000"
    and "r \<in> set (md_revisions (db s))"
  shows "lifetime t (mr_id r) (db (run_metrics_jobs deps jobs s)) =
    lifetime t (mr_id r) (db s) + hits t (mr_id r) (db (run_metrics_jobs deps jobs s))
    - in_redis t (mr_id r) (db (run_metrics_jobs deps jobs s)) - expired t (mr_id r) (db (run_metrics_jobs deps jobs s))"
proof -
  have "kept_on_time (mx_uuid deps) (db s) {} {} {} (db s)"
    using assms(2) by (auto simp: on_time_def kept_def no_impressions_def well_kept_def balanced_def)
  from jobs_kept [OF assms(1) this, of jobs]
  have "balance t (mr_id r) (db (run_metrics_jobs deps jobs s)) = balance t (mr_id r) (db s)"
    using assms(3,4) by (auto simp: on_time_def kept_def balanced_def late_def)
  moreover have "balance t (mr_id r) (db s) = lifetime t (mr_id r) (db s)"
    using assms(2) by (simp add: no_impressions_def balance_def in_redis_def expired_def hits_def)
  ultimately show ?thesis by (simp add: balance_def)
qed

end
