(* ===== verification/Metrics_Samples.thy ===== *)
theory Metrics_Samples
  imports Metrics_Runs
begin

section \<open>Instances on the counters\<close>

text \<open>
  A day of one revision: two views are counted, a first flush adds the batch to the tables but the answer
  to its deletion is lost, a third view is counted between two commands, and a second flush follows.
\<close>

text \<open>The world is the number of commands so far; the answer to the command \<open>k\<close> is lost.\<close>

definition metrics_sample_deps :: "nat \<Rightarrow> nat metrics_deps" where
  "metrics_sample_deps k = \<lparr>
     mx_network = (\<lambda>n. (Inr (if n = 7 then [Elapse 1000, Hit Views ''r''] else [], n \<noteq> k), Suc n)),
     mx_pages = (\<lambda>n. (Inr (\<lambda>keys. keys, []), n)),
     mx_database = (\<lambda>n. (Inr (), n)),
     mx_connect = (\<lambda>n. (Inr True, n)),
     mx_uuid = (\<lambda>n. replicate n (CHR ''u''))\<rparr>"

definition metrics_sample :: "(metrics_db, unit, nat) machine" where
  "metrics_sample = \<lparr>db = \<lparr>md_revisions = [\<lparr>mr_id = ''r'', mr_lifetime = no_counts\<rparr>], md_daily = [], md_receipts = [],
     md_hashes = [], md_clock = 1700000000000, md_drawn = 0, md_counted = [], md_expired = []\<rparr>,
     mem = (), world = 0\<rparr>"

definition metrics_sample_jobs :: "metrics_job list" where
  "metrics_sample_jobs = [Count_job Views ''r'', Count_job Views ''r'', Flush_job, Retain_job, Flush_job]"

definition metrics_outcome :: "metrics_db \<Rightarrow> bool \<times> int \<times> int \<times> int \<times> nat" where
  "metrics_outcome d = (md_clock d < YEAR_10000, hits Views ''r'' d, in_redis Views ''r'' d, expired Views ''r'' d,
     length (md_receipts d))"

lemma sample_flush:
  "metrics_outcome (db (run_metrics_jobs (metrics_sample_deps 8) metrics_sample_jobs metrics_sample)) = (True, 3, 0, 0, 2)"
  by code_simp

lemma sample_start: "lifetime Views ''r'' (db metrics_sample) = 0"
  by code_simp

theorem impressions_counted_once_witness:
  "lifetime Views ''r'' (db (run_metrics_jobs (metrics_sample_deps 8) metrics_sample_jobs metrics_sample)) = 3"
proof -
  have "inj (mx_uuid (metrics_sample_deps 8))"
    by (rule injI) (simp add: metrics_sample_deps_def)
  moreover have "no_impressions (db metrics_sample)" by code_simp
  moreover have "\<lparr>mr_id = ''r'', mr_lifetime = no_counts\<rparr> \<in> set (md_revisions (db metrics_sample))"
    by (simp add: metrics_sample_def)
  ultimately show ?thesis
    using impressions_counted_once [of "metrics_sample_deps 8" metrics_sample metrics_sample_jobs
        "\<lparr>mr_id = ''r'', mr_lifetime = no_counts\<rparr>" Views] sample_flush sample_start
    by (simp add: metrics_outcome_def)
qed

end
