(* ===== verification/Ipfs.thy ===== *)
theory Ipfs
  imports Keywords
begin

unbundle bit_operations_syntax

section \<open>IPFS addresses\<close>

text \<open>
  \<^verbatim>\<open>isValidIpfsUri\<close> of \<^verbatim>\<open>packages/shared/src/index.ts\<close> with its decoders. Texts are lists of code points;
  every text that reaches a decoder has passed an ASCII expression. Bytes and \<^verbatim>\<open>BigInt\<close> values are natural
  numbers; the 32-bit buffer of the base-32 decoder stays below $2^{13}$, so it never wraps.
\<close>

subsection \<open>The decoders\<close>

definition codes :: "string \<Rightarrow> utext" where
  "codes s = map of_char s"

fun index_of :: "nat \<Rightarrow> utext \<Rightarrow> nat option" where
  "index_of c [] = None"
| "index_of c (x # xs) = (if c = x then Some 0 else map_option Suc (index_of c xs))"

definition base58_alphabet :: utext where
  "base58_alphabet = codes ''123456789ABCDEFGHJKLMNPQRSTUVWXYZabcdefghijkmnopqrstuvwxyz''"

definition base32_alphabet :: utext where
  "base32_alphabet = codes ''abcdefghijklmnopqrstuvwxyz234567''"

function le_bytes :: "nat \<Rightarrow> nat list" where
  "le_bytes number = (if number = 0 then [] else (number AND 255) # le_bytes (drop_bit 8 number))"
  by pat_completeness auto
termination by (relation "measure id") (auto simp: drop_bit_eq_div)

declare le_bytes.simps [simp del]

fun base58_number :: "nat \<Rightarrow> utext \<Rightarrow> nat option" where
  "base58_number number [] = Some number"
| "base58_number number (character # rest) = (case index_of character base58_alphabet of
     None \<Rightarrow> None
   | Some digit \<Rightarrow> base58_number (number * 58 + digit) rest)"

definition decodeBase58 :: "utext \<Rightarrow> nat list option" where
  "decodeBase58 value = (case base58_number 0 value of
     None \<Rightarrow> None
   | Some number \<Rightarrow> Some (rev (le_bytes number @ map (\<lambda>_. 0) (takeWhile (\<lambda>c. c = 49) value))))"

fun base32_loop :: "utext \<Rightarrow> nat list \<Rightarrow> nat \<Rightarrow> nat \<Rightarrow> nat list option" where
  "base32_loop [] output buffer bits = (if bits > 0 \<and> buffer \<noteq> 0 then None else Some output)"
| "base32_loop (character # rest) output buffer bits = (case index_of character base32_alphabet of
     None \<Rightarrow> None
   | Some digit \<Rightarrow>
       let buffer = push_bit 5 buffer OR digit; bits = bits + 5 in
       if bits \<ge> 8 then
         let bits = bits - 8 in
         base32_loop rest (output @ [drop_bit bits buffer AND 255]) (buffer AND (push_bit bits 1 - 1)) bits
       else base32_loop rest output buffer bits)"

definition decodeBase32 :: "utext \<Rightarrow> nat list option" where
  "decodeBase32 value = base32_loop value [] 0 0"

definition NUMBER_MAX_SAFE_INTEGER :: nat where
  "NUMBER_MAX_SAFE_INTEGER = 9007199254740991"

text \<open>The loop over at most ten bytes; the pair is the value and the next offset.\<close>

fun varint_loop :: "nat list \<Rightarrow> nat \<Rightarrow> nat \<Rightarrow> nat \<Rightarrow> nat \<Rightarrow> (nat \<times> nat) option" where
  "varint_loop [] offset index value shift = None"
| "varint_loop (byte # rest) offset index value shift =
     (let value = value OR push_bit shift (byte AND 127) in
      if byte AND 128 = 0 then
        if index > offset \<and> byte = 0 then None
        else if value > NUMBER_MAX_SAFE_INTEGER then None
        else Some (value, index + 1)
      else varint_loop rest offset (index + 1) value (shift + 7))"

definition readVarint :: "nat list \<Rightarrow> nat \<Rightarrow> (nat \<times> nat) option" where
  "readVarint bytes offset = varint_loop (take 10 (drop offset bytes)) offset offset 0 0"

subsection \<open>Addresses\<close>

definition cidv1 :: "nat list \<Rightarrow> bool" where
  "cidv1 decoded = (case readVarint decoded 0 of
     None \<Rightarrow> False
   | Some (version, next) \<Rightarrow> version = 1 \<and> (case readVarint decoded next of
       None \<Rightarrow> False
     | Some (codec, next) \<Rightarrow> codec \<ge> 1 \<and> (case readVarint decoded next of
         None \<Rightarrow> False
       | Some (hashCode, next) \<Rightarrow> hashCode \<ge> 1 \<and> (case readVarint decoded next of
           None \<Rightarrow> False
         | Some (digestLength, next) \<Rightarrow> digestLength > 0 \<and> next + digestLength = length decoded))))"

definition isStructurallyValidCid :: "utext \<Rightarrow> bool" where
  "isStructurallyValidCid value =
     (if length value = 46 \<and> take 2 value = codes ''Qm'' \<and> set (drop 2 value) \<subseteq> set base58_alphabet then
        (case decodeBase58 value of
           None \<Rightarrow> False
         | Some decoded \<Rightarrow> length decoded = 34 \<and> decoded ! 0 = 18 \<and> decoded ! 1 = 32)
      else if \<not> (take 1 value = codes ''b'' \<and> drop 1 value \<noteq> [] \<and> set (drop 1 value) \<subseteq> set base32_alphabet) then False
      else (case decodeBase32 (drop 1 value) of None \<Rightarrow> False | Some decoded \<Rightarrow> cidv1 decoded))"

fun split_at :: "nat \<Rightarrow> utext \<Rightarrow> utext list" where
  "split_at c [] = [[]]"
| "split_at c (x # xs) = (if x = c then [] # split_at c xs
     else (case split_at c xs of p # ps \<Rightarrow> (x # p) # ps | [] \<Rightarrow> [[x]]))"

text \<open>\<^verbatim>\<open>/[A-Za-z0-9._~!$&'()*+,;=:@%-]/\<close>\<close>

definition segment_point :: "nat \<Rightarrow> bool" where
  "segment_point c \<longleftrightarrow> (48 \<le> c \<and> c \<le> 57) \<or> (65 \<le> c \<and> c \<le> 90) \<or> (97 \<le> c \<and> c \<le> 122) \<or>
     c \<in> set (codes ''._~!$&()*+,;=:@%-'') \<or> c = 39"

definition isValidIpfsUri :: "utext \<Rightarrow> bool" where
  "isValidIpfsUri value =
     (if value = [] then True
      else if take 7 value \<noteq> codes ''ipfs://'' \<or> 63 \<in> set value \<or> 35 \<in> set value then False
      else (case split_at 47 (drop 7 value) of
        [] \<Rightarrow> False
      | cid # path \<Rightarrow> cid \<noteq> [] \<and> isStructurallyValidCid cid \<and> list_all (list_all segment_point) path))"

subsection \<open>Positional notation\<close>

text \<open>The big-endian value of digits, and the digits of a value at a fixed length.\<close>

definition big_endian :: "nat \<Rightarrow> nat list \<Rightarrow> nat" where
  "big_endian base ds = foldl (\<lambda>v d. v * base + d) 0 ds"

fun digits_of :: "nat \<Rightarrow> nat \<Rightarrow> nat \<Rightarrow> nat list" where
  "digits_of base 0 v = []"
| "digits_of base (Suc n) v = digits_of base n (v div base) @ [v mod base]"

lemma big_endian_snoc: "big_endian b (ds @ [d]) = big_endian b ds * b + d"
  by (simp add: big_endian_def)

lemma length_digits_of [simp]: "length (digits_of b n v) = n"
  by (induction b n v rule: digits_of.induct) simp_all

lemma digits_of_bound: "0 < b \<Longrightarrow> list_all (\<lambda>d. d < b) (digits_of b n v)"
  by (induction b n v rule: digits_of.induct) simp_all

lemma big_endian_digits_of: "v < b ^ n \<Longrightarrow> big_endian b (digits_of b n v) = v"
proof (induction b n v rule: digits_of.induct)
  case (1 b v)
  then show ?case by (simp add: big_endian_def)
next
  case (2 b n v)
  then have "v div b < b ^ n" by (simp add: less_mult_imp_div_less mult.commute)
  with 2 show ?case by (simp add: big_endian_snoc)
qed

lemma big_endian_bound: "list_all (\<lambda>d. d < b) ds \<Longrightarrow> big_endian b ds < b ^ length ds"
proof (induction ds rule: rev_induct)
  case (snoc d ds)
  then have "big_endian b ds + 1 \<le> b ^ length ds" "d < b" by simp_all
  then have "(big_endian b ds + 1) * b \<le> b ^ length ds * b" by (intro mult_le_mono1)
  with \<open>d < b\<close> show ?case by (simp add: big_endian_snoc mult.commute)
qed (simp add: big_endian_def)

lemma big_endian_inject:
  "list_all (\<lambda>d. d < b) ds \<Longrightarrow> list_all (\<lambda>d. d < b) es \<Longrightarrow> length ds = length es \<Longrightarrow>
   big_endian b ds = big_endian b es \<Longrightarrow> ds = es"
proof (induction ds arbitrary: es rule: rev_induct)
  case (snoc d ds)
  then obtain e es' where es: "es = es' @ [e]" by (cases es rule: rev_cases) auto
  with snoc.prems have b: "d < b" "e < b" "big_endian b ds * b + d = big_endian b es' * b + e"
    by (simp_all add: big_endian_snoc)
  then have "d = e"
    by (metis mod_less mod_mult_self3)
  moreover from this b have "big_endian b ds = big_endian b es'" by simp
  ultimately show ?case using snoc es by simp
qed simp

lemma big_endian_Cons: "big_endian b (d # ds) = d * b ^ length ds + big_endian b ds"
  by (induction ds rule: rev_induct) (simp_all add: big_endian_def algebra_simps)

lemma digits_of_big_endian: "list_all (\<lambda>d. d < b) ds \<Longrightarrow> 0 < b \<Longrightarrow> digits_of b (length ds) (big_endian b ds) = ds"
  by (rule big_endian_inject [of b])
    (simp_all add: digits_of_bound big_endian_digits_of big_endian_bound)

subsection \<open>Base 32\<close>

lemma or_push_bit:
  fixes v x s :: nat
  assumes "v < 2 ^ s"
  shows "v OR push_bit s x = v + x * 2 ^ s"
proof -
  have "\<not> bit v n \<or> \<not> bit (push_bit s x) n" for n
    using assms by (metis bit_push_bit_iff_nat bit_take_bit_iff not_le take_bit_nat_eq_self)
  then have "v + push_bit s x = v OR push_bit s x" by (rule disjunctive_add)
  then show ?thesis by (simp add: push_bit_eq_mult)
qed

lemma index_of_bound: "index_of c xs = Some i \<Longrightarrow> i < length xs"
  by (induction xs arbitrary: i) (auto split: if_splits)

definition base32_digits :: "utext \<Rightarrow> nat list option" where
  "base32_digits s = those (map (\<lambda>c. index_of c base32_alphabet) s)"

definition base32_bytes :: "nat \<Rightarrow> nat \<Rightarrow> nat list option" where
  "base32_bytes bits v = (if v mod 2 ^ (bits mod 8) = 0 then Some (digits_of 256 (bits div 8) (v div 2 ^ (bits mod 8)))
     else None)"

lemma base32_step:
  fixes buffer digit bits :: nat
  assumes "buffer < 2 ^ bits" "bits < 8" "digit < 32" "8 \<le> bits + 5"
  defines "b \<equiv> push_bit 5 buffer OR digit" and "k \<equiv> bits + 5 - 8"
  shows "drop_bit k b AND 255 = (buffer * 32 + digit) div 2 ^ k" and "(buffer * 32 + digit) div 2 ^ k < 256"
    and "b AND (push_bit k 1 - 1) = (buffer * 32 + digit) mod 2 ^ k"
proof -
  have b: "b = buffer * 32 + digit"
    using or_push_bit [of digit 5 buffer] assms(3) by (simp add: b_def or.commute)
  have "buffer * 32 + digit < 2 ^ (k + 8)"
  proof -
    have "(buffer + 1) * 32 \<le> 2 ^ bits * 32" using assms(1) by (intro mult_le_mono1) simp
    moreover have "(2::nat) ^ bits * 32 = 2 ^ (k + 8)" using assms(4) by (simp add: k_def power_add mult.commute)
    ultimately show ?thesis using assms(3) by simp
  qed
  then show small: "(buffer * 32 + digit) div 2 ^ k < 256"
    by (simp add: power_add less_mult_imp_div_less mult.commute)
  have "drop_bit k b AND 255 = take_bit 8 (drop_bit k b)"
    by (simp add: take_bit_eq_mask mask_eq_exp_minus_1)
  with small show "drop_bit k b AND 255 = (buffer * 32 + digit) div 2 ^ k"
    by (simp add: b take_bit_eq_mod drop_bit_eq_div)
  show "b AND (push_bit k 1 - 1) = (buffer * 32 + digit) mod 2 ^ k"
  proof -
    have "push_bit k (1::nat) - 1 = mask k" by (simp add: push_bit_eq_mult mask_eq_exp_minus_1)
    then show ?thesis by (simp only: b take_bit_eq_mask [symmetric] take_bit_eq_mod)
  qed
qed

lemma base32_digits_length: "base32_digits s = Some ds \<Longrightarrow> length ds = length s"
  by (induction s arbitrary: ds) (auto simp: base32_digits_def split: option.splits)

definition base32_rest :: "nat \<Rightarrow> nat \<Rightarrow> utext \<Rightarrow> nat list option" where
  "base32_rest bits v s = (case base32_digits s of None \<Rightarrow> None
    | Some ds \<Rightarrow> base32_bytes (bits + 5 * length s) (v * 32 ^ length s + big_endian 32 ds))"

lemma base32_rest_Cons: "base32_rest bits v (c # s) = (case index_of c base32_alphabet of None \<Rightarrow> None
    | Some d \<Rightarrow> base32_rest (bits + 5) (v * 32 + d) s)"
proof -
  have e: "v * 32 ^ Suc n + (d * 32 ^ n + x) = (v * 32 + d) * 32 ^ n + x" for d n x :: nat
    by (simp add: algebra_simps)
  show ?thesis
    using e by (auto simp: base32_rest_def base32_digits_def big_endian_Cons base32_digits_length ac_simps
      split: option.splits dest: base32_digits_length [unfolded base32_digits_def])
qed

lemma base32_loop_value:
  assumes "buffer < 2 ^ bits" and "bits < 8" and "list_all (\<lambda>d. d < 256) out"
  shows "base32_loop s out buffer bits =
    base32_rest (8 * length out + bits) (big_endian 256 out * 2 ^ bits + buffer) s"
  using assms
proof (induction s arbitrary: out buffer bits)
  case Nil
  then have "(8 * length out + bits) div 8 = length out" "(8 * length out + bits) mod 8 = bits" by simp_all
  with Nil show ?case
    by (simp add: base32_rest_def base32_digits_def base32_bytes_def digits_of_big_endian big_endian_def [of _ "[]"])
      (cases bits; simp)
next
  case (Cons c s)
  show ?case
  proof (cases "index_of c base32_alphabet")
    case None
    then show ?thesis by (simp add: base32_rest_Cons)
  next
    case (Some d)
    then have d: "d < 32" using index_of_bound by (fastforce simp: base32_alphabet_def codes_def)
    let ?n = "buffer * 32 + d" and ?k = "bits + 5 - 8"
    have or: "push_bit 5 buffer OR d = ?n"
      using or_push_bit [of d 5 buffer] d by (simp add: or.commute)
    have n: "?n < 2 ^ (bits + 5)"
    proof -
      have "(buffer + 1) * 32 \<le> 2 ^ bits * 32" using Cons.prems(1) by (intro mult_le_mono1) simp
      then show ?thesis using d by (simp add: power_add)
    qed
    have v: "(big_endian 256 out * 2 ^ bits + buffer) * 32 + d = big_endian 256 out * 2 ^ (bits + 5) + ?n"
      by (simp add: power_add algebra_simps)
    have rest: "base32_rest (8 * length out + bits) (big_endian 256 out * 2 ^ bits + buffer) (c # s) =
        base32_rest (8 * length out + (bits + 5)) (big_endian 256 out * 2 ^ (bits + 5) + ?n) s"
      unfolding base32_rest_Cons Some option.case v add.assoc ..
    show ?thesis
    proof (cases "8 \<le> bits + 5")
      case False
      then show ?thesis
        using Cons.IH [of ?n "bits + 5" out] Cons.prems n
        by (simp add: Some or rest)
    next
      case True
      note step = base32_step [OF Cons.prems(1,2) d True, unfolded or]
      have k: "?k < 8" "8 * length (out @ [?n div 2 ^ ?k]) + ?k = 8 * length out + (bits + 5)"
        using True Cons.prems(2) by simp_all
      have "big_endian 256 (out @ [?n div 2 ^ ?k]) * 2 ^ ?k + ?n mod 2 ^ ?k = big_endian 256 out * 2 ^ (?k + 8) + ?n"
        by (simp add: big_endian_snoc power_add algebra_simps)
      also have "?k + 8 = bits + 5" using True by simp
      finally have e: "big_endian 256 (out @ [?n div 2 ^ ?k]) * 2 ^ ?k + ?n mod 2 ^ ?k = big_endian 256 out * 2 ^ (bits + 5) + ?n" .
      have "base32_loop (c # s) out buffer bits = base32_loop s (out @ [?n div 2 ^ ?k]) (?n mod 2 ^ ?k) ?k"
        using True by (simp add: Some or Let_def step(1) [simplified] step(3) [simplified])
      also have "\<dots> = base32_rest (8 * length out + (bits + 5)) (big_endian 256 out * 2 ^ (bits + 5) + ?n) s"
        using Cons.IH [of "?n mod 2 ^ ?k" ?k "out @ [?n div 2 ^ ?k]", unfolded e k(2)] Cons.prems(3) k(1) step(2) by simp
      finally show ?thesis by (simp only: rest)
    qed
  qed
qed

text \<open>
  The streaming decoder of base 32 is the positional conversion: the characters are the digits of one
  number in base 32, the bytes are that number without its last, incomplete byte in base 256, and the
  decoder refuses exactly the texts with a character outside of the alphabet or a non-zero remainder.
\<close>

theorem decodeBase32_positional:
  "decodeBase32 s = (case base32_digits s of None \<Rightarrow> None
    | Some ds \<Rightarrow> base32_bytes (5 * length s) (big_endian 32 ds))"
  using base32_loop_value [of 0 0 "[]" s] 
  by (simp add: decodeBase32_def base32_rest_def big_endian_def [of _ "[]"] split: option.splits)

subsection \<open>Addresses of content\<close>

text \<open>The encoders of the multiformats specification: \<^verbatim>\<open>unsigned-varint\<close>, base 32 without padding, CIDv1.\<close>

function varint :: "nat \<Rightarrow> nat list" where
  "varint n = (if n < 128 then [n] else (n mod 128 + 128) # varint (n div 128))"
  by pat_completeness auto
termination by (relation "measure id") auto

declare varint.simps [simp del]

definition base32_text :: "nat list \<Rightarrow> utext" where
  "base32_text bs = (let n = (8 * length bs + 4) div 5 in
     map (\<lambda>d. base32_alphabet ! d) (digits_of 32 n (big_endian 256 bs * 2 ^ (5 * n - 8 * length bs))))"

definition cidv1_bytes :: "nat \<Rightarrow> nat \<Rightarrow> nat list \<Rightarrow> nat list" where
  "cidv1_bytes codec hashCode digest = varint 1 @ varint codec @ varint hashCode @ varint (length digest) @ digest"

lemma varint_byte: "list_all (\<lambda>b. b < 256) (varint n)"
  by (induction n rule: varint.induct) (subst varint.simps, auto)

lemma varint_length: "n < 128 ^ Suc k \<Longrightarrow> length (varint n) \<le> Suc k"
proof (induction k arbitrary: n)
  case (Suc k)
  then have "n div 128 < 128 ^ Suc k" by (simp add: less_mult_imp_div_less mult.commute)
  then show ?case using Suc.IH by (subst varint.simps) simp
qed (subst varint.simps, simp)

lemma seven_bits: "n AND 127 = n mod 128" for n :: nat
proof -
  have "(127::nat) = mask 7" by (simp add: mask_eq_exp_minus_1)
  then show ?thesis by (simp only: take_bit_eq_mask [symmetric] take_bit_eq_mod) simp
qed

lemma eighth_bit: "n < 256 \<Longrightarrow> (n AND 128 = 0) \<longleftrightarrow> n < 128" for n :: nat
proof -
  assume n: "n < 256"
  have "(128::nat) = 2 ^ 7" by simp
  then have "n AND 128 = 0 \<longleftrightarrow> \<not> bit n 7" by (simp only: and_exp_eq_0_iff_not_bit)
  also have "\<dots> \<longleftrightarrow> even (n div 128)" by (simp add: bit_iff_odd)
  also have "\<dots> \<longleftrightarrow> n < 128"
  proof -
    have "n div 128 < 2" using n by (simp add: less_mult_imp_div_less)
    then have "n div 128 = 0 \<or> n div 128 = 1" by linarith
    then show ?thesis by (auto simp: div_eq_0_iff)
  qed
  finally show ?thesis .
qed

lemma varint_loop_varint:
  assumes "v < 2 ^ shift" and "v + n * 2 ^ shift \<le> NUMBER_MAX_SAFE_INTEGER" and "offset < index \<Longrightarrow> 0 < n"
  shows "varint_loop (varint n @ rest) offset index v shift = Some (v + n * 2 ^ shift, index + length (varint n))"
  using assms
proof (induction n arbitrary: index v shift rule: varint.induct)
  case (1 n)
  show ?case
  proof (cases "n < 128")
    case True
    then show ?thesis
      using 1(2-4) by (subst (1 2) varint.simps) (auto simp: Let_def seven_bits eighth_bit or_push_bit)
  next
    case False
    let ?b = "n mod 128 + 128"
    have b: "?b AND 127 = n mod 128" "?b AND 128 \<noteq> 0"
      by (simp_all add: seven_bits eighth_bit)
    have "v + n mod 128 * 2 ^ shift < 2 ^ (shift + 7)"
    proof -
      have "(n mod 128 + 1) * 2 ^ shift \<le> 128 * 2 ^ shift" by (intro mult_le_mono1) (simp add: Suc_leI)
      moreover have "(2::nat) ^ (shift + 7) = 128 * 2 ^ shift" by (simp add: power_add)
      moreover have "(n mod 128 + 1) * 2 ^ shift = n mod 128 * 2 ^ shift + 2 ^ shift" by (simp only: distrib_right mult_1)
      ultimately show ?thesis using 1(2) by linarith
    qed
    moreover have w: "v + n mod 128 * 2 ^ shift + n div 128 * 2 ^ (shift + 7) = v + n * 2 ^ shift"
    proof -
      have "n mod 128 * 2 ^ shift + n div 128 * 128 * 2 ^ shift = (n mod 128 + n div 128 * 128) * 2 ^ shift"
        by (simp only: distrib_right)
      then show ?thesis by (simp add: power_add)
    qed
    ultimately have "varint_loop (varint (n div 128) @ rest) offset (index + 1) (v + n mod 128 * 2 ^ shift) (shift + 7)
        = Some (v + n * 2 ^ shift, index + 1 + length (varint (n div 128)))"
      using 1(1) [OF False, of "v + n mod 128 * 2 ^ shift" "shift + 7" "index + 1"] 1(3) False by (simp add: w)
    then show ?thesis
      using False b or_push_bit [OF 1(2), of "n mod 128"] by (subst (1 2) varint.simps) (simp add: Let_def)
  qed
qed

lemma readVarint_varint:
  assumes "n \<le> NUMBER_MAX_SAFE_INTEGER"
  shows "readVarint (before @ varint n @ rest) (length before) = Some (n, length before + length (varint n))"
proof -
  have "n < 128 ^ Suc 7" using assms by (simp add: NUMBER_MAX_SAFE_INTEGER_def)
  then have "length (varint n) \<le> 10" using varint_length [of n 7] by simp
  then have "take 10 (varint n @ rest) = varint n @ take (10 - length (varint n)) rest" by simp
  then show ?thesis
    using assms varint_loop_varint [of 0 0 n] by (simp add: readVarint_def)
qed

lemma base32_alphabet_index: "d < 32 \<Longrightarrow> index_of (base32_alphabet ! d) base32_alphabet = Some d"
proof -
  have "\<forall>d\<in>set [0..<32]. index_of (base32_alphabet ! d) base32_alphabet = Some d" by code_simp
  then show "d < 32 \<Longrightarrow> index_of (base32_alphabet ! d) base32_alphabet = Some d" by simp
qed

lemma base32_digits_text: "list_all (\<lambda>d. d < 32) ds \<Longrightarrow> base32_digits (map (\<lambda>d. base32_alphabet ! d) ds) = Some ds"
  by (induction ds) (simp_all add: base32_digits_def base32_alphabet_index)

lemma base32_roundtrip:
  assumes "list_all (\<lambda>b. b < 256) bs"
  shows "decodeBase32 (base32_text bs) = Some bs"
proof -
  define n where "n = (8 * length bs + 4) div 5"
  define r where "r = 5 * n - 8 * length bs"
  define v where "v = big_endian 256 bs * 2 ^ r"
  have n: "8 * length bs \<le> 5 * n" "5 * n < 8 * length bs + 5" unfolding n_def by simp_all
  then have bits: "5 * n = 8 * length bs + r" "r < 8" by (simp_all add: r_def)
  have "v < 32 ^ n"
  proof -
    have "v < 256 ^ length bs * 2 ^ r" unfolding v_def using big_endian_bound [OF assms] by simp
    also have "(256::nat) ^ length bs * 2 ^ r = 2 ^ (5 * n)" by (simp add: bits(1) power_add power_mult)
    also have "\<dots> = (32::nat) ^ n" by (simp add: power_mult)
    finally show ?thesis .
  qed
  then have "big_endian 32 (digits_of 32 n v) = v" by (rule big_endian_digits_of)
  moreover have "base32_digits (base32_text bs) = Some (digits_of 32 n v)"
    by (simp add: base32_text_def Let_def n_def r_def v_def base32_digits_text digits_of_bound)
  moreover have "length (base32_text bs) = n" by (simp add: base32_text_def Let_def n_def)
  moreover have "(5 * n) mod 8 = r" "(5 * n) div 8 = length bs" using bits by simp_all
  ultimately show ?thesis
    using digits_of_big_endian [OF assms]
    by (simp add: decodeBase32_positional base32_bytes_def) (simp add: v_def)
qed

lemma cidv1_bytes_valid:
  assumes "1 \<le> codec" "codec \<le> NUMBER_MAX_SAFE_INTEGER" "1 \<le> hashCode" "hashCode \<le> NUMBER_MAX_SAFE_INTEGER"
    and "digest \<noteq> []" "length digest \<le> NUMBER_MAX_SAFE_INTEGER"
  shows "cidv1 (cidv1_bytes codec hashCode digest)"
proof -
  let ?v = "varint 1" and ?c = "varint codec" and ?h = "varint hashCode" and ?l = "varint (length digest)"
  have "readVarint (cidv1_bytes codec hashCode digest) 0 = Some (1, length ?v)"
    using readVarint_varint [of 1 "[]"] by (simp add: cidv1_bytes_def NUMBER_MAX_SAFE_INTEGER_def)
  moreover have "readVarint (cidv1_bytes codec hashCode digest) (length ?v) = Some (codec, length (?v @ ?c))"
    using readVarint_varint [OF assms(2), of ?v] by (simp add: cidv1_bytes_def)
  moreover have "readVarint (cidv1_bytes codec hashCode digest) (length (?v @ ?c)) = Some (hashCode, length (?v @ ?c @ ?h))"
    using readVarint_varint [OF assms(4), of "?v @ ?c"] by (simp add: cidv1_bytes_def)
  moreover have "readVarint (cidv1_bytes codec hashCode digest) (length (?v @ ?c @ ?h)) =
      Some (length digest, length (?v @ ?c @ ?h @ ?l))"
    using readVarint_varint [OF assms(6), of "?v @ ?c @ ?h"] by (simp add: cidv1_bytes_def)
  moreover have "0 < length digest" "length (?v @ ?c @ ?h @ ?l) + length digest = length (cidv1_bytes codec hashCode digest)"
    using assms(5) by (simp_all add: cidv1_bytes_def)
  ultimately show ?thesis using assms by (simp add: cidv1_def del: length_append)
qed

text \<open>
  C40: Every content identifier of version 1 whose codec, hash function and digest length fit a safe integer
  and whose digest is not empty is accepted in its base-32 text: the four variable-length integers and the
  bytes are read back from what the specification's encoders write.
\<close>

theorem isValidIpfsUri_cidv1:
  assumes "1 \<le> codec" "codec \<le> NUMBER_MAX_SAFE_INTEGER" "1 \<le> hashCode" "hashCode \<le> NUMBER_MAX_SAFE_INTEGER"
    and "digest \<noteq> []" "length digest \<le> NUMBER_MAX_SAFE_INTEGER" "list_all (\<lambda>b. b < 256) digest"
  shows "isValidIpfsUri (codes ''ipfs://b'' @ base32_text (cidv1_bytes codec hashCode digest))"
proof -
  let ?t = "base32_text (cidv1_bytes codec hashCode digest)"
  have bytes: "list_all (\<lambda>b. b < 256) (cidv1_bytes codec hashCode digest)"
    using assms(7) varint_byte by (simp add: cidv1_bytes_def)
  have alphabet: "set ?t \<subseteq> set base32_alphabet"
  proof -
    have "base32_alphabet ! d \<in> set base32_alphabet" if "d < 32" for d
      using that by (intro nth_mem) (simp add: base32_alphabet_def codes_def)
    then show ?thesis
      using digits_of_bound [of 32] by (auto simp: base32_text_def Let_def list_all_iff)
  qed
  moreover have "set base32_alphabet \<inter> {47, 63, 35} = {}" by code_simp
  ultimately have no: "47 \<notin> set ?t" "63 \<notin> set ?t" "35 \<notin> set ?t" by auto
  have split: "split_at c t = [t]" if "c \<notin> set t" for c t
    using that by (induction t) auto
  have b: "codes ''ipfs://b'' = codes ''ipfs://'' @ [98]" "length (codes ''ipfs://'') = 7"
    "63 \<notin> set (codes ''ipfs://'')" "35 \<notin> set (codes ''ipfs://'')" "codes ''b'' = [98]" "codes ''Qm'' = [81, 109]"
    by (simp_all add: codes_def)
  have "length ?t = (8 * length (cidv1_bytes codec hashCode digest) + 4) div 5"
    unfolding base32_text_def Let_def by (simp only: length_map length_digits_of)
  moreover have "1 \<le> length (cidv1_bytes codec hashCode digest)"
    using assms(5) by (cases digest) (simp_all add: cidv1_bytes_def)
  ultimately have "0 < length ?t" by linarith
  then have "?t \<noteq> []" by simp
  with alphabet have "isStructurallyValidCid (98 # ?t)"
    using base32_roundtrip [OF bytes] cidv1_bytes_valid [OF assms(1-6)]
    by (simp add: isStructurallyValidCid_def b take_Cons')
  with no show ?thesis
    by (simp add: isValidIpfsUri_def b split)
qed

theorem isValidIpfsUri_cidv1_witness:
  "isValidIpfsUri (codes ''ipfs://b'' @ base32_text (cidv1_bytes 85 18 [1, 2, 3, 255]))"
  by (rule isValidIpfsUri_cidv1) (simp_all add: NUMBER_MAX_SAFE_INTEGER_def)

end
