(* ===== verification/Escrow_Tables.thy ===== *)
theory Escrow_Tables
  imports Projection Ipfs Calendar
begin

section \<open>The escrow tables\<close>

text \<open>
  The rows of \<^verbatim>\<open>packages/database/prisma/schema.prisma\<close> that the escrow indexer and the Safe synchronisation read and write. Addresses and
  hashes are ASCII texts, texts of users are lists of code points, times are milliseconds. Amount columns
  hold the integers their decimal texts denote, as in theory Ledger, except the amount of a payout, which
  the code compares as a text. The columns of a goal's off-chain metadata are one text.
\<close>

subsection \<open>Enumerations\<close>

datatype authority_kind = OWNER | GOAL_MANAGER
datatype visibility = PUBLIC | ANONYMOUS
datatype goal_type = ONE_TIME | MONTHLY
datatype surplus_policy = PAYOUT_ALL | ROLL_OVER
datatype expense_status = EX_DRAFT | EX_PENDING_CHAIN | EX_PUBLISHED | EX_ARCHIVED
datatype asset = PRE | USDC
datatype goal_status = G_DRAFT | G_OPEN | G_CLOSED | G_SETTLED | G_CANCELLED
datatype metadata_status = MD_NOT_SET | MD_AVAILABLE | MD_UNAVAILABLE | MD_INVALID
datatype payout_kind = EXPENSE | CANCELLED_FUNDS
datatype payout_status = PO_PROPOSED | PO_EXECUTED | PO_FAILED
datatype payout_delivery = SERVICE | MANUAL
datatype proposal_status =
  SP_SUBMITTING | SP_AWAITING_CONFIRMATIONS | SP_READY_TO_EXECUTE | SP_EXECUTED | SP_STALE | SP_FAILED
datatype action_kind =
  CLOSE_ONE_TIME | CANCEL_ONE_TIME | SET_MONTHLY_SURPLUS_POLICY | REQUEST_MONTHLY_STOP | CANCEL_MONTHLY

subsection \<open>Events of the contract\<close>

text \<open>The decoded events of the contract's ABI with the fields the indexer reads.\<close>

datatype escrow_event =
  OwnershipTransferred string string
| OwnershipTransferStarted string string
| GoalManagerUpdated string bool
| ProfileUpdated string int utext utext utext utext bool
| ProfileCleared string int
| GoalCreated string string string int int int utext utext utext
| MonthlyGoalCreated string int int int int
| ContributionReceived string string string int bool
| MonthlySurplusPolicyUpdated string int
| MonthlyGoalStopRequested string
| MonthlyPeriodSettled string int int int int bool
| MonthlyTokenSettled string int string int int int int
| GoalClosed string int int
| GoalCancelled string
| MonthlyGoalCancelled string int int
| ExpenseReleased string string string int
| CancelledFundsReleased string string string int
| GoalPayoutUpdated string
| TreasuryPayoutUpdated
| MaxOpenGoalsPerManagerUpdated
| ExcessTokenRecovered
| Paused
| Unpaused

subsection \<open>Rows\<close>

record user_row =
  us_id :: string
  us_address :: string

record sponsor_profile =
  prof_userId :: string
  prof_active :: bool
  prof_revision :: int
  prof_displayName :: "utext option"
  prof_websiteUrl :: "utext option"
  prof_bio :: "utext option"
  prof_avatarUri :: "utext option"
  prof_avatarStatus :: metadata_status
  prof_defaultPublic :: bool
  prof_hidden :: bool
  prof_chainId :: "int option"
  prof_blockNumber :: "int option"
  prof_blockHash :: "string option"
  prof_txHash :: "string option"
  prof_logIndex :: "int option"

record authority =
  au_chainId :: int
  au_contractAddress :: string
  au_address :: string
  au_kind :: authority_kind
  au_blockNumber :: int
  au_txHash :: string
  au_logIndex :: int

record expense =
  ex_id :: string
  ex_slug :: utext
  ex_status :: expense_status
  ex_pendingChainGoalId :: "string option"
  ex_pendingChainTxHash :: "string option"

record funding_goal =
  g_id :: string
  g_expenseId :: "string option"
  g_chainId :: int
  g_chainGoalId :: string
  g_creatorAddress :: string
  g_goalType :: goal_type
  g_monthlySurplusPolicy :: "surplus_policy option"
  g_monthlyFirstSettlementAt :: "int option"
  g_monthlySettlementDay :: "int option"
  g_monthlyStopRequestedAt :: "int option"
  g_monthlyPeriodsSettled :: int
  g_slug :: utext
  g_monthStart :: int
  g_title :: utext
  g_description :: utext
  g_recipientAddress :: string
  g_deadline :: int
  g_metadataUri :: "utext option"
  g_metadataStatus :: metadata_status
  g_metadata :: "utext option"
  g_preTarget :: int
  g_usdcTarget :: int
  g_preRecipientEntitlement :: int
  g_usdcRecipientEntitlement :: int
  g_preCarry :: int
  g_usdcCarry :: int
  g_preTreasuryEntitlement :: int
  g_usdcTreasuryEntitlement :: int
  g_status :: goal_status
  g_creationTxHash :: "string option"
  g_creationBlock :: "int option"
  g_creationBlockHash :: "string option"
  g_publishedAt :: "int option"
  g_closedAt :: "int option"
  g_updatedAt :: int

record goal_period =
  pd_id :: string
  pd_goalId :: string
  pd_periodIndex :: int
  pd_startsAt :: int
  pd_endsAt :: int
  pd_surplusPolicy :: surplus_policy
  pd_finalPeriod :: bool
  pd_preContributed :: int
  pd_usdcContributed :: int
  pd_preCarryIn :: int
  pd_usdcCarryIn :: int
  pd_preEntitlementAdded :: int
  pd_usdcEntitlementAdded :: int
  pd_preCarryOut :: int
  pd_usdcCarryOut :: int
  pd_settlementTxHash :: "string option"
  pd_settlementBlock :: "int option"
  pd_settlementBlockHash :: "string option"
  pd_settlementLogIndex :: "int option"
  pd_settledAt :: "int option"

record contribution =
  co_id :: string
  co_goalId :: string
  co_userId :: string
  co_chainId :: int
  co_txHash :: string
  co_logIndex :: int
  co_blockNumber :: int
  co_blockHash :: string
  co_contributor :: string
  co_asset :: asset
  co_amount :: int
  co_visibility :: visibility
  co_confirmedAt :: int

record payout =
  po_id :: string
  po_goalId :: string
  po_asset :: asset
  po_kind :: payout_kind
  po_amountRaw :: string
  po_recipientAddress :: string
  po_chainTxHash :: "string option"
  po_status :: payout_status
  po_createdAt :: int
  po_executedAt :: "int option"

record payout_intent =
  pi_id :: string
  pi_payoutId :: string
  pi_goalId :: string
  pi_chainId :: int
  pi_safeAddress :: string
  pi_delivery :: payout_delivery
  pi_expiresAt :: "int option"
  pi_consumedAt :: "int option"

record safe_proposal =
  pr_id :: string
  pr_intentId :: string
  pr_safeTxHash :: string
  pr_safeNonce :: int
  pr_status :: proposal_status
  pr_confirmations :: int
  pr_threshold :: int
  pr_executionTxHash :: "string option"
  pr_failureReason :: "string option"
  pr_lastCheckedAt :: "int option"
  pr_executedAt :: "int option"
  pr_createdAt :: int

record action_intent =
  ai_id :: string
  ai_goalId :: string
  ai_kind :: action_kind
  ai_chainId :: int
  ai_safeAddress :: string
  ai_targetPolicy :: "surplus_policy option"

datatype assignment_source = SAFE_OWNER | MANUAL_ASSIGNMENT

record manager_assignment =
  ma_chainId :: int
  ma_contractAddress :: string
  ma_address :: string
  ma_source :: assignment_source
  ma_desiredEnabled :: bool

record manager_intent =
  mi_id :: string
  mi_chainId :: int
  mi_safeAddress :: string
  mi_desiredStateHash :: string

record manager_proposal = safe_proposal +
  pr_activeKey :: "string option"

record safe_audit =
  sa_entityType :: string
  sa_entityId :: string
  sa_action :: string
  sa_before :: proposal_status
  sa_after :: proposal_status
  sa_executionTxHash :: "string option"
  sa_failureReason :: "string option"

record chain_event_row =
  ce_chainId :: int
  ce_txHash :: string
  ce_logIndex :: int
  ce_blockNumber :: int
  ce_blockHash :: string
  ce_event :: escrow_event

record escrow_state =
  es_key :: string
  es_chainId :: int
  es_lastBlockNumber :: int
  es_lastBlockHash :: string

record escrow_db =
  users :: "user_row list"
  sponsorProfiles :: "sponsor_profile list"
  chainAuthorities :: "authority list"
  expenses :: "expense list"
  fundingGoals :: "funding_goal list"
  goalPeriods :: "goal_period list"
  contributions :: "contribution list"
  payouts :: "payout list"
  payoutIntents :: "payout_intent list"
  payoutProposals :: "safe_proposal list"
  actionIntents :: "action_intent list"
  actionProposals :: "safe_proposal list"
  chainEvents :: "chain_event_row list"
  escrowStates :: "escrow_state list"
  managerAssignments :: "manager_assignment list"
  managerIntents :: "manager_intent list"
  managerProposals :: "manager_proposal list"
  safeAudits :: "safe_audit list"

subsection \<open>Programs on the tables\<close>

text \<open>
  The errors the handlers, the indexer and the Safe synchronisation throw. \<open>Service_error\<close> is one of the Safe's
  transaction service with its status code. \<open>Record_missing\<close> is Prisma's error for an update of a row that
  is not there, \<open>Unique_violation\<close> that of an insertion, \<open>Invalid_date\<close> a time that \<^verbatim>\<open>Date\<close> cannot hold.
\<close>

datatype manifest_field =
  M_chain | M_bytecode | M_address | M_pre | M_usdc | M_treasury | M_settlement_limit | M_schedule_version
| M_min_delay | M_max_delay | M_initial_owner | M_owner

datatype escrow_error =
  Unsupported_token string
| Unsupported_policy int
| Unsupported_settlement_day int
| No_valid_settlement_day string
| Unknown_goal string
| No_open_period int
| Manifest_mismatch manifest_field
| Record_missing
| Unique_violation
| Invalid_date
| Rpc_error
| Service_error "int option"

type_synonym ('w, 'a) escrow_prog = "(escrow_db, string option, 'w, escrow_error, 'a) prog"

record 'w escrow_deps =
  ed_uuid :: "'w \<Rightarrow> (escrow_error + string) \<times> 'w"
  ed_now :: "'w \<Rightarrow> (escrow_error + int) \<times> 'w"
  ed_nfkd :: "utext \<Rightarrow> utext"
  ed_lowercase :: "utext \<Rightarrow> utext"

record deployment =
  dp_chainId :: int
  dp_escrowAddress :: string
  dp_deploymentBlock :: int
  dp_preAddress :: string
  dp_usdcAddress :: string
  dp_owner :: string
  dp_treasury :: string
  dp_confirmations :: int

definition contractAddress :: "deployment \<Rightarrow> string" where
  "contractAddress config = to_lower (dp_escrowAddress config)"

definition zeroAddress :: string where
  "zeroAddress = ''0x0000000000000000000000000000000000000000''"

text \<open>\<^verbatim>\<open>create\<close>: a row whose key is taken is refused.\<close>

definition insert_row :: "(escrow_db \<Rightarrow> 'r list) \<Rightarrow> (('r list \<Rightarrow> 'r list) \<Rightarrow> escrow_db \<Rightarrow> escrow_db) \<Rightarrow>
    ('r \<Rightarrow> bool) \<Rightarrow> 'r \<Rightarrow> ('w, unit) escrow_prog" where
  "insert_row get upd taken r = bindp (db_get get) (\<lambda>rows.
     if \<exists>x\<in>set rows. taken x then throw Unique_violation else db_mod (upd (\<lambda>rows. rows @ [r])))"

definition first_row :: "(escrow_db \<Rightarrow> 'r list) \<Rightarrow> ('r \<Rightarrow> bool) \<Rightarrow> ('w, 'r option) escrow_prog" where
  "first_row get P = db_get (\<lambda>d. List.find P (get d))"

text \<open>\<^verbatim>\<open>user.upsert\<close> by address: the row stays as it is when there is one.\<close>

definition upsert_user :: "'w escrow_deps \<Rightarrow> string \<Rightarrow> ('w, user_row) escrow_prog" where
  "upsert_user deps address = bindp (first_row users (\<lambda>u. us_address u = address)) (\<lambda>found. case found of
     Some user \<Rightarrow> ret user
   | None \<Rightarrow> bindp (extern (ed_uuid deps)) (\<lambda>i.
       let user = \<lparr>us_id = i, us_address = address\<rparr> in
       thenp (insert_row users users_update (\<lambda>u. us_id u = i) user) (ret user)))"

end
