(* ===== verification/Escrow.thy ===== *)
theory Escrow
  imports Escrow_Tables
begin

section \<open>Escrow events\<close>

text \<open>
  \<^verbatim>\<open>apps/worker/src/event-handlers.ts\<close>: how one decoded event of the escrow contract changes the projection.
  \<open>handleDecodedEscrowEvent\<close> runs inside the transaction of the indexer (theory Escrow_Indexer). The result is the
  goal whose off-chain metadata is to be fetched.
\<close>

subsection \<open>Texts\<close>

text \<open>\<^verbatim>\<open>Buffer.byteLength(value, 'utf8')\<close>; a lone surrogate is written as three bytes.\<close>

definition utf8_length :: "utext \<Rightarrow> nat" where
  "utf8_length t = sum_list (map (\<lambda>c. if c < 128 then 1 else if c < 2048 then 2 else if c < 65536 then 3 else 4) t)"

definition isIndexerSafeText :: "utext \<Rightarrow> bool" where
  "isIndexerSafeText t \<longleftrightarrow> 0 \<notin> set t \<and> 65533 \<notin> set t"

definition isIndexableProfile :: "string \<Rightarrow> utext \<Rightarrow> utext \<Rightarrow> utext \<Rightarrow> utext \<Rightarrow> bool" where
  "isIndexableProfile account displayName websiteUrl bio avatarUri \<longleftrightarrow>
     validAddress account \<and> list_all isIndexerSafeText [displayName, websiteUrl, bio, avatarUri] \<and>
     utf8_length displayName > 0 \<and> utf8_length displayName \<le> 80 \<and> utf8_length websiteUrl \<le> 200 \<and>
     utf8_length bio \<le> 500 \<and> utf8_length avatarUri \<le> 200"

text \<open>Each maximal run of other characters becomes one hyphen.\<close>

fun hyphenate :: "bool \<Rightarrow> utext \<Rightarrow> utext" where
  "hyphenate inside [] = []"
| "hyphenate inside (c # cs) =
     (if (97 \<le> c \<and> c \<le> 122) \<or> (48 \<le> c \<and> c \<le> 57) then c # hyphenate False cs
      else if inside then hyphenate True cs else 45 # hyphenate True cs)"

definition trim_hyphens :: "utext \<Rightarrow> utext" where
  "trim_hyphens t = (let t = (case t of c # cs \<Rightarrow> if c = 45 then cs else t | [] \<Rightarrow> t)
     in if t \<noteq> [] \<and> last t = 45 then butlast t else t)"

definition slugFor :: "'w escrow_deps \<Rightarrow> utext \<Rightarrow> string \<Rightarrow> utext" where
  "slugFor deps title goalId =
     (let base = take 54 (trim_hyphens (hyphenate False (ed_lowercase deps
            (filter (\<lambda>c. \<not> (768 \<le> c \<and> c \<le> 879)) (ed_nfkd deps title)))));
          base = (if base = [] then codes ''goal'' else base)
      in base @ codes ''-'' @ codes (to_lower (take 8 (drop 2 goalId))))"

definition non_empty :: "utext \<Rightarrow> utext option" where
  "non_empty t = (if t = [] then None else Some t)"

definition visibilityForContribution :: "bool \<Rightarrow> visibility" where
  "visibilityForContribution profileVisible = (if profileVisible then PUBLIC else ANONYMOUS)"

subsection \<open>Values of events\<close>

definition assetFor :: "deployment \<Rightarrow> string \<Rightarrow> ('w, asset) escrow_prog" where
  "assetFor config token =
     (if to_lower token = to_lower (dp_preAddress config) then ret PRE
      else if to_lower token = to_lower (dp_usdcAddress config) then ret USDC
      else throw (Unsupported_token token))"

definition monthlyPolicyFor :: "int \<Rightarrow> ('w, surplus_policy) escrow_prog" where
  "monthlyPolicyFor policy = (if policy = 0 then ret PAYOUT_ALL else if policy = 1 then ret ROLL_OVER
     else throw (Unsupported_policy policy))"

text \<open>A time beyond the range of \<^verbatim>\<open>Date\<close> is refused when it is written; the times of blocks are in its range.\<close>

definition dateFromChainTimestamp :: "int \<Rightarrow> ('w, int) escrow_prog" where
  "dateFromChainTimestamp seconds =
     (if seconds > 8640000000000 then throw Invalid_date else ret (seconds * 1000))"

record event_position =
  at_blockNumber :: int
  at_blockHash :: string
  at_blockTimestamp :: int
  at_txHash :: string
  at_logIndex :: int

subsection \<open>Profiles and authorities\<close>

definition write_profile :: "'w escrow_deps \<Rightarrow> string \<Rightarrow> (string \<Rightarrow> sponsor_profile option \<Rightarrow> sponsor_profile) \<Rightarrow>
    ('w, unit) escrow_prog" where
  "write_profile deps account projection = bindp (upsert_user deps (to_lower account)) (\<lambda>user.
     bindp (first_row sponsorProfiles (\<lambda>p. prof_userId p = us_id user)) (\<lambda>found. case found of
       Some p \<Rightarrow> db_mod (sponsorProfiles_update (update_where (\<lambda>p. prof_userId p = us_id user)
          (\<lambda>p. projection (us_id user) (Some p))))
     | None \<Rightarrow> db_mod (sponsorProfiles_update (\<lambda>rows. rows @ [projection (us_id user) None]))))"

definition applyProfileUpdate :: "'w escrow_deps \<Rightarrow> deployment \<Rightarrow> event_position \<Rightarrow> string \<Rightarrow> int \<Rightarrow> utext \<Rightarrow> utext \<Rightarrow>
    utext \<Rightarrow> utext \<Rightarrow> bool \<Rightarrow> ('w, unit) escrow_prog" where
  "applyProfileUpdate deps config at account revision displayName websiteUrl bio avatarUri defaultPublic =
     write_profile deps account (\<lambda>userId previous.
       \<lparr>prof_userId = userId, prof_active = True, prof_revision = revision, prof_displayName = Some displayName,
        prof_websiteUrl = non_empty websiteUrl, prof_bio = non_empty bio, prof_avatarUri = non_empty avatarUri,
        prof_avatarStatus = (if avatarUri = [] then MD_NOT_SET
          else if isValidIpfsUri avatarUri then MD_UNAVAILABLE else MD_INVALID),
        prof_defaultPublic = defaultPublic,
        prof_hidden = (case previous of None \<Rightarrow> False | Some p \<Rightarrow> prof_hidden p),
        prof_chainId = Some (dp_chainId config), prof_blockNumber = Some (at_blockNumber at),
        prof_blockHash = Some (to_lower (at_blockHash at)), prof_txHash = Some (to_lower (at_txHash at)),
        prof_logIndex = Some (at_logIndex at)\<rparr>)"

definition applyProfileClear :: "'w escrow_deps \<Rightarrow> deployment \<Rightarrow> event_position \<Rightarrow> string \<Rightarrow> int \<Rightarrow>
    ('w, unit) escrow_prog" where
  "applyProfileClear deps config at account revision =
     write_profile deps account (\<lambda>userId previous.
       \<lparr>prof_userId = userId, prof_active = False, prof_revision = revision, prof_displayName = None,
        prof_websiteUrl = None, prof_bio = None, prof_avatarUri = None, prof_avatarStatus = MD_NOT_SET,
        prof_defaultPublic = False, prof_hidden = (case previous of None \<Rightarrow> False | Some p \<Rightarrow> prof_hidden p),
        prof_chainId = Some (dp_chainId config), prof_blockNumber = Some (at_blockNumber at),
        prof_blockHash = Some (to_lower (at_blockHash at)), prof_txHash = Some (to_lower (at_txHash at)),
        prof_logIndex = Some (at_logIndex at)\<rparr>)"

definition authority_of :: "deployment \<Rightarrow> string \<Rightarrow> authority_kind \<Rightarrow> authority \<Rightarrow> bool" where
  "authority_of config address kind a \<longleftrightarrow> au_chainId a = dp_chainId config \<and>
     au_contractAddress a = contractAddress config \<and> au_address a = address \<and> au_kind a = kind"

definition delete_authorities :: "(authority \<Rightarrow> bool) \<Rightarrow> ('w, unit) escrow_prog" where
  "delete_authorities P = db_mod (chainAuthorities_update (filter (\<lambda>a. \<not> P a)))"

definition applyAuthorityChange :: "deployment \<Rightarrow> event_position \<Rightarrow> authority_kind \<Rightarrow> string \<Rightarrow> bool \<Rightarrow>
    ('w, unit) escrow_prog" where
  "applyAuthorityChange config at kind account enabled =
     (let address = to_lower account in
      thenp (whenp (kind = OWNER) (delete_authorities (\<lambda>a. au_chainId a = dp_chainId config \<and>
        au_contractAddress a = contractAddress config \<and> au_kind a = OWNER)))
      (if \<not> enabled \<or> address = zeroAddress
       then whenp (kind \<noteq> OWNER) (delete_authorities (authority_of config address kind))
       else db_mod (chainAuthorities_update (\<lambda>rows.
         if \<exists>a\<in>set rows. authority_of config address kind a
         then update_where (authority_of config address kind) (\<lambda>a. a\<lparr>au_blockNumber := at_blockNumber at,
           au_txHash := to_lower (at_txHash at), au_logIndex := at_logIndex at\<rparr>) rows
         else rows @ [\<lparr>au_chainId = dp_chainId config, au_contractAddress = contractAddress config,
           au_address = address, au_kind = kind, au_blockNumber = at_blockNumber at,
           au_txHash = to_lower (at_txHash at), au_logIndex = at_logIndex at\<rparr>]))))"

subsection \<open>Goals\<close>

definition update_goal :: "funding_goal \<Rightarrow> (funding_goal \<Rightarrow> funding_goal) \<Rightarrow> ('w, unit) escrow_prog" where
  "update_goal goal f = db_mod (fundingGoals_update (update_where (\<lambda>g. g_id g = g_id goal) f))"

definition goal_projection :: "deployment \<Rightarrow> event_position \<Rightarrow> int \<Rightarrow> string \<Rightarrow> string option \<Rightarrow> utext \<Rightarrow> int \<Rightarrow> string \<Rightarrow>
    string \<Rightarrow> string \<Rightarrow> int \<Rightarrow> int \<Rightarrow> int \<Rightarrow> utext \<Rightarrow> utext \<Rightarrow> utext \<Rightarrow> funding_goal" where
  "goal_projection config at occurredAt chainGoalId expenseId slug now i creator recipient preTarget usdcTarget deadline title
     description metadataURI =
     \<lparr>g_id = i, g_expenseId = expenseId, g_chainId = dp_chainId config, g_chainGoalId = chainGoalId,
      g_creatorAddress = to_lower creator, g_goalType = ONE_TIME, g_monthlySurplusPolicy = None,
      g_monthlyFirstSettlementAt = None, g_monthlySettlementDay = None, g_monthlyStopRequestedAt = None,
      g_monthlyPeriodsSettled = 0, g_slug = slug, g_monthStart = utcMonthStart deadline, g_title = title,
      g_description = description, g_recipientAddress = to_lower recipient, g_deadline = deadline,
      g_metadataUri = non_empty metadataURI,
      g_metadataStatus = (if metadataURI = [] then MD_NOT_SET else MD_UNAVAILABLE), g_metadata = None,
      g_preTarget = preTarget, g_usdcTarget = usdcTarget, g_preRecipientEntitlement = 0,
      g_usdcRecipientEntitlement = 0, g_preCarry = 0, g_usdcCarry = 0, g_preTreasuryEntitlement = 0,
      g_usdcTreasuryEntitlement = 0, g_status = G_OPEN, g_creationTxHash = Some (at_txHash at),
      g_creationBlock = Some (at_blockNumber at), g_creationBlockHash = Some (at_blockHash at),
      g_publishedAt = Some occurredAt, g_closedAt = None, g_updatedAt = now\<rparr>"

text \<open>\<^verbatim>\<open>fundingGoal.upsert\<close>; a slug is unique on a chain.\<close>

definition write_goal :: "funding_goal option \<Rightarrow> funding_goal \<Rightarrow> ('w, unit) escrow_prog" where
  "write_goal found goal = bindp (db_get fundingGoals) (\<lambda>rows.
     if \<exists>g\<in>set rows. (g_id g \<noteq> g_id goal \<and> g_chainId g = g_chainId goal \<and> g_slug g = g_slug goal) \<or>
          (found = None \<and> g_id g = g_id goal)
     then throw Unique_violation
     else (case found of
         Some g \<Rightarrow> update_goal g (\<lambda>_. goal)
       | None \<Rightarrow> db_mod (fundingGoals_update (\<lambda>rows. rows @ [goal]))))"

definition find_goal :: "deployment \<Rightarrow> string \<Rightarrow> escrow_db \<Rightarrow> funding_goal option" where
  "find_goal config chainGoalId d =
     List.find (\<lambda>g. g_chainId g = dp_chainId config \<and> g_chainGoalId g = chainGoalId) (fundingGoals d)"

definition on_goal_created :: "'w escrow_deps \<Rightarrow> deployment \<Rightarrow> event_position \<Rightarrow> int \<Rightarrow> string \<Rightarrow> string \<Rightarrow> string \<Rightarrow>
    int \<Rightarrow> int \<Rightarrow> int \<Rightarrow> utext \<Rightarrow> utext \<Rightarrow> utext \<Rightarrow> ('w, string \<times> utext) escrow_prog" where
  "on_goal_created deps config at occurredAt goalId creator recipient preTarget usdcTarget deadline title description
     metadataURI =
     (let chainGoalId = to_lower goalId in
      bindp (dateFromChainTimestamp deadline) (\<lambda>deadline.
      bindp (first_row expenses (\<lambda>e. ex_pendingChainGoalId e = Some chainGoalId)) (\<lambda>draft.
      let wantedSlug = (case draft of Some e \<Rightarrow> ex_slug e | None \<Rightarrow> slugFor deps title chainGoalId) in
      bindp (first_row fundingGoals (\<lambda>g. g_chainId g = dp_chainId config \<and> g_slug g = wantedSlug)) (\<lambda>collision.
      let slug = (case collision of Some g \<Rightarrow>
                    if g_chainGoalId g \<noteq> chainGoalId then slugFor deps title chainGoalId else wantedSlug
                  | None \<Rightarrow> wantedSlug) in
      bindp (db_get (find_goal config chainGoalId)) (\<lambda>found.
      bindp (extern (ed_now deps)) (\<lambda>now.
      bindp (case found of Some g \<Rightarrow> ret (g_id g) | None \<Rightarrow> extern (ed_uuid deps)) (\<lambda>i.
      let expenseId = (case draft of Some e \<Rightarrow> Some (ex_id e)
            | None \<Rightarrow> (case found of Some g \<Rightarrow> g_expenseId g | None \<Rightarrow> None)) in
      thenp (write_goal found (goal_projection config at occurredAt chainGoalId expenseId slug now i creator recipient
        preTarget usdcTarget deadline title description metadataURI))
      (thenp (case draft of
           None \<Rightarrow> ret ()
         | Some e \<Rightarrow> db_mod (expenses_update (update_where (\<lambda>x. ex_id x = ex_id e) (ex_status_update (\<lambda>_. EX_PUBLISHED)))))
      (ret (i, metadataURI))))))))))"

subsection \<open>Periods of a monthly goal\<close>

definition period_of :: "string \<Rightarrow> int \<Rightarrow> goal_period \<Rightarrow> bool" where
  "period_of goalId periodIndex p \<longleftrightarrow> pd_goalId p = goalId \<and> pd_periodIndex p = periodIndex"

definition new_period :: "string \<Rightarrow> int \<Rightarrow> int \<Rightarrow> int \<Rightarrow> surplus_policy \<Rightarrow> string \<Rightarrow> goal_period" where
  "new_period goalId periodIndex startsAt endsAt surplusPolicy i =
     \<lparr>pd_id = i, pd_goalId = goalId, pd_periodIndex = periodIndex, pd_startsAt = startsAt, pd_endsAt = endsAt,
      pd_surplusPolicy = surplusPolicy, pd_finalPeriod = False, pd_preContributed = 0, pd_usdcContributed = 0,
      pd_preCarryIn = 0, pd_usdcCarryIn = 0, pd_preEntitlementAdded = 0, pd_usdcEntitlementAdded = 0,
      pd_preCarryOut = 0, pd_usdcCarryOut = 0, pd_settlementTxHash = None, pd_settlementBlock = None,
      pd_settlementBlockHash = None, pd_settlementLogIndex = None, pd_settledAt = None\<rparr>"

definition upsert_period :: "'w escrow_deps \<Rightarrow> string \<Rightarrow> int \<Rightarrow> (goal_period \<Rightarrow> goal_period) \<Rightarrow> (string \<Rightarrow> goal_period) \<Rightarrow>
    ('w, unit) escrow_prog" where
  "upsert_period deps goalId periodIndex change create = bindp (first_row goalPeriods (period_of goalId periodIndex)) (\<lambda>found.
     case found of
       Some _ \<Rightarrow> db_mod (goalPeriods_update (update_where (period_of goalId periodIndex) change))
     | None \<Rightarrow> bindp (extern (ed_uuid deps)) (\<lambda>i.
         insert_row goalPeriods goalPeriods_update (\<lambda>p. pd_id p = i) (create i)))"

definition on_monthly_goal_created :: "'w escrow_deps \<Rightarrow> funding_goal \<Rightarrow> int \<Rightarrow> int \<Rightarrow> int \<Rightarrow> int \<Rightarrow> ('w, unit) escrow_prog" where
  "on_monthly_goal_created deps goal periodStart periodEnd settlementDay policy =
     (if settlementDay < 1 \<or> settlementDay > 31 then throw (Unsupported_settlement_day settlementDay)
     else bindp (monthlyPolicyFor policy) (\<lambda>surplusPolicy.
     bindp (dateFromChainTimestamp periodStart) (\<lambda>startsAt.
     bindp (dateFromChainTimestamp periodEnd) (\<lambda>endsAt.
       thenp (update_goal goal (\<lambda>g. g\<lparr>g_goalType := MONTHLY, g_monthlySurplusPolicy := Some surplusPolicy,
         g_monthlyFirstSettlementAt := Some endsAt, g_monthlySettlementDay := Some settlementDay,
         g_monthStart := startsAt, g_deadline := endsAt\<rparr>))
       (upsert_period deps (g_id goal) 1
         (\<lambda>p. p\<lparr>pd_startsAt := startsAt, pd_endsAt := endsAt, pd_surplusPolicy := surplusPolicy\<rparr>)
         (new_period (g_id goal) 1 startsAt endsAt surplusPolicy))))))"

definition on_period_settled :: "'w escrow_deps \<Rightarrow> event_position \<Rightarrow> int \<Rightarrow> funding_goal \<Rightarrow> int \<Rightarrow> int \<Rightarrow> int \<Rightarrow> int \<Rightarrow> bool \<Rightarrow>
    ('w, unit) escrow_prog" where
  "on_period_settled deps at occurredAt goal periodIndex periodStart periodEnd policy finalPeriod =
     (case g_monthlySettlementDay goal of None \<Rightarrow> throw (No_valid_settlement_day (g_chainGoalId goal))
      | Some settlementDay \<Rightarrow>
        if settlementDay < 1 \<or> settlementDay > 31 then throw (No_valid_settlement_day (g_chainGoalId goal))
        else bindp (monthlyPolicyFor policy) (\<lambda>surplusPolicy.
        bindp (dateFromChainTimestamp periodStart) (\<lambda>startsAt.
        bindp (dateFromChainTimestamp periodEnd) (\<lambda>endsAt.
        let settled = (\<lambda>p. p\<lparr>pd_startsAt := startsAt, pd_endsAt := endsAt, pd_surplusPolicy := surplusPolicy,
              pd_finalPeriod := finalPeriod, pd_settlementTxHash := Some (at_txHash at),
              pd_settlementBlock := Some (at_blockNumber at), pd_settlementBlockHash := Some (at_blockHash at),
              pd_settlementLogIndex := Some (at_logIndex at), pd_settledAt := Some occurredAt\<rparr>) in
        thenp (upsert_period deps (g_id goal) periodIndex settled
          (\<lambda>i. settled (new_period (g_id goal) periodIndex startsAt endsAt surplusPolicy i)))
        (case nextMonthlySettlementUtc endsAt settlementDay of
           None \<Rightarrow> throw Invalid_date
         | Some nextEnd \<Rightarrow>
             thenp (update_goal goal (\<lambda>g. g\<lparr>g_monthlyPeriodsSettled := periodIndex,
               g_deadline := (if \<not> finalPeriod then nextEnd else g_deadline g)\<rparr>))
             (whenp (\<not> finalPeriod) (upsert_period deps (g_id goal) (periodIndex + 1) id
               (new_period (g_id goal) (periodIndex + 1) endsAt nextEnd surplusPolicy))))))))"

text \<open>\<^verbatim>\<open>fundingGoalPeriod.update\<close> throws when there is no such period.\<close>

definition update_period :: "string \<Rightarrow> int \<Rightarrow> (goal_period \<Rightarrow> goal_period) \<Rightarrow> ('w, unit) escrow_prog" where
  "update_period goalId periodIndex f = bindp (first_row goalPeriods (period_of goalId periodIndex)) (\<lambda>found.
     if found = None then throw Record_missing
     else db_mod (goalPeriods_update (update_where (period_of goalId periodIndex) f)))"

definition update_open_period :: "string \<Rightarrow> int \<Rightarrow> (goal_period \<Rightarrow> goal_period) \<Rightarrow> ('w, unit) escrow_prog" where
  "update_open_period goalId periodIndex f = db_mod (goalPeriods_update
     (update_where (\<lambda>p. period_of goalId periodIndex p \<and> pd_settledAt p = None) f))"

definition on_token_settled :: "deployment \<Rightarrow> funding_goal \<Rightarrow> int \<Rightarrow> string \<Rightarrow> int \<Rightarrow> int \<Rightarrow> int \<Rightarrow> int \<Rightarrow>
    ('w, unit) escrow_prog" where
  "on_token_settled config goal periodIndex token periodContributed carryIn entitlementAdded carryOut =
     bindp (assetFor config token) (\<lambda>asset.
     thenp (update_period (g_id goal) periodIndex (\<lambda>p. case asset of
         PRE \<Rightarrow> p\<lparr>pd_preContributed := periodContributed, pd_preCarryIn := carryIn,
            pd_preEntitlementAdded := entitlementAdded, pd_preCarryOut := carryOut\<rparr>
       | USDC \<Rightarrow> p\<lparr>pd_usdcContributed := periodContributed, pd_usdcCarryIn := carryIn,
            pd_usdcEntitlementAdded := entitlementAdded, pd_usdcCarryOut := carryOut\<rparr>))
     (thenp (update_open_period (g_id goal) (periodIndex + 1) (\<lambda>p. case asset of
         PRE \<Rightarrow> p\<lparr>pd_preCarryIn := carryOut\<rparr> | USDC \<Rightarrow> p\<lparr>pd_usdcCarryIn := carryOut\<rparr>))
     (update_goal goal (\<lambda>g. case asset of
         PRE \<Rightarrow> g\<lparr>g_preCarry := carryOut, g_preRecipientEntitlement := g_preRecipientEntitlement goal + entitlementAdded\<rparr>
       | USDC \<Rightarrow> g\<lparr>g_usdcCarry := carryOut,
            g_usdcRecipientEntitlement := g_usdcRecipientEntitlement goal + entitlementAdded\<rparr>))))"

subsection \<open>Contributions\<close>

definition on_contribution :: "'w escrow_deps \<Rightarrow> deployment \<Rightarrow> event_position \<Rightarrow> int \<Rightarrow> funding_goal \<Rightarrow> string \<Rightarrow> string \<Rightarrow>
    int \<Rightarrow> bool \<Rightarrow> ('w, unit) escrow_prog" where
  "on_contribution deps config at occurredAt goal contributor token amount profileVisible =
     bindp (upsert_user deps (to_lower contributor)) (\<lambda>user.
     bindp (assetFor config token) (\<lambda>asset.
     bindp (extern (ed_uuid deps)) (\<lambda>i.
     thenp (insert_row contributions contributions_update
         (\<lambda>c. co_id c = i \<or> (co_chainId c = dp_chainId config \<and> co_txHash c = at_txHash at \<and> co_logIndex c = at_logIndex at))
         \<lparr>co_id = i, co_goalId = g_id goal, co_userId = us_id user, co_chainId = dp_chainId config,
          co_txHash = at_txHash at, co_logIndex = at_logIndex at, co_blockNumber = at_blockNumber at,
          co_blockHash = at_blockHash at, co_contributor = to_lower contributor, co_asset = asset,
          co_amount = amount, co_visibility = visibilityForContribution profileVisible, co_confirmedAt = occurredAt\<rparr>)
     (whenp (g_goalType goal = MONTHLY) (let periodIndex = g_monthlyPeriodsSettled goal + 1 in
        bindp (first_row goalPeriods (period_of (g_id goal) periodIndex)) (\<lambda>period. case period of
          None \<Rightarrow> throw (No_open_period periodIndex)
        | Some period \<Rightarrow> db_mod (goalPeriods_update (update_where (\<lambda>p. pd_id p = pd_id period) (\<lambda>p. case asset of
            PRE \<Rightarrow> p\<lparr>pd_preContributed := pd_preContributed period + amount\<rparr>
          | USDC \<Rightarrow> p\<lparr>pd_usdcContributed := pd_usdcContributed period + amount\<rparr>)))))))))"

subsection \<open>Goal actions of the Safe\<close>

definition pendingGoalActionStatuses :: "proposal_status list" where
  "pendingGoalActionStatuses = [SP_SUBMITTING, SP_AWAITING_CONFIRMATIONS, SP_READY_TO_EXECUTE]"

definition by_creation :: "safe_proposal list \<Rightarrow> safe_proposal list" where
  "by_creation = sort_key (\<lambda>p. (pr_createdAt p, pr_id p))"

definition action_intent_of :: "escrow_db \<Rightarrow> safe_proposal \<Rightarrow> action_intent option" where
  "action_intent_of d p = List.find (\<lambda>i. ai_id i = pr_intentId p) (actionIntents d)"

definition action_candidates :: "string \<Rightarrow> action_kind \<Rightarrow> surplus_policy option \<Rightarrow> escrow_db \<Rightarrow> safe_proposal list" where
  "action_candidates goalId kind targetPolicy d = filter (\<lambda>p. case action_intent_of d p of None \<Rightarrow> False
       | Some i \<Rightarrow> targetPolicy = None \<or> ai_targetPolicy i = targetPolicy)
     (by_creation (filter (\<lambda>p. pr_status p \<in> set pendingGoalActionStatuses \<and> (case action_intent_of d p of
         None \<Rightarrow> False | Some i \<Rightarrow> ai_goalId i = goalId \<and> ai_kind i = kind)) (actionProposals d)))"

definition executed_in :: "string \<Rightarrow> safe_proposal \<Rightarrow> bool" where
  "executed_in txHash p = (map_option to_lower (pr_executionTxHash p) = Some (to_lower txHash))"

definition confirmSafeGoalAction :: "string \<Rightarrow> action_kind \<Rightarrow> string \<Rightarrow> int \<Rightarrow> surplus_policy option \<Rightarrow> ('w, unit) escrow_prog" where
  "confirmSafeGoalAction goalId kind txHash occurredAt targetPolicy =
     bindp (db_get (action_candidates goalId kind targetPolicy)) (\<lambda>eligible.
     let proposal = (case List.find (executed_in txHash) eligible of
           Some p \<Rightarrow> Some p
         | None \<Rightarrow> (case eligible of [p] \<Rightarrow> Some p | _ \<Rightarrow> None))
     in case proposal of
        None \<Rightarrow> ret ()
      | Some proposal \<Rightarrow> db_mod (actionProposals_update (update_where (\<lambda>p. pr_id p = pr_id proposal)
          (\<lambda>p. p\<lparr>pr_status := SP_EXECUTED, pr_confirmations := pr_threshold proposal,
            pr_executionTxHash := Some (to_lower txHash), pr_failureReason := None,
            pr_lastCheckedAt := Some occurredAt, pr_executedAt := Some occurredAt\<rparr>))))"

subsection \<open>Payouts\<close>

definition intent_of :: "escrow_db \<Rightarrow> payout \<Rightarrow> payout_intent option" where
  "intent_of d p = List.find (\<lambda>i. pi_payoutId i = po_id p) (payoutIntents d)"

definition proposal_of :: "escrow_db \<Rightarrow> payout \<Rightarrow> safe_proposal option" where
  "proposal_of d p = (case intent_of d p of None \<Rightarrow> None
     | Some i \<Rightarrow> List.find (\<lambda>x. pr_intentId x = pi_id i) (payoutProposals d))"

definition payout_candidates :: "string \<Rightarrow> payout_kind \<Rightarrow> asset \<Rightarrow> string \<Rightarrow> escrow_db \<Rightarrow> payout list" where
  "payout_candidates goalId kind asset amountRaw d = sort_key (\<lambda>p. (po_createdAt p, po_id p))
     (filter (\<lambda>p. po_goalId p = goalId \<and> po_kind p = kind \<and> po_asset p = asset \<and> po_amountRaw p = amountRaw \<and>
        po_status p = PO_PROPOSED) (payouts d))"

definition execution_hash :: "escrow_db \<Rightarrow> payout \<Rightarrow> string option" where
  "execution_hash d p = (case proposal_of d p of None \<Rightarrow> None | Some x \<Rightarrow> pr_executionTxHash x)"

definition proposed_payout :: "string \<Rightarrow> payout list \<Rightarrow> escrow_db \<Rightarrow> payout option" where
  "proposed_payout txHash candidates d =
     (case List.find (\<lambda>p. map_option to_lower (execution_hash d p) = Some (to_lower txHash)) candidates of
        Some p \<Rightarrow> Some p
      | None \<Rightarrow> (case candidates of
          [p] \<Rightarrow> if execution_hash d p = None \<or> execution_hash d p = Some [] then Some p else None
        | _ \<Rightarrow> None))"

definition execute_proposal :: "string \<Rightarrow> int \<Rightarrow> payout \<Rightarrow> ('w, unit) escrow_prog" where
  "execute_proposal txHash occurredAt proposed = bindp (db_get (\<lambda>d. (intent_of d proposed, proposal_of d proposed)))
     (\<lambda>(intent, proposal). case intent of
        None \<Rightarrow> ret ()
      | Some intent \<Rightarrow> (case pi_delivery intent of
          SERVICE \<Rightarrow> (case proposal of
            None \<Rightarrow> ret ()
          | Some proposal \<Rightarrow> db_mod (payoutProposals_update (update_where (\<lambda>x. pr_id x = pr_id proposal)
              (\<lambda>x. x\<lparr>pr_status := SP_EXECUTED, pr_confirmations := pr_threshold proposal,
                pr_executionTxHash := Some txHash, pr_failureReason := None,
                pr_lastCheckedAt := Some occurredAt, pr_executedAt := Some occurredAt\<rparr>))))
        | MANUAL \<Rightarrow> db_mod (payoutIntents_update (update_where (\<lambda>i. pi_id i = pi_id intent)
            (pi_consumedAt_update (\<lambda>_. Some occurredAt))))))"

definition on_released :: "'w escrow_deps \<Rightarrow> deployment \<Rightarrow> event_position \<Rightarrow> int \<Rightarrow> funding_goal \<Rightarrow> payout_kind \<Rightarrow> string \<Rightarrow>
    string \<Rightarrow> int \<Rightarrow> ('w, unit) escrow_prog" where
  "on_released deps config at occurredAt goal kind token payoutRecipient amount =
     bindp (assetFor config token) (\<lambda>asset.
     let amountRaw = show_int amount; recipientAddress = to_lower payoutRecipient in
     bindp (db_get (\<lambda>d. proposed_payout (at_txHash at) (payout_candidates (g_id goal) kind asset amountRaw d) d)) (\<lambda>proposed.
     case proposed of
       Some proposed \<Rightarrow>
         thenp (db_mod (payouts_update (update_where (\<lambda>p. po_id p = po_id proposed)
           (\<lambda>p. p\<lparr>po_status := PO_EXECUTED, po_chainTxHash := Some (at_txHash at),
             po_recipientAddress := recipientAddress, po_executedAt := Some occurredAt\<rparr>))))
         (execute_proposal (at_txHash at) occurredAt proposed)
     | None \<Rightarrow> bindp (extern (ed_uuid deps)) (\<lambda>i. bindp (extern (ed_now deps)) (\<lambda>now.
         insert_row payouts payouts_update (\<lambda>p. po_id p = i)
           \<lparr>po_id = i, po_goalId = g_id goal, po_asset = asset, po_kind = kind, po_amountRaw = amountRaw,
            po_recipientAddress = recipientAddress, po_chainTxHash = Some (at_txHash at), po_status = PO_EXECUTED,
            po_createdAt = now, po_executedAt = Some occurredAt\<rparr>))))"

subsection \<open>The handler\<close>

definition contribution_total :: "string \<Rightarrow> asset \<Rightarrow> escrow_db \<Rightarrow> int" where
  "contribution_total goalId asset d =
     sum_list (map co_amount (filter (\<lambda>c. co_goalId c = goalId \<and> co_asset c = asset) (contributions d)))"

definition on_cancelled :: "int \<Rightarrow> funding_goal \<Rightarrow> ('w, unit) escrow_prog" where
  "on_cancelled occurredAt goal =
     bindp (db_get (\<lambda>d. (contribution_total (g_id goal) PRE d, contribution_total (g_id goal) USDC d))) (\<lambda>(pre, usdc).
     update_goal goal (\<lambda>g. if g_goalType goal = ONE_TIME
       then g\<lparr>g_status := G_CANCELLED, g_closedAt := Some occurredAt, g_preTreasuryEntitlement := pre,
         g_usdcTreasuryEntitlement := usdc\<rparr>
       else g\<lparr>g_status := G_CANCELLED, g_closedAt := Some occurredAt\<rparr>))"

definition on_policy_updated :: "event_position \<Rightarrow> int \<Rightarrow> funding_goal \<Rightarrow> int \<Rightarrow> ('w, unit) escrow_prog" where
  "on_policy_updated at occurredAt goal newPolicy = bindp (monthlyPolicyFor newPolicy) (\<lambda>surplusPolicy.
     thenp (update_goal goal (g_monthlySurplusPolicy_update (\<lambda>_. Some surplusPolicy)))
     (thenp (update_open_period (g_id goal) (g_monthlyPeriodsSettled goal + 1) (pd_surplusPolicy_update (\<lambda>_. surplusPolicy)))
     (confirmSafeGoalAction (g_id goal) SET_MONTHLY_SURPLUS_POLICY (at_txHash at) occurredAt (Some surplusPolicy))))"

definition on_stop_requested :: "event_position \<Rightarrow> int \<Rightarrow> funding_goal \<Rightarrow> ('w, unit) escrow_prog" where
  "on_stop_requested at occurredAt goal =
     thenp (update_goal goal (g_monthlyStopRequestedAt_update (\<lambda>_. Some occurredAt)))
     (confirmSafeGoalAction (g_id goal) REQUEST_MONTHLY_STOP (at_txHash at) occurredAt None)"

definition on_closed :: "int \<Rightarrow> funding_goal \<Rightarrow> int \<Rightarrow> int \<Rightarrow> ('w, unit) escrow_prog" where
  "on_closed occurredAt goal pre usdc = update_goal goal (\<lambda>g. g\<lparr>g_status := G_CLOSED, g_closedAt := Some occurredAt,
     g_preRecipientEntitlement := pre, g_usdcRecipientEntitlement := usdc\<rparr>)"

definition on_monthly_cancelled :: "event_position \<Rightarrow> int \<Rightarrow> funding_goal \<Rightarrow> int \<Rightarrow> int \<Rightarrow> ('w, unit) escrow_prog" where
  "on_monthly_cancelled at occurredAt goal pre usdc =
     thenp (update_goal goal (\<lambda>g. g\<lparr>g_preTreasuryEntitlement := g_preTreasuryEntitlement goal + pre,
       g_usdcTreasuryEntitlement := g_usdcTreasuryEntitlement goal + usdc, g_preCarry := 0, g_usdcCarry := 0\<rparr>))
     (confirmSafeGoalAction (g_id goal) CANCEL_MONTHLY (at_txHash at) occurredAt None)"

text \<open>The goal an event names; \<open>None\<close> is the empty text of an event without one.\<close>

fun event_goal :: "escrow_event \<Rightarrow> string option" where
  "event_goal (GoalCreated goalId _ _ _ _ _ _ _ _) = Some goalId"
| "event_goal (MonthlyGoalCreated goalId _ _ _ _) = Some goalId"
| "event_goal (ContributionReceived goalId _ _ _ _) = Some goalId"
| "event_goal (MonthlySurplusPolicyUpdated goalId _) = Some goalId"
| "event_goal (MonthlyGoalStopRequested goalId) = Some goalId"
| "event_goal (MonthlyPeriodSettled goalId _ _ _ _ _) = Some goalId"
| "event_goal (MonthlyTokenSettled goalId _ _ _ _ _ _) = Some goalId"
| "event_goal (GoalClosed goalId _ _) = Some goalId"
| "event_goal (GoalCancelled goalId) = Some goalId"
| "event_goal (MonthlyGoalCancelled goalId _ _) = Some goalId"
| "event_goal (ExpenseReleased goalId _ _ _) = Some goalId"
| "event_goal (CancelledFundsReleased goalId _ _ _) = Some goalId"
| "event_goal (GoalPayoutUpdated goalId) = Some goalId"
| "event_goal _ = None"

fun on_goal_event :: "'w escrow_deps \<Rightarrow> deployment \<Rightarrow> event_position \<Rightarrow> int \<Rightarrow> funding_goal \<Rightarrow> escrow_event \<Rightarrow>
    ('w, unit) escrow_prog" where
  "on_goal_event deps config at occurredAt goal (MonthlyGoalCreated _ periodStart periodEnd settlementDay policy) =
     on_monthly_goal_created deps goal periodStart periodEnd settlementDay policy"
| "on_goal_event deps config at occurredAt goal (ContributionReceived _ contributor token amount profileVisible) =
     on_contribution deps config at occurredAt goal contributor token amount profileVisible"
| "on_goal_event deps config at occurredAt goal (MonthlySurplusPolicyUpdated _ newPolicy) =
     on_policy_updated at occurredAt goal newPolicy"
| "on_goal_event deps config at occurredAt goal (MonthlyGoalStopRequested _) = on_stop_requested at occurredAt goal"
| "on_goal_event deps config at occurredAt goal (MonthlyPeriodSettled _ periodIndex periodStart periodEnd policy finalPeriod) =
     on_period_settled deps at occurredAt goal periodIndex periodStart periodEnd policy finalPeriod"
| "on_goal_event deps config at occurredAt goal (MonthlyTokenSettled _ periodIndex token contributed carryIn added carryOut) =
     on_token_settled config goal periodIndex token contributed carryIn added carryOut"
| "on_goal_event deps config at occurredAt goal (GoalClosed _ pre usdc) = on_closed occurredAt goal pre usdc"
| "on_goal_event deps config at occurredAt goal (GoalCancelled _) = on_cancelled occurredAt goal"
| "on_goal_event deps config at occurredAt goal (MonthlyGoalCancelled _ pre usdc) =
     on_monthly_cancelled at occurredAt goal pre usdc"
| "on_goal_event deps config at occurredAt goal (ExpenseReleased _ token payoutRecipient amount) =
     on_released deps config at occurredAt goal EXPENSE token payoutRecipient amount"
| "on_goal_event deps config at occurredAt goal (CancelledFundsReleased _ token payoutRecipient amount) =
     on_released deps config at occurredAt goal CANCELLED_FUNDS token payoutRecipient amount"
| "on_goal_event deps config at occurredAt goal _ = ret ()"

definition require_goal :: "'w escrow_deps \<Rightarrow> deployment \<Rightarrow> event_position \<Rightarrow> escrow_event \<Rightarrow>
    ('w, (string \<times> utext) option) escrow_prog" where
  "require_goal deps config at event =
     (let chainGoalId = (case event_goal event of None \<Rightarrow> [] | Some goalId \<Rightarrow> to_lower goalId) in
      bindp (if chainGoalId = [] then ret None else db_get (find_goal config chainGoalId)) (\<lambda>goal. case goal of
        None \<Rightarrow> throw (Unknown_goal chainGoalId)
      | Some goal \<Rightarrow> thenp (on_goal_event deps config at (at_blockTimestamp at * 1000) goal event) (ret None)))"

fun handleDecodedEscrowEvent :: "'w escrow_deps \<Rightarrow> deployment \<Rightarrow> event_position \<Rightarrow> escrow_event \<Rightarrow>
    ('w, (string \<times> utext) option) escrow_prog" where
  "handleDecodedEscrowEvent deps config at (OwnershipTransferred _ newOwner) =
     thenp (applyAuthorityChange config at OWNER newOwner True) (ret None)"
| "handleDecodedEscrowEvent deps config at (OwnershipTransferStarted _ _) = ret None"
| "handleDecodedEscrowEvent deps config at (GoalManagerUpdated account enabled) =
     thenp (applyAuthorityChange config at GOAL_MANAGER account enabled) (ret None)"
| "handleDecodedEscrowEvent deps config at
     (ProfileUpdated account revision displayName websiteUrl bio avatarUri defaultPublic) =
     (if \<not> isIndexableProfile account displayName websiteUrl bio avatarUri then ret None
      else thenp (applyProfileUpdate deps config at account revision displayName websiteUrl bio avatarUri defaultPublic)
        (ret None))"
| "handleDecodedEscrowEvent deps config at (ProfileCleared account revision) =
     thenp (applyProfileClear deps config at account revision) (ret None)"
| "handleDecodedEscrowEvent deps config at
     (GoalCreated goalId creator recipient preTarget usdcTarget deadline title description metadataURI) =
     bindp (on_goal_created deps config at (at_blockTimestamp at * 1000) goalId creator recipient preTarget usdcTarget
       deadline title description metadataURI) (\<lambda>refresh. ret (Some refresh))"
| "handleDecodedEscrowEvent deps config at event = require_goal deps config at event"

end
