(* ===== verification/Escrow_Indexer.thy ===== *)
theory Escrow_Indexer
  imports Escrow
begin

section \<open>Indexing the escrow\<close>

text \<open>
  \<^verbatim>\<open>resetChainProjection\<close> of \<^verbatim>\<open>packages/database/src/projection-reset.ts\<close>, \<^verbatim>\<open>verifyEscrowManifest\<close> of
  \<^verbatim>\<open>apps/worker/src/escrow-manifest.ts\<close> and the indexing pass of \<^verbatim>\<open>apps/worker/src/indexer.ts\<close>. The memory is the
  key of the manifest that has been verified.
\<close>

subsection \<open>Clearing the projection\<close>

definition has_safe_intents :: "escrow_db \<Rightarrow> funding_goal \<Rightarrow> bool" where
  "has_safe_intents d g \<longleftrightarrow> (\<exists>i\<in>set (payoutIntents d). pi_goalId i = g_id g) \<or>
     (\<exists>i\<in>set (actionIntents d). ai_goalId i = g_id g)"

definition indexed_goals :: "int \<Rightarrow> escrow_db \<Rightarrow> funding_goal list" where
  "indexed_goals chainId d = filter (\<lambda>g. g_chainId g = chainId \<and> g_creationTxHash g \<noteq> None) (fundingGoals d)"

definition retained_ids :: "int \<Rightarrow> escrow_db \<Rightarrow> string set" where
  "retained_ids chainId d = g_id ` set (filter (has_safe_intents d) (indexed_goals chainId d))"

definition reopened :: "safe_proposal \<Rightarrow> safe_proposal" where
  "reopened p = p\<lparr>pr_status := SP_SUBMITTING, pr_executionTxHash := None, pr_failureReason := None,
     pr_lastCheckedAt := None, pr_executedAt := None\<rparr>"

definition retained_goal :: "funding_goal \<Rightarrow> funding_goal" where
  "retained_goal g = g\<lparr>g_status := G_OPEN, g_creatorAddress := zeroAddress, g_goalType := ONE_TIME,
     g_monthlySurplusPolicy := None, g_monthlyFirstSettlementAt := None, g_monthlySettlementDay := None,
     g_monthlyStopRequestedAt := None, g_monthlyPeriodsSettled := 0, g_preRecipientEntitlement := 0,
     g_usdcRecipientEntitlement := 0, g_preCarry := 0, g_usdcCarry := 0, g_preTreasuryEntitlement := 0,
     g_usdcTreasuryEntitlement := 0, g_creationTxHash := None, g_creationBlock := None,
     g_creationBlockHash := None, g_publishedAt := None, g_closedAt := None, g_metadataStatus := MD_NOT_SET,
     g_metadata := None\<rparr>"

definition payout_intent_of :: "escrow_db \<Rightarrow> safe_proposal \<Rightarrow> payout_intent option" where
  "payout_intent_of d p = List.find (\<lambda>i. pi_id i = pr_intentId p) (payoutIntents d)"

definition executed_intent :: "int \<Rightarrow> string set \<Rightarrow> escrow_db \<Rightarrow> safe_proposal \<Rightarrow> bool" where
  "executed_intent chainId retained d p \<longleftrightarrow> (case payout_intent_of d p of None \<Rightarrow> False
     | Some i \<Rightarrow> pi_chainId i = chainId \<and> pi_goalId i \<in> retained \<and>
         (\<exists>x\<in>set (payouts d). po_id x = pi_payoutId i \<and> po_status x = PO_EXECUTED))"

text \<open>The updates of the goals that keep Safe intents, in the order of the code.\<close>

definition reset_retained :: "int \<Rightarrow> string set \<Rightarrow> escrow_db \<Rightarrow> escrow_db" where
  "reset_retained chainId retained d =
     (let d = goalPeriods_update (filter (\<lambda>p. pd_goalId p \<notin> retained)) d;
          d = contributions_update (filter (\<lambda>c. co_goalId c \<notin> retained)) d;
          d = payouts_update (filter (\<lambda>p. \<not> (po_goalId p \<in> retained \<and> intent_of d p = None))) d;
          d = payoutProposals_update (update_where
                (\<lambda>p. pr_status p = SP_EXECUTED \<and> executed_intent chainId retained d p) reopened) d;
          d = payouts_update (update_where (\<lambda>p. po_goalId p \<in> retained \<and> intent_of d p \<noteq> None \<and> po_status p = PO_EXECUTED)
                (\<lambda>p. p\<lparr>po_status := PO_PROPOSED, po_chainTxHash := None, po_executedAt := None\<rparr>)) d;
          d = actionProposals_update (update_where (\<lambda>p. pr_status p = SP_EXECUTED \<and> (case action_intent_of d p of
                None \<Rightarrow> False | Some i \<Rightarrow> ai_chainId i = chainId \<and> ai_goalId i \<in> retained)) reopened) d
      in fundingGoals_update (update_where (\<lambda>g. g_id g \<in> retained) retained_goal) d)"

text \<open>Deleting a goal deletes its periods, contributions and payouts.\<close>

definition delete_goals :: "(funding_goal \<Rightarrow> bool) \<Rightarrow> escrow_db \<Rightarrow> escrow_db" where
  "delete_goals P d = (let gone = g_id ` set (filter P (fundingGoals d)) in
     d\<lparr>fundingGoals := filter (\<lambda>g. \<not> P g) (fundingGoals d),
       goalPeriods := filter (\<lambda>p. pd_goalId p \<notin> gone) (goalPeriods d),
       contributions := filter (\<lambda>c. co_goalId c \<notin> gone) (contributions d),
       payouts := filter (\<lambda>p. po_goalId p \<notin> gone) (payouts d)\<rparr>)"

definition cleared_profile :: "sponsor_profile \<Rightarrow> sponsor_profile" where
  "cleared_profile p = p\<lparr>prof_active := False, prof_revision := 0, prof_displayName := None,
     prof_websiteUrl := None, prof_bio := None, prof_avatarUri := None, prof_avatarStatus := MD_NOT_SET,
     prof_defaultPublic := False, prof_blockNumber := None, prof_blockHash := None, prof_txHash := None,
     prof_logIndex := None\<rparr>"

definition resetProfileProjectionAfterReorg :: "deployment \<Rightarrow> ('w, unit) escrow_prog" where
  "resetProfileProjectionAfterReorg config = db_mod (sponsorProfiles_update
     (update_where (\<lambda>p. prof_chainId p = Some (dp_chainId config)) cleared_profile))"

definition reset_projection :: "int \<Rightarrow> string option \<Rightarrow> escrow_db \<Rightarrow> escrow_db" where
  "reset_projection chainId address d =
     (let goals = indexed_goals chainId d;
          retained = retained_ids chainId d;
          expenseIds = set (filter (\<lambda>i. i \<noteq> []) (List.map_filter g_expenseId goals));
          d = expenses_update (update_where (\<lambda>e. ex_id e \<in> expenseIds \<and> ex_status e = EX_PUBLISHED)
                (\<lambda>e. e\<lparr>ex_status := EX_PENDING_CHAIN, ex_pendingChainTxHash := None\<rparr>)) d;
          d = (if retained = {} then d else reset_retained chainId retained d);
          d = delete_goals (\<lambda>g. g_chainId g = chainId \<and> g_creationTxHash g \<noteq> None \<and> g_id g \<notin> retained) d
      in d\<lparr>sponsorProfiles := update_where (\<lambda>p. prof_chainId p = Some chainId) cleared_profile (sponsorProfiles d),
           chainAuthorities := filter (\<lambda>a. \<not> (au_chainId a = chainId \<and>
             (case address of None \<Rightarrow> True | Some a' \<Rightarrow> au_contractAddress a = a'))) (chainAuthorities d),
           chainEvents := filter (\<lambda>e. ce_chainId e \<noteq> chainId) (chainEvents d),
           escrowStates := filter (\<lambda>s. es_chainId s \<noteq> chainId) (escrowStates d)\<rparr>)"

definition resetChainProjection :: "int \<Rightarrow> string option \<Rightarrow> ('w, unit) escrow_prog" where
  "resetChainProjection chainId address = db_mod (reset_projection chainId address)"

subsection \<open>The chain\<close>

text \<open>
  What the pass reads. \<open>ec_contract\<close> answers the calls of \<^verbatim>\<open>verifyEscrowManifest\<close>: chain id, bytecode, PRE, USDC,
  treasury and current owner, the settlement limit, schedule version, shortest and longest first delay, and
  the owners of the ownership events of the deployment block. \<open>ec_block\<close> answers hash and timestamp.
\<close>

record escrow_contract =
  ecn_chainId :: int
  ecn_bytecode :: "string option"
  ecn_pre :: string
  ecn_usdc :: string
  ecn_treasury :: string
  ecn_owner :: string
  ecn_settlementLimit :: int
  ecn_scheduleVersion :: int
  ecn_minDelay :: int
  ecn_maxDelay :: int
  ecn_ownerEvents :: "(string \<times> string) list"

record escrow_log =
  el_blockNumber :: int
  el_blockHash :: string
  el_transactionHash :: string
  el_logIndex :: int
  el_event :: escrow_event

record ipfs_response =
  ir_ok :: bool
  ir_declaredLength :: "int option"
  ir_text :: utext

record 'w escrow_chain =
  ec_head :: "'w \<Rightarrow> (escrow_error + int) \<times> 'w"
  ec_block :: "int \<Rightarrow> 'w \<Rightarrow> (escrow_error + string \<times> int) \<times> 'w"
  ec_contract :: "'w \<Rightarrow> (escrow_error + escrow_contract) \<times> 'w"
  ec_events :: "int \<Rightarrow> int \<Rightarrow> 'w \<Rightarrow> (escrow_error + escrow_log list) \<times> 'w"
  ec_balance :: "string \<Rightarrow> 'w \<Rightarrow> (escrow_error + int) \<times> 'w"
  ec_fetch :: "utext list \<Rightarrow> 'w \<Rightarrow> (escrow_error + ipfs_response) \<times> 'w"
  ec_getAddress :: "string \<Rightarrow> string option"
  ec_parseMetadata :: "utext \<Rightarrow> utext option"

definition isDeploymentConfigured :: "deployment \<Rightarrow> bool" where
  "isDeploymentConfigured m \<longleftrightarrow> dp_deploymentBlock m \<noteq> 0 \<and>
     zeroAddress \<notin> set [dp_escrowAddress m, dp_preAddress m, dp_usdcAddress m, dp_owner m, dp_treasury m]"

definition deploymentStateKey :: "deployment \<Rightarrow> string" where
  "deploymentStateKey m = ''precommunity:escrow:'' @ show_int (dp_chainId m) @ '':'' @ to_lower (dp_escrowAddress m)"

subsection \<open>The manifest\<close>

definition normalizedAddress :: "'w escrow_chain \<Rightarrow> string \<Rightarrow> ('w, string) escrow_prog" where
  "normalizedAddress chain a = (case ec_getAddress chain a of
     None \<Rightarrow> throw (Manifest_mismatch M_address) | Some x \<Rightarrow> ret (to_lower x))"

definition assertAddress :: "'w escrow_chain \<Rightarrow> manifest_field \<Rightarrow> string \<Rightarrow> string \<Rightarrow> ('w, string) escrow_prog" where
  "assertAddress chain field actual expected = bindp (normalizedAddress chain actual) (\<lambda>a.
     bindp (normalizedAddress chain expected) (\<lambda>e. if a \<noteq> e then throw (Manifest_mismatch field) else ret a))"

definition check :: "bool \<Rightarrow> manifest_field \<Rightarrow> ('w, unit) escrow_prog" where
  "check ok field = (if ok then ret () else throw (Manifest_mismatch field))"

text \<open>\<^verbatim>\<open>some\<close> stops at the first event that proves the owner.\<close>

fun initial_owner_proof :: "'w escrow_chain \<Rightarrow> string \<Rightarrow> (string \<times> string) list \<Rightarrow> ('w, bool) escrow_prog" where
  "initial_owner_proof chain expected [] = ret False"
| "initial_owner_proof chain expected ((previousOwner, newOwner) # events) =
     bindp (normalizedAddress chain previousOwner) (\<lambda>previous.
       if previous \<noteq> zeroAddress then initial_owner_proof chain expected events
       else bindp (normalizedAddress chain newOwner) (\<lambda>new.
         if new = expected then ret True else initial_owner_proof chain expected events))"

definition verifyEscrowManifest :: "'w escrow_chain \<Rightarrow> deployment \<Rightarrow> string option \<Rightarrow> ('w, unit) escrow_prog" where
  "verifyEscrowManifest chain manifest configuredSafeAddress =
     bindp (normalizedAddress chain (dp_escrowAddress manifest)) (\<lambda>_.
     bindp (extern (ec_contract chain)) (\<lambda>c.
     thenp (check (ecn_chainId c = dp_chainId manifest) M_chain)
     (thenp (check (truthy (ecn_bytecode c) \<and> ecn_bytecode c \<noteq> Some ''0x'') M_bytecode)
     (thenp (assertAddress chain M_pre (ecn_pre c) (dp_preAddress manifest))
     (thenp (assertAddress chain M_usdc (ecn_usdc c) (dp_usdcAddress manifest))
     (thenp (assertAddress chain M_treasury (ecn_treasury c) (dp_treasury manifest))
     (thenp (check (ecn_settlementLimit c = 24) M_settlement_limit)
     (thenp (check (ecn_scheduleVersion c = 1) M_schedule_version)
     (thenp (check (ecn_minDelay c = 7 * 24 * 60 * 60) M_min_delay)
     (thenp (check (ecn_maxDelay c = 60 * 24 * 60 * 60) M_max_delay)
     (bindp (normalizedAddress chain (dp_owner manifest)) (\<lambda>expectedInitialOwner.
      bindp (initial_owner_proof chain expectedInitialOwner (ecn_ownerEvents c)) (\<lambda>proved.
      thenp (check proved M_initial_owner)
      (bindp (normalizedAddress chain (ecn_owner c)) (\<lambda>owner.
       bindp (case configuredSafeAddress of
           None \<Rightarrow> ret [expectedInitialOwner]
         | Some safe \<Rightarrow> if safe = [] then ret [expectedInitialOwner]
             else bindp (normalizedAddress chain safe) (\<lambda>safe. ret [expectedInitialOwner, safe])) (\<lambda>allowed.
       check (owner \<in> set allowed) M_owner))))))))))))))))"

definition ensureEscrowManifest :: "'w escrow_chain \<Rightarrow> deployment \<Rightarrow> string option \<Rightarrow> ('w, unit) escrow_prog" where
  "ensureEscrowManifest chain config safe =
     (if \<not> isDeploymentConfigured config then ret ()
      else bindp (mem_get id) (\<lambda>verified.
        if verified = Some (deploymentStateKey config) then ret ()
        else thenp (verifyEscrowManifest chain config safe) (mem_mod (\<lambda>_. Some (deploymentStateKey config)))))"

subsection \<open>Off-chain metadata\<close>

definition set_metadata :: "string \<Rightarrow> metadata_status \<Rightarrow> utext option \<Rightarrow> ('w, metadata_status) escrow_prog" where
  "set_metadata goalId status metadata = bindp (first_row fundingGoals (\<lambda>g. g_id g = goalId)) (\<lambda>found.
     if found = None then throw Record_missing
     else thenp (db_mod (fundingGoals_update (update_where (\<lambda>g. g_id g = goalId)
       (\<lambda>g. g\<lparr>g_metadataStatus := status, g_metadata := metadata\<rparr>)))) (ret status))"

definition METADATA_LIMIT :: nat where "METADATA_LIMIT = 262144"

definition refreshGoalMetadata :: "'w escrow_chain \<Rightarrow> string \<Rightarrow> utext \<Rightarrow> ('w, metadata_status) escrow_prog" where
  "refreshGoalMetadata chain goalId metadataUri =
     (if metadataUri = [] then set_metadata goalId MD_NOT_SET None
      else if \<not> isValidIpfsUri metadataUri then set_metadata goalId MD_INVALID None
      else catchp
        (bindp (extern (ec_fetch chain (split_at 47 (drop 7 metadataUri)))) (\<lambda>response.
          if \<not> ir_ok response \<or> (case ir_declaredLength response of None \<Rightarrow> False | Some n \<Rightarrow> n > int METADATA_LIMIT)
          then throw Rpc_error
          else if utf8_length (ir_text response) > METADATA_LIMIT then throw Rpc_error
          else (case ec_parseMetadata chain (ir_text response) of
              None \<Rightarrow> set_metadata goalId MD_INVALID None
            | Some parsed \<Rightarrow> set_metadata goalId MD_AVAILABLE (Some parsed))))
        (\<lambda>_. set_metadata goalId MD_UNAVAILABLE None))"

text \<open>The goals that are tried again; \<^verbatim>\<open>Promise.all\<close> runs them in some order, here the order of the list.\<close>

definition retryUnavailableMetadata :: "'w escrow_chain \<Rightarrow> deployment \<Rightarrow> nat \<Rightarrow> ('w, nat \<times> nat) escrow_prog" where
  "retryUnavailableMetadata chain config limit = bindp (db_get (\<lambda>d. take limit (sort_key g_updatedAt (filter (\<lambda>g.
       g_chainId g = dp_chainId config \<and> g_creationTxHash g \<noteq> None \<and> g_metadataStatus g = MD_UNAVAILABLE \<and>
       g_metadataUri g \<noteq> None) (fundingGoals d))))) (\<lambda>goals.
     bindp (foldp (\<lambda>g recovered. bindp (refreshGoalMetadata chain (g_id g) (the (g_metadataUri g)))
         (\<lambda>status. ret (if status = MD_AVAILABLE then Suc recovered else recovered))) goals 0)
       (\<lambda>recovered. ret (length goals, recovered)))"

subsection \<open>The pass\<close>

definition confirmedHead :: "int \<Rightarrow> int \<Rightarrow> int \<Rightarrow> int option" where
  "confirmedHead head deploymentBlock confirmations =
     (if head < deploymentBlock + confirmations then None else Some (head - confirmations))"

definition chainReorganized :: "string \<Rightarrow> string \<Rightarrow> bool" where
  "chainReorganized storedHash canonicalHash \<longleftrightarrow> to_lower storedHash \<noteq> to_lower canonicalHash"

definition compareEscrowLogs :: "escrow_log \<Rightarrow> escrow_log \<Rightarrow> int" where
  "compareEscrowLogs left right =
     (if el_blockNumber left \<noteq> el_blockNumber right then (if el_blockNumber left < el_blockNumber right then -1 else 1)
      else el_logIndex left - el_logIndex right)"

definition same_event :: "chain_event_row \<Rightarrow> chain_event_row \<Rightarrow> bool" where
  "same_event a b \<longleftrightarrow> ce_chainId a = ce_chainId b \<and> ce_txHash a = ce_txHash b \<and> ce_logIndex a = ce_logIndex b"

definition claimChainEvent :: "chain_event_row \<Rightarrow> ('w, bool) escrow_prog" where
  "claimChainEvent e = bindp (db_get chainEvents) (\<lambda>rows.
     if \<exists>x\<in>set rows. same_event x e then ret False
     else thenp (db_mod (chainEvents_update (\<lambda>rows. rows @ [e]))) (ret True))"

definition event_row :: "deployment \<Rightarrow> escrow_log \<Rightarrow> chain_event_row" where
  "event_row config log = \<lparr>ce_chainId = dp_chainId config, ce_txHash = to_lower (el_transactionHash log),
     ce_logIndex = el_logIndex log, ce_blockNumber = el_blockNumber log, ce_blockHash = el_blockHash log,
     ce_event = el_event log\<rparr>"

definition log_position :: "escrow_log \<Rightarrow> int \<Rightarrow> event_position" where
  "log_position log timestamp = \<lparr>at_blockNumber = el_blockNumber log, at_blockHash = el_blockHash log,
     at_blockTimestamp = timestamp, at_txHash = to_lower (el_transactionHash log), at_logIndex = el_logIndex log\<rparr>"

text \<open>The transaction of one log: \<open>None\<close> when it is not claimed.\<close>

definition apply_event :: "'w escrow_deps \<Rightarrow> deployment \<Rightarrow> escrow_log \<Rightarrow> int \<Rightarrow>
    ('w, (string \<times> utext) option option) escrow_prog" where
  "apply_event deps config log timestamp = transactional (bindp (claimChainEvent (event_row config log)) (\<lambda>claimed.
     if \<not> claimed then ret None
     else bindp (handleDecodedEscrowEvent deps config (log_position log timestamp) (el_event log)) (\<lambda>refresh.
       ret (Some refresh))))"

fun malformed_profile :: "escrow_event \<Rightarrow> bool" where
  "malformed_profile (ProfileUpdated account revision displayName websiteUrl bio avatarUri defaultPublic) =
     (\<not> isIndexableProfile account displayName websiteUrl bio avatarUri)"
| "malformed_profile _ = False"

text \<open>The loop over the logs of one chunk; the accumulator is the cache of blocks and the count.\<close>

definition index_log :: "'w escrow_chain \<Rightarrow> 'w escrow_deps \<Rightarrow> deployment \<Rightarrow> escrow_log \<Rightarrow> (int \<times> int) list \<times> nat \<Rightarrow>
    ('w, (int \<times> int) list \<times> nat) escrow_prog" where
  "index_log chain deps config log = (\<lambda>(blocks, processed).
     if malformed_profile (el_event log) then ret (blocks, processed)
     else bindp (case map_of blocks (el_blockNumber log) of
         Some timestamp \<Rightarrow> ret (blocks, timestamp)
       | None \<Rightarrow> bindp (extern (ec_block chain (el_blockNumber log)))
           (\<lambda>(_, timestamp). ret ((el_blockNumber log, timestamp) # blocks, timestamp)))
     (\<lambda>(blocks, timestamp).
       bindp (apply_event deps config log timestamp) (\<lambda>outcome. case outcome of
         None \<Rightarrow> ret (blocks, processed)
       | Some refresh \<Rightarrow> thenp (case refresh of
             None \<Rightarrow> ret ()
           | Some (goalId, uri) \<Rightarrow> bindp (refreshGoalMetadata chain goalId uri) (\<lambda>_. ret ()))
           (ret (blocks, Suc processed)))))"

definition write_state :: "deployment \<Rightarrow> int \<Rightarrow> string \<Rightarrow> ('w, unit) escrow_prog" where
  "write_state config lastBlock hash = db_mod (escrowStates_update (\<lambda>rows.
     if \<exists>s\<in>set rows. es_key s = deploymentStateKey config
     then update_where (\<lambda>s. es_key s = deploymentStateKey config)
       (\<lambda>s. s\<lparr>es_lastBlockNumber := lastBlock, es_lastBlockHash := hash\<rparr>) rows
     else rows @ [\<lparr>es_key = deploymentStateKey config, es_chainId = dp_chainId config,
       es_lastBlockNumber = lastBlock, es_lastBlockHash = hash\<rparr>]))"

definition index_escrow_range :: "'w escrow_chain \<Rightarrow> 'w escrow_deps \<Rightarrow> deployment \<Rightarrow> int \<Rightarrow> int \<Rightarrow> nat \<Rightarrow> ('w, nat) escrow_prog" where
  "index_escrow_range chain deps config start final processed =
     bindp (extern (ec_events chain start final)) (\<lambda>logs.
     bindp (foldp (index_log chain deps config) (sort_key (\<lambda>l. (el_blockNumber l, el_logIndex l)) logs) ([], processed))
       (\<lambda>(_, processed).
     bindp (extern (ec_block chain final)) (\<lambda>(hash, _).
     thenp (write_state config final hash) (ret processed))))"

text \<open>The loop over chunks on fuel, the number of blocks left.\<close>

fun index_ranges :: "'w escrow_chain \<Rightarrow> 'w escrow_deps \<Rightarrow> deployment \<Rightarrow> int \<Rightarrow> nat \<Rightarrow> int \<Rightarrow> nat \<Rightarrow> ('w, nat) escrow_prog" where
  "index_ranges chain deps config safeHead fuel start processed =
     (if start > safeHead then ret processed
      else case fuel of
        0 \<Rightarrow> throw Rpc_error
      | Suc fuel \<Rightarrow>
          let final = (if start + INDEXER_LOG_BLOCK_RANGE - 1 > safeHead then safeHead
                       else start + INDEXER_LOG_BLOCK_RANGE - 1)
          in bindp (index_escrow_range chain deps config start final processed)
            (index_ranges chain deps config safeHead fuel (start + INDEXER_LOG_BLOCK_RANGE)))"

declare index_ranges.simps [simp del]

datatype escrow_outcome =
  Escrow_awaiting_deployment | Escrow_awaiting_confirmations int | Escrow_synced nat "int option"

definition sync_from :: "'w escrow_chain \<Rightarrow> 'w escrow_deps \<Rightarrow> deployment \<Rightarrow> int \<Rightarrow> escrow_state option \<Rightarrow> int \<Rightarrow>
    ('w, escrow_outcome) escrow_prog" where
  "sync_from chain deps config safeHead state fromBlock =
     (if fromBlock > safeHead then ret (Escrow_synced 0 (map_option es_lastBlockNumber state))
      else bindp (index_ranges chain deps config safeHead (nat (safeHead - fromBlock + 1)) fromBlock 0)
        (\<lambda>processed. ret (Escrow_synced processed (Some safeHead))))"

definition rebuildAfterReorg :: "deployment \<Rightarrow> ('w, unit) escrow_prog" where
  "rebuildAfterReorg config =
     transactional (resetChainProjection (dp_chainId config) (Some (contractAddress config)))"

definition indexEscrow :: "'w escrow_chain \<Rightarrow> 'w escrow_deps \<Rightarrow> deployment \<Rightarrow> string option \<Rightarrow>
    ('w, escrow_outcome) escrow_prog" where
  "indexEscrow chain deps config safe =
     (if \<not> isDeploymentConfigured config then ret Escrow_awaiting_deployment
      else thenp (ensureEscrowManifest chain config safe)
        (bindp (extern (ec_head chain)) (\<lambda>head.
         case confirmedHead head (dp_deploymentBlock config) (dp_confirmations config) of
           None \<Rightarrow> ret (Escrow_awaiting_confirmations head)
         | Some safeHead \<Rightarrow>
             bindp (first_row escrowStates (\<lambda>s. es_key s = deploymentStateKey config)) (\<lambda>state. case state of
               None \<Rightarrow> sync_from chain deps config safeHead None (dp_deploymentBlock config)
             | Some s \<Rightarrow> bindp (extern (ec_block chain (es_lastBlockNumber s))) (\<lambda>(canonical, _).
                 if chainReorganized (es_lastBlockHash s) canonical
                 then thenp (rebuildAfterReorg config)
                   (sync_from chain deps config safeHead None (dp_deploymentBlock config))
                 else sync_from chain deps config safeHead (Some s) (es_lastBlockNumber s + 1))))))"

subsection \<open>Reconciliation\<close>

definition expected_contributions :: "int \<Rightarrow> asset \<Rightarrow> escrow_db \<Rightarrow> int" where
  "expected_contributions chainId asset d =
     sum_list (map co_amount (filter (\<lambda>c. co_chainId c = chainId \<and> co_asset c = asset) (contributions d)))"

definition executed_payouts :: "int \<Rightarrow> asset \<Rightarrow> escrow_db \<Rightarrow> payout list" where
  "executed_payouts chainId asset d = filter (\<lambda>p. po_status p = PO_EXECUTED \<and> po_asset p = asset \<and>
     (\<exists>g\<in>set (fundingGoals d). g_id g = po_goalId p \<and> g_chainId g = chainId)) (payouts d)"

text \<open>\<^verbatim>\<open>BigInt\<close> of an amount that is not a number throws.\<close>

definition expected_balance :: "int \<Rightarrow> asset \<Rightarrow> escrow_db \<Rightarrow> int option" where
  "expected_balance chainId asset d = (case those (map (\<lambda>p. js_bigint (po_amountRaw p)) (executed_payouts chainId asset d)) of
     None \<Rightarrow> None
   | Some amounts \<Rightarrow> Some (expected_contributions chainId asset d - sum_list amounts))"

datatype reconciliation_outcome =
  Reconcile_awaiting_deployment | Reconciled int int bool int int bool

definition reconcileEscrow :: "'w escrow_chain \<Rightarrow> deployment \<Rightarrow> string option \<Rightarrow> ('w, reconciliation_outcome) escrow_prog" where
  "reconcileEscrow chain config safe =
     (if \<not> isDeploymentConfigured config then ret Reconcile_awaiting_deployment
      else thenp (ensureEscrowManifest chain config safe)
        (bindp (extern (ec_balance chain (dp_preAddress config))) (\<lambda>preBalance.
         bindp (extern (ec_balance chain (dp_usdcAddress config))) (\<lambda>usdcBalance.
         bindp (db_get (\<lambda>d. (expected_balance (dp_chainId config) PRE d, expected_balance (dp_chainId config) USDC d)))
           (\<lambda>expected. case expected of
              (Some pre, Some usdc) \<Rightarrow> ret (Reconciled preBalance pre (preBalance = pre) usdcBalance usdc (usdcBalance = usdc))
            | _ \<Rightarrow> throw Record_missing)))))"

end
