(* ===== verification/Escrow_Facts.thy ===== *)
theory Escrow_Facts
  imports Escrow_Indexer
begin

section \<open>The escrow ledger\<close>

text \<open>
  What the projection of the escrow promises: the expected balance of the escrow is the sum of what the claimed
  events moved, whatever happens between. \<open>ledger\<close> is the invariant of the tables of goals, contributions and
  payouts; each handler moves the balance by the amount of its event.
\<close>

subsection \<open>What events move\<close>

definition token_asset :: "deployment \<Rightarrow> string \<Rightarrow> asset option" where
  "token_asset config token =
     (if to_lower token = to_lower (dp_preAddress config) then Some PRE
      else if to_lower token = to_lower (dp_usdcAddress config) then Some USDC else None)"

definition moved_if :: "deployment \<Rightarrow> string \<Rightarrow> int \<Rightarrow> asset \<Rightarrow> int" where
  "moved_if config token amount a = (if token_asset config token = Some a then amount else 0)"

fun moved :: "deployment \<Rightarrow> escrow_event \<Rightarrow> asset \<Rightarrow> int" where
  "moved config (ContributionReceived _ _ token amount _) a = moved_if config token amount a"
| "moved config (ExpenseReleased _ token _ amount) a = - moved_if config token amount a"
| "moved config (CancelledFundsReleased _ token _ amount) a = - moved_if config token amount a"
| "moved config _ a = 0"

fun created_goal :: "escrow_event \<Rightarrow> string set" where
  "created_goal (GoalCreated goalId _ _ _ _ _ _ _ _) = {to_lower goalId}"
| "created_goal _ = {}"

subsection \<open>The invariant\<close>

definition logs :: "escrow_db \<Rightarrow> chain_event_row list \<times> escrow_state list" where
  "logs d = (chainEvents d, escrowStates d)"

definition created_row :: "funding_goal \<Rightarrow> bool" where
  "created_row g \<longleftrightarrow> g_creationTxHash g \<noteq> None"

definition ledger :: "deployment \<Rightarrow> (asset \<Rightarrow> int) \<Rightarrow> string set \<Rightarrow> chain_event_row list \<times> escrow_state list \<Rightarrow>
    escrow_db \<Rightarrow> bool" where
  "ledger config B G L d \<longleftrightarrow>
     logs d = L \<and>
     distinct (map g_id (fundingGoals d)) \<and>
     distinct (map (\<lambda>g. (g_chainId g, g_chainGoalId g)) (fundingGoals d)) \<and>
     distinct (map po_id (payouts d)) \<and>
     (\<forall>c\<in>set (contributions d). \<exists>g\<in>set (fundingGoals d).
        g_id g = co_goalId c \<and> g_chainId g = co_chainId c \<and> created_row g) \<and>
     (\<forall>p\<in>set (payouts d). po_status p = PO_EXECUTED \<longrightarrow>
        (\<exists>g\<in>set (fundingGoals d). g_id g = po_goalId p \<and> created_row g)) \<and>
     (\<forall>x\<in>G. \<exists>g\<in>set (fundingGoals d). g_chainId g = dp_chainId config \<and> g_chainGoalId g = x \<and> created_row g) \<and>
     (\<forall>a. expected_balance (dp_chainId config) a d = Some (B a))"

text \<open>The part of the database it depends on.\<close>

type_synonym skeleton = "contribution list \<times> payout list \<times> (string \<times> int \<times> string \<times> bool) list \<times>
    chain_event_row list \<times> escrow_state list"

definition skeleton :: "escrow_db \<Rightarrow> skeleton" where
  "skeleton d = (contributions d, payouts d,
     map (\<lambda>g. (g_id g, g_chainId g, g_chainGoalId g, created_row g)) (fundingGoals d), logs d)"

definition goal_rows :: "(string \<times> int \<times> string \<times> bool) list \<Rightarrow> deployment \<Rightarrow> (asset \<Rightarrow> int) \<Rightarrow> string set \<Rightarrow>
    contribution list \<Rightarrow> payout list \<Rightarrow> bool" where
  "goal_rows rows config B G cs ps \<longleftrightarrow>
     distinct (map fst rows) \<and> distinct (map (\<lambda>r. (fst (snd r), fst (snd (snd r)))) rows) \<and> distinct (map po_id ps) \<and>
     (\<forall>c\<in>set cs. \<exists>x. (co_goalId c, co_chainId c, x, True) \<in> set rows) \<and>
     (\<forall>p\<in>set ps. po_status p = PO_EXECUTED \<longrightarrow> (\<exists>k x. (po_goalId p, k, x, True) \<in> set rows)) \<and>
     (\<forall>x\<in>G. \<exists>i. (i, dp_chainId config, x, True) \<in> set rows)"

text \<open>The balance as a sum.\<close>

definition paid :: "int \<Rightarrow> asset \<Rightarrow> string set \<Rightarrow> payout list \<Rightarrow> int" where
  "paid K a ids ps = sum_list (map (\<lambda>p. the (js_bigint (po_amountRaw p)))
     (filter (\<lambda>p. po_status p = PO_EXECUTED \<and> po_asset p = a \<and> po_goalId p \<in> ids) ps))"

definition numeric :: "string set \<Rightarrow> payout list \<Rightarrow> bool" where
  "numeric ids ps \<longleftrightarrow> (\<forall>p\<in>set ps. po_status p = PO_EXECUTED \<longrightarrow> po_goalId p \<in> ids \<longrightarrow> js_bigint (po_amountRaw p) \<noteq> None)"

definition chain_goals :: "int \<Rightarrow> escrow_db \<Rightarrow> string set" where
  "chain_goals K d = g_id ` {g \<in> set (fundingGoals d). g_chainId g = K}"

lemma those_sum: "those (map f xs) = (if \<forall>x\<in>set xs. f x \<noteq> None then Some (map (the \<circ> f) xs) else None)"
  by (induction xs) (auto split: option.splits)

lemma in_chain_goals: "i \<in> chain_goals K d \<longleftrightarrow> (\<exists>g\<in>set (fundingGoals d). g_id g = i \<and> g_chainId g = K)"
  by (auto simp: chain_goals_def)

lemma executed_payouts_filter: "executed_payouts K a d =
    filter (\<lambda>p. po_status p = PO_EXECUTED \<and> po_asset p = a \<and> po_goalId p \<in> chain_goals K d) (payouts d)"
  unfolding executed_payouts_def in_chain_goals by (rule filter_cong) auto

lemma expected_balance_sum:
  "expected_balance K a d = Some v \<longleftrightarrow>
     (\<forall>p\<in>set (executed_payouts K a d). js_bigint (po_amountRaw p) \<noteq> None) \<and>
     v = expected_contributions K a d - paid K a (chain_goals K d) (payouts d)"
  by (auto simp: expected_balance_def those_sum paid_def comp_def executed_payouts_filter)

definition contributed :: "int \<Rightarrow> asset \<Rightarrow> contribution list \<Rightarrow> int" where
  "contributed K a cs = sum_list (map co_amount (filter (\<lambda>c. co_chainId c = K \<and> co_asset c = a) cs))"

lemma balance_all:
  "(\<forall>a. expected_balance K a d = Some (B a)) \<longleftrightarrow> numeric (chain_goals K d) (payouts d) \<and>
     (\<forall>a. B a = contributed K a (contributions d) - paid K a (chain_goals K d) (payouts d))"
  unfolding expected_balance_sum numeric_def executed_payouts_filter expected_contributions_def contributed_def
  by fastforce

text \<open>The invariant speaks of the skeleton only.\<close>

definition row_ids :: "int \<Rightarrow> (string \<times> int \<times> string \<times> bool) list \<Rightarrow> string set" where
  "row_ids K rows = {i. \<exists>x b. (i, K, x, b) \<in> set rows}"

definition ledger_rows :: "deployment \<Rightarrow> (asset \<Rightarrow> int) \<Rightarrow> string set \<Rightarrow> chain_event_row list \<times> escrow_state list \<Rightarrow>
    skeleton \<Rightarrow> bool" where
  "ledger_rows config B G L = (\<lambda>(cs, ps, rows, l). l = L \<and> goal_rows rows config B G cs ps \<and>
     numeric (row_ids (dp_chainId config) rows) ps \<and>
     (\<forall>a. B a = contributed (dp_chainId config) a cs - paid (dp_chainId config) a (row_ids (dp_chainId config) rows) ps))"

lemma ledger_skeleton: "ledger config B G L d \<longleftrightarrow> ledger_rows config B G L (skeleton d)"
proof -
  let ?K = "dp_chainId config" and ?rows = "map (\<lambda>g. (g_id g, g_chainId g, g_chainGoalId g, created_row g)) (fundingGoals d)"
  have "chain_goals ?K d = row_ids ?K ?rows"
    unfolding row_ids_def in_chain_goals set_eq_iff mem_Collect_eq set_map image_iff prod.inject
    by metis
  moreover have "(\<exists>x. (i, k, x, True) \<in> set ?rows) \<longleftrightarrow> (\<exists>g\<in>set (fundingGoals d). g_id g = i \<and> g_chainId g = k \<and> created_row g)" for i k
    by (simp add: image_iff, blast)
  moreover have "(\<exists>k x. (i, k, x, True) \<in> set ?rows) \<longleftrightarrow> (\<exists>g\<in>set (fundingGoals d). g_id g = i \<and> created_row g)" for i
    by (simp add: image_iff, blast)
  moreover have "(\<exists>i. (i, ?K, x, True) \<in> set ?rows) \<longleftrightarrow>
      (\<exists>g\<in>set (fundingGoals d). g_chainId g = ?K \<and> g_chainGoalId g = x \<and> created_row g)" for x
    unfolding set_map image_iff prod.inject by metis
  ultimately show ?thesis
    by (simp add: ledger_def ledger_rows_def skeleton_def goal_rows_def balance_all comp_def)
qed

subsection \<open>Steps that leave the ledger alone\<close>

named_theorems frames \<open>programs that keep the skeleton\<close>

definition frame :: "('w, 'a) escrow_prog \<Rightarrow> bool" where
  "frame m \<longleftrightarrow> (\<forall>x. keeps (\<lambda>d. skeleton d = x) m)"

lemma frame_skeleton: "frame m \<Longrightarrow> skeleton (db (snd (m s))) = skeleton (db s)"
  unfolding frame_def by (drule spec [of _ "skeleton (db s)"]) (rule keepsD [of "\<lambda>d. skeleton d = skeleton (db s)"], simp_all)

lemma frame_keeps: "frame m \<Longrightarrow> keeps (\<lambda>d. F (skeleton d)) m"
  by (rule keepsI) (simp add: frame_skeleton)

lemma frame_ledger: "frame m \<Longrightarrow> keeps (ledger config B G L) m"
  using frame_keeps [of m "ledger_rows config B G L"] unfolding ledger_skeleton [abs_def] .

lemma frame_bind [frames]: "frame m \<Longrightarrow> (\<And>x. frame (f x)) \<Longrightarrow> frame (bindp m f)"
  by (simp add: frame_def keeps_bind)

lemma frame_then [frames]: "frame m \<Longrightarrow> frame n \<Longrightarrow> frame (thenp m n)"
  by (simp add: frame_def keeps_then)

lemma frame_catch [frames]: "frame m \<Longrightarrow> (\<And>e. frame (h e)) \<Longrightarrow> frame (catchp m h)"
  by (simp add: frame_def keeps_catch)

lemma frame_when [frames]: "frame m \<Longrightarrow> frame (whenp c m)"
  by (simp add: frame_def keeps_when)

lemma frame_basic [frames]: "frame (ret x)" "frame (throw e)" "frame (db_get f)" "frame (extern g)" "frame (mem_get h)"
    "frame (mem_mod k)"
  by (simp_all add: frame_def keeps_ret keeps_throw keeps_get keeps_extern keeps_mem_get keeps_mem_mod)

lemma frame_mod: "(\<And>d. skeleton (f d) = skeleton d) \<Longrightarrow> frame (db_mod f)"
  by (auto simp: frame_def intro: keeps_mod)

lemma frame_cases [frames]:
  "(c \<Longrightarrow> frame m) \<Longrightarrow> (\<not> c \<Longrightarrow> frame n) \<Longrightarrow> frame (if c then m else n)"
  "frame m1 \<Longrightarrow> (\<And>y. frame (n1 y)) \<Longrightarrow> frame (case x of None \<Rightarrow> m1 | Some y \<Rightarrow> n1 y)"
  "(\<And>a b. frame (m2 a b)) \<Longrightarrow> frame (case z of (a, b) \<Rightarrow> m2 a b)"
  by (auto split: option.split prod.split)

lemma skeleton_tables [simp]:
  "skeleton (users_update f1 d) = skeleton d"
  "skeleton (sponsorProfiles_update f2 d) = skeleton d"
  "skeleton (chainAuthorities_update f3 d) = skeleton d"
  "skeleton (expenses_update f4 d) = skeleton d"
  "skeleton (goalPeriods_update f5 d) = skeleton d"
  "skeleton (payoutIntents_update f6 d) = skeleton d"
  "skeleton (payoutProposals_update f7 d) = skeleton d"
  "skeleton (actionIntents_update f8 d) = skeleton d"
  "skeleton (actionProposals_update f9 d) = skeleton d"
  by (simp_all add: skeleton_def logs_def)

lemma skeleton_goals:
  assumes "\<And>g. P g \<Longrightarrow> g_id (f g) = g_id g \<and> g_chainId (f g) = g_chainId g \<and> g_chainGoalId (f g) = g_chainGoalId g \<and>
    created_row (f g) = created_row g"
  shows "skeleton (fundingGoals_update (update_where P f) d) = skeleton d"
  using assms by (simp add: skeleton_def logs_def map_update_where)

lemma frame_mod_tables [frames]:
  "frame (db_mod (users_update f1))"
  "frame (db_mod (sponsorProfiles_update f2))"
  "frame (db_mod (chainAuthorities_update f3))"
  "frame (db_mod (expenses_update f4))"
  "frame (db_mod (goalPeriods_update f5))"
  "frame (db_mod (payoutIntents_update f6))"
  "frame (db_mod (payoutProposals_update f7))"
  "frame (db_mod (actionProposals_update f9))"
  by (rule frame_mod; simp)+

lemma frame_update_goal:
  assumes "\<And>g. g_id (f g) = g_id g \<and> g_chainId (f g) = g_chainId g \<and> g_chainGoalId (f g) = g_chainGoalId g \<and>
    g_creationTxHash (f g) = g_creationTxHash g"
  shows "frame (update_goal goal f)"
  unfolding update_goal_def by (rule frame_mod) (simp add: skeleton_goals assms created_row_def)

lemma frame_values [frames]: "frame (assetFor config token)" "frame (monthlyPolicyFor p)" "frame (dateFromChainTimestamp t)"
    "frame (first_row get P)"
  by (auto simp: assetFor_def monthlyPolicyFor_def dateFromChainTimestamp_def first_row_def intro!: frames)

lemma frame_inserts [frames]:
  "frame (insert_row users users_update P u)" "frame (insert_row goalPeriods goalPeriods_update Q p)"
  by (auto simp: insert_row_def intro!: frames)

lemma frame_upsert_user [frames]: "frame (upsert_user deps address)"
  by (auto simp: upsert_user_def Let_def intro!: frames)

lemma frame_write_profile [frames]: "frame (write_profile deps account projection)"
  by (auto simp: write_profile_def intro!: frames)

lemma frame_applyAuthorityChange [frames]: "frame (applyAuthorityChange config at kind account enabled)"
  by (auto simp: applyAuthorityChange_def delete_authorities_def Let_def intro!: frames)

lemma frame_periods [frames]:
  "frame (upsert_period deps goalId i change create)" "frame (update_period goalId i h)" "frame (update_open_period goalId i h)"
  by (auto simp: upsert_period_def update_period_def update_open_period_def intro!: frames)

lemma frame_confirmSafeGoalAction [frames]: "frame (confirmSafeGoalAction goalId kind txHash at policy)"
  by (auto simp: confirmSafeGoalAction_def Let_def intro!: frames)

lemma frame_execute_proposal [frames]: "frame (execute_proposal txHash at p)"
  unfolding execute_proposal_def by (intro frames) (auto split: payout_delivery.splits option.splits intro!: frames)

lemma frame_monthly [frames]:
  "frame (on_monthly_goal_created deps goal p1 p2 sd policy)"
  "frame (on_period_settled deps at t goal i p1 p2 policy fin)"
  "frame (on_token_settled config goal i token c1 c2 c3 c4)"
  "frame (on_cancelled t goal)"
  unfolding on_monthly_goal_created_def on_period_settled_def on_token_settled_def on_cancelled_def Let_def
  by (intro frames frame_update_goal; auto split: asset.splits)+

subsection \<open>Steps that move the ledger\<close>

definition live :: "deployment \<Rightarrow> funding_goal \<Rightarrow> escrow_db \<Rightarrow> bool" where
  "live config goal d \<longleftrightarrow> (\<exists>x. (g_id goal, dp_chainId config, x, True) \<in> set (fst (snd (snd (skeleton d)))))"

lemma live_goal: "live config goal d \<longleftrightarrow>
    (\<exists>g\<in>set (fundingGoals d). g_id g = g_id goal \<and> g_chainId g = dp_chainId config \<and> created_row g)"
  unfolding live_def skeleton_def snd_conv fst_conv set_map image_iff prod.inject by metis

definition goal_ledger :: "deployment \<Rightarrow> (asset \<Rightarrow> int) \<Rightarrow> string set \<Rightarrow> chain_event_row list \<times> escrow_state list \<Rightarrow> funding_goal \<Rightarrow> escrow_db \<Rightarrow> bool" where
  "goal_ledger config B G L goal d \<longleftrightarrow> ledger config B G L d \<and> live config goal d"

lemma frame_goal_ledger: "frame m \<Longrightarrow> keeps (goal_ledger config B G L goal) m"
  using frame_keeps [of m "\<lambda>x. ledger_rows config B G L x \<and> (\<exists>y. (g_id goal, dp_chainId config, y, True) \<in> set (fst (snd (snd x))))"]
  unfolding goal_ledger_def [abs_def] ledger_skeleton live_def .

lemma ledgerD:
  assumes "ledger config B G L d"
  shows "distinct (map g_id (fundingGoals d))" "distinct (map (\<lambda>g. (g_chainId g, g_chainGoalId g)) (fundingGoals d))"
    "distinct (map po_id (payouts d))"
    "c \<in> set (contributions d) \<Longrightarrow> \<exists>g\<in>set (fundingGoals d). g_id g = co_goalId c \<and> g_chainId g = co_chainId c \<and> created_row g"
    "p \<in> set (payouts d) \<Longrightarrow> po_status p = PO_EXECUTED \<Longrightarrow> \<exists>g\<in>set (fundingGoals d). g_id g = po_goalId p \<and> created_row g"
    "x \<in> G \<Longrightarrow> \<exists>g\<in>set (fundingGoals d). g_chainId g = dp_chainId config \<and> g_chainGoalId g = x \<and> created_row g"
    "numeric (chain_goals (dp_chainId config) d) (payouts d)"
    "B a = contributed (dp_chainId config) a (contributions d) -
      paid (dp_chainId config) a (chain_goals (dp_chainId config) d) (payouts d)"
    "logs d = L"
  using assms unfolding ledger_def balance_all by simp_all

lemma ledgerI:
  assumes "distinct (map g_id (fundingGoals d))" "distinct (map (\<lambda>g. (g_chainId g, g_chainGoalId g)) (fundingGoals d))"
    "distinct (map po_id (payouts d))"
    "\<And>c. c \<in> set (contributions d) \<Longrightarrow> \<exists>g\<in>set (fundingGoals d). g_id g = co_goalId c \<and> g_chainId g = co_chainId c \<and> created_row g"
    "\<And>p. p \<in> set (payouts d) \<Longrightarrow> po_status p = PO_EXECUTED \<Longrightarrow> \<exists>g\<in>set (fundingGoals d). g_id g = po_goalId p \<and> created_row g"
    "\<And>x. x \<in> G \<Longrightarrow> \<exists>g\<in>set (fundingGoals d). g_chainId g = dp_chainId config \<and> g_chainGoalId g = x \<and> created_row g"
    "numeric (chain_goals (dp_chainId config) d) (payouts d)"
    "\<And>a. B a = contributed (dp_chainId config) a (contributions d) -
      paid (dp_chainId config) a (chain_goals (dp_chainId config) d) (payouts d)"
    "logs d = L"
  shows "ledger config B G L d"
  using assms unfolding ledger_def balance_all by simp

lemma logs_tables [simp]:
  "logs (contributions_update f d) = logs d" "logs (payouts_update g d) = logs d" "logs (fundingGoals_update h d) = logs d"
  by (simp_all add: logs_def)

lemma chain_goals_tables [simp]:
  "chain_goals K (contributions_update f d) = chain_goals K d" "chain_goals K (payouts_update g d) = chain_goals K d"
  by (simp_all add: chain_goals_def)

lemma ledger_balance: "ledger config B G L d \<Longrightarrow> (\<And>a. B' a = B a) \<Longrightarrow> ledger config B' G L d"
  by (simp add: ledger_def)

lemma ledger_add_contribution:
  assumes "goal_ledger config B G L goal d" and c: "co_goalId c = g_id goal" "co_chainId c = dp_chainId config"
  shows "ledger config (\<lambda>a. B a + (if co_asset c = a then co_amount c else 0)) G L (contributions_update (\<lambda>cs. cs @ [c]) d)"
proof -
  have l: "ledger config B G L d" and g: "live config goal d" using assms(1) by (simp_all add: goal_ledger_def)
  show ?thesis
  proof (rule ledgerI)
    fix c' assume "c' \<in> set (contributions (contributions_update (\<lambda>cs. cs @ [c]) d))"
    then show "\<exists>g\<in>set (fundingGoals (contributions_update (\<lambda>cs. cs @ [c]) d)). g_id g = co_goalId c' \<and> g_chainId g = co_chainId c' \<and> created_row g"
      using ledgerD(4) [OF l] g c by (auto simp: live_goal)
  next
    show "B a + (if co_asset c = a then co_amount c else 0) =
        contributed (dp_chainId config) a (contributions (contributions_update (\<lambda>cs. cs @ [c]) d)) -
        paid (dp_chainId config) a (chain_goals (dp_chainId config) (contributions_update (\<lambda>cs. cs @ [c]) d))
          (payouts (contributions_update (\<lambda>cs. cs @ [c]) d))" for a
      using ledgerD(8) [OF l, of a] c by (simp add: contributed_def)
  qed (use ledgerD [OF l] in auto)
qed

lemmas ledger_contribution = ledger_add_contribution [THEN ledger_balance]

lemma sum_filter_update_one:
  fixes f :: "'r \<Rightarrow> int"
  assumes "distinct (map key rows)" "p \<in> set rows" "\<not> Q p"
  shows "sum_list (map f (filter Q (update_where (\<lambda>r. key r = key p) h rows))) =
    sum_list (map f (filter Q rows)) + (if Q (h p) then f (h p) else 0)"
  using assms
proof (induction rows)
  case (Cons r rows)
  show ?case
  proof (cases "key r = key p")
    case True
    then have "key p \<notin> key ` set rows" using Cons.prems(1) by simp
    then have "p \<notin> set rows" "\<forall>x\<in>set rows. key x \<noteq> key p" by (metis imageI)+
    then have "r = p" "update_where (\<lambda>r. key r = key p) h rows = rows"
      using Cons.prems(2) by (auto simp: update_where_def intro: map_idI)
    with Cons.prems show ?thesis by (simp add: update_where_def)
  next
    case False
    with Cons show ?thesis by (auto simp: update_where_def)
  qed
qed simp

lemma paid_append: "paid K a ids (ps @ [p]) = paid K a ids ps +
    (if po_status p = PO_EXECUTED \<and> po_asset p = a \<and> po_goalId p \<in> ids then the (js_bigint (po_amountRaw p)) else 0)"
  by (simp add: paid_def)

lemma ledger_add_payout:
  assumes "goal_ledger config B G L goal d" and p: "po_goalId p = g_id goal" "po_amountRaw p = show_int n" "po_status p = PO_EXECUTED"
    and fresh: "po_id p \<notin> po_id ` set (payouts d)"
  shows "ledger config (\<lambda>a. B a - (if po_asset p = a then n else 0)) G L (payouts_update (\<lambda>ps. ps @ [p]) d)"
proof -
  have l: "ledger config B G L d" and g: "live config goal d" using assms(1) by (simp_all add: goal_ledger_def)
  have i: "po_goalId p \<in> chain_goals (dp_chainId config) d" using g p by (auto simp: live_goal in_chain_goals)
  show ?thesis
  proof (rule ledgerI)
    fix p' assume "p' \<in> set (payouts (payouts_update (\<lambda>ps. ps @ [p]) d))" "po_status p' = PO_EXECUTED"
    then show "\<exists>g\<in>set (fundingGoals (payouts_update (\<lambda>ps. ps @ [p]) d)). g_id g = po_goalId p' \<and> created_row g"
      using ledgerD(5) [OF l] g p by (auto simp: live_goal)
  next
    show "B a - (if po_asset p = a then n else 0) =
        contributed (dp_chainId config) a (contributions (payouts_update (\<lambda>ps. ps @ [p]) d)) -
        paid (dp_chainId config) a (chain_goals (dp_chainId config) (payouts_update (\<lambda>ps. ps @ [p]) d))
          (payouts (payouts_update (\<lambda>ps. ps @ [p]) d))" for a
      using ledgerD(8) [OF l, of a] p i by (simp add: paid_append)
  qed (use ledgerD [OF l] fresh p in \<open>auto simp: numeric_def\<close>)
qed

lemma ledger_execute_payout:
  assumes "goal_ledger config B G L goal d" and p: "p \<in> set (payouts d)" "po_goalId p = g_id goal" "po_amountRaw p = show_int n"
      "po_status p = PO_PROPOSED"
    and h: "h p = p\<lparr>po_status := PO_EXECUTED, po_chainTxHash := t, po_recipientAddress := r, po_executedAt := e\<rparr>"
  shows "ledger config (\<lambda>a. B a - (if po_asset p = a then n else 0)) G L
    (payouts_update (update_where (\<lambda>q. po_id q = po_id p) h) d)"
proof -
  let ?d = "payouts_update (update_where (\<lambda>q. po_id q = po_id p) h) d"
  have l: "ledger config B G L d" and g: "live config goal d" using assms(1) by (simp_all add: goal_ledger_def)
  have i: "po_goalId p \<in> chain_goals (dp_chainId config) d" using g p by (auto simp: live_goal in_chain_goals)
  have one: "q \<in> set (payouts d) \<Longrightarrow> po_id q = po_id p \<Longrightarrow> q = p" for q
    using distinct_map_eq [OF ledgerD(3) [OF l]] p(1) by blast
  have row: "q \<in> set (payouts ?d) \<Longrightarrow> q = h p \<or> q \<in> set (payouts d)" for q
    using one by (auto simp: set_update_where)
  show ?thesis
  proof (rule ledgerI)
    have "po_id (h q) = po_id q" if "q \<in> set (payouts d)" "po_id q = po_id p" for q
      using one [OF that] h by simp
    then have "map po_id (payouts ?d) = map po_id (payouts d)"
      by (auto simp: update_where_def)
    then show "distinct (map po_id (payouts ?d))" using ledgerD(3) [OF l] by simp
  next
    fix q assume "q \<in> set (payouts ?d)" "po_status q = PO_EXECUTED"
    then show "\<exists>g\<in>set (fundingGoals ?d). g_id g = po_goalId q \<and> created_row g"
      using row [of q] ledgerD(5) [OF l] g p h by (auto simp: live_goal)
  next
    show "numeric (chain_goals (dp_chainId config) ?d) (payouts ?d)"
      using row ledgerD(7) [OF l] p h by (fastforce simp: numeric_def)
  next
    show "B a - (if po_asset p = a then n else 0) = contributed (dp_chainId config) a (contributions ?d) -
        paid (dp_chainId config) a (chain_goals (dp_chainId config) ?d) (payouts ?d)" for a
      using ledgerD(8) [OF l, of a] p i h
      by (simp add: paid_def sum_filter_update_one [OF ledgerD(3) [OF l] p(1)])
  qed (use ledgerD [OF l] in auto)
qed

lemmas ledger_paid = ledger_add_payout [THEN ledger_balance]
lemmas ledger_executed = ledger_execute_payout [THEN ledger_balance]

lemma ledger_add_goal:
  assumes l: "ledger config B G L d" and g: "g_chainId goal = dp_chainId config" "created_row goal"
    and fresh: "g_id goal \<notin> g_id ` set (fundingGoals d)"
      "\<not> (\<exists>g\<in>set (fundingGoals d). g_chainId g = g_chainId goal \<and> g_chainGoalId g = g_chainGoalId goal)"
  shows "ledger config B (G \<union> {g_chainGoalId goal}) L (fundingGoals_update (\<lambda>rows. rows @ [goal]) d)"
proof -
  let ?d = "fundingGoals_update (\<lambda>rows. rows @ [goal]) d"
  have executed: "p \<in> set (payouts d) \<Longrightarrow> po_status p = PO_EXECUTED \<Longrightarrow> po_goalId p \<noteq> g_id goal" for p
    using ledgerD(5) [OF l, of p] fresh(1) by (metis imageI)
  have ids: "chain_goals (dp_chainId config) ?d = insert (g_id goal) (chain_goals (dp_chainId config) d)"
    using g by (auto simp: chain_goals_def)
  show ?thesis
  proof (rule ledgerI)
    show "numeric (chain_goals (dp_chainId config) ?d) (payouts ?d)"
      using ledgerD(7) [OF l] executed by (auto simp: numeric_def ids)
  next
    have "paid (dp_chainId config) a (chain_goals (dp_chainId config) ?d) (payouts d) =
        paid (dp_chainId config) a (chain_goals (dp_chainId config) d) (payouts d)" for a
      unfolding paid_def ids by (rule arg_cong [of _ _ "\<lambda>x. sum_list (map _ x)"], rule filter_cong) (auto dest: executed)
    then show "B a = contributed (dp_chainId config) a (contributions ?d) -
        paid (dp_chainId config) a (chain_goals (dp_chainId config) ?d) (payouts ?d)" for a
      using ledgerD(8) [OF l, of a] by simp
  next
    show "distinct (map (\<lambda>g. (g_chainId g, g_chainGoalId g)) (fundingGoals ?d))"
      using ledgerD(2) [OF l] fresh(2) by auto
  qed (use ledgerD [OF l] g fresh(1) in fastforce)+
qed

lemma ledger_replace_goal:
  assumes l: "ledger config B G L d" and old: "old \<in> set (fundingGoals d)"
    and g: "g_id goal = g_id old" "g_chainId goal = g_chainId old" "g_chainGoalId goal = g_chainGoalId old"
      "g_chainId old = dp_chainId config" "created_row goal"
  shows "ledger config B (G \<union> {g_chainGoalId goal}) L (fundingGoals_update (update_where (\<lambda>g. g_id g = g_id old) (\<lambda>_. goal)) d)"
proof -
  define f where "f = (\<lambda>g. if g_id g = g_id old then goal else g)"
  let ?d = "fundingGoals_update (update_where (\<lambda>g. g_id g = g_id old) (\<lambda>_. goal)) d"
  have rows: "fundingGoals ?d = map f (fundingGoals d)" by (simp add: update_where_def f_def)
  have one: "x \<in> set (fundingGoals d) \<Longrightarrow> g_id x = g_id old \<Longrightarrow> x = old" for x
    using distinct_map_eq [OF ledgerD(1) [OF l]] old by blast
  have keep: "g_id (f x) = g_id x \<and> g_chainId (f x) = g_chainId x \<and> g_chainGoalId (f x) = g_chainGoalId x \<and>
      (created_row x \<longrightarrow> created_row (f x))" if "x \<in> set (fundingGoals d)" for x
    using one [OF that] g by (auto simp: f_def)
  have some: "\<exists>x\<in>set (fundingGoals ?d). Q (g_id x) (g_chainId x) (g_chainGoalId x) \<and> created_row x"
    if "\<exists>x\<in>set (fundingGoals d). Q (g_id x) (g_chainId x) (g_chainGoalId x) \<and> created_row x" for Q
  proof -
    from that obtain x where x: "x \<in> set (fundingGoals d)" "Q (g_id x) (g_chainId x) (g_chainGoalId x)" "created_row x" by blast
    then have "f x \<in> set (fundingGoals ?d)" by (auto simp: rows)
    with keep [OF x(1)] x show ?thesis by metis
  qed
  have ids: "chain_goals (dp_chainId config) ?d = chain_goals (dp_chainId config) d"
    using keep by (auto simp: set_eq_iff in_chain_goals rows)
  have goal: "\<exists>x\<in>set (fundingGoals ?d). g_chainId x = dp_chainId config \<and> g_chainGoalId x = g_chainGoalId goal \<and> created_row x"
  proof -
    have "f old = goal" by (simp add: f_def)
    with old have "goal \<in> set (fundingGoals ?d)" unfolding rows by force
    with g show ?thesis by auto
  qed
  show ?thesis
  proof (rule ledgerI)
    have "map g_id (fundingGoals ?d) = map g_id (fundingGoals d)"
      using keep by (simp add: rows)
    then show "distinct (map g_id (fundingGoals ?d))" using ledgerD(1) [OF l] by simp
  next
    have "map (\<lambda>g. (g_chainId g, g_chainGoalId g)) (fundingGoals ?d) = map (\<lambda>g. (g_chainId g, g_chainGoalId g)) (fundingGoals d)"
      using keep by (simp add: rows)
    then show "distinct (map (\<lambda>g. (g_chainId g, g_chainGoalId g)) (fundingGoals ?d))" using ledgerD(2) [OF l] by simp
  next
    fix c assume "c \<in> set (contributions ?d)"
    then show "\<exists>g\<in>set (fundingGoals ?d). g_id g = co_goalId c \<and> g_chainId g = co_chainId c \<and> created_row g"
      using ledgerD(4) [OF l, of c] some [of "\<lambda>i k _. i = co_goalId c \<and> k = co_chainId c"] by simp
  next
    fix p assume "p \<in> set (payouts ?d)" "po_status p = PO_EXECUTED"
    then show "\<exists>g\<in>set (fundingGoals ?d). g_id g = po_goalId p \<and> created_row g"
      using ledgerD(5) [OF l, of p] some [of "\<lambda>i _ _. i = po_goalId p"] by simp
  next
    fix x assume "x \<in> G \<union> {g_chainGoalId goal}"
    then show "\<exists>g\<in>set (fundingGoals ?d). g_chainId g = dp_chainId config \<and> g_chainGoalId g = x \<and> created_row g"
      using ledgerD(6) [OF l, of x] some [of "\<lambda>_ k y. k = dp_chainId config \<and> y = x"] goal by auto
  next
    show "B a = contributed (dp_chainId config) a (contributions ?d) -
        paid (dp_chainId config) a (chain_goals (dp_chainId config) ?d) (payouts ?d)" for a
      using ledgerD(8) [OF l, of a] ids by simp
  next
    show "numeric (chain_goals (dp_chainId config) ?d) (payouts ?d)" using ledgerD(7) [OF l] ids by simp
  qed (use ledgerD(3,9) [OF l] in simp_all)
qed

subsection \<open>The handlers\<close>

lemma triple_frame:
  assumes "keeps I m" and "\<And>x. triple I (f x) Q (\<lambda>_. True)"
  shows "triple I (bindp m f) Q (\<lambda>_. True)"
  using triple_conseq [OF assms(1), of I "\<lambda>_. I" "\<lambda>_. True"] assms(2) by (auto intro: triple_bind)

lemma assetFor_spec: "triple I (assetFor config token) (\<lambda>a d. token_asset config token = Some a \<and> I d) (\<lambda>_. True)"
  by (auto simp: assetFor_def token_asset_def intro: triple_ret triple_throw)

lemma insert_row_spec:
  assumes "\<And>d. I d \<Longrightarrow> \<not> (\<exists>x\<in>set (get d). taken x) \<Longrightarrow> J (upd (\<lambda>rows. rows @ [r]) d)"
  shows "triple I (insert_row get upd taken r) (\<lambda>_. J) (\<lambda>_. True)"
  using assms by (auto simp: triple_def insert_row_def prog_defs)

lemma on_contribution_ledger:
  "triple (goal_ledger config B G L goal) (on_contribution deps config at t goal contributor token amount visible)
     (\<lambda>_. ledger config (\<lambda>a. B a + moved_if config token amount a) G L) (\<lambda>_. True)"
  unfolding on_contribution_def
  apply (rule triple_frame, rule frame_goal_ledger, rule frame_upsert_user)
  apply (rule triple_bind_val [OF assetFor_spec], rule triple_frame, rule keeps_extern)
  apply (rule triple_then [where B = "ledger config (\<lambda>a. B a + moved_if config token amount a) G L"])
   apply (rule insert_row_spec, erule ledger_contribution; simp add: moved_if_def)
  apply (intro keeps_here frame_ledger; unfold Let_def; intro frames)
  done

lemma proposed_payout_candidate:
  "proposed_payout txHash candidates d = Some p \<Longrightarrow> p \<in> set candidates"
  by (auto simp: proposed_payout_def find_Some_iff split: option.splits list.splits if_splits)

lemma on_released_ledger:
  "triple (goal_ledger config B G L goal) (on_released deps config at t goal kind token recipient amount)
     (\<lambda>_. ledger config (\<lambda>a. B a - moved_if config token amount a) G L) (\<lambda>_. True)"
proof -
  let ?Q = "ledger config (\<lambda>a. B a - moved_if config token amount a) G L"
  let ?row = "\<lambda>p d. p \<in> set (payouts d) \<and> po_goalId p = g_id goal \<and> po_amountRaw p = show_int amount \<and>
    po_status p = PO_PROPOSED"
  have candidate: "?row p d \<and> po_asset p = asset"
    if "proposed_payout h (payout_candidates (g_id goal) kind asset (show_int amount) d) d = Some p" for h asset d p
    using proposed_payout_candidate [OF that] by (auto simp: payout_candidates_def)
  have proposed: "triple (\<lambda>d. goal_ledger config B G L goal d \<and> ?row p d)
      (thenp (db_mod (payouts_update (update_where (\<lambda>q. po_id q = po_id p)
         (\<lambda>q. q\<lparr>po_status := PO_EXECUTED, po_chainTxHash := x, po_recipientAddress := y, po_executedAt := z\<rparr>))))
       (execute_proposal h t p)) (\<lambda>_. ?Q) (\<lambda>_. True)"
    if "token_asset config token = Some (po_asset p)" for p x y z h
    by (rule triple_then [where B = "?Q"], rule triple_mod)
      (auto intro!: keeps_here frame_ledger frames elim!: ledger_executed simp: that moved_if_def)
  show ?thesis
    unfolding on_released_def Let_def
    apply (rule triple_bind_val [OF assetFor_spec])
    apply (rule triple_bind [where B = "\<lambda>x d. goal_ledger config B G L goal d \<and>
        (case x of None \<Rightarrow> True | Some p \<Rightarrow> ?row p d \<and> token_asset config token = Some (po_asset p))"])
     apply (rule triple_get, auto dest: candidate split: option.split)[1]
    apply (rule triple_option)
    subgoal
      apply (simp, rule triple_frame, rule keeps_extern, rule triple_frame, rule keeps_extern)
      apply (rule insert_row_spec, erule ledger_paid; auto simp: moved_if_def)
      done
    subgoal for asset x p
      apply (cases "token_asset config token = Some (po_asset p)")
       apply (rule triple_pre [OF proposed], assumption, simp)
      apply (simp add: triple_def)
      done
    done
qed


definition found_goal :: "deployment \<Rightarrow> string \<Rightarrow> funding_goal option \<Rightarrow> escrow_db \<Rightarrow> bool" where
  "found_goal config x found d \<longleftrightarrow> found = find_goal config x d"

lemma find_goal_None: "find_goal config x d = None \<longleftrightarrow>
    \<not> (\<exists>g\<in>set (fundingGoals d). g_chainId g = dp_chainId config \<and> g_chainGoalId g = x)"
  by (auto simp: find_goal_def find_None_iff)

lemma find_goal_Some: "find_goal config x d = Some g \<Longrightarrow>
    g \<in> set (fundingGoals d) \<and> g_chainId g = dp_chainId config \<and> g_chainGoalId g = x"
  by (auto simp: find_goal_def find_Some_iff)

lemma written_goal:
  assumes l: "ledger config B G L d" and found: "found_goal config (g_chainGoalId goal) found d"
    and goal: "g_chainId goal = dp_chainId config" "created_row goal"
      "g_id goal = (case found of Some g \<Rightarrow> g_id g | None \<Rightarrow> i)"
    and fresh: "found = None \<Longrightarrow> \<forall>g\<in>set (fundingGoals d). g_id g \<noteq> i"
  shows "ledger config B (G \<union> {g_chainGoalId goal}) L (case found of
      Some g \<Rightarrow> fundingGoals_update (update_where (\<lambda>x. g_id x = g_id g) (\<lambda>_. goal)) d
    | None \<Rightarrow> fundingGoals_update (\<lambda>rows. rows @ [goal]) d)"
proof (cases found)
  case None
  then have "\<not> (\<exists>g\<in>set (fundingGoals d). g_chainId g = g_chainId goal \<and> g_chainGoalId g = g_chainGoalId goal)"
    using found find_goal_None [of config "g_chainGoalId goal" d] by (simp add: found_goal_def goal(1))
  moreover have "g_id goal \<notin> g_id ` set (fundingGoals d)" using goal(3) fresh None by auto
  ultimately show ?thesis using ledger_add_goal [OF l goal(1,2)] None by simp
next
  case (Some old)
  then have "find_goal config (g_chainGoalId goal) d = Some old" using found by (simp add: found_goal_def)
  then have old: "old \<in> set (fundingGoals d)" "g_chainId old = dp_chainId config" "g_chainGoalId goal = g_chainGoalId old"
    using find_goal_Some by fastforce+
  have "g_id goal = g_id old" "g_chainId goal = g_chainId old" using goal Some old by simp_all
  from ledger_replace_goal [OF l old(1) this old(3,2) goal(2)] show ?thesis by (simp add: Some)
qed

lemma write_goal_ledger:
  assumes "g_chainId goal = dp_chainId config" "created_row goal" "\<And>g. found = Some g \<Longrightarrow> g_id goal = g_id g"
  shows "triple (\<lambda>d. ledger config B G L d \<and> found_goal config (g_chainGoalId goal) found d) (write_goal found goal)
     (\<lambda>_. ledger config B (G \<union> {g_chainGoalId goal}) L) (\<lambda>_. True)"
proof (cases found)
  case None
  with written_goal [of config B G L _ goal None "g_id goal"] assms show ?thesis
    by (auto simp: triple_def write_goal_def prog_defs)
next
  case (Some g)
  with written_goal [of config B G L _ goal "Some g" "g_id g"] assms show ?thesis
    by (auto simp: triple_def write_goal_def update_goal_def prog_defs)
qed

lemma on_goal_created_ledger:
  "triple (ledger config B G L) (on_goal_created deps config at t goalId creator recipient pre usdc deadline title description uri)
     (\<lambda>_. ledger config B (G \<union> {to_lower goalId}) L) (\<lambda>_. True)"
  unfolding on_goal_created_def Let_def
  apply (rule triple_frame, rule frame_ledger, rule frames)
  apply (rule triple_frame, rule frame_ledger, rule frames)
  apply (rule triple_frame, rule frame_ledger, rule frames)
  apply (rule triple_bind [where B = "\<lambda>found d. ledger config B G L d \<and> found_goal config (to_lower goalId) found d"])
   apply (simp add: triple_get found_goal_def)
  apply (rule triple_frame, rule keeps_extern)
  subgoal for deadline draft collision found now
    apply (rule triple_bind_val [where A = "\<lambda>i. \<forall>g. found = Some g \<longrightarrow> i = g_id g" and
          B = "\<lambda>_ d. ledger config B G L d \<and> found_goal config (to_lower goalId) found d"])
     apply (auto simp: triple_ret intro!: triple_extern split: option.split)[1]
    apply (rule triple_then [where B = "ledger config B (G \<union> {to_lower goalId}) L"])
     apply (rule triple_conseq, rule write_goal_ledger [where config = config and B = B and G = G and L = L])
          apply (simp_all add: goal_projection_def created_row_def)[6]
    apply (intro keeps_here frame_ledger frames)
    done
  done

end
