(* ===== verification/Escrow_Runs.thy ===== *)
theory Escrow_Runs
  imports Escrow_Facts
begin

section \<open>Indexing keeps the ledger\<close>

text \<open>
  Every event moves the expected balance by its amount, the transaction of a log claims and applies it once, and a
  pass of the indexer leaves the projection of a prefix of the canonical log, whatever fails on the way.
\<close>

subsection \<open>One event\<close>

definition effect :: "deployment \<Rightarrow> (asset \<Rightarrow> int) \<Rightarrow> escrow_event \<Rightarrow> asset \<Rightarrow> int" where
  "effect config B e a = B a + moved config e a"

lemmas frame_quiet = keeps_here [OF frame_ledger]

lemma frame_profiles [frames]: "frame (applyProfileUpdate deps config at a r n w b u p)" "frame (applyProfileClear deps config at a r)"
  unfolding applyProfileUpdate_def applyProfileClear_def by (rule frame_write_profile)+

lemma frame_goal_updates [frames]: "frame (on_policy_updated at t goal p)" "frame (on_stop_requested at t goal)"
  "frame (on_closed t goal pre usdc)" "frame (on_monthly_cancelled at t goal pre usdc)"
  unfolding on_policy_updated_def on_stop_requested_def on_closed_def on_monthly_cancelled_def
  by (intro frames frame_update_goal; simp)+

lemma on_goal_event_ledger:
  assumes "event_goal e \<noteq> None" and "created_goal e = {}"
  shows "triple (goal_ledger config B G L goal) (on_goal_event deps config at t goal e)
    (\<lambda>_. ledger config (effect config B e) (G \<union> created_goal e) L) (\<lambda>_. True)"
proof -
  have pre: "triple (ledger config B G L) m Q E \<Longrightarrow> triple (goal_ledger config B G L goal) m Q E"
    for m :: "('w, unit) escrow_prog" and Q E
    by (erule triple_pre) (simp add: goal_ledger_def)
  note quiet = frame_quiet [THEN pre]
  show ?thesis
    using assms on_contribution_ledger [of config B G L goal deps at t] on_released_ledger [of config B G L goal deps at t]
    by (cases e) (auto simp: effect_def [abs_def] intro!: quiet frames)
qed

lemma live_found:
  assumes "ledger config B G L d" and "x \<in> G" and "find_goal config x d = Some g"
  shows "live config g d"
proof -
  obtain g' where g': "g' \<in> set (fundingGoals d)" "g_chainId g' = dp_chainId config" "g_chainGoalId g' = x" "created_row g'"
    using ledgerD(6) [OF assms(1,2)] by blast
  then have "g' = g"
    using find_goal_Some [OF assms(3)] distinct_map_eq [OF ledgerD(2) [OF assms(1)], of g' g] by simp
  with g' show ?thesis by (auto simp: live_goal)
qed

lemma require_goal_ledger:
  assumes e: "event_goal e = Some goalId" "created_goal e = {}" and G: "to_lower goalId \<in> G"
  shows "triple (ledger config B G L) (require_goal deps config at e)
    (\<lambda>_. ledger config (effect config B e) (G \<union> created_goal e) L) (\<lambda>_. True)"
  unfolding require_goal_def Let_def e(1) option.case
  apply (rule triple_bind [where B = "\<lambda>goal d. ledger config B G L d \<and> (\<forall>g. goal = Some g \<longrightarrow> live config g d)"])
   apply (auto intro!: triple_ret triple_get live_found [OF _ G])[1]
  apply (rule triple_option, simp add: triple_throw)
  subgoal for x goal
    by (rule triple_then [OF triple_pre [OF on_goal_event_ledger [of e config B G L goal]]])
      (simp_all add: e goal_ledger_def triple_ret)
  done

text \<open>An event of a goal follows the goal's creation.\<close>

definition creation_known :: "string set \<Rightarrow> escrow_event \<Rightarrow> bool" where
  "creation_known G e \<longleftrightarrow> created_goal e \<noteq> {} \<or> (case event_goal e of None \<Rightarrow> True | Some goalId \<Rightarrow> to_lower goalId \<in> G)"

lemma require_no_goal:
  assumes "event_goal e = None"
  shows "triple P (require_goal deps config at e) Q (\<lambda>_. True)"
  by (simp add: require_goal_def assms triple_def prog_defs)

lemma handler_cases:
  obtains (created) goalId creator recipient pre usdc deadline title description uri where
      "e = GoalCreated goalId creator recipient pre usdc deadline title description uri"
    | (quiet) "frame (handleDecodedEscrowEvent deps config at e)" "\<And>a. moved config e a = 0" "created_goal e = {}"
    | (goal) "handleDecodedEscrowEvent deps config at e = require_goal deps config at e" "created_goal e = {}"
  by (cases e) (auto intro!: frames)

lemma handle_ledger:
  assumes "creation_known G e"
  shows "triple (ledger config B G L) (handleDecodedEscrowEvent deps config at e)
    (\<lambda>_. ledger config (effect config B e) (G \<union> created_goal e) L) (\<lambda>_. True)"
proof (cases rule: handler_cases [where e = e and deps = deps and config = config and at = at])
  case (created goalId creator recipient pre usdc deadline title description uri)
  show ?thesis
    unfolding created handleDecodedEscrowEvent.simps
    by (rule triple_bind [OF on_goal_created_ledger]) (simp add: triple_ret effect_def [abs_def])
next
  case quiet
  then show ?thesis using frame_quiet [OF quiet(1)] by (simp add: effect_def [abs_def])
next
  case goal
  then show ?thesis
    using assms require_goal_ledger require_no_goal by (cases "event_goal e") (simp_all add: creation_known_def)
qed

subsection \<open>One log\<close>

definition balance_of :: "deployment \<Rightarrow> escrow_event list \<Rightarrow> asset \<Rightarrow> int" where
  "balance_of config es a = sum_list (map (\<lambda>e. moved config e a) es)"

definition created_in :: "escrow_event list \<Rightarrow> string set" where
  "created_in es = (\<Union>e\<in>set es. created_goal e)"

definition own_rows :: "deployment \<Rightarrow> escrow_db \<Rightarrow> chain_event_row list" where
  "own_rows config d = filter (\<lambda>e. ce_chainId e = dp_chainId config) (chainEvents d)"

lemma balance_snoc: "balance_of config (es @ [e]) = effect config (balance_of config es) e"
  by (rule ext) (simp add: balance_of_def effect_def)

lemma created_snoc: "created_in (es @ [e]) = created_in es \<union> created_goal e"
  by (auto simp: created_in_def)

text \<open>An event that names no goal and that the handler has no case for.\<close>

definition contract_wide :: "escrow_event \<Rightarrow> bool" where
  "contract_wide e \<longleftrightarrow>
     e \<in> set [TreasuryPayoutUpdated, MaxOpenGoalsPerManagerUpdated, ExcessTokenRecovered, Paused, Unpaused]"

lemma contract_wide_throws:
  "contract_wide e \<Longrightarrow> handleDecodedEscrowEvent deps config at e = throw (Unknown_goal [])"
  by (auto simp: contract_wide_def require_goal_def prog_defs)

text \<open>The projection of the first \<open>n\<close> logs of \<open>C\<close>, with the checkpoints \<open>sts\<close>.\<close>

definition replayed :: "deployment \<Rightarrow> escrow_log list \<Rightarrow> escrow_state list \<Rightarrow> nat \<Rightarrow> escrow_db \<Rightarrow> bool" where
  "replayed config C sts n d \<longleftrightarrow>
     ledger config (balance_of config (map el_event (take n C))) (created_in (map el_event (take n C))) (chainEvents d, sts) d \<and>
     own_rows config d = map (event_row config) (take n C) \<and>
     list_all (\<lambda>l. \<not> contract_wide (el_event l)) (take n C)"

definition log_key :: "escrow_log \<Rightarrow> string \<times> int" where
  "log_key l = (to_lower (el_transactionHash l), el_logIndex l)"

text \<open>A log of the contract: no event twice, and the events of a goal after its creation.\<close>

definition contract_log :: "escrow_log list \<Rightarrow> bool" where
  "contract_log C \<longleftrightarrow> distinct (map log_key C) \<and>
     list_all (\<lambda>i. creation_known (created_in (map el_event (take i C))) (el_event (C ! i))) [0..<length C]"

lemma ledger_claim:
  assumes "ledger config B G (evs, sts) d"
  shows "ledger config B G (evs @ [r], sts) (chainEvents_update (\<lambda>rows. rows @ [r]) d)"
  using assms unfolding ledger_skeleton by (simp add: skeleton_def logs_def ledger_rows_def)

lemma same_event_row: "same_event r (event_row config l) \<longleftrightarrow>
    ce_chainId r = dp_chainId config \<and> (ce_txHash r, ce_logIndex r) = log_key l"
  by (auto simp: same_event_def event_row_def log_key_def)

lemma claimed_before:
  assumes "own_rows config d = map (event_row config) (take n C)" and C: "distinct (map log_key C)"
    and i: "i < length C" and n: "n \<le> length C"
  shows "(\<exists>r\<in>set (chainEvents d). same_event r (event_row config (C ! i))) \<longleftrightarrow> i < n"
proof -
  have "(\<exists>r\<in>set (chainEvents d). same_event r (event_row config (C ! i))) \<longleftrightarrow>
      (\<exists>r\<in>set (own_rows config d). (ce_txHash r, ce_logIndex r) = log_key (C ! i))"
    by (auto simp: same_event_row own_rows_def)
  also have "\<dots> \<longleftrightarrow> (\<exists>l\<in>set (take n C). log_key l = log_key (C ! i))"
    by (simp add: assms(1) event_row_def log_key_def)
  also have "\<dots> \<longleftrightarrow> (\<exists>j<n. log_key (C ! j) = log_key (C ! i))"
    using n nth_image [of n C] by (metis (no_types, lifting) imageE image_eqI lessThan_atLeast0 lessThan_iff)
  also have "\<dots> \<longleftrightarrow> i < n"
  proof -
    have "j = i" if "j < n" "log_key (C ! j) = log_key (C ! i)" for j
      using C i n that nth_eq_iff_index_eq [of "map log_key C" j i] by simp
    then show ?thesis by auto
  qed
  finally show ?thesis .
qed

lemma apply_event_replayed:
  assumes C: "contract_log C" and i: "i < length C" and n: "i \<le> n" "n \<le> length C"
  shows "triple (replayed config C sts n) (apply_event deps config (C ! i) t)
    (\<lambda>_. replayed config C sts (max n (Suc i))) (replayed config C sts n)"
proof (rule tripleI)
  fix s :: "(escrow_db, string option, 'a) machine" and x s'
  assume pre: "replayed config C sts n (db s)" and run: "apply_event deps config (C ! i) t s = (Inr x, s')"
  let ?row = "event_row config (C ! i)" and ?es = "map el_event (take n C)"
  have known: "(\<exists>r\<in>set (chainEvents (db s)). same_event r ?row) \<longleftrightarrow> i < n"
    using pre C i n(2) by (intro claimed_before) (simp_all add: replayed_def contract_log_def)
  show "replayed config C sts (max n (Suc i)) (db s')"
  proof (cases "i < n")
    case True
    then have "db s' = db s"
      using run known by (auto simp: apply_event_def claimChainEvent_def prog_defs)
    moreover have "max n (Suc i) = n" using True by simp
    ultimately show ?thesis using pre by simp
  next
    case False
    with n have n: "n = i" by simp
    let ?d = "chainEvents_update (\<lambda>rows. rows @ [?row]) (db s)"
    have l: "ledger config (balance_of config ?es) (created_in ?es) (chainEvents ?d, sts) ?d"
      using pre by (simp add: replayed_def ledger_claim)
    have k: "creation_known (created_in ?es) (el_event (C ! i))"
      using C i unfolding contract_log_def n by (simp add: list_all_iff)
    obtain refresh where h: "handleDecodedEscrowEvent deps config (log_position (C ! i) t) (el_event (C ! i)) (s\<lparr>db := ?d\<rparr>) = (Inr refresh, s')"
      using run known False
      by (auto simp: apply_event_def claimChainEvent_def prog_defs split: prod.splits sum.splits)
    then have "\<not> contract_wide (el_event (C ! i))" by (auto simp: contract_wide_throws throw_def)
    moreover have "ledger config (effect config (balance_of config ?es) (el_event (C ! i)))
        (created_in ?es \<union> created_goal (el_event (C ! i))) (chainEvents ?d, sts) (db s')"
      by (rule triple_Inr [OF handle_ledger [OF k] _ h]) (use l in simp)
    moreover from this have "chainEvents (db s') = chainEvents ?d"
      using ledgerD(9) by (fastforce simp: logs_def)
    moreover have "map el_event (take (Suc i) C) = ?es @ [el_event (C ! i)]"
      using i by (simp add: n take_Suc_conv_app_nth)
    moreover have "own_rows config (db s) @ [?row] = map (event_row config) (take (Suc i) C)"
      using pre i by (simp add: replayed_def n take_Suc_conv_app_nth)
    moreover have "list_all (\<lambda>l. \<not> contract_wide (el_event l)) (take (Suc i) C)"
      using pre i \<open>\<not> contract_wide (el_event (C ! i))\<close> by (simp add: replayed_def n take_Suc_conv_app_nth)
    ultimately show ?thesis
      by (simp add: n replayed_def balance_snoc created_snoc own_rows_def event_row_def)
  qed
next
  fix s :: "(escrow_db, string option, 'a) machine" and e s'
  assume "replayed config C sts n (db s)" and "apply_event deps config (C ! i) t s = (Inl e, s')"
  then show "replayed config C sts n (db s')"
    by (auto simp: apply_event_def transactional_def split: prod.splits sum.splits)
qed

subsection \<open>Chunks\<close>

text \<open>The projection of some prefix that holds at least the first \<open>i\<close> logs.\<close>

definition reaches :: "deployment \<Rightarrow> escrow_log list \<Rightarrow> escrow_state list \<Rightarrow> nat \<Rightarrow> escrow_db \<Rightarrow> bool" where
  "reaches config C sts i d \<longleftrightarrow> (\<exists>n\<ge>i. n \<le> length C \<and> replayed config C sts n d)"

lemma reaches_mono: "reaches config C sts j d \<Longrightarrow> i \<le> j \<Longrightarrow> reaches config C sts i d"
  unfolding reaches_def by (meson le_trans)

lemma frame_replayed:
  assumes "frame m"
  shows "keeps (reaches config C sts i) m"
proof -
  let ?F = "\<lambda>(cs, ps, rows, evs, st). \<exists>n\<ge>i. n \<le> length C \<and>
     ledger_rows config (balance_of config (map el_event (take n C))) (created_in (map el_event (take n C))) (evs, sts)
       (cs, ps, rows, evs, st) \<and>
     filter (\<lambda>e. ce_chainId e = dp_chainId config) evs = map (event_row config) (take n C) \<and>
     list_all (\<lambda>l. \<not> contract_wide (el_event l)) (take n C)"
  have "reaches config C sts i d \<longleftrightarrow> ?F (skeleton d)" for d
    by (simp add: reaches_def replayed_def own_rows_def ledger_skeleton) (simp add: skeleton_def logs_def)
  then have "reaches config C sts i = (\<lambda>d. ?F (skeleton d))" by (rule ext)
  with frame_keeps [OF assms, of ?F] show ?thesis by simp
qed

lemma frame_refreshGoalMetadata [frames]: "frame (refreshGoalMetadata chain goalId uri)"
proof -
  have set: "frame (set_metadata goalId status metadata)" for status metadata
    unfolding set_metadata_def
    by (intro frames frame_mod skeleton_goals) (simp add: created_row_def)
  show ?thesis
    unfolding refreshGoalMetadata_def
    by (intro frames set; auto intro!: frames set split: option.split)
qed

lemma apply_event_reaches:
  assumes C: "contract_log C" and i: "i < length C"
  shows "triple (reaches config C sts i) (apply_event deps config (C ! i) t)
    (\<lambda>_. reaches config C sts (Suc i)) (reaches config C sts i)"
proof (rule tripleI)
  fix s :: "(escrow_db, string option, 'a) machine" and x s'
  assume "reaches config C sts i (db s)" and run: "apply_event deps config (C ! i) t s = (Inr x, s')"
  then obtain n where n: "i \<le> n" "n \<le> length C" "replayed config C sts n (db s)" by (auto simp: reaches_def)
  from triple_Inr [OF apply_event_replayed [OF C i n(1,2)] n(3) run]
  show "reaches config C sts (Suc i) (db s')" using i n by (auto simp: reaches_def intro!: exI [of _ "max n (Suc i)"])
next
  fix s :: "(escrow_db, string option, 'a) machine" and e s'
  assume "reaches config C sts i (db s)" and run: "apply_event deps config (C ! i) t s = (Inl e, s')"
  then obtain n where n: "i \<le> n" "n \<le> length C" "replayed config C sts n (db s)" by (auto simp: reaches_def)
  from triple_Inl [OF apply_event_replayed [OF C i n(1,2)] n(3) run]
  show "reaches config C sts i (db s')" using n by (auto simp: reaches_def)
qed

definition good :: "escrow_log \<Rightarrow> bool" where
  "good l \<longleftrightarrow> \<not> malformed_profile (el_event l)"

lemma index_log_reaches:
  assumes C: "contract_log C" and i: "good l \<Longrightarrow> i < length C \<and> C ! i = l"
  shows "triple (reaches config C sts i) (index_log chain deps config l acc)
    (\<lambda>_. reaches config C sts (if good l then Suc i else i)) (reaches config C sts i)"
proof (cases "good l")
  case False
  then show ?thesis by (auto simp: index_log_def good_def triple_ret split: prod.split)
next
  case True
  have weak: "triple (reaches config C sts (Suc i)) m (\<lambda>_. reaches config C sts (Suc i)) (reaches config C sts i)"
    if "frame m" for m :: "('w, 'b) escrow_prog"
    using frame_replayed [OF that, of config C sts "Suc i"] by (rule triple_conseq) (auto elim: reaches_mono)
  from True i have l: "i < length C" "C ! i = l" by simp_all
  obtain blocks processed where acc: "acc = (blocks, processed)" by fastforce
  show ?thesis
    using True unfolding index_log_def acc good_def
    apply simp
    apply (rule triple_bind [where B = "\<lambda>_. reaches config C sts i"])
     apply (rule frame_replayed, intro frames)
    apply (rule triple_prod)
    apply (rule triple_bind [OF apply_event_reaches [OF C l(1), unfolded l(2)]])
    apply (rule triple_option)
     apply (simp add: triple_ret)
    apply (rule weak, intro frames)
    done
qed

lemma chunk_reaches:
  assumes C: "contract_log C" and ls: "C = A @ filter good ls @ B"
  shows "triple (reaches config C sts (length A)) (foldp (index_log chain deps config) ls acc)
    (\<lambda>_. reaches config C sts (length A + length (filter good ls))) (reaches config C sts (length A))"
  using ls
proof (induction ls arbitrary: A acc)
  case Nil
  then show ?case by (simp add: triple_ret)
next
  case (Cons l ls)
  let ?A = "if good l then A @ [l] else A"
  have step: "triple (reaches config C sts (length A)) (index_log chain deps config l acc)
      (\<lambda>_. reaches config C sts (length ?A)) (reaches config C sts (length A))"
    using index_log_reaches [OF C, of l "length A"] Cons.prems by (simp add: nth_append cong: if_cong) (simp split: if_splits)
  have "C = ?A @ filter good ls @ B" using Cons.prems by simp
  note rest = Cons.IH [OF this]
  have "triple (reaches config C sts (length ?A)) (foldp (index_log chain deps config) ls x)
      (\<lambda>_. reaches config C sts (length A + length (filter good (l # ls)))) (reaches config C sts (length A))" for x
    by (rule triple_conseq [OF rest]) (auto elim: reaches_mono)
  with step show ?case by (simp only: foldp.simps) (rule triple_bind)
qed

end
