(* ===== verification/Escrow_Reset.thy ===== *)
theory Escrow_Reset
  imports Escrow_Runs
begin

section \<open>The projection after a reorganisation\<close>

text \<open>
  Clearing the projection of a chain leaves the ledger of no event, whatever was indexed before and whatever
  Safe intents keep some of its goals.
\<close>

lemma retained_goal_fields [simp]:
  "g_id (retained_goal g) = g_id g" "g_chainId (retained_goal g) = g_chainId g"
  "g_chainGoalId (retained_goal g) = g_chainGoalId g" "created_row (retained_goal g) = False"
  by (simp_all add: retained_goal_def created_row_def)

subsection \<open>What the steps leave\<close>

text \<open>Goals, contributions and payouts after the updates of the retained goals.\<close>

definition cleared_payout :: "string set \<Rightarrow> payout \<Rightarrow> payout \<Rightarrow> bool" where
  "cleared_payout R p q \<longleftrightarrow> po_id q = po_id p \<and> po_goalId q = po_goalId p \<and>
     (if po_goalId p \<in> R then po_status q \<noteq> PO_EXECUTED else q = p)"

definition reset_kept :: "int \<Rightarrow> string set \<Rightarrow> escrow_db \<Rightarrow> escrow_db" where
  "reset_kept chainId R d = (if R = {} then d else reset_retained chainId R d)"

lemma reset_kept_goals:
  "fundingGoals (reset_kept chainId R d) = update_where (\<lambda>g. g_id g \<in> R) retained_goal (fundingGoals d)"
  by (simp add: reset_kept_def reset_retained_def Let_def) (simp add: update_where_def)

lemma reset_kept_contributions:
  "contributions (reset_kept chainId R d) = filter (\<lambda>c. co_goalId c \<notin> R) (contributions d)"
  by (simp add: reset_kept_def reset_retained_def Let_def)

lemma reset_kept_logs: "logs (reset_kept chainId R d) = logs d"
  by (simp add: reset_kept_def reset_retained_def Let_def logs_def)

lemma reset_kept_payouts:
  "\<exists>f P. payouts (reset_kept chainId R d) = map f (filter P (payouts d)) \<and> (\<forall>p\<in>set (payouts d). P p \<longrightarrow> cleared_payout R p (f p))"
proof (cases "R = {}")
  case True
  then show ?thesis
    by (intro exI [of _ id] exI [of _ "\<lambda>_. True"]) (simp add: reset_kept_def cleared_payout_def)
next
  case False
  let ?P = "\<lambda>p. \<not> (po_goalId p \<in> R \<and> List.find (\<lambda>i. pi_payoutId i = po_id p) (payoutIntents d) = None)"
  let ?f = "\<lambda>p. if po_goalId p \<in> R \<and> List.find (\<lambda>i. pi_payoutId i = po_id p) (payoutIntents d) \<noteq> None \<and>
      po_status p = PO_EXECUTED then p\<lparr>po_status := PO_PROPOSED, po_chainTxHash := None, po_executedAt := None\<rparr> else p"
  have "payouts (reset_kept chainId R d) = map ?f (filter ?P (payouts d))"
    using False by (simp add: reset_kept_def reset_retained_def Let_def intent_of_def update_where_def)
  moreover have "cleared_payout R p (?f p)" if "?P p" for p
    using that by (auto simp: cleared_payout_def)
  ultimately show ?thesis by blast
qed

text \<open>The database after the reset, table by table.\<close>

definition gone :: "int \<Rightarrow> escrow_db \<Rightarrow> funding_goal \<Rightarrow> bool" where
  "gone K d g \<longleftrightarrow> g_chainId g = K \<and> created_row g \<and> g_id g \<notin> retained_ids K d"

definition gone_ids :: "int \<Rightarrow> escrow_db \<Rightarrow> string set" where
  "gone_ids K d = g_id ` {g \<in> set (fundingGoals d). gone K d g}"

lemma reset_projection_tables:
  fixes K address d
  defines "d' \<equiv> reset_projection K address d" and "k \<equiv> reset_kept K (retained_ids K d) d"
  shows "fundingGoals d' = filter (\<lambda>g. \<not> gone K d g) (fundingGoals k)"
    and "contributions d' = filter (\<lambda>c. co_goalId c \<notin> gone_ids K d) (contributions k)"
    and "payouts d' = filter (\<lambda>p. po_goalId p \<notin> gone_ids K d) (payouts k)"
    and "chainEvents d' = filter (\<lambda>e. ce_chainId e \<noteq> K) (chainEvents d)"
    and "escrowStates d' = filter (\<lambda>s. es_chainId s \<noteq> K) (escrowStates d)"
proof -
  define e where "e = expenses_update (update_where (\<lambda>e. ex_id e \<in> set (filter (\<lambda>i. i \<noteq> []) (List.map_filter g_expenseId (indexed_goals K d))) \<and>
      ex_status e = EX_PUBLISHED) (\<lambda>e. e\<lparr>ex_status := EX_PENDING_CHAIN, ex_pendingChainTxHash := None\<rparr>)) d"
  define m where "m = reset_kept K (retained_ids K d) e"
  have m: "fundingGoals m = fundingGoals k" "contributions m = contributions k" "payouts m = payouts k" "logs m = logs d"
    unfolding m_def k_def
    by (simp_all add: reset_kept_goals reset_kept_contributions reset_kept_logs e_def)
      (simp_all add: reset_kept_def reset_retained_def Let_def intent_of_def logs_def)
  have gone: "{g \<in> set (fundingGoals k). gone K d g} = {g \<in> set (fundingGoals d). gone K d g}"
    by (auto simp: k_def reset_kept_goals set_update_where gone_def)
  have "g_chainId g = K \<and> g_creationTxHash g \<noteq> None \<and> g_id g \<notin> retained_ids K d \<longleftrightarrow> gone K d g" for g
    by (simp add: gone_def created_row_def)
  then have d': "d' = (delete_goals (gone K d) m)\<lparr>sponsorProfiles := update_where (\<lambda>p. prof_chainId p = Some K) cleared_profile
         (sponsorProfiles (delete_goals (gone K d) m)),
       chainAuthorities := filter (\<lambda>a. \<not> (au_chainId a = K \<and> (case address of None \<Rightarrow> True | Some a' \<Rightarrow> au_contractAddress a = a')))
         (chainAuthorities (delete_goals (gone K d) m)),
       chainEvents := filter (\<lambda>e. ce_chainId e \<noteq> K) (chainEvents (delete_goals (gone K d) m)),
       escrowStates := filter (\<lambda>s. es_chainId s \<noteq> K) (escrowStates (delete_goals (gone K d) m))\<rparr>"
    unfolding d'_def reset_projection_def Let_def m_def reset_kept_def e_def by simp
  have ids: "g_id ` set (filter (gone K d) (fundingGoals m)) = gone_ids K d"
    unfolding m(1) gone_ids_def set_filter gone ..
  show "fundingGoals d' = filter (\<lambda>g. \<not> gone K d g) (fundingGoals k)"
    "contributions d' = filter (\<lambda>c. co_goalId c \<notin> gone_ids K d) (contributions k)"
    "payouts d' = filter (\<lambda>p. po_goalId p \<notin> gone_ids K d) (payouts k)"
    "chainEvents d' = filter (\<lambda>e. ce_chainId e \<noteq> K) (chainEvents d)"
    "escrowStates d' = filter (\<lambda>s. es_chainId s \<noteq> K) (escrowStates d)"
    unfolding d' using m ids by (simp_all add: delete_goals_def Let_def logs_def)
qed

subsection \<open>Nothing is left of the chain\<close>

lemma retained_id: "i \<in> retained_ids K d \<longleftrightarrow>
    (\<exists>g\<in>set (fundingGoals d). g_id g = i \<and> g_chainId g = K \<and> created_row g \<and> has_safe_intents d g)"
  by (auto simp: retained_ids_def indexed_goals_def created_row_def)

text \<open>A created goal of the chain is kept or gone.\<close>

lemma indexed_kept_or_gone:
  "g \<in> set (fundingGoals d) \<Longrightarrow> g_chainId g = K \<Longrightarrow> created_row g \<Longrightarrow> g_id g \<in> retained_ids K d \<or> g_id g \<in> gone_ids K d"
  by (auto simp: gone_ids_def gone_def)

lemma reset_projection_ledger:
  fixes config :: deployment and address :: "string option" and d :: escrow_db
  assumes l: "ledger config B G L d"
  defines "d' \<equiv> reset_projection (dp_chainId config) address d"
  shows "ledger config (\<lambda>_. 0) {} (logs d') d' \<and> own_rows config d' = []"
proof -
  let ?K = "dp_chainId config"
  define R where "R = retained_ids ?K d"
  define k where "k = reset_kept ?K R d"
  note tables = reset_projection_tables [of ?K address d, folded d'_def R_def, folded k_def]
  obtain f P where ps: "payouts k = map f (filter P (payouts d))"
    and f: "\<And>p. p \<in> set (payouts d) \<Longrightarrow> P p \<Longrightarrow> cleared_payout R p (f p)"
    using reset_kept_payouts [of ?K R d] unfolding k_def by blast
  have goals: "fundingGoals d' = filter (\<lambda>g. \<not> gone ?K d g) (update_where (\<lambda>g. g_id g \<in> R) retained_goal (fundingGoals d))"
    by (simp add: tables(1) k_def reset_kept_goals)
  have one: "g \<in> set (fundingGoals d) \<Longrightarrow> h \<in> set (fundingGoals d) \<Longrightarrow> g_id g = g_id h \<Longrightarrow> g = h" for g h
    using distinct_map_eq [OF ledgerD(1) [OF l]] by blast
  text \<open>A created goal of no interest to the reset stays as it is.\<close>
  have stays: "g \<in> set (fundingGoals d')"
    if "g \<in> set (fundingGoals d)" "g_id g \<notin> R" "g_id g \<notin> gone_ids ?K d" for g
    using that by (auto simp: goals set_update_where gone_ids_def)
  have before: "\<exists>g\<in>set (fundingGoals d). g_id g = g_id h \<and> g_chainId g = g_chainId h" if "h \<in> set (fundingGoals d')" for h
    using that by (auto simp: goals set_update_where)
  have cs: "c \<in> set (contributions d') \<Longrightarrow> c \<in> set (contributions d) \<and> co_goalId c \<notin> R \<and> co_goalId c \<notin> gone_ids ?K d" for c
    by (simp add: tables(2) k_def reset_kept_contributions)
  have executed: "q \<in> set (payouts d) \<and> po_goalId q \<notin> R \<and> po_goalId q \<notin> gone_ids ?K d"
    if "q \<in> set (payouts d')" "po_status q = PO_EXECUTED" for q
  proof -
    from that(1) obtain p where p: "p \<in> set (payouts d)" "P p" "q = f p" "po_goalId q \<notin> gone_ids ?K d"
      by (auto simp: tables(3) ps)
    with f [OF p(1,2)] that(2) show ?thesis by (auto simp: cleared_payout_def split: if_splits)
  qed
  have foreign: "co_chainId c \<noteq> ?K" if "c \<in> set (contributions d')" for c
  proof
    assume "co_chainId c = ?K"
    with ledgerD(4) [OF l] cs [OF that] obtain g where g: "g \<in> set (fundingGoals d)" "g_id g = co_goalId c" "g_chainId g = ?K" "created_row g"
      by fastforce
    then show False using indexed_kept_or_gone [OF g(1,3,4)] cs [OF that] by (simp add: R_def)
  qed
  have unpaid: "po_goalId q \<notin> chain_goals ?K d'" if q: "q \<in> set (payouts d')" "po_status q = PO_EXECUTED" for q
  proof
    assume "po_goalId q \<in> chain_goals ?K d'"
    then obtain h where h: "h \<in> set (fundingGoals d')" "g_id h = po_goalId q" "g_chainId h = ?K" by (auto simp: in_chain_goals)
    obtain g where g: "g \<in> set (fundingGoals d)" "g_id g = po_goalId q" "created_row g"
      using ledgerD(5) [OF l] executed [OF q] q(2) by blast
    with before [OF h(1)] h one have "g_chainId g = ?K" by metis
    then show False using indexed_kept_or_gone [OF g(1) _ g(3)] g(2) executed [OF q] by (simp add: R_def)
  qed
  have "ledger config (\<lambda>_. 0) {} (logs d') d'"
  proof (rule ledgerI)
    have "map g_id (update_where (\<lambda>g. g_id g \<in> R) retained_goal (fundingGoals d)) = map g_id (fundingGoals d)"
      by (simp add: map_update_where)
    then show "distinct (map g_id (fundingGoals d'))"
      using ledgerD(1) [OF l] unfolding goals by (intro distinct_map_filter) simp
  next
    have "map (\<lambda>g. (g_chainId g, g_chainGoalId g)) (update_where (\<lambda>g. g_id g \<in> R) retained_goal (fundingGoals d)) =
        map (\<lambda>g. (g_chainId g, g_chainGoalId g)) (fundingGoals d)"
      by (simp add: map_update_where)
    then show "distinct (map (\<lambda>g. (g_chainId g, g_chainGoalId g)) (fundingGoals d'))"
      using ledgerD(2) [OF l] unfolding goals by (intro distinct_map_filter) simp
  next
    have "map po_id (payouts k) = map po_id (filter P (payouts d))"
      using f by (simp add: ps cleared_payout_def)
    then show "distinct (map po_id (payouts d'))"
      using ledgerD(3) [OF l] unfolding tables(3) by (metis distinct_map_filter)
  next
    fix c assume "c \<in> set (contributions d')"
    then show "\<exists>g\<in>set (fundingGoals d'). g_id g = co_goalId c \<and> g_chainId g = co_chainId c \<and> created_row g"
      using ledgerD(4) [OF l, of c] cs [of c] stays by fastforce
  next
    fix q assume q: "q \<in> set (payouts d')" "po_status q = PO_EXECUTED"
    then show "\<exists>g\<in>set (fundingGoals d'). g_id g = po_goalId q \<and> created_row g"
      using ledgerD(5) [OF l, of q] executed [OF q] stays by fastforce
  next
    show "numeric (chain_goals ?K d') (payouts d')" using unpaid by (auto simp: numeric_def)
  next
    have "filter (\<lambda>c. co_chainId c = ?K \<and> co_asset c = a) (contributions d') = []" for a
      using foreign by (auto simp: filter_empty_conv)
    moreover have "filter (\<lambda>p. po_status p = PO_EXECUTED \<and> po_asset p = a \<and> po_goalId p \<in> chain_goals ?K d') (payouts d') = []" for a
      using unpaid by (auto simp: filter_empty_conv)
    ultimately show "0 = contributed ?K a (contributions d') - paid ?K a (chain_goals ?K d') (payouts d')" for a
      by (simp add: contributed_def paid_def)
  qed simp_all
  moreover have "own_rows config d' = []" by (simp add: own_rows_def tables(4))
  ultimately show ?thesis ..
qed

text \<open>What belongs to the Safe survives.\<close>

lemma reset_projection_intents:
  fixes K address d
  defines "d' \<equiv> reset_projection K address d"
  shows "payoutIntents d' = payoutIntents d" "actionIntents d' = actionIntents d"
    and "map pr_id (payoutProposals d') = map pr_id (payoutProposals d)"
    and "map pr_id (actionProposals d') = map pr_id (actionProposals d)"
  by (simp_all add: d'_def reset_projection_def reset_retained_def Let_def delete_goals_def reopened_def map_update_where)

lemma reset_projection_goals:
  fixes K address d
  defines "d' \<equiv> reset_projection K address d"
  shows "g_id ` {g \<in> set (fundingGoals d'). has_safe_intents d' g} = g_id ` {g \<in> set (fundingGoals d). has_safe_intents d g}"
    and "filter (\<lambda>g. g_chainId g = K \<and> created_row g) (fundingGoals d') = []"
proof -
  have rows: "set (fundingGoals d') = {g. g \<in> set (update_where (\<lambda>g. g_id g \<in> retained_ids K d) retained_goal (fundingGoals d)) \<and> \<not> gone K d g}"
    by (auto simp: d'_def reset_projection_tables(1) reset_kept_goals)
  have has: "has_safe_intents d' g \<longleftrightarrow> has_safe_intents d g" for g
    by (simp add: has_safe_intents_def d'_def reset_projection_intents)
  have here: "has_safe_intents d g \<Longrightarrow> g \<in> set (fundingGoals d) \<Longrightarrow> \<not> gone K d g" for g
    by (auto simp: gone_def retained_id)
  have ids: "has_safe_intents d g = has_safe_intents d h" if "g_id g = g_id h" for g h
    using that by (simp add: has_safe_intents_def)
  have gone: "gone K d (retained_goal g) = False" for g by (simp add: gone_def)
  show "g_id ` {g \<in> set (fundingGoals d'). has_safe_intents d' g} = g_id ` {g \<in> set (fundingGoals d). has_safe_intents d g}"
  proof (intro equalityI subsetI)
    fix i assume "i \<in> g_id ` {g \<in> set (fundingGoals d'). has_safe_intents d' g}"
    then obtain g where "g \<in> set (fundingGoals d)" "g_id g = i" "has_safe_intents d g"
      using ids [of "retained_goal _"] by (fastforce simp: rows has set_update_where)
    then show "i \<in> g_id ` {g \<in> set (fundingGoals d). has_safe_intents d g}" by blast
  next
    fix i assume "i \<in> g_id ` {g \<in> set (fundingGoals d). has_safe_intents d g}"
    then obtain g where g: "g \<in> set (fundingGoals d)" "g_id g = i" "has_safe_intents d g" by blast
    let ?g = "if g_id g \<in> retained_ids K d then retained_goal g else g"
    have "?g \<in> set (fundingGoals d')" using g here by (auto simp: rows set_update_where gone)
    moreover have "g_id ?g = i" "has_safe_intents d' ?g" using g ids [of "retained_goal g" g] by (auto simp: has)
    ultimately show "i \<in> g_id ` {g \<in> set (fundingGoals d'). has_safe_intents d' g}" by blast
  qed
  show "filter (\<lambda>g. g_chainId g = K \<and> created_row g) (fundingGoals d') = []"
    by (auto simp: filter_empty_conv rows set_update_where gone_def)
qed

text \<open>The goals of a chain that events had created, and what is left of one that the Safe still needs.\<close>

definition indexed_ids :: "int \<Rightarrow> escrow_db \<Rightarrow> string set" where
  "indexed_ids K d = g_id ` {g \<in> set (fundingGoals d). g_chainId g = K \<and> created_row g}"

definition blank_goal :: "funding_goal \<Rightarrow> bool" where
  "blank_goal g \<longleftrightarrow> \<not> created_row g \<and> g_status g = G_OPEN \<and> g_creatorAddress g = zeroAddress \<and> g_goalType g = ONE_TIME \<and>
     g_monthlyStopRequestedAt g = None \<and> g_monthlyPeriodsSettled g = 0 \<and>
     g_preRecipientEntitlement g = 0 \<and> g_usdcRecipientEntitlement g = 0 \<and> g_preCarry g = 0 \<and> g_usdcCarry g = 0 \<and>
     g_preTreasuryEntitlement g = 0 \<and> g_usdcTreasuryEntitlement g = 0 \<and> g_creationBlock g = None \<and>
     g_publishedAt g = None \<and> g_closedAt g = None \<and> g_metadataStatus g = MD_NOT_SET \<and> g_metadata g = None"

definition blank_profile :: "sponsor_profile \<Rightarrow> bool" where
  "blank_profile p \<longleftrightarrow> \<not> prof_active p \<and> prof_revision p = 0 \<and> prof_displayName p = None \<and> prof_websiteUrl p = None \<and>
     prof_bio p = None \<and> prof_avatarUri p = None \<and> prof_avatarStatus p = MD_NOT_SET \<and> \<not> prof_defaultPublic p \<and>
     prof_blockNumber p = None \<and> prof_blockHash p = None \<and> prof_txHash p = None \<and> prof_logIndex p = None"

lemma indexed_ids_split: "indexed_ids K d = retained_ids K d \<union> gone_ids K d"
  by (auto simp: indexed_ids_def gone_ids_def gone_def retained_id)

lemma retained_goal_blank [simp]: "blank_goal (retained_goal g)"
  by (simp add: blank_goal_def) (simp add: retained_goal_def)

lemma cleared_profile_blank [simp]: "blank_profile (cleared_profile p)"
  "prof_userId (cleared_profile p) = prof_userId p" "prof_chainId (cleared_profile p) = prof_chainId p"
  "prof_hidden (cleared_profile p) = prof_hidden p"
  by (simp_all add: blank_profile_def cleared_profile_def)

lemma reset_projection_frame:
  fixes K address d
  defines "d' \<equiv> reset_projection K address d"
  shows "sponsorProfiles d' = update_where (\<lambda>p. prof_chainId p = Some K) cleared_profile (sponsorProfiles d)"
    and "chainAuthorities d' = filter (\<lambda>a. \<not> (au_chainId a = K \<and>
      (case address of None \<Rightarrow> True | Some a' \<Rightarrow> au_contractAddress a = a'))) (chainAuthorities d)"
    and "expenses d' = update_where (\<lambda>e. ex_id e \<in> set (filter (\<lambda>i. i \<noteq> []) (List.map_filter g_expenseId (indexed_goals K d))) \<and>
      ex_status e = EX_PUBLISHED) (\<lambda>e. e\<lparr>ex_status := EX_PENDING_CHAIN, ex_pendingChainTxHash := None\<rparr>) (expenses d)"
    and "users d' = users d" and "managerAssignments d' = managerAssignments d" and "managerIntents d' = managerIntents d"
    and "managerProposals d' = managerProposals d" and "safeAudits d' = safeAudits d"
  by (simp_all add: d'_def reset_projection_def reset_retained_def Let_def delete_goals_def)

lemma reset_projection_periods:
  "goalPeriods (reset_projection K address d) = filter (\<lambda>p. pd_goalId p \<notin> indexed_ids K d) (goalPeriods d)"
  "contributions (reset_projection K address d) = filter (\<lambda>c. co_goalId c \<notin> indexed_ids K d) (contributions d)"
proof -
  show "contributions (reset_projection K address d) = filter (\<lambda>c. co_goalId c \<notin> indexed_ids K d) (contributions d)"
    by (auto simp: reset_projection_tables(2) reset_kept_contributions indexed_ids_split intro!: filter_cong)
  let ?upd = "update_where (\<lambda>g. g_id g \<in> retained_ids K d) retained_goal (fundingGoals d)"
  have "g_id ` set (filter (\<lambda>g. g_chainId g = K \<and> g_creationTxHash g \<noteq> None \<and> g_id g \<notin> retained_ids K d) ?upd) = gone_ids K d"
    by (auto simp: gone_ids_def gone_def created_row_def set_update_where image_iff)
  moreover have "g_id ` set (filter (\<lambda>g. g_chainId g = K \<and> g_creationTxHash g \<noteq> None) (fundingGoals d)) = gone_ids K d"
    if "retained_ids K d = {}"
    using that by (auto simp: gone_ids_def gone_def created_row_def)
  ultimately show "goalPeriods (reset_projection K address d) = filter (\<lambda>p. pd_goalId p \<notin> indexed_ids K d) (goalPeriods d)"
    by (auto simp: reset_projection_def reset_retained_def Let_def delete_goals_def indexed_ids_split intro!: filter_cong)
qed

lemma reset_projection_payouts:
  "filter (\<lambda>p. po_goalId p \<notin> indexed_ids K d) (payouts (reset_projection K address d)) =
     filter (\<lambda>p. po_goalId p \<notin> indexed_ids K d) (payouts d)"
  "p \<in> set (payouts (reset_projection K address d)) \<Longrightarrow> po_goalId p \<in> indexed_ids K d \<Longrightarrow>
     po_status p \<noteq> PO_EXECUTED \<and> (\<exists>i\<in>set (payoutIntents d). pi_payoutId i = po_id p)"
proof -
  let ?R = "retained_ids K d"
  let ?P = "\<lambda>p. \<not> (po_goalId p \<in> ?R \<and> intent_of d p = None)"
  let ?f = "\<lambda>p. if po_goalId p \<in> ?R \<and> intent_of d p \<noteq> None \<and> po_status p = PO_EXECUTED
      then p\<lparr>po_status := PO_PROPOSED, po_chainTxHash := None, po_executedAt := None\<rparr> else p"
  have "payouts (reset_kept K ?R d) = map ?f (filter ?P (payouts d))"
  proof (cases "?R = {}")
    case False
    then show ?thesis by (simp add: reset_kept_def reset_retained_def Let_def intent_of_def update_where_def)
  qed (simp add: reset_kept_def)
  then have ps: "payouts (reset_projection K address d) = filter (\<lambda>p. po_goalId p \<notin> gone_ids K d) (map ?f (filter ?P (payouts d)))"
    by (simp add: reset_projection_tables(3))
  have other: "filter (\<lambda>p. po_goalId p \<notin> indexed_ids K d) (filter (\<lambda>p. po_goalId p \<notin> gone_ids K d) (map ?f (filter ?P xs))) =
      filter (\<lambda>p. po_goalId p \<notin> indexed_ids K d) xs" for xs
    by (induction xs) (auto simp: indexed_ids_split)
  then show "filter (\<lambda>p. po_goalId p \<notin> indexed_ids K d) (payouts (reset_projection K address d)) =
     filter (\<lambda>p. po_goalId p \<notin> indexed_ids K d) (payouts d)" unfolding ps .
  assume "p \<in> set (payouts (reset_projection K address d))" "po_goalId p \<in> indexed_ids K d"
  then show "po_status p \<noteq> PO_EXECUTED \<and> (\<exists>i\<in>set (payoutIntents d). pi_payoutId i = po_id p)"
    unfolding ps indexed_ids_split
    by (auto simp: intent_of_def find_None_iff split: if_splits)
qed

lemma reset_projection_rows:
  assumes "distinct (map g_id (fundingGoals d))"
  shows "filter (\<lambda>g. g_id g \<notin> indexed_ids K d) (fundingGoals (reset_projection K address d)) =
      filter (\<lambda>g. g_id g \<notin> indexed_ids K d) (fundingGoals d)"
    and "\<And>g. g \<in> set (fundingGoals (reset_projection K address d)) \<Longrightarrow> g_id g \<in> indexed_ids K d \<Longrightarrow> blank_goal g"
proof -
  let ?R = "retained_ids K d"
  have rows: "fundingGoals (reset_projection K address d) =
      filter (\<lambda>g. \<not> gone K d g) (update_where (\<lambda>g. g_id g \<in> ?R) retained_goal (fundingGoals d))"
    by (simp add: reset_projection_tables(1) reset_kept_goals)
  have "g_id g \<in> indexed_ids K d" if "gone K d g" "g \<in> set (fundingGoals d)" for g
    using that by (auto simp: indexed_ids_def gone_def)
  then have "filter (\<lambda>g. g_id g \<notin> indexed_ids K d) (filter (\<lambda>g. \<not> gone K d g) (update_where (\<lambda>g. g_id g \<in> ?R) retained_goal xs)) =
      filter (\<lambda>g. g_id g \<notin> indexed_ids K d) xs" if "set xs \<subseteq> set (fundingGoals d)" for xs
    using that by (induction xs) (auto simp: update_where_def indexed_ids_split)
  then show "filter (\<lambda>g. g_id g \<notin> indexed_ids K d) (fundingGoals (reset_projection K address d)) =
      filter (\<lambda>g. g_id g \<notin> indexed_ids K d) (fundingGoals d)" unfolding rows by blast
  fix g assume g: "g \<in> set (fundingGoals (reset_projection K address d))" "g_id g \<in> indexed_ids K d"
  from g(1) consider "g \<in> set (fundingGoals d)" "g_id g \<notin> ?R" "\<not> gone K d g" | h where "g = retained_goal h"
    by (auto simp: rows set_update_where)
  then show "blank_goal g"
  proof cases
    case 1
    then have "g_id g \<in> gone_ids K d" using g(2) by (simp add: indexed_ids_split)
    then obtain h where "h \<in> set (fundingGoals d)" "gone K d h" "g_id h = g_id g" by (auto simp: gone_ids_def)
    with distinct_map_eq [OF assms] 1 show ?thesis by metis
  qed simp
qed

lemma intended_retained:
  "i \<in> set (actionIntents d) \<Longrightarrow> ai_goalId i \<in> indexed_ids K d \<Longrightarrow> ai_goalId i \<in> retained_ids K d"
  "j \<in> set (payoutIntents d) \<Longrightarrow> pi_goalId j \<in> indexed_ids K d \<Longrightarrow> pi_goalId j \<in> retained_ids K d"
  by (auto simp: indexed_ids_def retained_id has_safe_intents_def)

lemma reset_projection_proposals:
  "p \<in> set (actionProposals (reset_projection K address d)) \<Longrightarrow> action_intent_of d p = Some i \<Longrightarrow>
     ai_chainId i = K \<Longrightarrow> ai_goalId i \<in> indexed_ids K d \<Longrightarrow> pr_status p \<noteq> SP_EXECUTED"
  "q \<in> set (payoutProposals (reset_projection K address d)) \<Longrightarrow> payout_intent_of d q = Some j \<Longrightarrow>
     pi_chainId j = K \<Longrightarrow> pi_goalId j \<in> indexed_ids K d \<Longrightarrow> x \<in> set (payouts d) \<Longrightarrow> po_id x = pi_payoutId j \<Longrightarrow>
     po_status x = PO_EXECUTED \<Longrightarrow> pr_status q \<noteq> SP_EXECUTED"
proof -
  let ?R = "retained_ids K d"
  assume p: "p \<in> set (actionProposals (reset_projection K address d))" and i: "action_intent_of d p = Some i"
    "ai_chainId i = K" "ai_goalId i \<in> indexed_ids K d"
  from i(1) have "i \<in> set (actionIntents d)" by (auto simp: action_intent_of_def find_Some_iff)
  with i intended_retained(1) have r: "ai_goalId i \<in> ?R" "?R \<noteq> {}" by blast+
  have "actionProposals (reset_projection K address d) = update_where (\<lambda>p. pr_status p = SP_EXECUTED \<and>
      (case action_intent_of d p of None \<Rightarrow> False | Some i \<Rightarrow> ai_chainId i = K \<and> ai_goalId i \<in> ?R)) reopened (actionProposals d)"
    using r(2) by (simp add: reset_projection_def reset_retained_def Let_def delete_goals_def action_intent_of_def)
  from in_update_whereE [OF p [unfolded this]] show "pr_status p \<noteq> SP_EXECUTED"
  proof cases
    case 1
    then show ?thesis using i r(1) by auto
  qed (simp add: reopened_def)
next
  let ?R = "retained_ids K d"
  assume q: "q \<in> set (payoutProposals (reset_projection K address d))" and j: "payout_intent_of d q = Some j"
    "pi_chainId j = K" "pi_goalId j \<in> indexed_ids K d" and x: "x \<in> set (payouts d)" "po_id x = pi_payoutId j" "po_status x = PO_EXECUTED"
  from j(1) have jin: "j \<in> set (payoutIntents d)" by (auto simp: payout_intent_of_def find_Some_iff)
  with j intended_retained(2) have r: "pi_goalId j \<in> ?R" "?R \<noteq> {}" by blast+
  define e where "e = payouts_update (filter (\<lambda>p. \<not> (po_goalId p \<in> ?R \<and> intent_of d p = None))) d"
  have "intent_of d x \<noteq> None" using jin x(2) by (auto simp: intent_of_def find_None_iff)
  then have "x \<in> set (payouts e)" using x(1) by (simp add: e_def)
  then have exec: "executed_intent K ?R e q'" if "payout_intent_of d q' = Some j" for q'
    using that j(2) r(1) x by (auto simp: executed_intent_def e_def payout_intent_of_def)
  have "payoutProposals (reset_projection K address d) = update_where (\<lambda>p. pr_status p = SP_EXECUTED \<and> executed_intent K ?R e p)
      reopened (payoutProposals d)"
    using r(2) by (simp add: reset_projection_def reset_retained_def Let_def delete_goals_def e_def intent_of_def
        executed_intent_def payout_intent_of_def cong: option.case_cong)
  from in_update_whereE [OF q [unfolded this]] show "pr_status q \<noteq> SP_EXECUTED"
  proof cases
    case 1
    then show ?thesis using exec [OF j(1)] by auto
  qed (simp add: reopened_def)
qed

text \<open>What is left of the rows that hang on the goals, the expenses and the profiles.\<close>

definition indexed_expenses :: "int \<Rightarrow> escrow_db \<Rightarrow> string set" where
  "indexed_expenses K d =
     {i. i \<noteq> [] \<and> (\<exists>g\<in>set (fundingGoals d). g_chainId g = K \<and> created_row g \<and> g_expenseId g = Some i)}"

lemma reset_projection_expenses:
  fixes K address d
  defines "d' \<equiv> reset_projection K address d"
  shows "\<forall>e\<in>set (expenses d'). ex_id e \<in> indexed_expenses K d \<longrightarrow> ex_status e \<noteq> EX_PUBLISHED"
    and "filter (\<lambda>e. ex_id e \<notin> indexed_expenses K d) (expenses d') = filter (\<lambda>e. ex_id e \<notin> indexed_expenses K d) (expenses d)"
    and "map ex_id (expenses d') = map ex_id (expenses d)"
proof -
  have "set (filter (\<lambda>i. i \<noteq> []) (List.map_filter g_expenseId (indexed_goals K d))) = indexed_expenses K d"
    by (force simp: indexed_expenses_def indexed_goals_def created_row_def List.map_filter_def)
  then have e: "expenses d' = update_where (\<lambda>e. ex_id e \<in> indexed_expenses K d \<and> ex_status e = EX_PUBLISHED)
      (\<lambda>e. e\<lparr>ex_status := EX_PENDING_CHAIN, ex_pendingChainTxHash := None\<rparr>) (expenses d)"
    unfolding d'_def reset_projection_frame(3) by simp
  show "\<forall>e\<in>set (expenses d'). ex_id e \<in> indexed_expenses K d \<longrightarrow> ex_status e \<noteq> EX_PUBLISHED"
    by (auto simp: e set_update_where)
  have "filter (\<lambda>e. ex_id e \<notin> indexed_expenses K d) (update_where (\<lambda>e. ex_id e \<in> indexed_expenses K d \<and> ex_status e = EX_PUBLISHED)
      (\<lambda>e. e\<lparr>ex_status := EX_PENDING_CHAIN, ex_pendingChainTxHash := None\<rparr>) xs) = filter (\<lambda>e. ex_id e \<notin> indexed_expenses K d) xs" for xs
    by (induction xs) (auto simp: update_where_def)
  then show "filter (\<lambda>e. ex_id e \<notin> indexed_expenses K d) (expenses d') = filter (\<lambda>e. ex_id e \<notin> indexed_expenses K d) (expenses d)"
    by (simp add: e)
  show "map ex_id (expenses d') = map ex_id (expenses d)" by (simp add: e map_update_where)
qed

lemma reset_projection_profiles:
  fixes K address d
  defines "d' \<equiv> reset_projection K address d"
  shows "\<forall>p\<in>set (sponsorProfiles d'). prof_chainId p = Some K \<longrightarrow> blank_profile p"
    and "filter (\<lambda>p. prof_chainId p \<noteq> Some K) (sponsorProfiles d') = filter (\<lambda>p. prof_chainId p \<noteq> Some K) (sponsorProfiles d)"
    and "map prof_userId (sponsorProfiles d') = map prof_userId (sponsorProfiles d)"
proof -
  note p = reset_projection_frame(1) [of K address d, folded d'_def]
  show "\<forall>p\<in>set (sponsorProfiles d'). prof_chainId p = Some K \<longrightarrow> blank_profile p"
    by (auto simp: p set_update_where)
  have "filter (\<lambda>p. prof_chainId p \<noteq> Some K) (update_where (\<lambda>p. prof_chainId p = Some K) cleared_profile xs) =
      filter (\<lambda>p. prof_chainId p \<noteq> Some K) xs" for xs
    by (induction xs) (auto simp: update_where_def)
  then show "filter (\<lambda>p. prof_chainId p \<noteq> Some K) (sponsorProfiles d') = filter (\<lambda>p. prof_chainId p \<noteq> Some K) (sponsorProfiles d)"
    by (simp add: p)
  show "map prof_userId (sponsorProfiles d') = map prof_userId (sponsorProfiles d)" by (simp add: p map_update_where)
qed


subsection \<open>A pass\<close>

definition checkpoint_row :: "deployment \<Rightarrow> escrow_db \<Rightarrow> escrow_state option" where
  "checkpoint_row config d = List.find (\<lambda>s. es_key s = deploymentStateKey config) (escrowStates d)"

definition upto_block :: "escrow_log list \<Rightarrow> int \<Rightarrow> nat" where
  "upto_block C b = length (filter (\<lambda>l. el_blockNumber l \<le> b) C)"

definition keyed :: "deployment \<Rightarrow> escrow_db \<Rightarrow> bool" where
  "keyed config d \<longleftrightarrow> list_all (\<lambda>s. es_key s = deploymentStateKey config \<longrightarrow> es_chainId s = dp_chainId config) (escrowStates d)"

text \<open>The database projects a prefix of the log \<open>C\<close> that reaches block \<open>b\<close>, and no checkpoint is beyond \<open>b\<close>.\<close>

definition at_block :: "deployment \<Rightarrow> escrow_log list \<Rightarrow> int \<Rightarrow> escrow_db \<Rightarrow> bool" where
  "at_block config C b d \<longleftrightarrow> reaches config C (escrowStates d) (upto_block C b) d \<and> keyed config d \<and>
     (case checkpoint_row config d of None \<Rightarrow> True | Some s \<Rightarrow> es_lastBlockNumber s \<le> b)"

definition log_order :: "escrow_log \<Rightarrow> int \<times> int" where
  "log_order l = (el_blockNumber l, el_logIndex l)"

text \<open>The order of the code is the order of the keys that the model sorts by.\<close>

lemma compareEscrowLogs_order: "compareEscrowLogs l r \<le> 0 \<longleftrightarrow> log_order l \<le> log_order r"
  by (auto simp: compareEscrowLogs_def log_order_def)

text \<open>
  The chain answers from one canonical log \<open>C\<close>: the log of a contract, in order, not before its deployment, and
  every answer to \<^verbatim>\<open>eth_getLogs\<close> holds exactly the logs of the range.
\<close>

definition canonical :: "deployment \<Rightarrow> 'w escrow_chain \<Rightarrow> escrow_log list \<Rightarrow> bool" where
  "canonical config chain C \<longleftrightarrow> contract_log (filter good C) \<and> sorted (map log_order C) \<and>
     (\<forall>l\<in>set C. dp_deploymentBlock config \<le> el_blockNumber l) \<and>
     (\<forall>first final w logs w'. ec_events chain first final w = (Inr logs, w') \<longrightarrow>
        sort_key log_order logs = filter (\<lambda>l. first \<le> el_blockNumber l \<and> el_blockNumber l \<le> final) C)"

lemma range_answer:
  "canonical config chain C \<Longrightarrow> ec_events chain first final w = (Inr ls, w')
   \<Longrightarrow> sort_key log_order ls = filter (\<lambda>l. first \<le> el_blockNumber l \<and> el_blockNumber l \<le> final) C"
  unfolding canonical_def by blast

lemma sorted_split:
  assumes "sorted (map log_order C)" and "a \<le> b + 1"
  shows "C = filter (\<lambda>l. el_blockNumber l \<le> a - 1) C @ filter (\<lambda>l. a \<le> el_blockNumber l \<and> el_blockNumber l \<le> b) C @
    filter (\<lambda>l. b < el_blockNumber l) C"
  using assms
proof (induction C)
  case (Cons l C)
  have le: "\<forall>x\<in>set C. el_blockNumber l \<le> el_blockNumber x"
    using Cons.prems(1) by (auto simp: log_order_def less_eq_prod_def)
  have IH: "C = filter (\<lambda>l. el_blockNumber l \<le> a - 1) C @ filter (\<lambda>l. a \<le> el_blockNumber l \<and> el_blockNumber l \<le> b) C @
    filter (\<lambda>l. b < el_blockNumber l) C"
    using Cons by simp
  consider "el_blockNumber l \<le> a - 1" | "a \<le> el_blockNumber l" "el_blockNumber l \<le> b" | "b < el_blockNumber l"
    using Cons.prems(2) by linarith
  then show ?case
  proof cases
    case 1
    with IH Cons.prems(2) show ?thesis by simp
  next
    case 2
    with le have "filter (\<lambda>l. el_blockNumber l \<le> a - 1) C = []" by (auto simp: filter_empty_conv)
    with 2 IH show ?thesis by simp
  next
    case 3
    with le Cons.prems(2) have "filter (\<lambda>l. el_blockNumber l \<le> a - 1) C = []"
      "filter (\<lambda>l. a \<le> el_blockNumber l \<and> el_blockNumber l \<le> b) C = []"
      by (auto simp: filter_empty_conv)
    with 3 IH Cons.prems(2) show ?thesis by simp
  qed
qed simp

lemma chunk_split:
  assumes "canonical config chain C" and "a \<le> b + 1"
  defines "G \<equiv> filter good C"
  obtains A B where "G = A @ filter good (filter (\<lambda>l. a \<le> el_blockNumber l \<and> el_blockNumber l \<le> b) C) @ B"
    and "length A = upto_block G (a - 1)"
    and "length A + length (filter good (filter (\<lambda>l. a \<le> el_blockNumber l \<and> el_blockNumber l \<le> b) C)) = upto_block G b"
proof -
  let ?lo = "filter (\<lambda>l. el_blockNumber l \<le> a - 1) C" and ?mid = "filter (\<lambda>l. a \<le> el_blockNumber l \<and> el_blockNumber l \<le> b) C"
    and ?hi = "filter (\<lambda>l. b < el_blockNumber l) C"
  have C: "C = ?lo @ ?mid @ ?hi" using assms(1,2) by (intro sorted_split) (simp_all add: canonical_def)
  have le: "filter (\<lambda>l. el_blockNumber l \<le> x) (filter good C) = filter good (filter (\<lambda>l. el_blockNumber l \<le> x) C)" for x
    by (simp add: conj_commute)
  have "filter (\<lambda>l. el_blockNumber l \<le> b) C = ?lo @ ?mid"
  proof -
    have "filter (\<lambda>l. el_blockNumber l \<le> b) ?lo = ?lo" "filter (\<lambda>l. el_blockNumber l \<le> b) ?mid = ?mid"
      "filter (\<lambda>l. el_blockNumber l \<le> b) ?hi = []"
      using assms(2) by (auto simp: filter_id_conv filter_empty_conv simp del: filter_filter)
    then show ?thesis by (subst C) (simp only: filter_append append_Nil2)
  qed
  then have "upto_block G b = length (filter good ?lo) + length (filter good ?mid)"
    by (simp only: upto_block_def G_def le filter_append length_append)
  moreover have lo: "upto_block G (a - 1) = length (filter good ?lo)" by (simp only: upto_block_def G_def le)
  moreover have "G = filter good ?lo @ filter good ?mid @ filter good ?hi"
    unfolding G_def by (subst C) (simp only: filter_append)
  ultimately show ?thesis by (intro that [of "filter good ?lo" "filter good ?hi"]) simp_all
qed

lemma at_block_frame:
  "reaches config C (escrowStates d) (upto_block C b) d \<Longrightarrow> keyed config d \<Longrightarrow> checkpoint_row config d = None \<Longrightarrow> at_block config C b d"
  by (simp add: at_block_def)

text \<open>The checkpoint of the state is part of what \<open>reaches\<close> fixes.\<close>

lemma reaches_states: "reaches config C sts i d \<Longrightarrow> escrowStates d = sts"
  using ledgerD(9) by (fastforce simp: reaches_def replayed_def logs_def)

lemma upto_block_mono: "a \<le> b \<Longrightarrow> upto_block C a \<le> upto_block C b"
  unfolding upto_block_def by (induction C) auto

text \<open>After a chunk.\<close>

lemma write_state_at_block:
  assumes "reaches config C (escrowStates d) (upto_block C final) d" and "keyed config d"
    and d': "d' = escrowStates_update (\<lambda>rows.
       if \<exists>s\<in>set rows. es_key s = deploymentStateKey config
       then update_where (\<lambda>s. es_key s = deploymentStateKey config)
         (\<lambda>s. s\<lparr>es_lastBlockNumber := final, es_lastBlockHash := hash\<rparr>) rows
       else rows @ [\<lparr>es_key = deploymentStateKey config, es_chainId = dp_chainId config,
         es_lastBlockNumber = final, es_lastBlockHash = hash\<rparr>]) d"
  shows "at_block config C final d' \<and> (\<exists>s. checkpoint_row config d' = Some s \<and> es_lastBlockNumber s = final)"
proof -
  let ?k = "deploymentStateKey config"
  let ?upd = "update_where (\<lambda>s. es_key s = ?k) (\<lambda>s. s\<lparr>es_lastBlockNumber := final, es_lastBlockHash := hash\<rparr>)"
  have upd: "List.find (\<lambda>s. es_key s = ?k) (?upd rows) =
      map_option (\<lambda>s. s\<lparr>es_lastBlockNumber := final, es_lastBlockHash := hash\<rparr>) (List.find (\<lambda>s. es_key s = ?k) rows)" for rows
    by (induction rows) (auto simp: update_where_def)
  have new: "List.find (\<lambda>s. es_key s = ?k) (rows @ [r]) = Some r" if "\<forall>s\<in>set rows. es_key s \<noteq> ?k" "es_key r = ?k" for rows r
    using that by (induction rows) auto
  have row: "\<exists>s. checkpoint_row config d' = Some s \<and> es_lastBlockNumber s = final"
  proof (cases "\<exists>s\<in>set (escrowStates d). es_key s = ?k")
    case True
    then obtain s where "List.find (\<lambda>s. es_key s = ?k) (escrowStates d) = Some s"
      using find_None_iff [of "\<lambda>s. es_key s = ?k" "escrowStates d"] by (cases "List.find (\<lambda>s. es_key s = ?k) (escrowStates d)") auto
    with True show ?thesis by (simp add: d' checkpoint_row_def upd)
  next
    case False
    then show ?thesis by (simp add: d' checkpoint_row_def new)
  qed
  have "keyed config d'"
    using assms(2) by (auto simp: d' keyed_def list_all_iff set_update_where)
  moreover have "ledger config B G (evs, escrowStates d') d'" if "ledger config B G (evs, escrowStates d) d" for B G evs
    using that unfolding ledger_skeleton d' by (simp add: skeleton_def logs_def ledger_rows_def)
  then have "reaches config C (escrowStates d') (upto_block C final) d'"
  proof -
    assume claim: "\<And>B G evs. ledger config B G (evs, escrowStates d) d \<Longrightarrow> ledger config B G (evs, escrowStates d') d'"
    have "chainEvents d' = chainEvents d" "own_rows config d' = own_rows config d" by (simp_all add: d' own_rows_def)
    with assms(1) show ?thesis unfolding reaches_def replayed_def by (auto intro: claim)
  qed
  ultimately show ?thesis using row by (auto simp: at_block_def)
qed

definition states_ok :: "deployment \<Rightarrow> int \<Rightarrow> escrow_state list \<Rightarrow> bool" where
  "states_ok config b sts \<longleftrightarrow>
     list_all (\<lambda>s. es_key s = deploymentStateKey config \<longrightarrow> es_chainId s = dp_chainId config) sts \<and>
     (case List.find (\<lambda>s. es_key s = deploymentStateKey config) sts of None \<Rightarrow> True | Some s \<Rightarrow> es_lastBlockNumber s \<le> b)"

lemma at_block_states: "at_block config C b = (\<lambda>d. \<exists>sts. states_ok config b sts \<and> reaches config C sts (upto_block C b) d)"
proof (rule ext)
  fix d
  have "states_ok config b (escrowStates d) \<longleftrightarrow> keyed config d \<and>
      (case checkpoint_row config d of None \<Rightarrow> True | Some s \<Rightarrow> es_lastBlockNumber s \<le> b)"
    by (simp add: states_ok_def keyed_def checkpoint_row_def)
  then show "at_block config C b d = (\<exists>sts. states_ok config b sts \<and> reaches config C sts (upto_block C b) d)"
    unfolding at_block_def using reaches_states [of config C _ "upto_block C b" d] by blast
qed

lemma triple_ex:
  assumes "\<And>x. A x \<Longrightarrow> triple (P x) m Q E"
  shows "triple (\<lambda>d. \<exists>x. A x \<and> P x d) m Q E"
proof (rule tripleI)
  fix s x s' assume "\<exists>x. A x \<and> P x (db s)" and run: "m s = (Inr x, s')"
  then obtain y where "A y" "P y (db s)" by (elim exE conjE)
  from triple_Inr [OF assms [OF this(1)] this(2) run] show "Q x (db s')" .
next
  fix s e s' assume "\<exists>x. A x \<and> P x (db s)" and run: "m s = (Inl e, s')"
  then obtain y where "A y" "P y (db s)" by (elim exE conjE)
  from triple_Inl [OF assms [OF this(1)] this(2) run] show "E (db s')" .
qed

lemma at_blockI: "states_ok config b sts \<Longrightarrow> reaches config C sts (upto_block C b) d \<Longrightarrow> at_block config C b d"
  by (auto simp: at_block_states)

lemma index_escrow_range_at_block:
  assumes C: "canonical config chain C" and r: "first \<le> final + 1"
  defines "G \<equiv> filter good C"
  shows "triple (at_block config G (first - 1)) (index_escrow_range chain deps config first final processed)
    (\<lambda>_. at_block config G final) (at_block config G (first - 1))"
  unfolding at_block_states [of config G "first - 1"]
proof (rule triple_ex)
  fix sts assume ok: "states_ok config (first - 1) sts"
  let ?E = "\<lambda>d. \<exists>sts. states_ok config (first - 1) sts \<and> reaches config G sts (upto_block G (first - 1)) d"
  let ?range = "filter (\<lambda>l. first \<le> el_blockNumber l \<and> el_blockNumber l \<le> final) C"
  obtain A B where split: "G = A @ filter good ?range @ B" "length A = upto_block G (first - 1)"
    "length A + length (filter good ?range) = upto_block G final"
    using chunk_split [OF C r] unfolding G_def .
  have log: "contract_log G" using C by (simp add: canonical_def G_def)
  have bad: "reaches config G sts (upto_block G (first - 1)) d \<Longrightarrow> ?E d" for d using ok by blast
  have weak: "reaches config G sts (upto_block G final) d \<Longrightarrow> reaches config G sts (upto_block G (first - 1)) d" for d
    by (erule reaches_mono) (use r in \<open>auto intro: upto_block_mono\<close>)
  have chunk: "triple (reaches config G sts (upto_block G (first - 1))) (foldp (index_log chain deps config) ls acc)
      (\<lambda>_. reaches config G sts (upto_block G final)) ?E" if "ls = ?range" for ls acc
    unfolding that
    by (rule triple_conseq [OF chunk_reaches [OF log split(1), of config sts chain deps acc, unfolded split(3), unfolded split(2)]])
      (use bad in simp_all)
  have state: "triple (reaches config G sts (upto_block G final)) (write_state config final hash) (\<lambda>_. at_block config G final) ?E" for hash
    unfolding write_state_def
  proof (rule triple_mod)
    fix d assume d: "reaches config G sts (upto_block G final) d"
    then have "escrowStates d = sts" by (rule reaches_states)
    with d ok show "at_block config G final (escrowStates_update (\<lambda>rows.
       if \<exists>s\<in>set rows. es_key s = deploymentStateKey config
       then update_where (\<lambda>s. es_key s = deploymentStateKey config)
         (\<lambda>s. s\<lparr>es_lastBlockNumber := final, es_lastBlockHash := hash\<rparr>) rows
       else rows @ [\<lparr>es_key = deploymentStateKey config, es_chainId = dp_chainId config,
         es_lastBlockNumber = final, es_lastBlockHash = hash\<rparr>]) d)"
      by (intro write_state_at_block [THEN conjunct1, OF _ _ refl]) (simp_all add: states_ok_def keyed_def)
  qed
  show "triple (reaches config G sts (upto_block G (first - 1))) (index_escrow_range chain deps config first final processed)
      (\<lambda>_. at_block config G final) ?E"
    unfolding index_escrow_range_def log_order_def [abs_def, symmetric]
    apply (rule triple_bind_val [where A = "\<lambda>ls. sort_key log_order ls = ?range" and B = "\<lambda>_. reaches config G sts (upto_block G (first - 1))"])
     apply (rule triple_extern_val)
       apply (erule range_answer [OF C])
      apply (rule conjI, assumption, assumption)
     apply (erule bad)
    apply (rule triple_bind [OF chunk], assumption)
    apply (rule triple_prod)
    apply (rule triple_bind [where B = "\<lambda>_. reaches config G sts (upto_block G final)"])
     apply (rule triple_extern, assumption, rule bad, erule weak)
    apply (rule triple_prod)
    apply (rule triple_then [OF state], rule triple_ret, assumption)
    done
qed

end
