(* ===== verification/Escrow_Passes.thy ===== *)
theory Escrow_Passes
  imports Escrow_Reset
begin

section \<open>The escrow passes\<close>

text \<open>
  Whole passes of \<^verbatim>\<open>indexEscrow\<close> against the contract's log: after a pass that reports a block, the database is the
  projection of a prefix of the log that reaches that block, also when the pass had to rebuild after a
  reorganization, and the expected balances of \<^verbatim>\<open>reconcileEscrow\<close> are those of that prefix.
\<close>

subsection \<open>What a pass may start from\<close>

definition checkpoint_block :: "deployment \<Rightarrow> escrow_db \<Rightarrow> int" where
  "checkpoint_block config d = (case checkpoint_row config d of None \<Rightarrow> dp_deploymentBlock config - 1 | Some s \<Rightarrow> es_lastBlockNumber s)"

definition synced :: "deployment \<Rightarrow> escrow_log list \<Rightarrow> escrow_db \<Rightarrow> bool" where
  "synced config G d \<longleftrightarrow> at_block config G (checkpoint_block config d) d"

text \<open>The projection of some log, perhaps of a branch that the chain has left.\<close>

definition consistent :: "deployment \<Rightarrow> escrow_db \<Rightarrow> bool" where
  "consistent config d \<longleftrightarrow> keyed config d \<and> (\<exists>B G L. ledger config B G L d)"

text \<open>It is that of the canonical log when there is no checkpoint, or the chain confirms its hash.\<close>

definition trusted :: "deployment \<Rightarrow> 'w escrow_chain \<Rightarrow> escrow_log list \<Rightarrow> escrow_db \<Rightarrow> bool" where
  "trusted config chain G d \<longleftrightarrow> consistent config d \<and> (case checkpoint_row config d of None \<Rightarrow> synced config G d
     | Some s \<Rightarrow> \<forall>w hash timestamp w'. ec_block chain (es_lastBlockNumber s) w = (Inr (hash, timestamp), w') \<longrightarrow>
         \<not> chainReorganized (es_lastBlockHash s) hash \<longrightarrow> synced config G d)"

lemma at_block_consistent: "at_block config G b d \<Longrightarrow> consistent config d"
  unfolding at_block_def reaches_def replayed_def consistent_def by blast

lemma synced_trusted: "synced config G d \<Longrightarrow> trusted config chain G d"
  by (auto simp: trusted_def synced_def at_block_consistent split: option.split)

lemma before_deployment:
  assumes "canonical config chain C"
  shows "upto_block (filter good C) (dp_deploymentBlock config - 1) = 0"
  using assms by (fastforce simp: canonical_def upto_block_def filter_empty_conv)

lemma at_block_synced:
  assumes C: "canonical config chain C" and b: "at_block config (filter good C) b d"
  shows "synced config (filter good C) d"
proof (cases "checkpoint_row config d")
  case None
  then show ?thesis
    using b reaches_mono [of config "filter good C" "escrowStates d" "upto_block (filter good C) b" d 0]
    by (simp add: synced_def checkpoint_block_def at_block_def before_deployment [OF C])
next
  case (Some s)
  then show ?thesis
    using b upto_block_mono [of "es_lastBlockNumber s" b "filter good C"]
    by (auto simp: synced_def checkpoint_block_def at_block_def elim: reaches_mono)
qed

lemma reset_at_block:
  assumes C: "canonical config chain C" and d: "consistent config d"
  shows "at_block config (filter good C) (dp_deploymentBlock config - 1) (reset_projection (dp_chainId config) address d)"
proof -
  let ?d = "reset_projection (dp_chainId config) address d"
  obtain B G L where l: "ledger config B G L d" and k: "keyed config d" using d by (auto simp: consistent_def)
  have none: "\<forall>s\<in>set (escrowStates ?d). es_key s \<noteq> deploymentStateKey config"
    using k by (auto simp: keyed_def list_all_iff reset_projection_tables(5))
  have r: "ledger config (\<lambda>_. 0) {} (logs ?d) ?d" "own_rows config ?d = []"
    using reset_projection_ledger [OF l, of address] by simp_all
  have "replayed config (filter good C) (escrowStates ?d) 0 ?d"
    using r by (simp add: replayed_def balance_of_def [abs_def] created_in_def logs_def)
  then have "reaches config (filter good C) (escrowStates ?d) 0 ?d" by (auto simp: reaches_def)
  moreover have "checkpoint_row config ?d = None" using none by (auto simp: checkpoint_row_def find_None_iff)
  moreover have "keyed config ?d" using none by (auto simp: keyed_def list_all_iff)
  ultimately show ?thesis by (simp add: at_block_def before_deployment [OF C])
qed

subsection \<open>The chunks\<close>

lemma index_ranges_at_block:
  assumes C: "canonical config chain C"
  defines "G \<equiv> filter good C"
  shows "nat (safeHead - start + 1) \<le> fuel \<Longrightarrow>
    triple (at_block config G (min (start - 1) safeHead)) (index_ranges chain deps config safeHead fuel start processed)
      (\<lambda>_. at_block config G safeHead) (synced config G)"
proof (induction fuel arbitrary: start processed)
  case 0
  then show ?case by (simp add: index_ranges.simps triple_ret)
next
  case (Suc fuel)
  let ?final = "min (start + INDEXER_LOG_BLOCK_RANGE - 1) safeHead"
  show ?case
  proof (cases "start > safeHead")
    case True
    then show ?thesis by (simp add: index_ranges.simps triple_ret)
  next
    case False
    have R: "INDEXER_LOG_BLOCK_RANGE \<ge> 1" by (simp add: INDEXER_LOG_BLOCK_RANGE_def)
    have "start \<le> ?final + 1" using False R by linarith
    note chunk = index_escrow_range_at_block [OF C this, folded G_def, of deps processed]
    have "triple (at_block config G (start - 1)) (index_escrow_range chain deps config start ?final processed)
        (\<lambda>_. at_block config G ?final) (synced config G)"
      by (rule triple_conseq [OF chunk]) (simp_all add: at_block_synced [OF C, folded G_def])
    moreover have "triple (at_block config G ?final) (index_ranges chain deps config safeHead fuel (start + INDEXER_LOG_BLOCK_RANGE) p)
        (\<lambda>_. at_block config G safeHead) (synced config G)" for p
      using Suc.IH [of "start + INDEXER_LOG_BLOCK_RANGE" p] Suc.prems R by simp
    ultimately have "triple (at_block config G (start - 1))
        (bindp (index_escrow_range chain deps config start ?final processed)
          (index_ranges chain deps config safeHead fuel (start + INDEXER_LOG_BLOCK_RANGE)))
        (\<lambda>_. at_block config G safeHead) (synced config G)"
      by (rule triple_bind)
    moreover have "(if start + INDEXER_LOG_BLOCK_RANGE - 1 > safeHead then safeHead else start + INDEXER_LOG_BLOCK_RANGE - 1) = ?final"
      by simp
    moreover have "min (start - 1) safeHead = start - 1" using False by simp
    ultimately show ?thesis using False by (simp only: index_ranges.simps [of chain deps config safeHead "Suc fuel"] nat.case Let_def if_False)
  qed
qed

definition reported :: "deployment \<Rightarrow> escrow_log list \<Rightarrow> escrow_outcome \<Rightarrow> escrow_db \<Rightarrow> bool" where
  "reported config G outcome d \<longleftrightarrow>
     (case outcome of Escrow_synced n (Some h) \<Rightarrow> at_block config G h d | _ \<Rightarrow> True)"

lemma sync_from_reported:
  assumes C: "canonical config chain C" and s: "\<And>s. state = Some s \<Longrightarrow> es_lastBlockNumber s = fromBlock - 1"
  defines "G \<equiv> filter good C"
  shows "triple (at_block config G (fromBlock - 1)) (sync_from chain deps config safeHead state fromBlock)
    (\<lambda>outcome d. synced config G d \<and> reported config G outcome d) (synced config G)"
proof (cases "fromBlock > safeHead")
  case True
  then show ?thesis
    using s by (cases state) (auto simp: sync_from_def reported_def at_block_synced [OF C, folded G_def] intro!: triple_ret)
next
  case False
  then have "min (fromBlock - 1) safeHead = fromBlock - 1" by simp
  with index_ranges_at_block [OF C order_refl, where start = fromBlock and safeHead = safeHead and deps = deps and processed = 0, folded G_def]
  have "triple (at_block config G (fromBlock - 1)) (index_ranges chain deps config safeHead (nat (safeHead - fromBlock + 1)) fromBlock 0)
      (\<lambda>_. at_block config G safeHead) (synced config G)"
    by simp
  moreover have "triple (at_block config G safeHead) (ret (Escrow_synced p (Some safeHead)))
      (\<lambda>outcome d. synced config G d \<and> reported config G outcome d) (synced config G)" for p
    by (rule triple_ret) (simp add: reported_def at_block_synced [OF C, folded G_def])
  ultimately show ?thesis using False unfolding sync_from_def by (simp only: if_False) (rule triple_bind)
qed

subsection \<open>The manifest\<close>

lemma keeps_address: "keeps P (normalizedAddress chain a)" "keeps P (assertAddress chain field x y)" "keeps P (check b field)"
  by (auto simp: normalizedAddress_def assertAddress_def check_def
      intro!: triple_bind [where B = "\<lambda>_. P"] triple_ret triple_throw split: option.split)

lemma keeps_owner_proof: "keeps P (initial_owner_proof chain expected events)"
proof (induction events)
  case Nil
  then show ?case by (simp add: triple_ret)
next
  case (Cons e events)
  then show ?case
    by (cases e) (auto intro!: triple_bind [where B = "\<lambda>_. P"] keeps_address triple_ret)
qed

lemma keeps_verify: "keeps P (verifyEscrowManifest chain manifest safe)"
  unfolding verifyEscrowManifest_def
  by (intro triple_bind [where B = "\<lambda>_. P"] triple_then [where B = P] keeps_address keeps_owner_proof triple_extern triple_option
      triple_if triple_ret; assumption)

lemma keeps_manifest: "keeps P (ensureEscrowManifest chain config safe)"
  unfolding ensureEscrowManifest_def
  by (intro triple_if triple_bind [where B = "\<lambda>_. P"] triple_then [where B = P] keeps_verify triple_mem_get triple_mem_mod triple_ret;
      assumption)

subsection \<open>A pass\<close>

lemma rebuild_at_block:
  assumes C: "canonical config chain C"
  shows "triple (trusted config chain (filter good C)) (rebuildAfterReorg config)
    (\<lambda>_. at_block config (filter good C) (dp_deploymentBlock config - 1)) (trusted config chain (filter good C))"
  unfolding rebuildAfterReorg_def resetChainProjection_def
  by (rule triple_transactional [OF triple_mod]) (simp_all add: reset_at_block [OF C] trusted_def)

lemma trusted_confirmed:
  assumes "trusted config chain G d" and s: "checkpoint_row config d = Some s"
    and "ec_block chain (es_lastBlockNumber s) w = (Inr (hash, timestamp), w')" "\<not> chainReorganized (es_lastBlockHash s) hash"
  shows "at_block config G (es_lastBlockNumber s) d"
proof -
  have "synced config G d" using assms(1,3,4) unfolding trusted_def s option.case by blast
  then show ?thesis by (simp add: synced_def checkpoint_block_def s)
qed

lemma trusted_fresh:
  assumes "trusted config chain G d" and s: "checkpoint_row config d = None"
  shows "at_block config G (dp_deploymentBlock config - 1) d"
proof -
  have "synced config G d" using assms(1) unfolding trusted_def s option.case by blast
  then show ?thesis by (simp add: synced_def checkpoint_block_def s)
qed

lemma indexEscrow_reported:
  assumes C: "canonical config chain C"
  defines "G \<equiv> filter good C"
  shows "triple (trusted config chain G) (indexEscrow chain deps config safe)
    (\<lambda>outcome d. trusted config chain G d \<and> reported config G outcome d) (trusted config chain G)"
proof -
  let ?Q = "\<lambda>outcome d. trusted config chain G d \<and> reported config G outcome d"
  have sync: "triple (at_block config G (fromBlock - 1)) (sync_from chain deps config safeHead state fromBlock) ?Q (trusted config chain G)"
    if "\<And>s. state = Some s \<Longrightarrow> es_lastBlockNumber s = fromBlock - 1" for safeHead state fromBlock
    by (rule triple_conseq [OF sync_from_reported [OF C that, folded G_def]]) (simp_all add: synced_trusted)
  let ?found = "\<lambda>state d. trusted config chain G d \<and> checkpoint_row config d = state"
  let ?agrees = "\<lambda>s (r :: string \<times> int). \<exists>w w'. ec_block chain (es_lastBlockNumber s) w = (Inr r, w')"
  have confirmed: "at_block config G (es_lastBlockNumber s + 1 - 1) d"
    if "\<not> chainReorganized (es_lastBlockHash s) hash" "?found (Some s) d \<and> ?agrees s (hash, timestamp)" for s d hash timestamp
    using that trusted_confirmed [of config chain G d s _ hash timestamp] by auto
  show ?thesis
    unfolding indexEscrow_def
    apply (rule triple_if)
     apply (rule triple_ret, simp add: reported_def)
    apply (rule triple_then [OF keeps_manifest])
    apply (rule triple_bind [where B = "\<lambda>_. trusted config chain G"], rule triple_extern, assumption, assumption)
    apply (rule triple_option)
     apply (rule triple_ret, simp add: reported_def)
    apply (rule triple_bind [where B = ?found])
     apply (simp add: first_row_def, rule triple_get, simp add: checkpoint_row_def)
    apply (rule triple_option)
     apply (rule triple_pre, rule sync, simp)
     apply (erule conjE, erule trusted_fresh, simp)
    subgoal for head safeHead state s
      apply (rule triple_bind_val [where A = "?agrees s" and B = "\<lambda>_. ?found (Some s)"])
       apply (rule triple_extern_val [where A = "?agrees s"], blast, blast, blast)
      apply (rule triple_prod)
      apply (rule triple_if)
       apply (rule triple_then [OF triple_pre [OF rebuild_at_block [OF C, folded G_def]]], simp)
       apply (rule sync, simp)
      apply (rule triple_pre, rule sync, simp)
      apply (rule confirmed, assumption, blast)
      done
    done
qed

text \<open>
  C3: On a chain that answers from one canonical log of the contract, and from a database whose checkpoint the
  chain confirms (or refutes by its hash, after which the projection is rebuilt), an indexing pass leaves such a
  database again whether it returns or throws. When it reports h as the last block, the database is the
  projection of a prefix of the well-formed logs that holds every log up to block h: the journal of events is
  exactly that prefix, in order and each event once, and the balances the tables account for are what those
  events moved.
\<close>

theorem indexEscrow_projects_the_log:
  assumes "canonical config chain C" and "trusted config chain (filter good C) (db s)"
  shows "case indexEscrow chain deps config safe s of
      (Inl e, s') \<Rightarrow> trusted config chain (filter good C) (db s')
    | (Inr outcome, s') \<Rightarrow> trusted config chain (filter good C) (db s') \<and> (case outcome of
        Escrow_synced processed (Some h) \<Rightarrow> \<exists>n. upto_block (filter good C) h \<le> n \<and> n \<le> length (filter good C) \<and>
          own_rows config (db s') = map (event_row config) (take n (filter good C)) \<and>
          (\<forall>a. expected_balance (dp_chainId config) a (db s') =
            Some (balance_of config (map el_event (take n (filter good C))) a))
      | _ \<Rightarrow> True)"
proof -
  have projected: "\<exists>n. upto_block (filter good C) h \<le> n \<and> n \<le> length (filter good C) \<and>
      own_rows config d = map (event_row config) (take n (filter good C)) \<and>
      (\<forall>a. expected_balance (dp_chainId config) a d = Some (balance_of config (map el_event (take n (filter good C))) a))"
    if "at_block config (filter good C) h d" for h d
    using that unfolding at_block_def reaches_def replayed_def ledger_def by blast
  let ?r = "indexEscrow chain deps config safe s"
  note pass = indexEscrow_reported [OF assms(1), of deps safe]
  show ?thesis
  proof (cases "fst ?r")
    case (Inl e)
    then obtain s' where r: "?r = (Inl e, s')" by (cases ?r) simp
    show ?thesis using triple_Inl [OF pass assms(2) r] by (simp add: r)
  next
    case (Inr outcome)
    then obtain s' where r: "?r = (Inr outcome, s')" by (cases ?r) simp
    have "trusted config chain (filter good C) (db s')" "reported config (filter good C) outcome (db s')"
      using triple_Inr [OF pass assms(2) r] by simp_all
    moreover have "?thesis" if "outcome = Escrow_synced processed (Some h)" for processed h
      using calculation that by (simp add: r reported_def projected)
    ultimately show ?thesis
      unfolding r by (cases outcome) (simp_all split: option.split)
  qed
qed

lemma indexed_not_contract_wide:
  assumes C: "canonical config chain C" and d: "at_block config (filter good C) h d"
    and l: "l \<in> set C" "el_blockNumber l \<le> h"
  shows "\<not> contract_wide (el_event l)"
proof
  assume w: "contract_wide (el_event l)"
  let ?G = "filter good C"
  obtain n where n: "upto_block ?G h \<le> n" and ok: "list_all (\<lambda>l. \<not> contract_wide (el_event l)) (take n ?G)"
    using d unfolding at_block_def reaches_def replayed_def by blast
  have "sorted (map log_order ?G)" using C by (simp add: canonical_def sorted_filter)
  from sorted_split [OF this, of "h + 1" h]
  have "?G = filter (\<lambda>l. el_blockNumber l \<le> h) ?G @ filter (\<lambda>l. h < el_blockNumber l) ?G"
    by (simp add: filter_False del: filter_filter)
  then have "take (upto_block ?G h) ?G = filter (\<lambda>l. el_blockNumber l \<le> h) ?G"
    unfolding upto_block_def by (metis append_eq_conv_conj)
  moreover have "good l" using w by (auto simp: good_def contract_wide_def)
  ultimately have "l \<in> set (take n ?G)"
    using l n set_take_subset_set_take [of "upto_block ?G h" n ?G] by auto
  with ok w show False by (simp add: list_all_iff)
qed

text \<open>
  C34: The handler has no case for the events that concern the contract as a whole (Paused,
  TreasuryPayoutUpdated and three more) and throws, so the indexer stops for good: on a chain whose
  log has such an event, no pass ever reports the event's block or a later one.
\<close>

theorem contract_wide_event_stops_indexing:
  assumes "canonical config chain C" and "trusted config chain (filter good C) (db s)"
    and "l \<in> set C" and "contract_wide (el_event l)"
  shows "case fst (indexEscrow chain deps config safe s) of
      Inr (Escrow_synced processed (Some h)) \<Rightarrow> h < el_blockNumber l | _ \<Rightarrow> True"
proof -
  let ?r = "indexEscrow chain deps config safe s"
  have "h < el_blockNumber l" if run: "fst ?r = Inr (Escrow_synced processed (Some h))" for processed h
  proof -
    have "?r = (Inr (Escrow_synced processed (Some h)), snd ?r)" using run by (metis prod.collapse)
    from triple_Inr [OF indexEscrow_reported [OF assms(1)] assms(2) this]
    have "at_block config (filter good C) h (db (snd ?r))" by (simp add: reported_def)
    from indexed_not_contract_wide [OF assms(1) this assms(3)] assms(4) show ?thesis by force
  qed
  then show ?thesis by (simp split: sum.split escrow_outcome.split option.split)
qed

subsection \<open>Reconciliation\<close>

text \<open>
  C35: Reconciliation after such a pass reads the contract's PRE balance, then its USDC balance, compares each with
  what the indexed events moved of that asset, and reports agreement exactly when they are equal; it never writes.
  It throws only when the manifest check or one of the two reads does.
\<close>

theorem reconcileEscrow_compares_the_log:
  assumes "at_block config G b (db s)"
  shows "case reconcileEscrow chain config safe s of
      (Inl e, s') \<Rightarrow> db s' = db s \<and>
        (ensureEscrowManifest chain config safe s = (Inl e, s') \<or>
         (\<exists>s1. ensureEscrowManifest chain config safe s = (Inr (), s1) \<and>
           (ec_balance chain (dp_preAddress config) (world s1) = (Inl e, world s') \<or>
            (\<exists>pre w1. ec_balance chain (dp_preAddress config) (world s1) = (Inr pre, w1) \<and>
              ec_balance chain (dp_usdcAddress config) w1 = (Inl e, world s')))))
    | (Inr Reconcile_awaiting_deployment, s') \<Rightarrow> s' = s \<and> \<not> isDeploymentConfigured config
    | (Inr (Reconciled pre expectedPre preMatches usdc expectedUsdc usdcMatches), s') \<Rightarrow> db s' = db s \<and>
        isDeploymentConfigured config \<and>
        (\<exists>s1 w1. ensureEscrowManifest chain config safe s = (Inr (), s1) \<and>
          ec_balance chain (dp_preAddress config) (world s1) = (Inr pre, w1) \<and>
          ec_balance chain (dp_usdcAddress config) w1 = (Inr usdc, world s')) \<and>
        (\<exists>n. upto_block G b \<le> n \<and> n \<le> length G \<and>
          expectedPre = balance_of config (map el_event (take n G)) PRE \<and>
          expectedUsdc = balance_of config (map el_event (take n G)) USDC) \<and>
        preMatches = (pre = expectedPre) \<and> usdcMatches = (usdc = expectedUsdc)"
proof (cases "isDeploymentConfigured config")
  case False
  then show ?thesis by (simp add: reconcileEscrow_def ret_def)
next
  case True
  let ?E = "\<lambda>a. expected_balance (dp_chainId config) a (db s)"
  obtain n where n: "upto_block G b \<le> n" "n \<le> length G" and E: "\<And>a. ?E a = Some (balance_of config (map el_event (take n G)) a)"
    using assms unfolding at_block_def reaches_def replayed_def ledger_def by blast
  let ?B = "balance_of config (map el_event (take n G))"
  obtain x s1 where m: "ensureEscrowManifest chain config safe s = (x, s1)" by fastforce
  have d: "db s1 = db s"
  proof (cases x)
    case (Inl e)
    show ?thesis using triple_Inl [OF keeps_manifest refl m [unfolded Inl]] .
  next
    case (Inr y)
    show ?thesis using triple_Inr [OF keeps_manifest refl m [unfolded Inr]] .
  qed
  obtain p w1 where p: "ec_balance chain (dp_preAddress config) (world s1) = (p, w1)" by fastforce
  obtain u w2 where u: "ec_balance chain (dp_usdcAddress config) w1 = (u, w2)" by fastforce
  note run = reconcileEscrow_def True m p u d E thenp_def bindp_def extern_def db_get_def ret_def
  show ?thesis
  proof (cases x)
    case (Inl e)
    then show ?thesis using d by (simp add: run)
  next
    case (Inr y)
    then show ?thesis using n by (cases p; cases u) (auto simp: run)
  qed
qed

end
