(* ===== verification/Escrow_Samples.thy ===== *)
theory Escrow_Samples
  imports Escrow_Passes
begin

section \<open>A sample escrow\<close>

text \<open>
  A deployment and chains on which the hypotheses of the theorems on the escrow hold: a goal with a contribution
  and a payout, and a contract that is paused.
\<close>

definition sample_deployment :: deployment where
  "sample_deployment = \<lparr>dp_chainId = 8, dp_escrowAddress = ''0xe'', dp_deploymentBlock = 1, dp_preAddress = ''0xa'',
     dp_usdcAddress = ''0xb'', dp_owner = ''0xc'', dp_treasury = ''0xd'', dp_confirmations = 1\<rparr>"

definition sample_logs :: "escrow_log list" where
  "sample_logs =
    [\<lparr>el_blockNumber = 1, el_blockHash = ''0x1'', el_transactionHash = ''0x7'', el_logIndex = 0,
       el_event = GoalCreated ''0x9'' ''0xc'' ''0xf'' 100 0 2000 [] [] []\<rparr>,
     \<lparr>el_blockNumber = 2, el_blockHash = ''0x2'', el_transactionHash = ''0x8'', el_logIndex = 0,
       el_event = ContributionReceived ''0x9'' ''0x5'' ''0xa'' 40 True\<rparr>,
     \<lparr>el_blockNumber = 2, el_blockHash = ''0x2'', el_transactionHash = ''0x8'', el_logIndex = 3,
       el_event = ExpenseReleased ''0x9'' ''0xa'' ''0xf'' 15\<rparr>]"

definition sample_contract :: escrow_contract where
  "sample_contract = \<lparr>ecn_chainId = 8, ecn_bytecode = Some ''0x60'', ecn_pre = ''0xa'', ecn_usdc = ''0xb'',
     ecn_treasury = ''0xd'', ecn_owner = ''0xc'', ecn_settlementLimit = 24, ecn_scheduleVersion = 1,
     ecn_minDelay = 604800, ecn_maxDelay = 5184000, ecn_ownerEvents = [(zeroAddress, ''0xc'')]\<rparr>"

definition answering :: "'a \<Rightarrow> nat \<Rightarrow> (escrow_error + 'a) \<times> nat" where
  "answering x w = (Inr x, Suc w)"

definition sample_chain :: "escrow_log list \<Rightarrow> nat escrow_chain" where
  "sample_chain ls = \<lparr>ec_head = answering 3, ec_block = (\<lambda>n. answering (''0x'' @ show_int n, 1000 * n)),
     ec_contract = answering sample_contract,
     ec_events = (\<lambda>first final. answering (filter (\<lambda>l. first \<le> el_blockNumber l \<and> el_blockNumber l \<le> final) ls)),
     ec_balance = (\<lambda>token. answering (if token = ''0xa'' then 25 else 0)),
     ec_fetch = (\<lambda>url w. (Inl Rpc_error, Suc w)), ec_getAddress = Some, ec_parseMetadata = Some\<rparr>"

definition sample_escrow_deps :: "nat escrow_deps" where
  "sample_escrow_deps = \<lparr>ed_uuid = (\<lambda>w. (Inr (show_int (int w)), Suc w)), ed_now = answering 5000, ed_nfkd = id, ed_lowercase = id\<rparr>"

definition no_escrow_rows :: escrow_db where
  "no_escrow_rows = \<lparr>users = [], sponsorProfiles = [], chainAuthorities = [], expenses = [], fundingGoals = [],
     goalPeriods = [], contributions = [], payouts = [], payoutIntents = [], payoutProposals = [], actionIntents = [],
     actionProposals = [], chainEvents = [], escrowStates = [], managerAssignments = [], managerIntents = [],
     managerProposals = [], safeAudits = []\<rparr>"

definition sample_escrow :: "(escrow_db, string option, nat) machine" where
  "sample_escrow = \<lparr>db = no_escrow_rows, mem = None, world = 0\<rparr>"

definition paused_logs :: "escrow_log list" where
  "paused_logs = [\<lparr>el_blockNumber = 1, el_blockHash = ''0x1'', el_transactionHash = ''0x7'', el_logIndex = 0, el_event = Paused\<rparr>]"

lemma sample_good: "filter good sample_logs = sample_logs" "filter good paused_logs = paused_logs"
  by (simp_all add: sample_logs_def paused_logs_def good_def)

lemma sample_canonicalI:
  assumes "filter good ls = ls" "contract_log ls" "sorted (map log_order ls)" "\<forall>l\<in>set ls. 1 \<le> el_blockNumber l"
  shows "canonical sample_deployment (sample_chain ls) ls"
proof -
  have "sort_key log_order (filter P ls) = filter P ls" for P
    using assms(3) by (simp add: sort_key_id_if_sorted sorted_filter)
  with assms show ?thesis
    by (simp add: canonical_def sample_chain_def answering_def sample_deployment_def)
qed

lemma sample_canonical:
  "canonical sample_deployment (sample_chain sample_logs) sample_logs"
  "canonical sample_deployment (sample_chain paused_logs) paused_logs"
proof -
  have "contract_log sample_logs" "contract_log paused_logs" by code_simp+
  then show "canonical sample_deployment (sample_chain sample_logs) sample_logs"
    "canonical sample_deployment (sample_chain paused_logs) paused_logs"
    by (intro sample_canonicalI; simp add: sample_good; simp add: sample_logs_def paused_logs_def log_order_def)+
qed

lemma sample_trusted:
  assumes "\<forall>l\<in>set G. 1 \<le> el_blockNumber l"
  shows "trusted sample_deployment chain G (db sample_escrow)"
proof -
  have e: "expected_balance K a no_escrow_rows = Some 0" for K a
    by (simp add: expected_balance_def executed_payouts_def expected_contributions_def no_escrow_rows_def)
  have l: "ledger sample_deployment (\<lambda>_. 0) {} ([], []) no_escrow_rows"
    unfolding ledger_def e by (simp add: logs_def no_escrow_rows_def)
  then have "replayed sample_deployment G [] 0 no_escrow_rows"
    by (simp add: replayed_def balance_of_def [abs_def] created_in_def own_rows_def no_escrow_rows_def)
  then have "reaches sample_deployment G [] 0 no_escrow_rows" by (auto simp: reaches_def)
  moreover have "upto_block G 0 = 0" using assms by (auto simp: upto_block_def filter_empty_conv)
  ultimately have "synced sample_deployment G no_escrow_rows"
    by (simp add: synced_def at_block_def checkpoint_block_def checkpoint_row_def keyed_def no_escrow_rows_def sample_deployment_def)
  then show ?thesis by (simp add: sample_escrow_def synced_trusted)
qed

lemma sample_trusted_logs:
  "trusted sample_deployment chain sample_logs (db sample_escrow)" "trusted sample_deployment chain paused_logs (db sample_escrow)"
  by (rule sample_trusted, simp add: sample_logs_def paused_logs_def)+

lemma sample_texts:
  "to_lower ''0x9'' = ''0x9''" "to_lower ''0x7'' = ''0x7''" "to_lower ''0x8'' = ''0x8''"
  "to_lower ''0xc'' = ''0xc''" "to_lower ''0xf'' = ''0xf''" "to_lower ''0xa'' = ''0xa''" "to_lower ''0x5'' = ''0x5''"
  "to_lower ''0xe'' = ''0xe''" "to_lower ''0xb'' = ''0xb''" "to_lower ''0xd'' = ''0xd''" "to_lower zeroAddress = zeroAddress"
  "slugFor \<lparr>ed_uuid = u, ed_now = n, ed_nfkd = id, ed_lowercase = id\<rparr> [] ''0x9'' = codes ''goal-9''" "utcMonthStart 2000000 = 0"
  by code_simp+

lemma sample_numbers: "0 \<le> n \<Longrightarrow> n < 10 \<Longrightarrow> show_int n = [digit_char (nat n)]" 
  by (simp add: show_int_def show_nat.simps)

lemmas sample_code = sample_texts sample_numbers prog_defs sample_chain_def sample_deployment_def answering_def sample_escrow_def
  sample_escrow_deps_def no_escrow_rows_def sample_contract_def digit_char_def

lemmas sample_handlers = apply_event_def claimChainEvent_def event_row_def same_event_def log_position_def
  on_goal_created_def dateFromChainTimestamp_def first_row_def find_goal_def Let_def write_goal_def
  require_goal_def on_contribution_def assetFor_def upsert_user_def insert_row_def on_released_def payout_candidates_def proposed_payout_def
  visibilityForContribution_def refreshGoalMetadata_def set_metadata_def execution_hash_def update_where_def

lemma sample_range: "fst (index_escrow_range (sample_chain sample_logs) sample_escrow_deps sample_deployment 1 2 0 (sample_escrow\<lparr>mem := m, world := 2\<rparr>)) = Inr 3"
  by (simp add: index_escrow_range_def index_log_def sample_logs_def sample_code sample_handlers goal_projection_def write_state_def)

lemma bind_then_ret: "bindp m ret = m"
  by (auto simp: bindp_def ret_def fun_eq_iff split: prod.splits sum.splits)

lemma index_ranges_last:
  assumes "start \<le> safeHead" and "safeHead < start + INDEXER_LOG_BLOCK_RANGE"
  shows "index_ranges chain deps config safeHead (Suc fuel) start processed = index_escrow_range chain deps config start safeHead processed"
proof -
  have "index_ranges chain deps config safeHead fuel (start + INDEXER_LOG_BLOCK_RANGE) = ret"
    using assms(2) by (simp add: index_ranges.simps fun_eq_iff)
  moreover have "(if start + INDEXER_LOG_BLOCK_RANGE - 1 > safeHead then safeHead else start + INDEXER_LOG_BLOCK_RANGE - 1) = safeHead"
    using assms(2) by simp
  ultimately show ?thesis
    using assms(1) by (simp only: index_ranges.simps [of _ _ _ _ "Suc fuel"] nat.case Let_def bind_then_ret not_less [symmetric] if_False)
qed

lemma sample_zero: "to_lower ''0x0000000000000000000000000000000000000000'' = ''0x0000000000000000000000000000000000000000''"
  by code_simp

lemma sample_verified: "ensureEscrowManifest (sample_chain ls) sample_deployment None sample_escrow = (Inr (), sample_escrow\<lparr>world := 1, mem := Some (deploymentStateKey sample_deployment)\<rparr>)" 
  by (simp add: ensureEscrowManifest_def isDeploymentConfigured_def sample_zero zeroAddress_def verifyEscrowManifest_def sample_code normalizedAddress_def assertAddress_def check_def truthy_def)

lemma sample_verified_at: "ensureEscrowManifest (sample_chain ls) sample_deployment None \<lparr>db = d, mem = None, world = w\<rparr> =
    (Inr (), \<lparr>db = d, mem = Some (deploymentStateKey sample_deployment), world = Suc w\<rparr>)"
  by (simp add: ensureEscrowManifest_def isDeploymentConfigured_def sample_zero zeroAddress_def verifyEscrowManifest_def sample_code normalizedAddress_def assertAddress_def check_def truthy_def)

lemma sample_reaches_ranges:
  "indexEscrow (sample_chain ls) sample_escrow_deps sample_deployment None sample_escrow =
   (case index_ranges (sample_chain ls) sample_escrow_deps sample_deployment 2 2 1 0
        (sample_escrow\<lparr>mem := Some (deploymentStateKey sample_deployment), world := 2\<rparr>) of
      (Inl e, s') \<Rightarrow> (Inl e, s') | (Inr processed, s') \<Rightarrow> (Inr (Escrow_synced processed (Some 2)), s'))"
proof -
  have "isDeploymentConfigured sample_deployment" by (simp add: isDeploymentConfigured_def sample_deployment_def zeroAddress_def)
  moreover have "ec_head (sample_chain ls) 1 = (Inr 3, 2)" by (simp add: sample_chain_def answering_def)
  moreover have "confirmedHead 3 (dp_deploymentBlock sample_deployment) (dp_confirmations sample_deployment) = Some 2" "dp_deploymentBlock sample_deployment = 1"
    by (simp_all add: confirmedHead_def sample_deployment_def)
  moreover have "escrowStates (db sample_escrow) = []" by (simp add: sample_escrow_def no_escrow_rows_def)
  ultimately show ?thesis
    by (simp add: indexEscrow_def sample_verified thenp_def bindp_def extern_def first_row_def db_get_def sync_from_def ret_def
        split: prod.split sum.split)
qed

lemma sample_sync: "fst (indexEscrow (sample_chain sample_logs) sample_escrow_deps sample_deployment None sample_escrow) = Inr (Escrow_synced 3 (Some 2))"
proof -
  let ?s = "sample_escrow\<lparr>mem := Some (deploymentStateKey sample_deployment), world := 2\<rparr>"
  obtain s where "index_escrow_range (sample_chain sample_logs) sample_escrow_deps sample_deployment 1 2 0 ?s = (Inr 3, s)"
    using sample_range by (metis prod.collapse)
  then have "index_ranges (sample_chain sample_logs) sample_escrow_deps sample_deployment 2 2 1 0 ?s = (Inr 3, s)"
    by (simp add: numeral_2_eq_2 index_ranges_last INDEXER_LOG_BLOCK_RANGE_def)
  then show ?thesis by (simp add: sample_reaches_ranges)
qed

lemma sample_paused:
  "fst (indexEscrow (sample_chain paused_logs) sample_escrow_deps sample_deployment None sample_escrow) = Inl (Unknown_goal [])"
proof -
  let ?s = "sample_escrow\<lparr>mem := Some (deploymentStateKey sample_deployment), world := 2\<rparr>"
  obtain s where "index_escrow_range (sample_chain paused_logs) sample_escrow_deps sample_deployment 1 2 0 ?s = (Inl (Unknown_goal []), s)"
  proof -
    have "fst (index_escrow_range (sample_chain paused_logs) sample_escrow_deps sample_deployment 1 2 0 ?s) = Inl (Unknown_goal [])"
      by (simp add: index_escrow_range_def index_log_def paused_logs_def sample_code sample_handlers)
    then show ?thesis using that by (metis prod.collapse)
  qed
  then have "index_ranges (sample_chain paused_logs) sample_escrow_deps sample_deployment 2 2 1 0 ?s = (Inl (Unknown_goal []), s)"
    by (simp add: numeral_2_eq_2 index_ranges_last INDEXER_LOG_BLOCK_RANGE_def)
  then show ?thesis by (simp add: sample_reaches_ranges)
qed

abbreviation escrow_run :: "(escrow_error + escrow_outcome) \<times> (escrow_db, string option, nat) machine" where
  "escrow_run \<equiv> indexEscrow (sample_chain sample_logs) sample_escrow_deps sample_deployment None sample_escrow"

lemma indexEscrow_projects_the_log_witness:
  "\<exists>s'. escrow_run = (Inr (Escrow_synced 3 (Some 2)), s') \<and>
     own_rows sample_deployment (db s') = map (event_row sample_deployment) sample_logs \<and>
     expected_balance 8 PRE (db s') = Some 25 \<and> expected_balance 8 USDC (db s') = Some 0"
proof -
  obtain s' where r: "escrow_run = (Inr (Escrow_synced 3 (Some 2)), s')"
    using sample_sync by (metis prod.collapse)
  have "upto_block sample_logs 2 = 3" "length sample_logs = 3" by (simp_all add: upto_block_def sample_logs_def)
  moreover have chain: "dp_chainId sample_deployment = 8" by (simp add: sample_deployment_def)
  moreover note indexEscrow_projects_the_log [OF sample_canonical(1), unfolded sample_good, OF sample_trusted_logs(1),
      where deps = sample_escrow_deps and safe = None, unfolded r chain]
  ultimately have "own_rows sample_deployment (db s') = map (event_row sample_deployment) sample_logs"
    "expected_balance 8 a (db s') = Some (balance_of sample_deployment (map el_event sample_logs) a)" for a
    by auto
  moreover have "balance_of sample_deployment (map el_event sample_logs) PRE = 25" "balance_of sample_deployment (map el_event sample_logs) USDC = 0"
    by code_simp+
  ultimately show ?thesis using r by auto
qed

lemma contract_wide_event_stops_indexing_witness:
  "fst (indexEscrow (sample_chain paused_logs) sample_escrow_deps sample_deployment None sample_escrow) = Inl (Unknown_goal []) \<and>
   (case fst (indexEscrow (sample_chain paused_logs) sample_escrow_deps sample_deployment None sample_escrow) of
      Inr (Escrow_synced processed (Some h)) \<Rightarrow> h < 1 | _ \<Rightarrow> True)"
proof -
  have "hd paused_logs \<in> set paused_logs" "contract_wide (el_event (hd paused_logs))" "el_blockNumber (hd paused_logs) = 1"
    by (simp_all add: paused_logs_def contract_wide_def)
  then show ?thesis
    using contract_wide_event_stops_indexing [OF sample_canonical(2), unfolded sample_good, OF sample_trusted_logs(2),
        of "hd paused_logs" sample_escrow_deps None] sample_paused
    by simp
qed

lemma reconcileEscrow_compares_the_log_witness:
  "\<exists>s'. reconcileEscrow (sample_chain sample_logs) sample_deployment None \<lparr>db = db (snd escrow_run), mem = None, world = 0\<rparr> =
     (Inr (Reconciled 25 25 True 0 0 True), s') \<and> db s' = db (snd escrow_run)"
proof -
  let ?r = "reconcileEscrow (sample_chain sample_logs) sample_deployment None \<lparr>db = db (snd escrow_run), mem = None, world = 0\<rparr>"
  have "escrow_run = (Inr (Escrow_synced 3 (Some 2)), snd escrow_run)" using sample_sync by (metis prod.collapse)
  from triple_Inr [OF indexEscrow_reported [OF sample_canonical(1), unfolded sample_good] sample_trusted_logs(1) this]
  have "at_block sample_deployment sample_logs 2 (db \<lparr>db = db (snd escrow_run), mem = None :: string option, world = 0 :: nat\<rparr>)"
    by (simp add: reported_def)
  note R = reconcileEscrow_compares_the_log [OF this, of "sample_chain sample_logs" None]
  have "upto_block sample_logs 2 = 3" "length sample_logs = 3" by (simp_all add: upto_block_def sample_logs_def)
  moreover have "isDeploymentConfigured sample_deployment"
    by (simp add: isDeploymentConfigured_def sample_deployment_def zeroAddress_def)
  moreover have "ec_balance (sample_chain sample_logs) (dp_preAddress sample_deployment) w = (Inr 25, Suc w)"
    "ec_balance (sample_chain sample_logs) (dp_usdcAddress sample_deployment) w = (Inr 0, Suc w)" for w
    by (simp_all add: sample_chain_def sample_deployment_def answering_def)
  moreover have "balance_of sample_deployment (map el_event sample_logs) PRE = 25" "balance_of sample_deployment (map el_event sample_logs) USDC = 0"
    by code_simp+
  moreover obtain x s' where r: "?r = (x, s')" by fastforce
  ultimately show ?thesis
    using R by (cases x) (auto simp: sample_verified_at split: reconciliation_outcome.splits dest: le_antisym)
qed

text \<open>
  Two indexed goals, of which the Safe has an intent for the first, with a contribution, a profile and two
  authorities of their chain, and the checkpoints of two chains.
\<close>

definition kept_goal :: funding_goal where
  "kept_goal = goal_projection sample_deployment (log_position (hd sample_logs) 1000) 1000000 ''0x9'' None [] 0 ''g'' ''0xc'' ''0xf''
     100 0 2000000 [] [] []"

definition kept_authority :: "int \<Rightarrow> authority" where
  "kept_authority chainId = \<lparr>au_chainId = chainId, au_contractAddress = ''0xe'', au_address = ''0xc'', au_kind = OWNER,
     au_blockNumber = 1, au_txHash = ''0x7'', au_logIndex = 0\<rparr>"

definition kept_rows :: escrow_db where
  "kept_rows = no_escrow_rows\<lparr>fundingGoals := [kept_goal, kept_goal\<lparr>g_id := ''h'', g_chainGoalId := ''0xa''\<rparr>],
     contributions := [\<lparr>co_id = ''c'', co_goalId = ''g'', co_userId = ''u'', co_chainId = 8, co_txHash = ''0x8'', co_logIndex = 0,
       co_blockNumber = 2, co_blockHash = ''0x2'', co_contributor = ''0x5'', co_asset = PRE, co_amount = 40,
       co_visibility = PUBLIC, co_confirmedAt = 2000000\<rparr>],
     payoutIntents := [\<lparr>pi_id = ''i'', pi_payoutId = ''p'', pi_goalId = ''g'', pi_chainId = 8, pi_safeAddress = ''0xc'', pi_delivery = SERVICE,
       pi_expiresAt = None, pi_consumedAt = None\<rparr>],
     sponsorProfiles := [\<lparr>prof_userId = ''u'', prof_active = True, prof_revision = 4, prof_displayName = None, prof_websiteUrl = None,
       prof_bio = None, prof_avatarUri = None, prof_avatarStatus = MD_NOT_SET, prof_defaultPublic = True, prof_hidden = False,
       prof_chainId = Some 8, prof_blockNumber = Some 2, prof_blockHash = Some ''0x2'', prof_txHash = Some ''0x8'', prof_logIndex = Some 1\<rparr>],
     chainAuthorities := [kept_authority 8, kept_authority 9],
     escrowStates := [\<lparr>es_key = ''8'', es_chainId = 8, es_lastBlockNumber = 2, es_lastBlockHash = ''0x2''\<rparr>,
       \<lparr>es_key = ''9'', es_chainId = 9, es_lastBlockNumber = 5, es_lastBlockHash = ''0x5''\<rparr>]\<rparr>"

lemma kept_ledger:
  "ledger sample_deployment (\<lambda>a. if a = PRE then 40 else 0) {''0x9''} (logs kept_rows) kept_rows"
proof -
  have e: "expected_balance 8 a kept_rows = Some (if a = PRE then 40 else 0)" for a
    by (auto simp: expected_balance_def executed_payouts_def expected_contributions_def kept_rows_def no_escrow_rows_def)
  have "dp_chainId sample_deployment = 8" by (simp add: sample_deployment_def)
  with e show ?thesis
    by (simp add: ledger_def kept_rows_def no_escrow_rows_def kept_goal_def goal_projection_def logs_def created_row_def)
qed


end
