(* ===== verification/Safe_Proposals.thy ===== *)
theory Safe_Proposals
  imports Escrow_Indexer
begin

section \<open>Safe proposals\<close>

text \<open>
  \<^verbatim>\<open>apps/worker/src/safe-proposals.ts\<close>, \<^verbatim>\<open>goal-action-sync.ts\<close> and \<^verbatim>\<open>packages/database/src/safe-payout-intents.ts\<close>:
  how the worker follows, in the Safe's transaction service, the proposals that pay a goal out or act on it.
  The service, its clock and the \<^verbatim>\<open>updatedAt\<close> column that orders the rows are arguments. Nonces are the numbers their
  texts denote.
\<close>

subsection \<open>The transaction service\<close>

record safe_transaction =
  st_safeTxHash :: string
  st_nonce :: int
  st_confirmations :: "nat option"
  st_confirmationsRequired :: int
  st_isExecuted :: bool
  st_isSuccessful :: "bool option"
  st_transactionHash :: "string option"
  st_executionDate :: "int option"

text \<open>\<open>sv_multisigTransactions\<close> is asked for the executed ones only, or for all, of a nonce.\<close>

record 'w safe_service =
  sv_now :: "'w \<Rightarrow> (escrow_error + int) \<times> 'w"
  sv_updatedAt :: "'w \<Rightarrow> (escrow_error + (string \<Rightarrow> int)) \<times> 'w"
  sv_safeNonce :: "'w \<Rightarrow> (escrow_error + int) \<times> 'w"
  sv_transaction :: "string \<Rightarrow> 'w \<Rightarrow> (escrow_error + safe_transaction) \<times> 'w"
  sv_multisigTransactions :: "bool \<Rightarrow> int \<Rightarrow> 'w \<Rightarrow> (escrow_error + safe_transaction list) \<times> 'w"

definition same_hash :: "string \<Rightarrow> safe_transaction \<Rightarrow> bool" where
  "same_hash safeTxHash t \<longleftrightarrow> to_lower (st_safeTxHash t) = to_lower safeTxHash"

definition safeTransactionsAtNonce :: "'w safe_service \<Rightarrow> int \<Rightarrow> bool \<Rightarrow> ('w, safe_transaction list option) escrow_prog" where
  "safeTransactionsAtNonce service nonce executedOnly = catchp
     (bindp (extern (sv_multisigTransactions service executedOnly nonce)) (\<lambda>history.
       ret (Some (filter (\<lambda>t. (\<not> executedOnly \<or> st_isExecuted t) \<and> st_nonce t = nonce) history))))
     (\<lambda>_. ret None)"

definition executedSafeTransactionsAtNonce :: "'w safe_service \<Rightarrow> int \<Rightarrow> ('w, safe_transaction list) escrow_prog" where
  "executedSafeTransactionsAtNonce service nonce = bindp (safeTransactionsAtNonce service nonce True)
     (\<lambda>found. ret (case found of None \<Rightarrow> [] | Some ts \<Rightarrow> ts))"

definition resolveSafeTransaction :: "'w safe_service \<Rightarrow> 'a safe_proposal_scheme \<Rightarrow> int \<Rightarrow> ('w, safe_transaction \<times> bool) escrow_prog" where
  "resolveSafeTransaction service proposal currentNonce =
     bindp (extern (sv_transaction service (pr_safeTxHash proposal))) (\<lambda>transaction.
       if \<not> st_isExecuted transaction \<and> pr_safeNonce proposal < currentNonce
       then bindp (executedSafeTransactionsAtNonce service (pr_safeNonce proposal)) (\<lambda>executed.
         case List.find (same_hash (pr_safeTxHash proposal)) executed of
           Some own \<Rightarrow> ret (own, False)
         | None \<Rightarrow> ret (transaction, executed \<noteq> []))
       else ret (transaction, False))"

definition recoveredSafeTransaction :: "safe_transaction list \<Rightarrow> string \<Rightarrow> safe_transaction option \<times> bool" where
  "recoveredSafeTransaction transactions safeTxHash =
     (let ownExecution = List.find (\<lambda>t. st_isExecuted t \<and> same_hash safeTxHash t) transactions;
          nonceWasReplaced = (ownExecution = None \<and> list_ex (\<lambda>t. st_isExecuted t \<and> \<not> same_hash safeTxHash t) transactions)
      in (case ownExecution of Some t \<Rightarrow> Some t
            | None \<Rightarrow> if \<not> nonceWasReplaced then List.find (same_hash safeTxHash) transactions else None,
          nonceWasReplaced))"

subsection \<open>Status of a proposal\<close>

definition SAFE_SUBMITTING_RECOVERY_DELAY_MS :: int where "SAFE_SUBMITTING_RECOVERY_DELAY_MS = 15 * 60000"

definition pending :: "proposal_status \<Rightarrow> bool" where
  "pending status \<longleftrightarrow> status \<in> set [SP_SUBMITTING, SP_AWAITING_CONFIRMATIONS, SP_READY_TO_EXECUTE]"

fun statusCode :: "escrow_error \<Rightarrow> int option" where
  "statusCode (Service_error code) = code"
| "statusCode _ = None"

definition shouldRecoverMissingSafeSubmission :: "'a safe_proposal_scheme \<Rightarrow> escrow_error \<Rightarrow> int \<Rightarrow> bool" where
  "shouldRecoverMissingSafeSubmission proposal error now \<longleftrightarrow> pr_status proposal = SP_SUBMITTING \<and>
     statusCode error = Some 404 \<and> now - pr_createdAt proposal \<ge> SAFE_SUBMITTING_RECOVERY_DELAY_MS"

definition REPLACED :: string where "REPLACED = ''A different executed Safe transaction used this nonce''"
definition NONCE_ADVANCED :: string where "NONCE_ADVANCED = ''Safe nonce advanced; awaiting verified execution or replacement''"
definition NOT_SUBMITTED :: string where "NOT_SUBMITTED = ''The signed proposal did not reach the Safe Transaction Service''"
definition EXECUTION_FAILED :: string where "EXECUTION_FAILED = ''Safe transaction execution failed''"
definition NO_RESULT :: string where "NO_RESULT = ''Safe execution result is not available yet''"
definition UNAVAILABLE :: string where "UNAVAILABLE = ''Safe status is temporarily unavailable''"

definition classifyMissingSafeSubmission :: "int \<Rightarrow> int \<Rightarrow> bool \<Rightarrow> proposal_status \<times> string" where
  "classifyMissingSafeSubmission proposalNonce currentNonce nonceWasReplaced =
     (if nonceWasReplaced then (SP_STALE, REPLACED)
      else if proposalNonce < currentNonce then (SP_SUBMITTING, NONCE_ADVANCED)
      else (SP_FAILED, NOT_SUBMITTED))"

record classified =
  cl_confirmations :: int
  cl_threshold :: int
  cl_status :: proposal_status
  cl_failureReason :: "string option"
  cl_executionTxHash :: "string option"
  cl_executedAt :: "int option"

definition classifySafeProposal :: "safe_transaction \<Rightarrow> int \<Rightarrow> int \<Rightarrow> int \<Rightarrow> int \<Rightarrow> bool \<Rightarrow> classified" where
  "classifySafeProposal transaction proposalNonce currentNonce fallbackThreshold now nonceWasReplaced =
     (let confirmations = (case st_confirmations transaction of None \<Rightarrow> 0 | Some n \<Rightarrow> int n);
          threshold = (if st_confirmationsRequired transaction = 0 then fallbackThreshold
                       else st_confirmationsRequired transaction);
          status = (if confirmations \<ge> threshold then SP_READY_TO_EXECUTE else SP_AWAITING_CONFIRMATIONS);
          executedAt = (case st_executionDate transaction of None \<Rightarrow> now | Some t \<Rightarrow> t);
          result = \<lparr>cl_confirmations = confirmations, cl_threshold = threshold, cl_status = status,
            cl_failureReason = None, cl_executionTxHash = None, cl_executedAt = None\<rparr>
      in if st_isExecuted transaction
         then let result = result\<lparr>cl_executionTxHash := map_option to_lower (st_transactionHash transaction)\<rparr>
              in (case st_isSuccessful transaction of
                Some True \<Rightarrow> result\<lparr>cl_status := SP_EXECUTED, cl_executedAt := Some executedAt\<rparr>
              | Some False \<Rightarrow> result\<lparr>cl_status := SP_FAILED, cl_failureReason := Some EXECUTION_FAILED,
                  cl_executedAt := Some executedAt\<rparr>
              | None \<Rightarrow> result\<lparr>cl_failureReason := Some NO_RESULT\<rparr>)
         else if nonceWasReplaced then result\<lparr>cl_status := SP_STALE, cl_failureReason := Some REPLACED\<rparr>
         else if proposalNonce < currentNonce then result\<lparr>cl_failureReason := Some NONCE_ADVANCED\<rparr>
         else result)"

text \<open>The columns that an update of a proposal writes.\<close>

definition classified_data :: "classified \<Rightarrow> int \<Rightarrow> 'a safe_proposal_scheme \<Rightarrow> 'a safe_proposal_scheme" where
  "classified_data c now p = p\<lparr>pr_confirmations := cl_confirmations c, pr_threshold := cl_threshold c, pr_status := cl_status c,
     pr_failureReason := cl_failureReason c, pr_executionTxHash := cl_executionTxHash c, pr_executedAt := cl_executedAt c,
     pr_lastCheckedAt := Some now\<rparr>"

definition missing_data :: "proposal_status \<times> string \<Rightarrow> int \<Rightarrow> 'a safe_proposal_scheme \<Rightarrow> 'a safe_proposal_scheme" where
  "missing_data m now p = p\<lparr>pr_status := fst m, pr_lastCheckedAt := Some now, pr_failureReason := Some (snd m)\<rparr>"

definition unavailable_data :: "int \<Rightarrow> 'a safe_proposal_scheme \<Rightarrow> 'a safe_proposal_scheme" where
  "unavailable_data now p = p\<lparr>pr_lastCheckedAt := Some now, pr_failureReason := Some UNAVAILABLE\<rparr>"

text \<open>\<^verbatim>\<open>updateMany\<close> of the row with an id while it is pending: the rows and how many changed.\<close>

definition update_pending :: "string \<Rightarrow> ('a safe_proposal_scheme \<Rightarrow> 'a safe_proposal_scheme) \<Rightarrow>
    'a safe_proposal_scheme list \<Rightarrow> 'a safe_proposal_scheme list" where
  "update_pending proposalId data = update_where (\<lambda>p. pr_id p = proposalId \<and> pending (pr_status p)) data"

definition count_pending :: "string \<Rightarrow> 'a safe_proposal_scheme list \<Rightarrow> nat" where
  "count_pending proposalId rows = length (filter (\<lambda>p. pr_id p = proposalId \<and> pending (pr_status p)) rows)"

subsection \<open>Payouts\<close>

definition applyPendingSafeProposalUpdate :: "string \<Rightarrow> string \<Rightarrow> (safe_proposal \<Rightarrow> safe_proposal) \<Rightarrow> bool \<Rightarrow>
    ('w, bool) escrow_prog" where
  "applyPendingSafeProposalUpdate proposalId payoutId data failPayout =
     bindp (db_get (\<lambda>d. count_pending proposalId (payoutProposals d))) (\<lambda>count.
     thenp (db_mod (payoutProposals_update (update_pending proposalId data)))
     (if count \<noteq> 1 then ret False
      else thenp (whenp failPayout (db_mod (payouts_update (update_where
          (\<lambda>p. po_id p = payoutId \<and> po_status p = PO_PROPOSED) (po_status_update (\<lambda>_. PO_FAILED))))))
        (ret True)))"

definition confirmed_projection :: "payout \<Rightarrow> string \<Rightarrow> escrow_db \<Rightarrow> payout \<Rightarrow> bool" where
  "confirmed_projection payout normalizedHash d q \<longleftrightarrow> po_id q \<noteq> po_id payout \<and> po_goalId q = po_goalId payout \<and>
     po_asset q = po_asset payout \<and> po_kind q = po_kind payout \<and> po_amountRaw q = po_amountRaw payout \<and>
     po_recipientAddress q = po_recipientAddress payout \<and> po_chainTxHash q = Some normalizedHash \<and>
     po_status q = PO_EXECUTED \<and> intent_of d q = None"

definition reconcileConfirmedSafePayout :: "payout \<Rightarrow> string \<Rightarrow> ('w, bool) escrow_prog" where
  "reconcileConfirmedSafePayout payout executionTxHash =
     (let normalizedHash = to_lower executionTxHash in
      bindp (db_get (\<lambda>d. List.find (confirmed_projection payout normalizedHash d) (payouts d))) (\<lambda>confirmedProjection.
      case confirmedProjection of
        None \<Rightarrow> ret False
      | Some confirmedProjection \<Rightarrow>
          let P = (\<lambda>p. po_id p = po_id payout \<and> po_status p = PO_PROPOSED) in
          bindp (db_get (\<lambda>d. length (filter P (payouts d)))) (\<lambda>promoted.
          thenp (db_mod (payouts_update (update_where P (\<lambda>p. p\<lparr>po_status := PO_EXECUTED, po_chainTxHash := Some normalizedHash,
              po_recipientAddress := po_recipientAddress confirmedProjection,
              po_executedAt := po_executedAt confirmedProjection\<rparr>))))
          (if promoted \<noteq> 1 then ret False
           else thenp (db_mod (payouts_update (filter (\<lambda>p. po_id p \<noteq> po_id confirmedProjection)))) (ret True)))))"

subsection \<open>Expiry of prepared payouts\<close>

definition payout_of :: "escrow_db \<Rightarrow> payout_intent \<Rightarrow> payout option" where
  "payout_of d i = List.find (\<lambda>p. po_id p = pi_payoutId i) (payouts d)"

definition expirable :: "int \<Rightarrow> escrow_db \<Rightarrow> payout_intent \<Rightarrow> bool" where
  "expirable now d i \<longleftrightarrow> pi_delivery i = SERVICE \<and> pi_consumedAt i = None \<and>
     (case pi_expiresAt i of None \<Rightarrow> False | Some t \<Rightarrow> t \<le> now) \<and>
     \<not> (\<exists>p\<in>set (payoutProposals d). pr_intentId p = pi_id i) \<and>
     (case payout_of d i of None \<Rightarrow> False | Some p \<Rightarrow> po_status p = PO_PROPOSED)"

definition claim_expired :: "int \<Rightarrow> payout_intent \<Rightarrow> string list \<Rightarrow> ('w, string list) escrow_prog" where
  "claim_expired now candidate payoutIds =
     bindp (db_get (\<lambda>d. length (filter (\<lambda>i. pi_id i = pi_id candidate \<and> expirable now d i) (payoutIntents d)))) (\<lambda>claimed.
     thenp (db_mod (\<lambda>d. payoutIntents_update (update_where (\<lambda>i. pi_id i = pi_id candidate \<and> expirable now d i)
         (pi_consumedAt_update (\<lambda>_. Some now))) d))
       (ret (if claimed = 1 then payoutIds @ [pi_payoutId candidate] else payoutIds)))"

definition expireUnconsumedSafePayoutIntents :: "int \<Rightarrow> string \<Rightarrow> int \<Rightarrow> ('w, nat) escrow_prog" where
  "expireUnconsumedSafePayoutIntents chainId safeAddress now =
     bindp (db_get (\<lambda>d. filter (\<lambda>i. pi_chainId i = chainId \<and> pi_safeAddress i = to_lower safeAddress \<and> expirable now d i)
       (payoutIntents d))) (\<lambda>candidates.
     if candidates = [] then ret 0
     else transactional (bindp (foldp (claim_expired now) candidates []) (\<lambda>payoutIds.
       thenp (whenp (payoutIds \<noteq> []) (db_mod (payouts_update (update_where
           (\<lambda>p. po_id p \<in> set payoutIds \<and> po_status p = PO_PROPOSED) (po_status_update (\<lambda>_. PO_FAILED))))))
         (ret (length payoutIds)))))"

subsection \<open>Following the payouts\<close>

text \<open>The proposals with their payouts; the hundred that were changed longest ago.\<close>

definition payout_rows :: "(safe_proposal \<Rightarrow> payout_intent \<Rightarrow> payout \<Rightarrow> bool) \<Rightarrow> escrow_db \<Rightarrow> (safe_proposal \<times> payout) list" where
  "payout_rows Q d = List.map_filter (\<lambda>p. case payout_intent_of d p of None \<Rightarrow> None
     | Some i \<Rightarrow> (case payout_of d i of None \<Rightarrow> None | Some x \<Rightarrow> if Q p i x then Some (p, x) else None)) (payoutProposals d)"

definition oldest :: "'w safe_service \<Rightarrow> ('r \<Rightarrow> string) \<Rightarrow> (escrow_db \<Rightarrow> 'r list) \<Rightarrow> ('w, 'r list) escrow_prog" where
  "oldest service key rows = bindp (extern (sv_updatedAt service)) (\<lambda>updatedAt.
     db_get (\<lambda>d. take 100 (sort_key (\<lambda>r. updatedAt (key r)) (rows d))))"

definition settle_proposal :: "safe_proposal \<Rightarrow> payout \<Rightarrow> classified \<Rightarrow> int \<Rightarrow> bool \<Rightarrow> ('w, bool) escrow_prog" where
  "settle_proposal proposal payout next now failPayout = transactional
     (bindp (applyPendingSafeProposalUpdate (pr_id proposal) (po_id payout) (classified_data next now) failPayout)
       (\<lambda>proposalChanged.
        thenp (whenp (proposalChanged \<and> cl_status next = SP_EXECUTED \<and> truthy (cl_executionTxHash next))
            (bindp (reconcileConfirmedSafePayout payout (the (cl_executionTxHash next))) (\<lambda>_. ret ())))
          (ret proposalChanged)))"

definition mark_unavailable :: "safe_proposal \<Rightarrow> int \<Rightarrow> ('w, unit) escrow_prog" where
  "mark_unavailable proposal now = db_mod (payoutProposals_update (update_pending (pr_id proposal) (unavailable_data now)))"

definition count_if :: "bool \<Rightarrow> nat \<Rightarrow> nat" where "count_if changed updated = (if changed then Suc updated else updated)"

definition check_payout_proposal :: "'w safe_service \<Rightarrow> int \<Rightarrow> int \<Rightarrow> safe_proposal \<times> payout \<Rightarrow> nat \<Rightarrow> ('w, nat) escrow_prog" where
  "check_payout_proposal service currentNonce now = (\<lambda>(proposal, payout) updated. catchp
     (bindp (resolveSafeTransaction service proposal currentNonce) (\<lambda>(transaction, nonceWasReplaced).
       let next = classifySafeProposal transaction (pr_safeNonce proposal) currentNonce (pr_threshold proposal) now nonceWasReplaced
       in bindp (settle_proposal proposal payout next now (cl_status next = SP_FAILED \<or> cl_status next = SP_STALE)) (\<lambda>changed.
         ret (count_if changed updated))))
     (\<lambda>error.
       if shouldRecoverMissingSafeSubmission proposal error now
       then bindp (safeTransactionsAtNonce service (pr_safeNonce proposal) False) (\<lambda>transactionsAtNonce. case transactionsAtNonce of
           None \<Rightarrow> thenp (mark_unavailable proposal now) (ret updated)
         | Some transactions \<Rightarrow> (case recoveredSafeTransaction transactions (pr_safeTxHash proposal) of
             (Some own, _) \<Rightarrow>
               let next = classifySafeProposal own (pr_safeNonce proposal) currentNonce (pr_threshold proposal) now False
               in bindp (settle_proposal proposal payout next now (cl_status next = SP_FAILED)) (\<lambda>changed.
                 ret (count_if changed updated))
           | (None, nonceWasReplaced) \<Rightarrow>
               let missing = classifyMissingSafeSubmission (pr_safeNonce proposal) currentNonce nonceWasReplaced
               in bindp (transactional (applyPendingSafeProposalUpdate (pr_id proposal) (po_id payout) (missing_data missing now)
                   (fst missing = SP_FAILED \<or> fst missing = SP_STALE))) (\<lambda>changed. ret (count_if changed updated))))
       else thenp (mark_unavailable proposal now) (ret updated)))"

datatype safe_sync = Safe_disabled | Safe_synced nat nat nat nat

definition reconcile_executed :: "safe_proposal \<times> payout \<Rightarrow> nat \<Rightarrow> ('w, nat) escrow_prog" where
  "reconcile_executed = (\<lambda>(proposal, payout) reconciled.
     bindp (transactional (reconcileConfirmedSafePayout payout (the (pr_executionTxHash proposal)))) (\<lambda>done.
       ret (count_if done reconciled)))"

text \<open>\<open>enabled\<close>: a Safe is configured, with a key or an address of the service.\<close>

definition syncSafePayoutProposals :: "'w safe_service \<Rightarrow> deployment \<Rightarrow> string option \<Rightarrow> bool \<Rightarrow> ('w, safe_sync) escrow_prog" where
  "syncSafePayoutProposals service config safe enabled = (if \<not> (truthy safe \<and> enabled) then ret Safe_disabled else
     let safeAddress = to_lower (the safe);
         ours = (\<lambda>i. pi_chainId i = dp_chainId config \<and> pi_safeAddress i = safeAddress) in
     bindp (extern (sv_now service)) (\<lambda>now.
     bindp (expireUnconsumedSafePayoutIntents (dp_chainId config) (the safe) now) (\<lambda>expired.
     bindp (oldest service (\<lambda>(p, x). pr_id p) (payout_rows (\<lambda>p i x. pr_status p = SP_EXECUTED \<and>
       pr_executionTxHash p \<noteq> None \<and> ours i \<and> po_status x = PO_PROPOSED))) (\<lambda>unresolved.
     bindp (foldp reconcile_executed unresolved 0) (\<lambda>reconciled.
     bindp (oldest service (\<lambda>(p, x). pr_id p) (payout_rows (\<lambda>p i x. pending (pr_status p) \<and> ours i))) (\<lambda>rows.
     if rows = [] then ret (Safe_synced 0 0 reconciled expired)
     else bindp (extern (sv_safeNonce service)) (\<lambda>currentNonce.
       bindp (foldp (check_payout_proposal service currentNonce now) rows 0) (\<lambda>updated.
       ret (Safe_synced (length rows) updated reconciled expired)))))))))"

subsection \<open>Goal actions\<close>

definition applyStatusUpdate :: "safe_proposal \<Rightarrow> (safe_proposal \<Rightarrow> safe_proposal) \<Rightarrow> proposal_status option \<Rightarrow>
    string option \<Rightarrow> string option \<Rightarrow> ('w, nat) escrow_prog" where
  "applyStatusUpdate proposal data status executionTxHash failureReason = transactional
     (bindp (db_get (\<lambda>d. count_pending (pr_id proposal) (actionProposals d))) (\<lambda>changed.
      thenp (db_mod (actionProposals_update (update_pending (pr_id proposal) data)))
      (thenp (whenp (changed \<noteq> 0) (db_mod (safeAudits_update (\<lambda>rows. rows @ [\<lparr>sa_entityType = ''SafeGoalActionProposal'',
         sa_entityId = pr_id proposal, sa_action = ''SYNC_SAFE_GOAL_ACTION_STATUS'', sa_before = pr_status proposal,
         sa_after = (case status of None \<Rightarrow> pr_status proposal | Some x \<Rightarrow> x), sa_executionTxHash = executionTxHash,
         sa_failureReason = failureReason\<rparr>]))))
       (ret changed))))"

definition apply_classified :: "safe_proposal \<Rightarrow> classified \<Rightarrow> int \<Rightarrow> ('w, nat) escrow_prog" where
  "apply_classified proposal next now = applyStatusUpdate proposal (classified_data next now) (Some (cl_status next))
     (cl_executionTxHash next) (cl_failureReason next)"

definition check_action_proposal :: "'w safe_service \<Rightarrow> int \<Rightarrow> int \<Rightarrow> safe_proposal \<Rightarrow> nat \<Rightarrow> ('w, nat) escrow_prog" where
  "check_action_proposal service currentNonce now proposal updated = catchp
     (bindp (resolveSafeTransaction service proposal currentNonce) (\<lambda>(transaction, nonceWasReplaced).
       bindp (apply_classified proposal (classifySafeProposal transaction (pr_safeNonce proposal) currentNonce
         (pr_threshold proposal) now nonceWasReplaced) now) (\<lambda>changed. ret (updated + changed))))
     (\<lambda>error.
       let unavailable = thenp (bindp (applyStatusUpdate proposal (unavailable_data now) None None (Some UNAVAILABLE)) (\<lambda>_. ret ()))
             (ret updated) in
       if shouldRecoverMissingSafeSubmission proposal error now
       then bindp (safeTransactionsAtNonce service (pr_safeNonce proposal) False) (\<lambda>atNonce. case atNonce of
           None \<Rightarrow> unavailable
         | Some transactions \<Rightarrow> (case List.find (same_hash (pr_safeTxHash proposal)) transactions of
             Some own \<Rightarrow> bindp (apply_classified proposal (classifySafeProposal own (pr_safeNonce proposal) currentNonce
               (pr_threshold proposal) now False) now) (\<lambda>changed. ret (updated + changed))
           | None \<Rightarrow>
               let missing = classifyMissingSafeSubmission (pr_safeNonce proposal) currentNonce
                     (list_ex (\<lambda>t. st_isExecuted t \<and> \<not> same_hash (pr_safeTxHash proposal) t) transactions)
               in bindp (applyStatusUpdate proposal (missing_data missing now) (Some (fst missing)) None (Some (snd missing)))
                 (\<lambda>changed. ret (updated + changed))))
       else unavailable)"

definition syncSafeGoalActionProposals :: "'w safe_service \<Rightarrow> deployment \<Rightarrow> string option \<Rightarrow> bool \<Rightarrow> ('w, safe_sync) escrow_prog" where
  "syncSafeGoalActionProposals service config safe enabled = (if \<not> (truthy safe \<and> enabled) then ret Safe_disabled else
     bindp (oldest service pr_id (\<lambda>d. filter (\<lambda>p. pending (pr_status p) \<and> (case action_intent_of d p of None \<Rightarrow> False
       | Some i \<Rightarrow> ai_chainId i = dp_chainId config \<and> ai_safeAddress i = to_lower (the safe))) (actionProposals d))) (\<lambda>rows.
     if rows = [] then ret (Safe_synced 0 0 0 0)
     else bindp (extern (sv_safeNonce service)) (\<lambda>currentNonce.
       bindp (extern (sv_now service)) (\<lambda>now.
       bindp (foldp (check_action_proposal service currentNonce now) rows 0) (\<lambda>updated.
       ret (Safe_synced (length rows) updated 0 0))))))"

end
