(* ===== verification/Goal_Managers.thy ===== *)
theory Goal_Managers
  imports Safe_Proposals
begin

section \<open>Goal managers\<close>

text \<open>
  \<^verbatim>\<open>packages/database/src/goal-manager-assignments.ts\<close> and \<^verbatim>\<open>apps/worker/src/goal-manager-sync.ts\<close>: who is meant to
  manage goals (the owners of the Safe and those assigned by hand), and the proposals that bring the contract
  there. The owners of the Safe and the hash of a list of addresses are arguments.
\<close>

subsection \<open>Assignments\<close>

definition normalizedAddresses :: "string list \<Rightarrow> string list" where
  "normalizedAddresses addresses = sort (remdups (map to_lower addresses))"

definition in_scope :: "int \<Rightarrow> string \<Rightarrow> manager_assignment \<Rightarrow> bool" where
  "in_scope chainId contract m \<longleftrightarrow> ma_chainId m = chainId \<and> ma_contractAddress m = contract"

definition assignment_key :: "int \<Rightarrow> string \<Rightarrow> string \<Rightarrow> assignment_source \<Rightarrow> manager_assignment \<Rightarrow> bool" where
  "assignment_key chainId contract address source m \<longleftrightarrow> in_scope chainId contract m \<and> ma_address m = address \<and> ma_source m = source"

text \<open>\<^verbatim>\<open>upsert\<close> by the key, with what it does to a row that is there.\<close>

definition upsert_assignment :: "int \<Rightarrow> string \<Rightarrow> assignment_source \<Rightarrow> (manager_assignment \<Rightarrow> manager_assignment) \<Rightarrow> string \<Rightarrow>
    manager_assignment list \<Rightarrow> manager_assignment list" where
  "upsert_assignment chainId contract source change address rows =
     (if \<exists>m\<in>set rows. assignment_key chainId contract address source m
      then update_where (assignment_key chainId contract address source) change rows
      else rows @ [\<lparr>ma_chainId = chainId, ma_contractAddress = contract, ma_address = address, ma_source = source,
        ma_desiredEnabled = True\<rparr>])"

definition scope_managers :: "int \<Rightarrow> string \<Rightarrow> escrow_db \<Rightarrow> string list" where
  "scope_managers chainId contract d = map au_address (filter (\<lambda>a. au_chainId a = chainId \<and>
     au_contractAddress a = contract \<and> au_kind a = GOAL_MANAGER) (chainAuthorities d))"

definition reconcileSafeOwnerGoalManagerAssignments :: "int \<Rightarrow> string \<Rightarrow> string list \<Rightarrow> ('w, nat \<times> nat) escrow_prog" where
  "reconcileSafeOwnerGoalManagerAssignments chainId escrowAddress owners =
     (let contract = to_lower escrowAddress; safeOwners = normalizedAddresses owners in
      bindp (db_get (scope_managers chainId contract)) (\<lambda>actualManagers.
      bindp (db_get (\<lambda>d. filter (in_scope chainId contract) (managerAssignments d))) (\<lambda>existingAssignments.
      let assignedAddresses = map (\<lambda>m. to_lower (ma_address m)) existingAssignments in
      thenp (db_mod (managerAssignments_update (update_where (\<lambda>m. in_scope chainId contract m \<and> ma_source m = SAFE_OWNER \<and>
          ma_desiredEnabled m \<and> ma_address m \<notin> set safeOwners) (ma_desiredEnabled_update (\<lambda>_. False)))))
      (thenp (forp (\<lambda>address. db_mod (managerAssignments_update (upsert_assignment chainId contract SAFE_OWNER
          (ma_desiredEnabled_update (\<lambda>_. True)) address))) safeOwners)
      (bindp (foldp (\<lambda>manager preserved.
           let address = to_lower manager in
           if address \<in> set safeOwners \<or> address \<in> set assignedAddresses then ret preserved
           else thenp (db_mod (managerAssignments_update (upsert_assignment chainId contract MANUAL_ASSIGNMENT id address)))
             (ret (Suc preserved))) actualManagers 0)
       (\<lambda>preserved. ret (length safeOwners, preserved)))))))"

definition add_new :: "string \<Rightarrow> string list \<Rightarrow> string list" where
  "add_new x xs = (if x \<in> set xs then xs else xs @ [x])"

definition desiredGoalManagerSet :: "string list \<Rightarrow> string list \<Rightarrow> manager_assignment list \<Rightarrow> string list" where
  "desiredGoalManagerSet safeOwners actualManagers assignments =
     (let desired = normalizedAddresses safeOwners;
          addressesWithPolicy = map (\<lambda>m. to_lower (ma_address m)) assignments;
          desired = fold (\<lambda>m. if ma_desiredEnabled m then add_new (to_lower (ma_address m)) else id) assignments desired
      in fold (\<lambda>a. if to_lower a \<notin> set addressesWithPolicy then add_new (to_lower a) else id) actualManagers desired)"

subsection \<open>Synchronisation\<close>

record 'w manager_deps =
  gm_owners :: "'w \<Rightarrow> (escrow_error + string list) \<times> 'w"
  gm_hash :: "string list \<Rightarrow> string"

definition desiredStateHash :: "'w manager_deps \<Rightarrow> string list \<Rightarrow> string" where
  "desiredStateHash deps addresses = gm_hash deps (sort (remdups (map to_lower addresses)))"

definition currentSafeOwners :: "'w manager_deps \<Rightarrow> string option \<Rightarrow> ('w, string list) escrow_prog" where
  "currentSafeOwners deps safe = (if \<not> truthy safe then ret [] else extern (gm_owners deps))"

definition syncSafeGoalManagerPolicy :: "'w manager_deps \<Rightarrow> deployment \<Rightarrow> string option \<Rightarrow> ('w, (nat \<times> nat) option) escrow_prog" where
  "syncSafeGoalManagerPolicy deps config safe = (if \<not> truthy safe then ret None
     else bindp (currentSafeOwners deps safe) (\<lambda>safeOwners.
       bindp (reconcileSafeOwnerGoalManagerAssignments (dp_chainId config) (dp_escrowAddress config) safeOwners)
         (\<lambda>result. ret (Some result))))"

definition currentDesiredHash :: "'w manager_deps \<Rightarrow> deployment \<Rightarrow> string list \<Rightarrow> ('w, string) escrow_prog" where
  "currentDesiredHash deps config safeOwners = (let contract = to_lower (dp_escrowAddress config) in
     bindp (db_get (\<lambda>d. (scope_managers (dp_chainId config) contract d,
         filter (in_scope (dp_chainId config) contract) (managerAssignments d)))) (\<lambda>(actual, assignments).
     ret (desiredStateHash deps (desiredGoalManagerSet safeOwners actual assignments))))"

definition changedPolicyWarning :: string where
  "changedPolicyWarning = ''Safe owners or manual goal manager settings changed. Cancel or replace this proposal at its current nonce in Safe before preparing another sync.''"

definition manager_intent_of :: "escrow_db \<Rightarrow> manager_proposal \<Rightarrow> manager_intent option" where
  "manager_intent_of d p = List.find (\<lambda>i. mi_id i = pr_intentId p) (managerIntents d)"

text \<open>A terminal status frees the active key; a changed policy replaces the reason of any other.\<close>

definition manager_data :: "bool \<Rightarrow> bool \<Rightarrow> (manager_proposal \<Rightarrow> manager_proposal) \<Rightarrow> manager_proposal \<Rightarrow> manager_proposal" where
  "manager_data policyChanged terminal data p =
     (let p = data p;
          p = (if terminal then p\<lparr>pr_activeKey := None\<rparr> else p)
      in if policyChanged \<and> \<not> terminal then p\<lparr>pr_failureReason := Some changedPolicyWarning\<rparr> else p)"

definition terminal :: "proposal_status \<Rightarrow> bool" where
  "terminal status \<longleftrightarrow> status \<in> set [SP_EXECUTED, SP_STALE, SP_FAILED]"

definition update_manager_proposal :: "manager_proposal \<Rightarrow> (manager_proposal \<Rightarrow> manager_proposal) \<Rightarrow> ('w, nat) escrow_prog" where
  "update_manager_proposal proposal data = bindp (db_get (\<lambda>d. count_pending (pr_id proposal) (managerProposals d))) (\<lambda>count.
     thenp (db_mod (managerProposals_update (update_pending (pr_id proposal) data))) (ret count))"

definition check_manager_proposal :: "'w safe_service \<Rightarrow> int \<Rightarrow> int \<Rightarrow> string \<Rightarrow> manager_proposal \<times> manager_intent \<Rightarrow> nat \<Rightarrow>
    ('w, nat) escrow_prog" where
  "check_manager_proposal service currentNonce now desiredHash = (\<lambda>(proposal, intent) updated.
     let policyChanged = mi_desiredStateHash intent \<noteq> desiredHash;
         apply_next = (\<lambda>next. bindp (update_manager_proposal proposal
           (manager_data policyChanged (terminal (cl_status next)) (classified_data next now))) (\<lambda>changed. ret (updated + changed)));
         unavailable = bindp (update_manager_proposal proposal (manager_data policyChanged False (unavailable_data now)))
           (\<lambda>_. ret updated)
     in catchp
       (bindp (resolveSafeTransaction service proposal currentNonce) (\<lambda>(transaction, nonceWasReplaced).
         apply_next (classifySafeProposal transaction (pr_safeNonce proposal) currentNonce (pr_threshold proposal) now nonceWasReplaced)))
       (\<lambda>error.
         if shouldRecoverMissingSafeSubmission proposal error now
         then bindp (safeTransactionsAtNonce service (pr_safeNonce proposal) False) (\<lambda>transactionsAtNonce. case transactionsAtNonce of
             None \<Rightarrow> unavailable
           | Some transactions \<Rightarrow> (case recoveredSafeTransaction transactions (pr_safeTxHash proposal) of
               (Some own, _) \<Rightarrow> apply_next (classifySafeProposal own (pr_safeNonce proposal) currentNonce (pr_threshold proposal) now False)
             | (None, nonceWasReplaced) \<Rightarrow>
                 let missing = classifyMissingSafeSubmission (pr_safeNonce proposal) currentNonce nonceWasReplaced
                 in bindp (update_manager_proposal proposal
                     (manager_data policyChanged (fst missing = SP_STALE \<or> fst missing = SP_FAILED) (missing_data missing now)))
                   (\<lambda>changed. ret (updated + changed))))
         else unavailable))"

definition manager_rows :: "deployment \<Rightarrow> string \<Rightarrow> escrow_db \<Rightarrow> (manager_proposal \<times> manager_intent) list" where
  "manager_rows config safeAddress d = List.map_filter (\<lambda>p. if \<not> pending (pr_status p) then None
     else (case manager_intent_of d p of None \<Rightarrow> None
       | Some i \<Rightarrow> if mi_chainId i = dp_chainId config \<and> mi_safeAddress i = safeAddress then Some (p, i) else None))
     (managerProposals d)"

definition syncSafeGoalManagerProposals :: "'w safe_service \<Rightarrow> 'w manager_deps \<Rightarrow> deployment \<Rightarrow> string option \<Rightarrow> bool \<Rightarrow>
    ('w, safe_sync) escrow_prog" where
  "syncSafeGoalManagerProposals service deps config safe enabled = (if \<not> (truthy safe \<and> enabled) then ret Safe_disabled else
     bindp (extern (sv_safeNonce service)) (\<lambda>currentNonce.
     bindp (currentSafeOwners deps safe) (\<lambda>safeOwners.
     bindp (currentDesiredHash deps config safeOwners) (\<lambda>desiredHash.
     bindp (oldest service (\<lambda>(p, i). pr_id p) (manager_rows config (to_lower (the safe)))) (\<lambda>rows.
     bindp (extern (sv_now service)) (\<lambda>now.
     bindp (foldp (check_manager_proposal service currentNonce now desiredHash) rows 0) (\<lambda>updated.
     ret (Safe_synced (length rows) updated 0 0))))))))"

end
