(* ===== verification/Safe_Facts.thy ===== *)
theory Safe_Facts
  imports Escrow_Passes Goal_Managers "HOL-Library.Multiset"
begin

section \<open>What following the Safe changes\<close>

text \<open>
  Following the proposals never changes what has been paid out: the executed payouts, as what was released to
  whom in which transaction, stay the same collection, whatever the transaction service answers. So the ledger
  of the escrow and all that the indexing pass relies on survives, and a proposal changes only while it is pending.
\<close>

subsection \<open>Releases\<close>

type_synonym release_row = "string \<times> asset \<times> payout_kind \<times> string \<times> string \<times> string option \<times> int option"

definition released_row :: "payout \<Rightarrow> release_row" where
  "released_row p = (po_goalId p, po_asset p, po_kind p, po_amountRaw p, po_recipientAddress p, po_chainTxHash p, po_executedAt p)"

definition executed :: "payout \<Rightarrow> bool" where "executed p \<longleftrightarrow> po_status p = PO_EXECUTED"

definition releases :: "payout list \<Rightarrow> release_row multiset" where
  "releases ps = image_mset released_row (mset (filter executed ps))"

definition ident :: "payout \<Rightarrow> string \<times> string \<times> asset \<times> payout_kind \<times> string" where
  "ident p = (po_id p, po_goalId p, po_asset p, po_kind p, po_amountRaw p)"

lemma filter_remove:
  "distinct (map k xs) \<Longrightarrow> q \<in> set xs \<Longrightarrow> E q \<Longrightarrow>
   mset (filter E xs) = add_mset q (mset (filter (\<lambda>x. E x \<and> k x \<noteq> k q) xs))"
proof (induction xs)
  case (Cons x xs)
  show ?case
  proof (cases "x = q")
    case True
    with Cons.prems have "\<forall>y\<in>set xs. k y \<noteq> k q" by (auto simp: image_iff dest: sym)
    then have "filter (\<lambda>x. E x \<and> k x \<noteq> k q) xs = filter E xs" by (intro filter_cong) simp_all
    with True Cons.prems show ?thesis by simp
  next
    case False
    with Cons.prems have "k x \<noteq> k q" by (auto simp: image_iff)
    with False Cons show ?thesis by (auto simp: add_mset_commute)
  qed
qed simp

lemma releases_failed:
  "releases (update_where (\<lambda>p. P p \<and> po_status p = PO_PROPOSED) (po_status_update (\<lambda>_. PO_FAILED)) ps) = releases ps"
  unfolding releases_def update_where_def by (induction ps) (simp_all add: executed_def)

text \<open>A proposed payout takes the place of the row the indexer made for the same release.\<close>

lemma releases_promoted:
  assumes d: "distinct (map po_id ps)" and p: "p \<in> set ps" "po_status p = PO_PROPOSED"
    and q: "q \<in> set ps" "executed q" and f: "executed (f p)" "released_row (f p) = released_row q" "po_id (f p) = po_id p"
  shows "releases (filter (\<lambda>x. po_id x \<noteq> po_id q) (update_where (\<lambda>x. po_id x = po_id p \<and> po_status x = PO_PROPOSED) f ps)) = releases ps"
proof -
  obtain a b where ps: "ps = a @ p # b" using p(1) by (meson split_list)
  have other: "x \<in> set a \<or> x \<in> set b \<Longrightarrow> po_id x \<noteq> po_id p" for x using d by (auto simp: ps image_iff)
  have "q \<noteq> p" using p(2) q(2) by (auto simp: executed_def)
  then have qab: "q \<in> set (a @ b)" and qp: "po_id p \<noteq> po_id q" using q(1) other [of q] by (auto simp: ps)
  have same: "update_where (\<lambda>x. po_id x = po_id p \<and> po_status x = PO_PROPOSED) f xs = xs" if "\<And>x. x \<in> set xs \<Longrightarrow> po_id x \<noteq> po_id p" for xs
    using that by (induction xs) (auto simp: update_where_def)
  have "update_where (\<lambda>x. po_id x = po_id p \<and> po_status x = PO_PROPOSED) f ps = a @ f p # b"
    using p(2) same [of a] same [of b] other by (simp add: ps update_where_def)
  then have "releases (filter (\<lambda>x. po_id x \<noteq> po_id q) (update_where (\<lambda>x. po_id x = po_id p \<and> po_status x = PO_PROPOSED) f ps)) =
      add_mset (released_row q) (image_mset released_row (mset (filter (\<lambda>x. executed x \<and> po_id x \<noteq> po_id q) (a @ b))))"
    using f qp by (simp add: releases_def conj_commute)
  also have "\<dots> = image_mset released_row (mset (filter executed (a @ b)))"
    using d by (subst filter_remove [of po_id "a @ b" q executed]) (simp_all add: ps qab [simplified] q(2))
  also have "\<dots> = releases ps" using p(2) by (simp add: releases_def ps executed_def)
  finally show ?thesis .
qed

subsection \<open>The invariant of a job\<close>

definition frozen :: "'a safe_proposal_scheme \<Rightarrow> string \<times> string \<times> string \<times> int \<times> int" where
  "frozen p = (pr_id p, pr_intentId p, pr_safeTxHash p, pr_safeNonce p, pr_createdAt p)"

text \<open>A proposal is as it was, or it was pending and is still the same proposal.\<close>

definition advances :: "'a safe_proposal_scheme \<Rightarrow> 'a safe_proposal_scheme \<Rightarrow> bool" where
  "advances p q \<longleftrightarrow> q = p \<or> (pending (pr_status p) \<and> frozen q = frozen p)"

lemma advances_trans: "advances p q \<Longrightarrow> advances q r \<Longrightarrow> advances p r"
  by (auto simp: advances_def)

lemma advanced_refl: "list_all2 advances ps ps"
  by (simp add: list_all2_refl advances_def)

lemma advanced_update:
  assumes "list_all2 advances ps qs" and "\<And>p. frozen (data p) = frozen p"
  shows "list_all2 advances ps (update_pending i data qs)"
proof -
  have "list_all2 advances qs (update_pending i data qs)"
    using assms(2) by (simp add: update_pending_def update_where_def list_all2_conv_all_nth advances_def)
  from list_all2_trans [OF advances_trans assms(1) this] show ?thesis .
qed

lemma frozen_data [simp]:
  "frozen (classified_data c now p) = frozen p" "frozen (missing_data m now p) = frozen p" "frozen (unavailable_data now p) = frozen p"
  by (simp_all add: frozen_def classified_data_def missing_data_def unavailable_data_def)

text \<open>The tables that following the payouts does not touch.\<close>

definition outside :: "escrow_db \<Rightarrow> escrow_db" where
  "outside d = d\<lparr>payouts := [], payoutProposals := [], payoutIntents := []\<rparr>"

definition followed :: "escrow_db \<Rightarrow> escrow_db \<Rightarrow> bool" where
  "followed d0 d \<longleftrightarrow> outside d = outside d0 \<and> releases (payouts d) = releases (payouts d0) \<and>
     distinct (map po_id (payouts d)) \<and> ident ` set (payouts d) \<subseteq> ident ` set (payouts d0) \<and>
     list_all2 advances (payoutProposals d0) (payoutProposals d)"

lemma followed_refl: "distinct (map po_id (payouts d)) \<Longrightarrow> followed d d"
  by (simp add: followed_def advanced_refl)

lemma followed_intents: "followed d0 d \<Longrightarrow> followed d0 (payoutIntents_update f d)"
  by (simp add: followed_def outside_def)

lemma followed_proposals:
  "followed d0 d \<Longrightarrow> (\<And>p. frozen (data p) = frozen p) \<Longrightarrow> followed d0 (payoutProposals_update (update_pending i data) d)"
  by (simp add: followed_def outside_def advanced_update)

lemma ident_update: "(\<And>p. ident (f p) = ident p) \<Longrightarrow> ident ` set (update_where P f ps) = ident ` set ps"
  by (metis map_update_where set_map)

lemma followed_payouts:
  assumes "followed d0 d" and "releases (f (payouts d)) = releases (payouts d)" and "distinct (map po_id (f (payouts d)))"
    and "ident ` set (f (payouts d)) \<subseteq> ident ` set (payouts d)"
  shows "followed d0 (payouts_update f d)"
  using assms by (auto simp: followed_def outside_def)

lemma followed_failed:
  assumes "followed d0 d"
  shows "followed d0 (payouts_update (update_where (\<lambda>p. P p \<and> po_status p = PO_PROPOSED) (po_status_update (\<lambda>_. PO_FAILED))) d)"
proof (rule followed_payouts [OF assms])
  show "releases (update_where (\<lambda>p. P p \<and> po_status p = PO_PROPOSED) (po_status_update (\<lambda>_. PO_FAILED)) (payouts d)) = releases (payouts d)"
    by (rule releases_failed)
  show "distinct (map po_id (update_where (\<lambda>p. P p \<and> po_status p = PO_PROPOSED) (po_status_update (\<lambda>_. PO_FAILED)) (payouts d)))"
    using assms by (simp add: followed_def map_update_where)
  show "ident ` set (update_where (\<lambda>p. P p \<and> po_status p = PO_PROPOSED) (po_status_update (\<lambda>_. PO_FAILED)) (payouts d)) \<subseteq> ident ` set (payouts d)"
    by (auto simp: set_update_where ident_def)
qed

lemma triple_db:
  assumes "\<And>s. P (db s) \<Longrightarrow> \<exists>x d. m s = (Inr x, s\<lparr>db := d\<rparr>) \<and> Q x d"
  shows "triple P m Q E"
  using assms by (force simp: triple_def)

lemma one_row:
  assumes "distinct (map po_id ps)" and "length (filter (\<lambda>p. po_id p = i \<and> P p) ps) = 1"
  obtains p where "p \<in> set ps" "po_id p = i" "P p"
proof -
  have "filter (\<lambda>p. po_id p = i \<and> P p) ps \<noteq> []" using assms(2) by auto
  then show ?thesis using that by (auto simp: filter_empty_conv)
qed

lemma at_most_one:
  assumes "distinct (map k ps)"
  shows "length (filter (\<lambda>p. k p = i \<and> P p) ps) \<le> 1"
  using assms
proof (induction ps)
  case (Cons x ps)
  have "filter (\<lambda>p. k p = i \<and> P p) ps = []" if "k x = i" using Cons.prems that by (auto simp: filter_empty_conv image_iff)
  with Cons show ?case by auto
qed simp

abbreviation promotable :: "payout \<Rightarrow> payout \<Rightarrow> bool" where
  "promotable x \<equiv> (\<lambda>p. po_id p = po_id x \<and> po_status p = PO_PROPOSED)"

abbreviation promoted_by :: "payout \<Rightarrow> string \<Rightarrow> payout \<Rightarrow> payout" where
  "promoted_by q h \<equiv> (\<lambda>p. p\<lparr>po_status := PO_EXECUTED, po_chainTxHash := Some h,
     po_recipientAddress := po_recipientAddress q, po_executedAt := po_executedAt q\<rparr>)"

lemma reconcile_None:
  "List.find (confirmed_projection x (to_lower h) (db s)) (payouts (db s)) = None \<Longrightarrow> reconcileConfirmedSafePayout x h s = (Inr False, s)"
  by (simp add: reconcileConfirmedSafePayout_def Let_def prog_defs)

lemma reconcile_Some:
  "List.find (confirmed_projection x (to_lower h) (db s)) (payouts (db s)) = Some q \<Longrightarrow>
   reconcileConfirmedSafePayout x h s =
    (if length (filter (promotable x) (payouts (db s))) = 1
     then (Inr True, s\<lparr>db := payouts_update (\<lambda>ps. filter (\<lambda>y. po_id y \<noteq> po_id q)
        (update_where (promotable x) (promoted_by q (to_lower h)) ps)) (db s)\<rparr>)
     else (Inr False, s\<lparr>db := payouts_update (update_where (promotable x) (promoted_by q (to_lower h))) (db s)\<rparr>))"
  by (simp add: reconcileConfirmedSafePayout_def Let_def prog_defs comp_def)

lemma reconcile_followed:
  assumes x: "ident x \<in> ident ` set (payouts d0)" and d0: "distinct (map po_id (payouts d0))"
  shows "triple (followed d0) (reconcileConfirmedSafePayout x h) (\<lambda>_. followed d0) E"
proof (rule triple_db)
  fix s :: "(escrow_db, string option, 'w) machine" assume J: "followed d0 (db s)"
  let ?h = "to_lower h" and ?P = "promotable x"
  have d: "distinct (map po_id (payouts (db s)))" using J by (simp add: followed_def)
  show "\<exists>r d. reconcileConfirmedSafePayout x h s = (Inr r, s\<lparr>db := d\<rparr>) \<and> followed d0 d"
  proof (cases "List.find (confirmed_projection x ?h (db s)) (payouts (db s))")
    case None
    from reconcile_None [OF this] J show ?thesis by (intro exI [of _ False] exI [of _ "db s"]) simp
  next
    case (Some q)
    then have q: "q \<in> set (payouts (db s))" "confirmed_projection x ?h (db s) q" by (auto simp: find_Some_iff)
    let ?f = "promoted_by q ?h"
    note run = reconcile_Some [OF Some]
    show ?thesis
    proof (cases "length (filter ?P (payouts (db s))) = 1")
      case False
      with at_most_one [OF d, of "po_id x" "\<lambda>p. po_status p = PO_PROPOSED"] have "filter ?P (payouts (db s)) = []"
        by (cases "filter ?P (payouts (db s))") auto
      then have "update_where ?P ?f (payouts (db s)) = payouts (db s)"
        by (auto simp: update_where_def filter_empty_conv intro!: map_idI)
      then have "payouts_update (update_where ?P ?f) (db s) = db s" by simp
      with False J show ?thesis unfolding run by (intro exI [of _ False] exI [of _ "db s"]) simp
    next
      case True
      obtain p where p: "p \<in> set (payouts (db s))" "po_id p = po_id x" "po_status p = PO_PROPOSED"
        using one_row [OF d True] .
      have "ident p \<in> ident ` set (payouts d0)" using J p(1) by (auto simp: followed_def)
      with x p(2) have ident: "ident p = ident x"
        using distinct_map_eq [OF d0] by (auto simp: ident_def image_iff) metis+
      let ?g = "\<lambda>ps. filter (\<lambda>y. po_id y \<noteq> po_id q) (update_where ?P ?f ps)"
      have "followed d0 (payouts_update ?g (db s))"
      proof (rule followed_payouts [OF J])
        show "releases (?g (payouts (db s))) = releases (payouts (db s))"
          unfolding p(2) [symmetric]
          by (rule releases_promoted [OF d p(1,3) q(1)])
            (use q(2) ident in \<open>auto simp: executed_def confirmed_projection_def released_row_def ident_def\<close>)
        show "distinct (map po_id (?g (payouts (db s))))"
          using d by (intro distinct_map_filter) (simp add: map_update_where)
        have "ident ` set (update_where ?P ?f (payouts (db s))) = ident ` set (payouts (db s))"
          by (rule ident_update) (simp add: ident_def)
        then show "ident ` set (?g (payouts (db s))) \<subseteq> ident ` set (payouts (db s))" by auto
      qed
      with True show ?thesis unfolding run by (intro exI [of _ True] exI [of _ "payouts_update ?g (db s)"]) simp
    qed
  qed
qed

subsection \<open>The steps of the synchronisation\<close>

lemma keeps_atNonce: "keeps P (safeTransactionsAtNonce service nonce executedOnly)"
  unfolding safeTransactionsAtNonce_def
  by (intro keeps_catch keeps_bind keeps_extern keeps_ret)

lemma keeps_resolve: "keeps P (resolveSafeTransaction service proposal currentNonce)"
  unfolding resolveSafeTransaction_def executedSafeTransactionsAtNonce_def
  by (intro keeps_bind keeps_extern triple_if keeps_atNonce keeps_ret triple_option)

lemma apply_pending_followed:
  assumes "\<And>p. frozen (data p) = frozen p"
  shows "keeps (followed d0) (applyPendingSafeProposalUpdate proposalId payoutId data failPayout)"
  unfolding applyPendingSafeProposalUpdate_def
  by (intro keeps_bind keeps_get keeps_then keeps_mod keeps_when triple_if keeps_ret followed_proposals followed_failed assms)

lemma settle_followed:
  assumes "ident x \<in> ident ` set (payouts d0)" and "distinct (map po_id (payouts d0))"
  shows "keeps (followed d0) (settle_proposal p x next now failPayout)"
  unfolding settle_proposal_def
  by (intro keeps_transactional keeps_bind keeps_then keeps_when keeps_ret apply_pending_followed reconcile_followed assms) simp

lemma mark_followed: "keeps (followed d0) (mark_unavailable p now)"
  unfolding mark_unavailable_def by (intro keeps_mod followed_proposals) simp_all

lemma check_followed:
  assumes "ident x \<in> ident ` set (payouts d0)" and "distinct (map po_id (payouts d0))"
  shows "keeps (followed d0) (check_payout_proposal service currentNonce now (p, x) updated)"
proof -
  have settle: "keeps (followed d0) (bindp (settle_proposal p x next now b) (\<lambda>changed. ret (count_if changed updated)))" for "next" b
    by (intro keeps_bind settle_followed assms keeps_ret)
  have mark: "keeps (followed d0) (thenp (mark_unavailable p now) (ret updated))"
    by (intro keeps_then mark_followed keeps_ret)
  show ?thesis
    unfolding check_payout_proposal_def Let_def prod.case
    by (intro keeps_catch keeps_bind keeps_resolve triple_prod triple_if triple_option keeps_atNonce settle mark
        keeps_transactional apply_pending_followed keeps_ret) simp_all
qed

lemma expire_followed: "keeps (followed d0) (expireUnconsumedSafePayoutIntents chainId safe now)"
proof -
  have claim: "keeps (followed d0) (claim_expired now i ids)" for i ids
    unfolding claim_expired_def by (intro keeps_bind keeps_get keeps_then keeps_mod keeps_ret followed_intents)
  show ?thesis
    unfolding expireUnconsumedSafePayoutIntents_def
    by (intro keeps_bind keeps_get triple_if keeps_ret keeps_transactional keeps_foldp claim keeps_then keeps_when keeps_mod followed_failed)
qed

lemma in_map_filter: "y \<in> set (List.map_filter f xs) \<longleftrightarrow> (\<exists>x\<in>set xs. f x = Some y)"
  by (induction xs) (auto simp: List.map_filter_simps split: option.split)

lemma payout_rows_known:
  assumes "(p, x) \<in> set (payout_rows Q d)"
  shows "x \<in> set (payouts d)"
proof -
  obtain i where "payout_of d i = Some x"
    using assms unfolding payout_rows_def in_map_filter by (auto split: option.splits if_splits)
  then show ?thesis by (auto simp: payout_of_def find_Some_iff)
qed

definition known_rows :: "escrow_db \<Rightarrow> (safe_proposal \<times> payout) list \<Rightarrow> bool" where
  "known_rows d0 rows \<longleftrightarrow> (\<forall>(p, x)\<in>set rows. ident x \<in> ident ` set (payouts d0))"

lemma oldest_known:
  "triple (followed d0) (oldest service key (payout_rows Q)) (\<lambda>rows d. known_rows d0 rows \<and> followed d0 d) (followed d0)"
  unfolding oldest_def
proof (rule triple_bind [OF keeps_extern], rule triple_get)
  fix updatedAt :: "string \<Rightarrow> int" and d assume J: "followed d0 d"
  have "ident x \<in> ident ` set (payouts d0)" if "(p, x) \<in> set (take 100 (sort_key (\<lambda>r. updatedAt (key r)) (payout_rows Q d)))" for p x
  proof -
    have "(p, x) \<in> set (payout_rows Q d)" using set_take_subset that by fastforce
    from payout_rows_known [OF this] J show ?thesis by (auto simp: followed_def)
  qed
  with J show "known_rows d0 (take 100 (sort_key (\<lambda>r. updatedAt (key r)) (payout_rows Q d))) \<and> followed d0 d"
    by (auto simp: known_rows_def)
qed

lemma sync_payouts_followed:
  assumes "distinct (map po_id (payouts d0))"
  shows "keeps (followed d0) (syncSafePayoutProposals service config safe enabled)"
proof -
  have rec: "keeps (followed d0) (reconcile_executed r n)" if "known_rows d0 rows" "r \<in> set rows" for rows r n
    using that assms unfolding reconcile_executed_def known_rows_def
    by (auto intro!: keeps_bind keeps_transactional reconcile_followed keeps_ret)
  have check: "keeps (followed d0) (check_payout_proposal service currentNonce now r n)" if "known_rows d0 rows" "r \<in> set rows" for rows r n currentNonce now
  proof (cases r)
    case (Pair p x)
    with that have "ident x \<in> ident ` set (payouts d0)" by (auto simp: known_rows_def)
    from check_followed [OF this assms] Pair show ?thesis by simp
  qed
  show ?thesis
    unfolding syncSafePayoutProposals_def Let_def
    apply (rule triple_if, rule keeps_ret)
    apply (rule keeps_bind [OF keeps_extern], rule keeps_bind [OF expire_followed])
    apply (rule triple_bind_val [OF oldest_known])
    apply (rule keeps_bind, rule keeps_foldp, erule (1) rec)
    apply (rule triple_bind_val [OF oldest_known])
    apply (rule triple_if, rule keeps_ret)
    apply (rule keeps_bind [OF keeps_extern])
    apply (rule keeps_bind, rule keeps_foldp, erule (1) check)
    apply (rule keeps_ret)
    done
qed

end
