(* ===== verification/Safe_Runs.thy ===== *)
theory Safe_Runs
  imports Safe_Facts
begin

section \<open>The jobs of the escrow together\<close>

text \<open>
  The indexing pass, the refresh of metadata, the reconciliation and the three jobs that follow the Safe share
  one database. Here they run in any order: each leaves a database that the next indexing pass may start from.
\<close>

subsection \<open>Following the payouts keeps the projection\<close>

lemma paid_releases:
  "paid K a ids ps = (\<Sum>r\<in>#filter_mset (\<lambda>(g, b, _). b = a \<and> g \<in> ids) (releases ps). case r of (_, _, _, n, _) \<Rightarrow> the (js_bigint n))"
  unfolding paid_def releases_def executed_def by (induction ps) (auto simp: released_row_def)

lemma in_releases: "(\<exists>p\<in>set ps. executed p \<and> P (released_row p)) \<longleftrightarrow> (\<exists>r\<in>#releases ps. P r)"
  by (auto simp: releases_def)

lemma executed_like:
  assumes "releases ps = releases qs" and "p \<in> set ps" "po_status p = PO_EXECUTED"
  obtains q where "q \<in> set qs" "po_status q = PO_EXECUTED" "released_row q = released_row p"
proof -
  have "\<exists>q\<in>set qs. executed q \<and> released_row q = released_row p"
    using assms in_releases [of ps "\<lambda>r. r = released_row p"] in_releases [of qs "\<lambda>r. r = released_row p"] by (auto simp: executed_def)
  then show ?thesis using that by (auto simp: executed_def)
qed

lemma outside_tables:
  assumes "outside d = outside d0"
  shows "fundingGoals d = fundingGoals d0" "contributions d = contributions d0" "chainEvents d = chainEvents d0"
    "escrowStates d = escrowStates d0"
  using assms by (cases d; cases d0; simp add: outside_def)+

lemma followed_balance:
  assumes "followed d0 d"
  shows "expected_balance K a d = expected_balance K a d0"
proof -
  have r: "releases (payouts d) = releases (payouts d0)" and t: "outside d = outside d0" using assms by (simp_all add: followed_def)
  have num: "(\<forall>p\<in>set (executed_payouts K a x). js_bigint (po_amountRaw p) \<noteq> None) \<longleftrightarrow>
      (\<forall>(g, b, k, n, _)\<in>#releases (payouts x). b = a \<longrightarrow> g \<in> chain_goals K x \<longrightarrow> js_bigint n \<noteq> None)" for x
    by (auto simp: executed_payouts_filter releases_def released_row_def executed_def)
  have g: "chain_goals K d = chain_goals K d0" by (simp add: chain_goals_def outside_tables [OF t])
  have "expected_balance K a d = Some v \<longleftrightarrow> expected_balance K a d0 = Some v" for v
    unfolding expected_balance_sum num paid_releases r g
    by (simp add: expected_contributions_def outside_tables [OF t])
  then show ?thesis by (metis not_Some_eq)
qed

lemma followed_ledger:
  assumes "followed d0 d" and l: "ledger config B G L d0"
  shows "ledger config B G L d"
proof -
  have r: "releases (payouts d) = releases (payouts d0)" and t: "outside d = outside d0" and i: "distinct (map po_id (payouts d))"
    using assms(1) by (simp_all add: followed_def)
  note t' = outside_tables [OF t]
  have "\<exists>g\<in>set (fundingGoals d0). g_id g = po_goalId p \<and> created_row g" if p: "p \<in> set (payouts d)" "po_status p = PO_EXECUTED" for p
  proof -
    obtain q where "q \<in> set (payouts d0)" "po_status q = PO_EXECUTED" "released_row q = released_row p" using executed_like [OF r p] .
    then show ?thesis using ledgerD(5) [OF l, of q] by (simp add: released_row_def)
  qed
  with l i show ?thesis
    unfolding ledger_def by (simp add: t' logs_def followed_balance [OF assms(1)])
qed

lemma followed_trusted:
  assumes "followed d0 d" and "trusted config chain G d0"
  shows "trusted config chain G d"
proof -
  have t: "outside d = outside d0" using assms(1) by (simp add: followed_def)
  note t' = outside_tables [OF t]
  have c: "checkpoint_row config d = checkpoint_row config d0" "keyed config d = keyed config d0"
    by (simp_all add: checkpoint_row_def keyed_def t')
  have rep: "replayed config G sts n d0 \<Longrightarrow> replayed config G sts n d" for sts n
    using followed_ledger [OF assms(1)] by (simp add: replayed_def t' own_rows_def)
  have "at_block config G b d0 \<Longrightarrow> at_block config G b d" for b
    using rep by (auto simp: at_block_def reaches_def t' c)
  then have "synced config G d0 \<Longrightarrow> synced config G d"
    by (simp add: synced_def checkpoint_block_def c)
  moreover have "consistent config d0 \<Longrightarrow> consistent config d"
    unfolding consistent_def c using followed_ledger [OF assms(1)] by blast
  ultimately show ?thesis
    using assms(2) unfolding trusted_def c by (auto split: option.split_asm option.split)
qed

text \<open>
  C36: Following the Safe's payout proposals, whatever the transaction service answers and wherever it fails, never
  changes what the escrow has released: the executed payouts are the same collection of amounts, recipients and
  transactions (a proposal that was executed takes the place of the row the indexer made), so the expected
  balances stay; a proposal changes only while it is pending; and no other table changes.
\<close>

theorem syncSafePayoutProposals_keeps_releases:
  assumes "distinct (map po_id (payouts (db s)))"
  shows "case syncSafePayoutProposals service config safe enabled s of (r, s') \<Rightarrow>
    releases (payouts (db s')) = releases (payouts (db s)) \<and>
    (\<forall>K a. expected_balance K a (db s') = expected_balance K a (db s)) \<and>
    list_all2 advances (payoutProposals (db s)) (payoutProposals (db s')) \<and>
    outside (db s') = outside (db s)"
proof -
  have "followed (db s) (db (snd (syncSafePayoutProposals service config safe enabled s)))"
    by (rule keepsD [OF sync_payouts_followed [OF assms] followed_refl [OF assms]])
  then show ?thesis using followed_balance by (auto simp: followed_def split: prod.split)
qed

subsection \<open>Jobs that leave the ledger alone\<close>

lemma trusted_skeleton:
  assumes "skeleton d = skeleton d'" and "trusted config chain G d"
  shows "trusted config chain G d'"
proof -
  have logs: "chainEvents d = chainEvents d'" "escrowStates d = escrowStates d'" using assms(1) by (simp_all add: skeleton_def logs_def)
  have l: "ledger config B H L d = ledger config B H L d'" for B H L by (simp add: ledger_skeleton assms(1))
  have c: "checkpoint_row config d = checkpoint_row config d'" "keyed config d = keyed config d'"
    by (simp_all add: checkpoint_row_def keyed_def logs)
  have "at_block config G b d = at_block config G b d'" for b
    by (simp add: at_block_def reaches_def replayed_def own_rows_def logs l c)
  then have "synced config G d = synced config G d'" by (simp add: synced_def checkpoint_block_def c)
  moreover have "consistent config d = consistent config d'" by (simp add: consistent_def l c)
  ultimately show ?thesis using assms(2) by (simp add: trusted_def c cong: option.case_cong)
qed

lemma frame_trusted: "frame m \<Longrightarrow> keeps (trusted config chain G) m"
  by (rule keepsI) (metis frame_skeleton trusted_skeleton)

lemma frame_loops [frames]:
  "(\<And>x a. frame (f x a)) \<Longrightarrow> frame (foldp f xs a)" "(\<And>x. frame (g x)) \<Longrightarrow> frame (forp g xs)"
  by (simp_all add: frame_def keeps_foldp keeps_forp)

lemma frame_transactional [frames]: "frame m \<Longrightarrow> frame (transactional m)"
  by (simp add: frame_def keeps_transactional)

lemma frame_safe_tables [frames]:
  "frame (db_mod (managerAssignments_update f1))" "frame (db_mod (managerProposals_update f2))" "frame (db_mod (safeAudits_update f3))"
  by (rule frame_mod; simp add: skeleton_def logs_def)+

lemma frame_service [frames]:
  "frame (safeTransactionsAtNonce service nonce executedOnly)" "frame (resolveSafeTransaction service proposal currentNonce)"
  "frame (oldest service key rows)"
  by (simp_all add: frame_def keeps_atNonce keeps_resolve oldest_def keeps_bind keeps_extern keeps_get)

lemma frame_actions: "frame (syncSafeGoalActionProposals service config safe enabled)"
proof -
  have u: "frame (applyStatusUpdate p f st h r)" for p f st h r unfolding applyStatusUpdate_def by (intro frames)
  show ?thesis
    unfolding syncSafeGoalActionProposals_def check_action_proposal_def apply_classified_def Let_def by (intro frames u)
qed

lemma frame_managers:
  "frame (syncSafeGoalManagerPolicy deps config safe)" "frame (syncSafeGoalManagerProposals service deps config safe enabled)"
proof -
  have o: "frame (currentSafeOwners deps safe)" "frame (currentDesiredHash deps config owners)" for owners
    unfolding currentSafeOwners_def currentDesiredHash_def Let_def by (intro frames)+
  show "frame (syncSafeGoalManagerPolicy deps config safe)"
    unfolding syncSafeGoalManagerPolicy_def reconcileSafeOwnerGoalManagerAssignments_def Let_def by (intro frames o)
  have u: "frame (update_manager_proposal p f)" for p f unfolding update_manager_proposal_def by (intro frames)
  have check: "frame (check_manager_proposal service n now h r k)" for n now h r k
    by (cases r) (simp only: check_manager_proposal_def prod.case Let_def, intro frames u)
  show "frame (syncSafeGoalManagerProposals service deps config safe enabled)"
    unfolding syncSafeGoalManagerProposals_def by (intro frames o check)
qed

lemma frame_retry: "frame (retryUnavailableMetadata chain config limit)"
  unfolding retryUnavailableMetadata_def by (intro frames)

lemma keeps_reconcileEscrow: "keeps P (reconcileEscrow chain config safe)"
  unfolding reconcileEscrow_def
  by (intro triple_if keeps_ret keeps_then keeps_manifest keeps_bind keeps_extern keeps_get triple_prod triple_option keeps_throw)

subsection \<open>Runs\<close>

text \<open>A job of either queue with the arguments it is started with; a job that throws ends there.\<close>

datatype 'w escrow_job =
  Index_escrow "'w escrow_deps" "string option"
| Refresh_metadata nat
| Reconcile_escrow "string option"
| Sync_payouts "'w safe_service" "string option" bool
| Sync_actions "'w safe_service" "string option" bool
| Sync_managers "'w safe_service" "'w manager_deps" "string option" bool

fun run_escrow_job :: "'w escrow_chain \<Rightarrow> deployment \<Rightarrow> 'w escrow_job \<Rightarrow> ('w, unit) escrow_prog" where
  "run_escrow_job chain config (Index_escrow deps safe) = bindp (indexEscrow chain deps config safe) (\<lambda>_. ret ())"
| "run_escrow_job chain config (Refresh_metadata limit) = bindp (retryUnavailableMetadata chain config limit) (\<lambda>_. ret ())"
| "run_escrow_job chain config (Reconcile_escrow safe) = bindp (reconcileEscrow chain config safe) (\<lambda>_. ret ())"
| "run_escrow_job chain config (Sync_payouts service safe enabled) =
     bindp (syncSafePayoutProposals service config safe enabled) (\<lambda>_. ret ())"
| "run_escrow_job chain config (Sync_actions service safe enabled) =
     bindp (syncSafeGoalActionProposals service config safe enabled) (\<lambda>_. ret ())"
| "run_escrow_job chain config (Sync_managers service deps safe enabled) =
     bindp (syncSafeGoalManagerPolicy deps config safe) (\<lambda>_.
     bindp (syncSafeGoalManagerProposals service deps config safe enabled) (\<lambda>_. ret ()))"

fun run_escrow_jobs :: "'w escrow_chain \<Rightarrow> deployment \<Rightarrow> 'w escrow_job list \<Rightarrow> (escrow_db, string option, 'w) machine \<Rightarrow>
    (escrow_db, string option, 'w) machine" where
  "run_escrow_jobs chain config [] s = s"
| "run_escrow_jobs chain config (job # jobs) s = run_escrow_jobs chain config jobs (snd (run_escrow_job chain config job s))"

lemma sync_payouts_trusted: "keeps (trusted config chain G) (syncSafePayoutProposals service config safe enabled)"
proof (rule keepsI)
  fix s :: "(escrow_db, string option, 'a) machine" assume t: "trusted config chain G (db s)"
  then have "distinct (map po_id (payouts (db s)))" by (auto simp: trusted_def consistent_def ledger_def)
  from keepsD [OF sync_payouts_followed [OF this] followed_refl [OF this]] t
  show "trusted config chain G (db (snd (syncSafePayoutProposals service config safe enabled s)))"
    by (rule followed_trusted)
qed

lemma job_trusted:
  assumes "canonical config chain C"
  shows "keeps (trusted config chain (filter good C)) (run_escrow_job chain config job)"
proof (cases job)
  case (Index_escrow deps safe)
  have "keeps (trusted config chain (filter good C)) (indexEscrow chain deps config safe)"
    by (rule triple_conseq [OF indexEscrow_reported [OF assms]]) simp_all
  then show ?thesis by (simp add: Index_escrow keeps_bind keeps_ret)
qed (simp_all add: keeps_bind keeps_ret sync_payouts_trusted keeps_reconcileEscrow frame_trusted frame_actions frame_managers frame_retry)

lemma jobs_trusted:
  "canonical config chain C \<Longrightarrow> trusted config chain (filter good C) (db s) \<Longrightarrow>
   trusted config chain (filter good C) (db (run_escrow_jobs chain config jobs s))"
  by (induction jobs arbitrary: s) (auto intro: keepsD [OF job_trusted])

text \<open>
  C37: Along every sequence of the escrow's jobs (indexing passes, refreshes of metadata, reconciliations and the
  three jobs that follow the Safe, each returning or throwing), what the next reconciliation expects is what a prefix of the contract's log
  moved, and that prefix reaches the checkpoint: no job loses or repeats an event.
\<close>

theorem escrow_jobs_keep_the_projection:
  assumes "canonical config chain C" and "trusted config chain (filter good C) (db s)"
    and "checkpoint_row config (db (run_escrow_jobs chain config jobs s)) = Some checkpoint"
    and "ec_block chain (es_lastBlockNumber checkpoint) w = (Inr (hash, timestamp), w')"
    and "\<not> chainReorganized (es_lastBlockHash checkpoint) hash"
  shows "\<exists>n. upto_block (filter good C) (es_lastBlockNumber checkpoint) \<le> n \<and> n \<le> length (filter good C) \<and>
    own_rows config (db (run_escrow_jobs chain config jobs s)) = map (event_row config) (take n (filter good C)) \<and>
    (\<forall>a. expected_balance (dp_chainId config) a (db (run_escrow_jobs chain config jobs s)) =
      Some (balance_of config (map el_event (take n (filter good C))) a))"
proof -
  have "at_block config (filter good C) (es_lastBlockNumber checkpoint) (db (run_escrow_jobs chain config jobs s))"
    by (rule trusted_confirmed [OF jobs_trusted [OF assms(1,2)] assms(3-5)])
  then show ?thesis unfolding at_block_def reaches_def replayed_def ledger_def by blast
qed

end
