(* ===== verification/Safe_Samples.thy ===== *)
theory Safe_Samples
  imports Escrow_Samples Safe_Runs
begin

section \<open>A sample Safe\<close>

text \<open>
  A payout that a Safe proposal has executed, with the row that the indexer made for its release, and a run of
  jobs on the sample chain.
\<close>

definition sample_service :: "nat safe_service" where
  "sample_service = \<lparr>sv_now = answering 9000, sv_updatedAt = answering (\<lambda>_. 0), sv_safeNonce = answering 5,
     sv_transaction = (\<lambda>_ w. (Inl (Service_error (Some 404)), Suc w)), sv_multisigTransactions = (\<lambda>_ _. answering [])\<rparr>"

definition proposed_row :: payout where
  "proposed_row = \<lparr>po_id = ''p'', po_goalId = ''g'', po_asset = PRE, po_kind = EXPENSE, po_amountRaw = ''15'',
     po_recipientAddress = ''0xf'', po_chainTxHash = None, po_status = PO_PROPOSED, po_createdAt = 0, po_executedAt = None\<rparr>"

definition safe_rows :: escrow_db where
  "safe_rows = kept_rows\<lparr>payouts := [proposed_row, proposed_row\<lparr>po_id := ''q'', po_chainTxHash := Some ''0x8'',
       po_status := PO_EXECUTED, po_executedAt := Some 5\<rparr>],
     payoutProposals := [\<lparr>pr_id = ''s'', pr_intentId = ''i'', pr_safeTxHash = ''0x3'', pr_safeNonce = 4, pr_status = SP_EXECUTED,
       pr_confirmations = 2, pr_threshold = 2, pr_executionTxHash = Some ''0x8'', pr_failureReason = None,
       pr_lastCheckedAt = None, pr_executedAt = Some 5, pr_createdAt = 0\<rparr>]\<rparr>"

lemma sample_followed:
  "fst (syncSafePayoutProposals sample_service sample_deployment (Some ''0xC'') True (sample_escrow\<lparr>db := safe_rows\<rparr>)) =
     Inr (Safe_synced 0 0 1 0) \<and>
   map po_id (payouts (db (snd (syncSafePayoutProposals sample_service sample_deployment (Some ''0xC'') True
     (sample_escrow\<lparr>db := safe_rows\<rparr>))))) = [''p'']"
proof -
  have low: "to_lower ''0xC'' = ''0xc''" by code_simp
  show ?thesis
    by (simp add: syncSafePayoutProposals_def sample_code low sample_service_def safe_rows_def kept_rows_def truthy_def
        expireUnconsumedSafePayoutIntents_def expirable_def oldest_def payout_rows_def payout_intent_of_def payout_of_def
        reconcile_executed_def reconcileConfirmedSafePayout_def confirmed_projection_def intent_of_def proposed_row_def
        List.map_filter_simps update_where_def count_if_def pending_def Let_def)
qed

lemma syncSafePayoutProposals_keeps_releases_witness:
  "\<exists>s'. syncSafePayoutProposals sample_service sample_deployment (Some ''0xC'') True (sample_escrow\<lparr>db := safe_rows\<rparr>) =
     (Inr (Safe_synced 0 0 1 0), s') \<and>
   map po_id (payouts (db s')) = [''p''] \<and>
   releases (payouts (db s')) = {#(''g'', PRE, EXPENSE, ''15'', ''0xf'', Some ''0x8'', Some 5)#} \<and>
   outside (db s') = outside safe_rows"
proof -
  obtain s' where run: "syncSafePayoutProposals sample_service sample_deployment (Some ''0xC'') True (sample_escrow\<lparr>db := safe_rows\<rparr>) =
      (Inr (Safe_synced 0 0 1 0), s')"
    using sample_followed by (metis prod.collapse)
  have d: "distinct (map po_id (payouts (db (sample_escrow\<lparr>db := safe_rows\<rparr>))))"
    by (simp add: safe_rows_def proposed_row_def)
  have "releases (payouts safe_rows) = {#(''g'', PRE, EXPENSE, ''15'', ''0xf'', Some ''0x8'', Some 5)#}"
    by (simp add: safe_rows_def proposed_row_def releases_def executed_def released_row_def)
  then show ?thesis
    using syncSafePayoutProposals_keeps_releases [OF d, of sample_service sample_deployment "Some ''0xC''" True] sample_followed run
    by simp
qed

text \<open>A pass over the sample chain, after which the Safe is followed.\<close>

lemma sample_checkpoint:
  "checkpoint_row sample_deployment (db (snd escrow_run)) =
   Some \<lparr>es_key = deploymentStateKey sample_deployment, es_chainId = 8, es_lastBlockNumber = 2, es_lastBlockHash = ''0x2''\<rparr>"
proof -
  let ?s = "sample_escrow\<lparr>mem := Some (deploymentStateKey sample_deployment), world := 2\<rparr>"
  let ?m = "index_escrow_range (sample_chain sample_logs) sample_escrow_deps sample_deployment 1 2 0"
  have "escrowStates (db (snd (?m ?s))) =
      [\<lparr>es_key = deploymentStateKey sample_deployment, es_chainId = 8, es_lastBlockNumber = 2, es_lastBlockHash = ''0x2''\<rparr>]"
    by (simp add: index_escrow_range_def index_log_def sample_logs_def sample_code sample_handlers goal_projection_def write_state_def)
      code_simp
  moreover have "index_ranges (sample_chain sample_logs) sample_escrow_deps sample_deployment 2 2 1 0 ?s = ?m ?s"
    by (simp add: numeral_2_eq_2 index_ranges_last INDEXER_LOG_BLOCK_RANGE_def)
  moreover obtain s' where "?m ?s = (Inr 3, s')" using sample_range by (metis prod.collapse)
  ultimately show ?thesis by (simp add: sample_reaches_ranges checkpoint_row_def)
qed

abbreviation sample_jobs :: "nat escrow_job list" where
  "sample_jobs \<equiv> [Index_escrow sample_escrow_deps None, Sync_payouts sample_service (Some ''0xC'') True]"

lemma escrow_jobs_keep_the_projection_witness:
  "own_rows sample_deployment (db (run_escrow_jobs (sample_chain sample_logs) sample_deployment sample_jobs sample_escrow)) =
     map (event_row sample_deployment) sample_logs \<and>
   expected_balance 8 PRE (db (run_escrow_jobs (sample_chain sample_logs) sample_deployment sample_jobs sample_escrow)) = Some 25"
proof -
  let ?s = "run_escrow_jobs (sample_chain sample_logs) sample_deployment sample_jobs sample_escrow"
  let ?p = "\<lparr>es_key = deploymentStateKey sample_deployment, es_chainId = 8, es_lastBlockNumber = 2, es_lastBlockHash = ''0x2''\<rparr>"
  have t: "trusted sample_deployment (sample_chain sample_logs) sample_logs (db (snd escrow_run))"
    using keepsD [OF job_trusted [OF sample_canonical(1), unfolded sample_good, of "Index_escrow sample_escrow_deps None"] sample_trusted_logs(1)]
    by (simp add: bindp_def ret_def split: prod.splits sum.splits)
  have run: "db ?s = db (snd (syncSafePayoutProposals sample_service sample_deployment (Some ''0xC'') True (snd escrow_run)))"
    by (simp add: bindp_def ret_def split: prod.splits sum.splits)
  have "distinct (map po_id (payouts (db (snd escrow_run))))" using t by (auto simp: trusted_def consistent_def ledger_def)
  from keepsD [OF sync_payouts_followed [OF this] followed_refl [OF this]]
  have "escrowStates (db ?s) = escrowStates (db (snd escrow_run))" unfolding run by (intro outside_tables(4)) (simp add: followed_def)
  then have c: "checkpoint_row sample_deployment (db ?s) = Some ?p" using sample_checkpoint by (simp add: checkpoint_row_def)
  have b: "ec_block (sample_chain sample_logs) (es_lastBlockNumber ?p) 0 = (Inr (''0x2'', 2000), 1)"
    by (simp add: sample_chain_def answering_def) code_simp
  have h: "\<not> chainReorganized (es_lastBlockHash ?p) ''0x2''" by (simp add: chainReorganized_def)
  have "upto_block sample_logs 2 = 3" "length sample_logs = 3" "dp_chainId sample_deployment = 8"
    by (simp_all add: upto_block_def sample_logs_def sample_deployment_def)
  then have "own_rows sample_deployment (db ?s) = map (event_row sample_deployment) sample_logs"
    "expected_balance 8 a (db ?s) = Some (balance_of sample_deployment (map el_event sample_logs) a)" for a
    using escrow_jobs_keep_the_projection [OF sample_canonical(1), unfolded sample_good, OF sample_trusted_logs(1) c b h] by auto
  moreover have "balance_of sample_deployment (map el_event sample_logs) PRE = 25" by code_simp
  ultimately show ?thesis by simp
qed

end
