(* ===== verification/Goal_Manager_Facts.thy ===== *)
theory Goal_Manager_Facts
  imports Goal_Managers
begin

section \<open>Who is meant to manage goals\<close>

text \<open>
  What a reconciliation of the assignments with the owners of the Safe leaves as the desired managers. The rows of
  a contract are seen as a set of triples: address, source, enabled.
\<close>

type_synonym assignment_triples = "(string \<times> assignment_source \<times> bool) set"

definition assignment_policy :: "int \<Rightarrow> string \<Rightarrow> manager_assignment list \<Rightarrow> assignment_triples" where
  "assignment_policy K c rows = (\<lambda>m. (ma_address m, ma_source m, ma_desiredEnabled m)) ` set (filter (in_scope K c) rows)"

definition enabled_in :: "assignment_triples \<Rightarrow> (string \<times> assignment_source) set" where
  "enabled_in S = {(x, s). (x, s, True) \<in> S}"

definition assigned_in :: "assignment_triples \<Rightarrow> string set" where
  "assigned_in S = (\<lambda>(x, s, e). to_lower x) ` S"

definition switch_key :: "string \<Rightarrow> assignment_source \<Rightarrow> (bool \<Rightarrow> bool) \<Rightarrow> assignment_triples \<Rightarrow> assignment_triples" where
  "switch_key a src g S = (\<lambda>(x, s, e). if x = a \<and> s = src then (x, s, g e) else (x, s, e)) ` S"

lemma policy_update:
  "assignment_policy K c (update_where (assignment_key K c a src) (ma_desiredEnabled_update g) rows) = switch_key a src g (assignment_policy K c rows)"
  unfolding assignment_policy_def switch_key_def by (induction rows) (auto simp: update_where_def assignment_key_def in_scope_def)

lemma policy_key: "(\<exists>m\<in>set rows. assignment_key K c a src m) \<longleftrightarrow> (\<exists>e. (a, src, e) \<in> assignment_policy K c rows)"
  unfolding assignment_policy_def by (auto simp: assignment_key_def image_iff)

lemma policy_new: "assignment_policy K c (rows @ [\<lparr>ma_chainId = K, ma_contractAddress = c, ma_address = a, ma_source = src,
    ma_desiredEnabled = True\<rparr>]) = insert (a, src, True) (assignment_policy K c rows)"
  by (simp add: assignment_policy_def in_scope_def)

lemma policy_upsert:
  "assignment_policy K c (upsert_assignment K c src (ma_desiredEnabled_update g) a rows) =
     (if \<exists>e. (a, src, e) \<in> assignment_policy K c rows then switch_key a src g (assignment_policy K c rows) else insert (a, src, True) (assignment_policy K c rows))"
  unfolding upsert_assignment_def policy_key by (simp add: policy_update policy_new)

lemma policy_keep:
  "assignment_policy K c (upsert_assignment K c src id a rows) =
     (if \<exists>e. (a, src, e) \<in> assignment_policy K c rows then assignment_policy K c rows else insert (a, src, True) (assignment_policy K c rows))"
proof -
  have "update_where P id rows = rows" for P by (induction rows) (simp_all add: update_where_def)
  then show ?thesis unfolding upsert_assignment_def policy_key by (simp add: policy_new)
qed

lemma enabled_on: "(a, src, e) \<in> S \<Longrightarrow> enabled_in (switch_key a src (\<lambda>_. True) S) = insert (a, src) (enabled_in S)"
  unfolding enabled_in_def switch_key_def by (force split: if_splits)

lemma assigned_change: "assigned_in (switch_key a src g S) = assigned_in S"
  unfolding assigned_in_def switch_key_def image_image by (rule image_cong) auto

lemma enabled_insert: "enabled_in (insert (a, src, True) S) = insert (a, src) (enabled_in S)"
  by (auto simp: enabled_in_def)

lemma assigned_insert: "assigned_in (insert (a, src, e) S) = insert (to_lower a) (assigned_in S)"
  by (simp add: assigned_in_def)

lemma assigned_member: "(a, src, e) \<in> S \<Longrightarrow> to_lower a \<in> assigned_in S"
  by (force simp: assigned_in_def)

subsection \<open>The desired set\<close>

lemma set_normalized: "set (normalizedAddresses xs) = to_lower ` set xs"
  by (simp add: normalizedAddresses_def)

lemma set_add_new: "set (fold (\<lambda>x. if P x then add_new (f x) else id) xs ys) = set ys \<union> f ` {x \<in> set xs. P x}"
  by (induction xs arbitrary: ys) (auto simp: add_new_def)

lemma set_desired:
  "set (desiredGoalManagerSet owners actual (filter (in_scope K c) rows)) =
     to_lower ` set owners \<union> (\<lambda>(x, s). to_lower x) ` enabled_in (assignment_policy K c rows) \<union>
     {x \<in> to_lower ` set actual. x \<notin> assigned_in (assignment_policy K c rows)}"
proof -
  have "to_lower ` ma_address ` {m \<in> set (filter (in_scope K c) rows). ma_desiredEnabled m} =
      (\<lambda>(x, s). to_lower x) ` enabled_in (assignment_policy K c rows)"
    by (force simp: enabled_in_def assignment_policy_def)
  moreover have "set (map (\<lambda>m. to_lower (ma_address m)) (filter (in_scope K c) rows)) = assigned_in (assignment_policy K c rows)"
    by (force simp: assigned_in_def assignment_policy_def)
  ultimately show ?thesis
    unfolding desiredGoalManagerSet_def Let_def set_add_new by (auto simp: set_normalized image_image)
qed

subsection \<open>The steps\<close>

lemma policy_disable:
  "assignment_policy K c (update_where (\<lambda>m. in_scope K c m \<and> ma_source m = SAFE_OWNER \<and> ma_desiredEnabled m \<and> ma_address m \<notin> O')
      (ma_desiredEnabled_update (\<lambda>_. False)) rows) =
   (\<lambda>(x, s, e). (x, s, e \<and> (s = SAFE_OWNER \<longrightarrow> x \<in> O'))) ` assignment_policy K c rows"
  unfolding assignment_policy_def by (induction rows) (auto simp: update_where_def in_scope_def)

lemma fold_owners:
  fixes K c os rows
  defines "after \<equiv> assignment_policy K c (fold (upsert_assignment K c SAFE_OWNER (ma_desiredEnabled_update (\<lambda>_. True))) os rows)"
  shows "enabled_in after = enabled_in (assignment_policy K c rows) \<union> (\<lambda>x. (x, SAFE_OWNER)) ` set os"
    and "assigned_in after = assigned_in (assignment_policy K c rows) \<union> to_lower ` set os"
proof -
  have one: "enabled_in (assignment_policy K c (upsert_assignment K c SAFE_OWNER (ma_desiredEnabled_update (\<lambda>_. True)) a r)) =
      insert (a, SAFE_OWNER) (enabled_in (assignment_policy K c r))"
    "assigned_in (assignment_policy K c (upsert_assignment K c SAFE_OWNER (ma_desiredEnabled_update (\<lambda>_. True)) a r)) =
      insert (to_lower a) (assigned_in (assignment_policy K c r))" for a r
    by (auto simp: policy_upsert enabled_on enabled_insert assigned_change assigned_insert dest: assigned_member)
  show "enabled_in after = enabled_in (assignment_policy K c rows) \<union> (\<lambda>x. (x, SAFE_OWNER)) ` set os"
    "assigned_in after = assigned_in (assignment_policy K c rows) \<union> to_lower ` set os"
    unfolding after_def by (induction os arbitrary: rows) (auto simp: one)
qed

text \<open>Managers that no assignment knew are kept as assigned by hand.\<close>

abbreviation keep_legacy :: "int \<Rightarrow> string \<Rightarrow> string set \<Rightarrow> string \<Rightarrow> manager_assignment list \<Rightarrow> manager_assignment list" where
  "keep_legacy K c A m rows \<equiv> (if to_lower m \<in> A then rows else upsert_assignment K c MANUAL_ASSIGNMENT id (to_lower m) rows)"

definition fresh_enabled :: "string set \<Rightarrow> assignment_triples \<Rightarrow> bool" where
  "fresh_enabled A S \<longleftrightarrow> (\<forall>(x, s, e)\<in>S. to_lower x \<notin> A \<longrightarrow> e)"

lemma keep_legacy_step:
  assumes "fresh_enabled A (assignment_policy K c rows)" and "to_lower m \<notin> A"
  shows "enabled_in (assignment_policy K c (keep_legacy K c A m rows)) = insert (to_lower m, MANUAL_ASSIGNMENT) (enabled_in (assignment_policy K c rows))"
    and "assigned_in (assignment_policy K c (keep_legacy K c A m rows)) = insert (to_lower m) (assigned_in (assignment_policy K c rows))"
    and "fresh_enabled A (assignment_policy K c (keep_legacy K c A m rows))"
proof -
  let ?a = "to_lower m"
  show "enabled_in (assignment_policy K c (keep_legacy K c A m rows)) = insert (?a, MANUAL_ASSIGNMENT) (enabled_in (assignment_policy K c rows))"
  proof (cases "\<exists>e. (?a, MANUAL_ASSIGNMENT, e) \<in> assignment_policy K c rows")
    case True
    then obtain e where e: "(?a, MANUAL_ASSIGNMENT, e) \<in> assignment_policy K c rows" by blast
    with assms have "e" by (fastforce simp: fresh_enabled_def)
    with e have "(?a, MANUAL_ASSIGNMENT) \<in> enabled_in (assignment_policy K c rows)" by (simp add: enabled_in_def)
    with True assms(2) show ?thesis by (simp add: policy_keep insert_absorb)
  qed (simp add: policy_keep assms(2) enabled_insert)
  show "assigned_in (assignment_policy K c (keep_legacy K c A m rows)) = insert ?a (assigned_in (assignment_policy K c rows))"
    using assms(2) by (auto simp: policy_keep assigned_insert dest: assigned_member)
  show "fresh_enabled A (assignment_policy K c (keep_legacy K c A m rows))"
    using assms by (auto simp: policy_keep fresh_enabled_def)
qed

lemma fold_legacy:
  assumes "fresh_enabled A (assignment_policy K c rows)"
  shows "enabled_in (assignment_policy K c (fold (keep_legacy K c A) ms rows)) =
      enabled_in (assignment_policy K c rows) \<union> (\<lambda>x. (x, MANUAL_ASSIGNMENT)) ` (to_lower ` set ms - A) \<and>
    assigned_in (assignment_policy K c (fold (keep_legacy K c A) ms rows)) = assigned_in (assignment_policy K c rows) \<union> (to_lower ` set ms - A)"
  using assms
proof (induction ms arbitrary: rows)
  case (Cons m ms)
  show ?case
  proof (cases "to_lower m \<in> A")
    case True
    with Cons.IH [OF Cons.prems] show ?thesis by simp
  next
    case False
    note step = keep_legacy_step [OF Cons.prems False]
    from Cons.IH [OF step(3)] show ?thesis unfolding fold.simps comp_apply step using False by auto
  qed
qed simp

subsection \<open>The reconciliation\<close>

lemma forp_mod: "forp (\<lambda>x. db_mod (f x)) xs s = (Inr (), s\<lparr>db := fold f xs (db s)\<rparr>)"
  unfolding forp_def by (induction xs arbitrary: s) (simp_all add: prog_defs)

lemma foldp_mod: "foldp (\<lambda>x n. if P x then ret n else thenp (db_mod (f x)) (ret (Suc n))) xs n s =
    (Inr (n + length (filter (\<lambda>x. \<not> P x) xs)), s\<lparr>db := fold (\<lambda>x d. if P x then d else f x d) xs (db s)\<rparr>)"
  by (induction xs arbitrary: n s) (simp_all add: prog_defs)

lemma steps_mod:
  "bindp (db_get f1) g1 s = g1 (f1 (db s)) s"
  "thenp (db_mod f2) m2 s = m2 (s\<lparr>db := f2 (db s)\<rparr>)"
  "thenp (forp (\<lambda>x. db_mod (f3 x)) xs) m3 s = m3 (s\<lparr>db := fold f3 xs (db s)\<rparr>)"
  "bindp (foldp (\<lambda>x n. if P x then ret n else thenp (db_mod (f4 x)) (ret (Suc n))) ys n) g4 s =
     g4 (n + length (filter (\<lambda>x. \<not> P x) ys)) (s\<lparr>db := fold (\<lambda>x d. if P x then d else f4 x d) ys (db s)\<rparr>)"
  by (simp add: bindp_def db_get_def, simp add: thenp_def bindp_def db_mod_def, simp add: thenp_def bindp_def forp_mod,
      simp add: bindp_def foldp_mod)

lemma fold_assignments: "managerAssignments (fold (\<lambda>x d. managerAssignments_update (g x) d) xs d) = fold g xs (managerAssignments d)"
  by (induction xs arbitrary: d) simp_all

lemma fold_kept: "managerAssignments (fold (\<lambda>x d. if P x then d else managerAssignments_update (g x) d) xs d) =
    fold (\<lambda>x rows. if P x then rows else g x rows) xs (managerAssignments d)"
  by (induction xs arbitrary: d) simp_all

definition reconciled_rows :: "int \<Rightarrow> string \<Rightarrow> string list \<Rightarrow> escrow_db \<Rightarrow> manager_assignment list" where
  "reconciled_rows K c owners d =
     (let O' = normalizedAddresses owners;
          A = set O' \<union> assigned_in (assignment_policy K c (managerAssignments d))
      in fold (keep_legacy K c A) (scope_managers K c d) (fold (upsert_assignment K c SAFE_OWNER (ma_desiredEnabled_update (\<lambda>_. True))) O'
        (update_where (\<lambda>m. in_scope K c m \<and> ma_source m = SAFE_OWNER \<and> ma_desiredEnabled m \<and> ma_address m \<notin> set O')
          (ma_desiredEnabled_update (\<lambda>_. False)) (managerAssignments d))))"

lemma reconcile_run:
  "\<exists>n s'. reconcileSafeOwnerGoalManagerAssignments K c owners s = (Inr n, s') \<and>
     managerAssignments (db s') = reconciled_rows K (to_lower c) owners (db s) \<and>
     chainAuthorities (db s') = chainAuthorities (db s)"
proof -
  have "assigned_in (assignment_policy K (to_lower c) (managerAssignments (db s))) =
      set (map (\<lambda>m. to_lower (ma_address m)) (filter (in_scope K (to_lower c)) (managerAssignments (db s))))"
    by (force simp: assigned_in_def assignment_policy_def)
  moreover have auth: "chainAuthorities (fold (\<lambda>x d. managerAssignments_update (g x) d) xs d) = chainAuthorities d"
    "chainAuthorities (fold (\<lambda>x d. if P x then d else managerAssignments_update (g x) d) xs d) = chainAuthorities d" for g P xs d
    by (induction xs arbitrary: d) simp_all
  ultimately show ?thesis
    unfolding reconcileSafeOwnerGoalManagerAssignments_def Let_def
    by (simp add: steps_mod fold_assignments fold_kept auth reconciled_rows_def Let_def) (simp add: ret_def fold_assignments fold_kept auth)
qed

lemma policy_reconciled:
  fixes K c owners d
  defines "S \<equiv> assignment_policy K c (managerAssignments d)" and "after \<equiv> assignment_policy K c (reconciled_rows K c owners d)" and "O' \<equiv> to_lower ` set owners"
    and "legacy \<equiv> to_lower ` set (scope_managers K c d) - (to_lower ` set owners \<union> assigned_in (assignment_policy K c (managerAssignments d)))"
  shows "enabled_in after = {(x, s) \<in> enabled_in S. s = SAFE_OWNER \<longrightarrow> x \<in> O'} \<union> (\<lambda>x. (x, SAFE_OWNER)) ` O' \<union> (\<lambda>x. (x, MANUAL_ASSIGNMENT)) ` legacy"
    and "assigned_in after = assigned_in S \<union> O' \<union> legacy"
proof -
  define A where "A = set (normalizedAddresses owners) \<union> assigned_in S"
  define r1 where "r1 = update_where (\<lambda>m. in_scope K c m \<and> ma_source m = SAFE_OWNER \<and> ma_desiredEnabled m \<and>
    ma_address m \<notin> set (normalizedAddresses owners)) (ma_desiredEnabled_update (\<lambda>_. False)) (managerAssignments d)"
  define r2 where "r2 = fold (upsert_assignment K c SAFE_OWNER (ma_desiredEnabled_update (\<lambda>_. True))) (normalizedAddresses owners) r1"
  have lower: "to_lower ` O' = O'" by (simp add: O'_def image_image)
  have p1: "assignment_policy K c r1 = (\<lambda>(x, s, e). (x, s, e \<and> (s = SAFE_OWNER \<longrightarrow> x \<in> O'))) ` S"
    unfolding r1_def S_def O'_def policy_disable set_normalized ..
  have e1: "enabled_in (assignment_policy K c r1) = {(x, s) \<in> enabled_in S. s = SAFE_OWNER \<longrightarrow> x \<in> O'}"
    unfolding p1 by (force simp: enabled_in_def)
  have a1: "assigned_in (assignment_policy K c r1) = assigned_in S"
    unfolding p1 assigned_in_def image_image by (rule image_cong) auto
  have e2: "enabled_in (assignment_policy K c r2) = enabled_in (assignment_policy K c r1) \<union> (\<lambda>x. (x, SAFE_OWNER)) ` O'"
    and a2: "assigned_in (assignment_policy K c r2) = assigned_in S \<union> O'"
    unfolding r2_def fold_owners a1 set_normalized using lower by (simp_all add: O'_def image_image)
  have A: "A = O' \<union> assigned_in S" by (simp add: A_def O'_def set_normalized)
  have "fresh_enabled A (assignment_policy K c r2)"
    using a2 assigned_member [of _ _ _ "assignment_policy K c r2"] by (fastforce simp: fresh_enabled_def A)
  from fold_legacy [OF this, of "scope_managers K c d"]
  show "enabled_in after = {(x, s) \<in> enabled_in S. s = SAFE_OWNER \<longrightarrow> x \<in> O'} \<union> (\<lambda>x. (x, SAFE_OWNER)) ` O' \<union> (\<lambda>x. (x, MANUAL_ASSIGNMENT)) ` legacy"
    "assigned_in after = assigned_in S \<union> O' \<union> legacy"
    unfolding after_def reconciled_rows_def Let_def S_def [symmetric] r1_def [symmetric] r2_def [symmetric] A_def [symmetric]
    by (simp_all add: e1 e2 a2 A legacy_def O'_def S_def)
qed

lemma desired_addresses:
  assumes O': "\<And>x. x \<in> O' \<Longrightarrow> to_lower x = x" and L: "\<And>x. x \<in> L \<Longrightarrow> to_lower x = x"
  shows "O' \<union> (\<lambda>(x, s). to_lower x) ` ({(x, s) \<in> E. s = SAFE_OWNER \<longrightarrow> x \<in> O'} \<union> (\<lambda>x. (x, SAFE_OWNER)) ` O' \<union> (\<lambda>x. (x, MANUAL_ASSIGNMENT)) ` L) =
    O' \<union> {to_lower x | x. (x, MANUAL_ASSIGNMENT) \<in> E} \<union> L" (is "?l = ?r")
proof
  show "?l \<subseteq> ?r"
  proof
    fix y assume "y \<in> ?l"
    then consider "y \<in> O'" | x src where "(x, src) \<in> E" "src = SAFE_OWNER \<longrightarrow> x \<in> O'" "y = to_lower x" | x where "x \<in> L" "y = to_lower x"
      using O' by auto
    then show "y \<in> ?r"
    proof cases
      case (2 x src)
      then show ?thesis using O' by (cases src) auto
    qed (use L in auto)
  qed
  show "?r \<subseteq> ?l"
  proof
    fix y assume "y \<in> ?r"
    then consider "y \<in> O'" | x where "(x, MANUAL_ASSIGNMENT) \<in> E" "y = to_lower x" | "y \<in> L" by blast
    then show "y \<in> ?l"
    proof cases
      case (2 x)
      then show ?thesis by - (rule UnI2, rule image_eqI [of _ _ "(x, MANUAL_ASSIGNMENT)"], simp_all)
    next
      case 3
      then show ?thesis using L by - (rule UnI2, rule image_eqI [of _ _ "(y, MANUAL_ASSIGNMENT)"], simp_all)
    qed simp
  qed
qed

text \<open>
  C38: After the assignments have been reconciled with the owners of the Safe, the addresses that are meant to manage
  goals are exactly these: the owners, those with an enabled assignment by hand, and the managers the contract
  already had that no assignment mentioned. So an address that left the Safe loses its place unless it was assigned
  by hand, and no earlier manager is lost when the assignment_policy is introduced.
\<close>

theorem reconciled_goal_managers:
  "case reconcileSafeOwnerGoalManagerAssignments K escrow owners s of (Inl e, s') \<Rightarrow> False | (Inr n, s') \<Rightarrow>
    set (desiredGoalManagerSet owners (scope_managers K (to_lower escrow) (db s'))
        (filter (in_scope K (to_lower escrow)) (managerAssignments (db s')))) =
      to_lower ` set owners \<union>
      to_lower ` ma_address ` {m \<in> set (managerAssignments (db s)). in_scope K (to_lower escrow) m \<and> ma_source m = MANUAL_ASSIGNMENT \<and> ma_desiredEnabled m} \<union>
      {a \<in> to_lower ` set (scope_managers K (to_lower escrow) (db s)).
        a \<notin> to_lower ` ma_address ` {m \<in> set (managerAssignments (db s)). in_scope K (to_lower escrow) m}}"
proof -
  let ?c = "to_lower escrow" and ?S = "assignment_policy K (to_lower escrow) (managerAssignments (db s))"
  obtain n s' where run: "reconcileSafeOwnerGoalManagerAssignments K escrow owners s = (Inr n, s')"
    and rows: "managerAssignments (db s') = reconciled_rows K ?c owners (db s)" and auth: "chainAuthorities (db s') = chainAuthorities (db s)"
    using reconcile_run by blast
  have managers: "scope_managers K ?c (db s') = scope_managers K ?c (db s)" by (simp add: scope_managers_def auth)
  have A: "assigned_in ?S = to_lower ` ma_address ` {m \<in> set (managerAssignments (db s)). in_scope K ?c m}"
    by (force simp: assigned_in_def assignment_policy_def)
  have M: "to_lower ` ma_address ` {m \<in> set (managerAssignments (db s)). in_scope K ?c m \<and> ma_source m = MANUAL_ASSIGNMENT \<and> ma_desiredEnabled m} =
      {to_lower x | x. (x, MANUAL_ASSIGNMENT) \<in> enabled_in ?S}"
    by (force simp: enabled_in_def assignment_policy_def)
  let ?O = "to_lower ` set owners" and ?X = "to_lower ` set (scope_managers K ?c (db s))"
  let ?L = "?X - (?O \<union> assigned_in ?S)"
  have none: "{x \<in> ?X. x \<notin> assigned_in ?S \<union> ?O \<union> ?L} = {}" by blast
  have lower: "x \<in> ?O \<Longrightarrow> to_lower x = x" "x \<in> ?L \<Longrightarrow> to_lower x = x" for x by auto
  have L: "?O \<union> Z \<union> ?L = ?O \<union> Z \<union> {a \<in> ?X. a \<notin> assigned_in ?S}" for Z by blast
  show ?thesis
    unfolding run prod.case sum.case set_desired managers rows policy_reconciled M A [symmetric] none Un_empty_right
    by (rule trans [OF desired_addresses [OF lower] L])
qed

end
