(* ===== verification/Spec2Isabelle.thy ===== *)
theory Spec2Isabelle
  imports Ranking Report_Totals Publication_Facts Capture_Samples Metrics_Samples Safe_Samples Goal_Manager_Facts
begin

text \<open>
  A verification library of the PRE community repository. It has two sides: the keyword market, in which
  wallets stake PRE on keywords, ads are served to the best staked campaign, clicks are billed in PRE, and
  two workers charge the contract and publish the PRE/USD price to it; and the funding escrow, whose
  contract events a worker projects into goals, contributions, periods and payouts.

  \<^bold>\<open>The program.\<close> The API (\<^verbatim>\<open>apps/api/src/ads\<close>) keeps campaigns, creative revisions and reports,
  resolves queries to ads, hands out signed delivery links, captures billed clicks and prepares the
  transactions a wallet signs. The worker (\<^verbatim>\<open>apps/worker/src\<close>) projects the contract's position events
  into tables, charges captured clicks in batches, publishes quotations, and indexes and reconciles the escrow. All of them share one
  PostgreSQL database; the contract is reached through an RPC node. The shared package
  (\<^verbatim>\<open>packages/shared/src\<close>) holds the pure functions of all sides.

  \<^bold>\<open>How code is modelled.\<close> Theory Prelude has the type of programs: a function from a machine state
  (database, process memory, outside world) to an error or a value and the next state, with the
  operations the code uses: awaiting an external call (\<open>extern\<close>), reading and writing tables, throwing,
  catching, loops with \<^verbatim>\<open>continue\<close>, \<^verbatim>\<open>break\<close> and \<^verbatim>\<open>return\<close>, and \<open>transactional\<close> for Prisma's
  \<^verbatim>\<open>$transaction\<close>. Every function of the code is one definition over these, with the code's order of
  reads, writes and guards. Tables are lists of records (theories Ledger and Market, after
  \<^verbatim>\<open>packages/database/prisma/schema.prisma\<close>). What is outside the repository (RPC node, contract,
  clock, keystore, hash functions, Unicode tables, base64url and JSON) is a record of functions
  that a theorem quantifies over. Integers are unbounded as JavaScript's \<^verbatim>\<open>bigint\<close>; the bounds the code
  checks (256-bit words, safe integers, database columns) are written out.

  \<^bold>\<open>Theories.\<close>
  \<^item> Prelude, Decimal, Comparators: programs, Hoare triples (\<open>triple\<close>, \<open>keeps\<close>, \<open>reading\<close>), tables; printing
    and reading decimal texts; JavaScript's sort and the locales \<open>comparison\<close> and \<open>identifying\<close>, which
    the comparators of the code interpret.
  \<^item> Billing (\<^verbatim>\<open>shared/ad-charges.ts\<close>, \<^verbatim>\<open>shared/pre-usd-price.ts\<close>): the exact amount of a click and the
    freshness of a quotation.
  \<^item> Ledger, Wallet, Charges (\<^verbatim>\<open>worker/keyword-market-charges.ts\<close>, \<^verbatim>\<open>keyword-market-wallet.ts\<close>), with
    Charge_Settlement, Samples, Charge_Invariants and Charge_Job: the charge worker and the billing
    invariant, which ties every batch to its clicks.
  \<^item> Publication (\<^verbatim>\<open>worker/pre-usd-price-publication.ts\<close>), Publication_Facts: the price worker; Journals: no
    nonce of a wallet is journalled twice by the two workers together.
  \<^item> Keywords (\<^verbatim>\<open>shared/ads.ts\<close>): normal forms and ranked candidates of a query.
  \<^item> Projection (\<^verbatim>\<open>worker/ads-projection.ts\<close>, \<^verbatim>\<open>ads-chain-source.ts\<close>), Projection_Facts: position
    events, the indexing pass and its checkpoint, reorganisations.
  \<^item> Market, Ranking, Moderation, Moderation_Facts, Moderation_Runs (\<^verbatim>\<open>api/ads/ads.service.ts\<close>): the
    choice of the served ad, bids to lead, campaigns, moderation, reports.
  \<^item> Chain_Adapter, Chain_Adapter_Facts (\<^verbatim>\<open>api/ads/ads-chain.adapter.ts\<close>): the status of the market, the
    position a click is billed at, stake and unstake plans.
  \<^item> Delivery (\<^verbatim>\<open>ads-delivery.ts\<close>, \<^verbatim>\<open>ads-click-billing.ts\<close>), Capture (\<^verbatim>\<open>ads.service.ts\<close> and
    \<^verbatim>\<open>worker/ads-maintenance.ts\<close>), Capture_Facts, Capture_Runs, Delivery_Facts, Capture_Samples: links,
    clicks, billing windows and retention. Report_Totals: the totals of reports over requests and retentions.
  \<^item> Metrics (\<^verbatim>\<open>worker/ads-maintenance.ts\<close>, \<^verbatim>\<open>api/ads/ads-metrics.service.ts\<close>), Metrics_Facts, Metrics_Runs,
    Metrics_Samples: the counters of impressions in Redis, their flush into the tables, and that nothing is counted twice.
  \<^item> Calendar (\<^verbatim>\<open>shared/monthly-schedule.ts\<close>), Ipfs (\<^verbatim>\<open>isValidIpfsUri\<close> of \<^verbatim>\<open>shared/index.ts\<close>): the settlement dates of
    monthly goals, and which addresses of off-chain texts are well formed.
  \<^item> Escrow_Tables, Escrow (\<^verbatim>\<open>worker/event-handlers.ts\<close>), Escrow_Indexer (\<^verbatim>\<open>worker/indexer.ts\<close>,
    \<^verbatim>\<open>escrow-manifest.ts\<close>, \<^verbatim>\<open>database/projection-reset.ts\<close>): the handlers of the escrow's events, the indexing
    pass, the reset after a reorganisation and the reconciliation.
  \<^item> Escrow_Facts: the ledger invariant, which ties the tables to the balance the events moved, and that every
    handler keeps it; Escrow_Runs: logs, redelivery and chunks; Escrow_Reset: the reset, and a chunk of blocks;
    Escrow_Passes: whole passes and the reconciliation against the contract's log; Escrow_Samples: instances.
  \<^item> Safe_Proposals (\<^verbatim>\<open>worker/safe-proposals.ts\<close>, \<^verbatim>\<open>goal-action-sync.ts\<close>, \<^verbatim>\<open>database/safe-payout-intents.ts\<close>),
    Goal_Managers (\<^verbatim>\<open>worker/goal-manager-sync.ts\<close>, \<^verbatim>\<open>database/goal-manager-assignments.ts\<close>): following the proposals of
    the Safe. Safe_Facts: what it leaves alone; Safe_Runs: all jobs of the escrow in any order;
    Goal_Manager_Facts: the desired managers; Safe_Samples: instances.

  \<^bold>\<open>Bounds and fuel.\<close> Loops over arrays are structural. The chunk loop of the indexing pass runs on fuel,
  the number of blocks left, and \<open>index_chunks_cover_the_range\<close> shows that it is enough; the page loop of
  \<open>convert_pages\<close> runs on fuel, the number of clicks plus one, since every page but the last consumes clicks.
  The chunk loop of the escrow runs on the number of blocks left; \<open>index_ranges_at_block\<close> shows that it reaches
  the last block. A variable-length integer of a content identifier has at most ten bytes, as in the code.

  \<^bold>\<open>Hypotheses.\<close> \<open>units_printer\<close>: \<^verbatim>\<open>formatUnits\<close> prints a number that reads back as itself.
  \<open>case_laws\<close> and \<open>quick_check\<close>: lower-casing a text again changes nothing, a text is in lower case when each of its code
  points is, and a text of code points that pass Unicode's quick check is in NFKC.
  \<open>sound_hashes\<close>: the node never answers an empty block hash. \<open>pinned\<close>: a read pinned at a block answers
  from the state of that block. \<open>codec_ok\<close>: base64url, JSON and the digest are faithful on one
  delivery. \<open>inj\<close> of the sequence of UUIDs: \<^verbatim>\<open>randomUUID\<close> does not repeat. \<open>canonical\<close>: the answers to \<^verbatim>\<open>eth_getLogs\<close> during a pass are the ranges of one log of the escrow contract,
  which never repeats a log and names a goal only after its creation. \<open>trusted\<close>: the database of a pass is
  the projection of some log, and of the canonical one when the chain confirms the checkpoint's hash. Each
  is shown to hold for a concrete instance.

  \<^bold>\<open>Simplifications.\<close> A database transaction is one step, and jobs of one queue do not overlap (the queues
  run with concurrency one and take an advisory lock). Columns that no modelled function reads
  (most \<^verbatim>\<open>updatedAt\<close>, \<^verbatim>\<open>captureSource\<close>, \<^verbatim>\<open>priceQuoteId\<close>, and so on) are left out, as are log lines and
  metrics. Of \<^verbatim>\<open>updatedAt\<close> the goals keep the time of creation, which orders the retries of off-chain metadata;
  a retry does not move it. Calendar has no \<^verbatim>\<open>Invalid Date\<close>: the range of JavaScript's dates, 8.64e15 milliseconds around 1970,
  is not modelled. Messages of errors are not modelled, their kinds are. For the counters of impressions the hashes of Redis are part of the
  state, with one clock for all processes; elsewhere Redis is an argument.

  \<^bold>\<open>Not modelled.\<close> The collection of quotations of the worker; the JSON schema of off-chain metadata, which is an argument of the indexer, and the summary the manifest check
  returns; the community, forum, funding, admin, authentication and Safe services of the API, the web
  application, operations scripts, generated ABIs and migrations.
\<close>

end
